(* ===== verification/Prelude.thy ===== *)
theory Prelude
  imports Main "HOL-Library.Char_ord" "HOL-Library.List_Lexorder" "HOL-Library.Sublist"
begin

text \<open>
  Shared vocabulary of the development: the exceptions the code raises as values, the result
  type of a fallible operation with its sequencing combinators, and generic lemmas on
  association lists (the model of an insertion-ordered Python dict) that every component uses.
  The collection \<open>res_simps\<close> gathers the laws of the result type.
\<close>

named_theorems res_simps

section \<open>Exceptions and results\<close>

text \<open>
  One constructor per exception class that the modelled code raises
  (\<open>agent_libos/models/exceptions.py\<close> and the builtin classes). Each carries the message, cut to
  its fixed text where the code interpolates a \<open>repr\<close> of an arbitrary object. \<open>Diverges\<close> is not an
  exception: it is the outcome of a loop that never returns.
\<close>

datatype exn =
    ValidationError string
  | CapabilityDenied string
  | HumanApprovalRequired string
  | NotFound string
  | ProcessError string
  | ProcessRevisionConflict string
  | ResourceLimitExceeded string
  | ValueError string
  | PyTypeError string
  | PyRuntimeError string
  | PyOverflowError string
  | SemanticTripDeferred string
  | Diverges

type_synonym 'a res = "exn + 'a"

fun bindR :: "'a res \<Rightarrow> ('a \<Rightarrow> 'b res) \<Rightarrow> 'b res" where
  "bindR (Inl e) f = Inl e"
| "bindR (Inr x) f = f x"

text \<open>A guard of the source: \<open>if not c: raise e\<close>.\<close>

definition check :: "bool \<Rightarrow> exn \<Rightarrow> unit res" where
  "check c e = (if c then Inr () else Inl e)"

fun mapR :: "('a \<Rightarrow> 'b res) \<Rightarrow> 'a list \<Rightarrow> 'b list res" where
  "mapR f [] = Inr []"
| "mapR f (x # xs) = bindR (f x) (\<lambda>y. bindR (mapR f xs) (\<lambda>ys. Inr (y # ys)))"

fun filterR :: "('a \<Rightarrow> bool res) \<Rightarrow> 'a list \<Rightarrow> 'a list res" where
  "filterR f [] = Inr []"
| "filterR f (x # xs) = bindR (f x) (\<lambda>b. bindR (filterR f xs) (\<lambda>ys. Inr (if b then x # ys else ys)))"

lemma bindR_cong [fundef_cong]:
  "r = r' \<Longrightarrow> (\<And>x. r' = Inr x \<Longrightarrow> f x = g x) \<Longrightarrow> bindR r f = bindR r' g"
  by (cases r) auto

lemma mapR_cong [fundef_cong]:
  "xs = ys \<Longrightarrow> (\<And>x. x \<in> set ys \<Longrightarrow> f x = g x) \<Longrightarrow> mapR f xs = mapR g ys"
  by (induction xs arbitrary: ys) (auto cong: bindR_cong)

definition is_ok :: "'a res \<Rightarrow> bool" where
  "is_ok r = (case r of Inl _ \<Rightarrow> False | Inr _ \<Rightarrow> True)"

lemma bindR_Inr_iff [res_simps]: "bindR r f = Inr y \<longleftrightarrow> (\<exists>x. r = Inr x \<and> f x = Inr y)"
  by (cases r) auto

lemma bindR_Inl_iff [res_simps]:
  "bindR r f = Inl e \<longleftrightarrow> r = Inl e \<or> (\<exists>x. r = Inr x \<and> f x = Inl e)"
  by (cases r) auto

lemma check_Inr_iff [res_simps, simp]: "check c e = Inr u \<longleftrightarrow> c"
  by (simp add: check_def)

lemma check_Inl_iff [res_simps, simp]: "check c e = Inl e' \<longleftrightarrow> \<not> c \<and> e' = e"
  by (auto simp: check_def)

lemma check_True [simp]: "check True e = Inr ()"
  by (simp add: check_def)

lemma check_False [simp]: "check False e = Inl e"
  by (simp add: check_def)

lemma bindR_check [res_simps]: "bindR (check c e) f = (if c then f () else Inl e)"
  by (simp add: check_def)

lemma is_ok_simps [simp]: "is_ok (Inr x)" "\<not> is_ok (Inl e)"
  by (simp_all add: is_ok_def)

lemma is_ok_iff: "is_ok r \<longleftrightarrow> (\<exists>x. r = Inr x)"
  by (cases r) auto

lemma mapR_Inr_length: "mapR f xs = Inr ys \<Longrightarrow> length ys = length xs"
  by (induction xs arbitrary: ys) (auto simp: res_simps)

lemma mapR_Inr_set:
  "mapR f xs = Inr ys \<Longrightarrow> y \<in> set ys \<Longrightarrow> \<exists>x \<in> set xs. f x = Inr y"
  by (induction xs arbitrary: ys) (auto simp: res_simps)

lemma mapR_Inr_map: "(\<And>x. x \<in> set xs \<Longrightarrow> f x = Inr (g x)) \<Longrightarrow> mapR f xs = Inr (map g xs)"
  by (induction xs) auto

lemma mapR_map: "mapR f (map g xs) = mapR (\<lambda>x. f (g x)) xs"
  by (induction xs) auto

lemma filterR_ok: "(\<And>x. x \<in> set xs \<Longrightarrow> f x = Inr (P x)) \<Longrightarrow> filterR f xs = Inr (filter P xs)"
  by (induction xs) auto

lemma filterR_Inr_set: "filterR f xs = Inr ys \<Longrightarrow> y \<in> set ys \<longleftrightarrow> y \<in> set xs \<and> f y = Inr True"
  by (induction xs arbitrary: ys) (auto simp: res_simps split: if_splits)

section \<open>Insertion-ordered dictionaries\<close>

text \<open>
  A Python dict keeps insertion order; storing at a present key keeps the key's place. The model
  is an association list read by \<open>map_of\<close>, written by \<open>dset\<close>.
\<close>

fun dset :: "('k \<times> 'v) list \<Rightarrow> 'k \<Rightarrow> 'v \<Rightarrow> ('k \<times> 'v) list" where
  "dset [] k v = [(k, v)]"
| "dset ((k', v') # d) k v = (if k' = k then (k, v) # d else (k', v') # dset d k v)"

definition dpop :: "('k \<times> 'v) list \<Rightarrow> 'k \<Rightarrow> ('k \<times> 'v) list" where
  "dpop d k = filter (\<lambda>p. fst p \<noteq> k) d"

definition dkeys :: "('k \<times> 'v) list \<Rightarrow> 'k list" where
  "dkeys d = map fst d"

text \<open>\<open>dict.setdefault\<close>.\<close>

definition dsetdefault :: "('k \<times> 'v) list \<Rightarrow> 'k \<Rightarrow> 'v \<Rightarrow> ('k \<times> 'v) list" where
  "dsetdefault d k v = (case map_of d k of None \<Rightarrow> dset d k v | Some _ \<Rightarrow> d)"

lemma map_of_dset [simp]: "map_of (dset d k v) = (map_of d)(k \<mapsto> v)"
  by (induction d k v rule: dset.induct) auto

lemma map_of_dpop [simp]: "map_of (dpop d k) = (map_of d)(k := None)"
  by (induction d) (auto simp: dpop_def)

lemma map_of_dsetdefault:
  "map_of (dsetdefault d k v) = (case map_of d k of None \<Rightarrow> (map_of d)(k \<mapsto> v) | Some _ \<Rightarrow> map_of d)"
  by (simp add: dsetdefault_def split: option.split)

lemma dkeys_dset: "set (dkeys (dset d k v)) = insert k (set (dkeys d))"
  by (induction d k v rule: dset.induct) (auto simp: dkeys_def)

lemma distinct_dset: "distinct (dkeys d) \<Longrightarrow> distinct (dkeys (dset d k v))"
proof (induction d k v rule: dset.induct)
  case (1 k v)
  then show ?case by (simp add: dkeys_def)
next
  case (2 k' v' d k v)
  then show ?case using dkeys_dset [of d k v] by (auto simp: dkeys_def)
qed

lemma map_of_filter_key: "map_of (filter (\<lambda>p. P (fst p)) d) k = (if P k then map_of d k else None)"
  by (induction d) auto

lemma find_Some_iff_ex: "(\<exists>x. List.find P xs = Some x) \<longleftrightarrow> (\<exists>x \<in> set xs. P x)"
  by (induction xs) auto

lemma find_SomeD: "List.find P xs = Some x \<Longrightarrow> x \<in> set xs \<and> P x"
  by (induction xs) (auto split: if_splits)

lemma find_NoneD: "List.find P xs = None \<Longrightarrow> x \<in> set xs \<Longrightarrow> \<not> P x"
  by (induction xs) (auto split: if_splits)

end
