(* ===== verification/PyStr.thy ===== *)
theory PyStr
  imports Prelude
begin

text \<open>
  The string operations of Python that the modelled code uses. A Python string is a list of
  characters; a HOL \<open>char\<close> stands for the Unicode code point of the same number, so the model
  covers the strings whose code points lie below 256.
\<close>

section \<open>White space and stripping\<close>

definition code :: "char \<Rightarrow> nat" where
  "code c = of_char c"

text \<open>\<open>str.isspace\<close> of a code point below 256.\<close>

definition py_isspace :: "char \<Rightarrow> bool" where
  "py_isspace c \<longleftrightarrow> (let n = code c in
     (9 \<le> n \<and> n \<le> 13) \<or> (28 \<le> n \<and> n \<le> 32) \<or> n = 133 \<or> n = 160)"

definition rstrip_by :: "(char \<Rightarrow> bool) \<Rightarrow> string \<Rightarrow> string" where
  "rstrip_by p s = rev (dropWhile p (rev s))"

definition strip :: "string \<Rightarrow> string" where
  "strip s = rstrip_by py_isspace (dropWhile py_isspace s)"

definition startswith :: "string \<Rightarrow> string \<Rightarrow> bool" where
  "startswith s p \<longleftrightarrow> take (length p) s = p"

definition endswith :: "string \<Rightarrow> string \<Rightarrow> bool" where
  "endswith s p \<longleftrightarrow> length p \<le> length s \<and> drop (length s - length p) s = p"

text \<open>\<open>needle in s\<close>.\<close>

fun contains :: "string \<Rightarrow> string \<Rightarrow> bool" where
  "contains needle [] = (needle = [])"
| "contains needle (c # s) = (startswith (c # s) needle \<or> contains needle s)"

text \<open>\<open>s.replace(old, new)\<close>: left to right, matches do not overlap.\<close>

function py_replace :: "string \<Rightarrow> string \<Rightarrow> string \<Rightarrow> string" where
  "py_replace old new s =
     (if old = [] then new @ concat (map (\<lambda>c. c # new) s)
      else case s of
             [] \<Rightarrow> []
           | c # r \<Rightarrow> if startswith s old then new @ py_replace old new (drop (length old) s)
                      else c # py_replace old new r)"
  by pat_completeness auto
termination
  by (relation "measure (\<lambda>(old, new, s). length s)") auto

declare py_replace.simps [simp del]

text \<open>\<open>s.split(sep, 1)\<close> on a one-character separator that occurs in \<open>s\<close>.\<close>

definition split1 :: "char \<Rightarrow> string \<Rightarrow> string \<times> string" where
  "split1 sep s = (takeWhile (\<lambda>c. c \<noteq> sep) s, drop 1 (dropWhile (\<lambda>c. c \<noteq> sep) s))"

text \<open>\<open>s.split(sep)\<close>.\<close>

fun splitall :: "char \<Rightarrow> string \<Rightarrow> string list" where
  "splitall sep [] = [[]]"
| "splitall sep (c # s) =
     (if c = sep then [] # splitall sep s
      else case splitall sep s of [] \<Rightarrow> [[c]] | w # ws \<Rightarrow> (c # w) # ws)"

fun join :: "string \<Rightarrow> string list \<Rightarrow> string" where
  "join sep [] = []"
| "join sep [w] = w"
| "join sep (w # ws) = w @ sep @ join sep ws"

section \<open>Decimal rendering\<close>

fun show_nat :: "nat \<Rightarrow> string" where
  "show_nat n = (if n < 10 then [char_of (48 + n)] else show_nat (n div 10) @ [char_of (48 + n mod 10)])"

declare show_nat.simps [simp del]

definition show_int :: "int \<Rightarrow> string" where
  "show_int i = (if i < 0 then CHR ''-'' # show_nat (nat (- i)) else show_nat (nat i))"

section \<open>Lower case and digits\<close>

text \<open>
  \<open>str.casefold\<close> on code points below 256, but for the micro sign U+00B5, whose folding lies
  outside the range and is left alone here.
\<close>

definition casefold_char :: "char \<Rightarrow> string" where
  "casefold_char c = (let n = code c in
     if (65 \<le> n \<and> n \<le> 90) \<or> (192 \<le> n \<and> n \<le> 222 \<and> n \<noteq> 215) then [char_of (n + 32)]
     else if n = 223 then ''ss'' else [c])"

definition casefold :: "string \<Rightarrow> string" where
  "casefold s = concat (map casefold_char s)"

text \<open>\<open>str.lower\<close> on code points below 256.\<close>

definition lower_char :: "char \<Rightarrow> char" where
  "lower_char c = (let n = code c in
     if (65 \<le> n \<and> n \<le> 90) \<or> (192 \<le> n \<and> n \<le> 222 \<and> n \<noteq> 215) then char_of (n + 32) else c)"

definition py_lower :: "string \<Rightarrow> string" where
  "py_lower s = map lower_char s"

definition is_lower_hex :: "char \<Rightarrow> bool" where
  "is_lower_hex c \<longleftrightarrow> (let n = code c in (48 \<le> n \<and> n \<le> 57) \<or> (97 \<le> n \<and> n \<le> 102))"

text \<open>A full match of \<open>[0-9a-f]{64}\<close>.\<close>

definition is_sha256_hex :: "string \<Rightarrow> bool" where
  "is_sha256_hex s \<longleftrightarrow> length s = 64 \<and> list_all is_lower_hex s"

text \<open>The number of bytes of the UTF-8 encoding.\<close>

definition utf8_length :: "string \<Rightarrow> nat" where
  "utf8_length s = sum_list (map (\<lambda>c. if code c < 128 then 1 else 2) s)"

section \<open>Lemmas\<close>

lemma startswith_iff_prefix: "startswith s p \<longleftrightarrow> prefix p s"
  by (auto simp: startswith_def prefix_def) (metis append_take_drop_id)

lemma endswith_iff_suffix: "endswith s p \<longleftrightarrow> suffix p s"
proof
  assume "endswith s p"
  then have "s = take (length s - length p) s @ p"
    by (auto simp: endswith_def) (metis append_take_drop_id)
  then show "suffix p s" by (metis suffixI)
qed (auto simp: endswith_def suffix_def)

lemma contains_iff_sublist: "contains p s \<longleftrightarrow> sublist p s"
  by (induction s) (auto simp: startswith_iff_prefix sublist_Cons_right)

lemma contains_char: "contains [c] s \<longleftrightarrow> c \<in> set s"
  by (induction s) (auto simp: startswith_def)

lemma startswith_append [simp]: "startswith (p @ s) p"
  by (simp add: startswith_def)

lemma startswith_trans: "startswith s p \<Longrightarrow> startswith p q \<Longrightarrow> startswith s q"
  using prefix_order.trans by (auto simp: startswith_iff_prefix)

lemma split1_join: "sep \<in> set s \<Longrightarrow> split1 sep s = (a, b) \<Longrightarrow> s = a @ sep # b \<and> sep \<notin> set a"
proof -
  assume sep: "sep \<in> set s" and sp: "split1 sep s = (a, b)"
  have ne: "dropWhile (\<lambda>c. c \<noteq> sep) s \<noteq> []"
    using sep by (auto simp: dropWhile_eq_Nil_conv)
  moreover have "hd (dropWhile (\<lambda>c. c \<noteq> sep) s) = sep"
    using hd_dropWhile [OF ne] by simp
  ultimately have "dropWhile (\<lambda>c. c \<noteq> sep) s = sep # b"
    using sp by (cases "dropWhile (\<lambda>c. c \<noteq> sep) s") (auto simp: split1_def)
  moreover have "sep \<notin> set a"
    using sp by (auto simp: split1_def dest: set_takeWhileD)
  ultimately show ?thesis
    using sp takeWhile_dropWhile_id [of "\<lambda>c. c \<noteq> sep" s] by (auto simp: split1_def)
qed

lemma split1_append: "sep \<notin> set a \<Longrightarrow> split1 sep (a @ sep # b) = (a, b)"
  by (auto simp: split1_def takeWhile_append dropWhile_append)

lemma strip_subset: "set (strip s) \<subseteq> set s"
  by (auto simp: strip_def rstrip_by_def dest!: set_dropWhileD)

lemma dropWhile_rev_id: "s = [] \<or> \<not> p (last s) \<Longrightarrow> rstrip_by p s = s"
  by (cases s rule: rev_cases) (auto simp: rstrip_by_def)

lemma rstrip_by_last: "rstrip_by p s = [] \<or> \<not> p (last (rstrip_by p s))"
proof -
  have "dropWhile p (rev s) = [] \<or> \<not> p (hd (dropWhile p (rev s)))"
    using hd_dropWhile by blast
  then show ?thesis by (auto simp: rstrip_by_def last_rev)
qed

lemma rstrip_by_idem [simp]: "rstrip_by p (rstrip_by p s) = rstrip_by p s"
  using dropWhile_rev_id rstrip_by_last by blast

lemma rstrip_by_Nil [simp]: "rstrip_by p [] = []"
  by (simp add: rstrip_by_def)

lemma rstrip_by_prefix: "prefix (rstrip_by p s) s"
proof -
  have "suffix (dropWhile p (rev s)) (rev s)" by (rule suffix_dropWhile)
  then show ?thesis by (simp add: rstrip_by_def suffix_to_prefix)
qed

lemma strip_hd: "strip s = [] \<or> \<not> py_isspace (hd (strip s))"
proof (cases "strip s = []")
  case False
  let ?l = "dropWhile py_isspace s"
  have pre: "prefix (strip s) ?l" by (simp add: strip_def rstrip_by_prefix)
  have ne: "?l \<noteq> []"
    using False by (auto simp: strip_def simp del: dropWhile_eq_Nil_conv)
  have "hd (strip s) = hd ?l"
    using pre False by (cases "strip s") (auto simp: prefix_def)
  then show ?thesis using hd_dropWhile [OF ne] by simp
qed simp

lemma strip_idem [simp]: "strip (strip s) = strip s"
proof -
  have "dropWhile py_isspace (strip s) = strip s"
    using strip_hd [of s] by (cases "strip s") auto
  then show ?thesis by (simp add: strip_def)
qed

lemma py_replace_Nil: "old \<noteq> [] \<Longrightarrow> py_replace old new [] = []"
  by (simp add: py_replace.simps)

lemma py_replace_Cons:
  "old \<noteq> [] \<Longrightarrow> py_replace old new (c # r) =
     (if startswith (c # r) old then new @ py_replace old new (drop (length old) (c # r))
      else c # py_replace old new r)"
  by (simp add: py_replace.simps [of old new "c # r"])

section \<open>Evaluation\<close>

text \<open>
  Code equations on the bits of a character, so that closed terms evaluate without unary numbers.
\<close>

lemma code_Char: "code (Char b0 b1 b2 b3 b4 b5 b6 b7) = of_bool b0 + 2 * of_bool b1 + 4 * of_bool b2 + 8 * of_bool b3
   + 16 * of_bool b4 + 32 * of_bool b5 + 64 * of_bool b6 + 128 * of_bool b7"
  by (simp add: code_def)

lemma code_ascii: "code c < 128 \<longleftrightarrow> \<not> digit7 c"
  by (cases c) (simp add: code_Char split: split_of_bool)

lemma code_printable: "32 \<le> code c \<longleftrightarrow> digit5 c \<or> digit6 c \<or> digit7 c"
  by (cases c) (simp add: code_Char split: split_of_bool)

lemma code_126: "code c \<le> 126 \<longleftrightarrow> \<not> digit7 c \<and> c \<noteq> CHR 0x7F"
  by (cases c) (auto simp add: code_Char split: split_of_bool)

lemma code_inject: "code c = code d \<longleftrightarrow> c = d"
  by (simp add: code_def)

lemma code_member: "code c \<in> code ` A \<longleftrightarrow> c \<in> A"
  using code_inject by auto

lemma code_interval: "a \<le> n \<and> n \<le> b \<longleftrightarrow> n \<in> set [a..<Suc b]"
  by auto

lemma py_isspace_code [code]:
  "py_isspace c \<longleftrightarrow> c \<in> set [CHR 0x09, CHR 0x0A, CHR 0x0B, CHR 0x0C, CHR 0x0D, CHR 0x1C, CHR 0x1D,
     CHR 0x1E, CHR 0x1F, CHR 0x20, CHR 0x85, CHR 0xA0]" (is "_ \<longleftrightarrow> c \<in> ?A")
proof -
  have "code ` ?A = {9, 10, 11, 12, 13, 28, 29, 30, 31, 32, 133, 160}" by (simp add: code_Char)
  moreover have "py_isspace c \<longleftrightarrow> code c \<in> {9, 10, 11, 12, 13, 28, 29, 30, 31, 32, 133, 160}"
    unfolding py_isspace_def Let_def by (simp, presburger)
  ultimately show ?thesis by (metis code_member)
qed

lemma is_lower_hex_code [code]: "is_lower_hex c \<longleftrightarrow> c \<in> set ''0123456789abcdef''" (is "_ \<longleftrightarrow> c \<in> ?A")
proof -
  have "code ` ?A = {48, 49, 50, 51, 52, 53, 54, 55, 56, 57, 97, 98, 99, 100, 101, 102}"
    by (simp add: code_Char)
  moreover have "is_lower_hex c \<longleftrightarrow> code c \<in> {48, 49, 50, 51, 52, 53, 54, 55, 56, 57, 97, 98, 99, 100, 101, 102}"
    unfolding is_lower_hex_def Let_def by (simp, presburger)
  ultimately show ?thesis by (metis code_member)
qed

lemma utf8_length_code [code]: "utf8_length s = sum_list (map (\<lambda>c. if digit7 c then 2 else 1) s)"
  by (auto simp: utf8_length_def code_ascii intro!: arg_cong [where f = sum_list])

end
