(* ===== verification/Resources.thy ===== *)
theory Resources
  imports PyStr
begin

text \<open>
  \<open>ResourceAuthority\<close> of \<open>agent_libos/capability/resources.py\<close>: the canonical form of a typed
  resource string, its parser and the matcher that decides whether a granted pattern reaches a
  requested resource. The lemmas show what a match means on the text of the two resources (a
  grant never reaches an adjacent name), that a pattern covers itself, and when the attenuation
  test \<open>covers\<close> is sound for matching.
\<close>

section \<open>The code\<close>

datatype resource_scope = Exact | Subtree | Prefix | Global

record resource_pattern =
  rp_raw :: string
  rp_kind :: string
  rp_body :: string
  rp_scope :: resource_scope

text \<open>\<open>while "//" in raw: raw = raw.replace("//", "/")\<close>\<close>

lemma py_replace_shorter:
  assumes "length new < length old"
  shows "length (py_replace old new s) \<le> length s \<and>
    (contains old s \<longrightarrow> length (py_replace old new s) < length s)"
proof -
  from assms have ne: "old \<noteq> []" by auto
  show ?thesis
  proof (induction s rule: length_induct)
    case (1 s)
    show ?case
    proof (cases s)
      case Nil
      then show ?thesis using ne by (simp add: py_replace_Nil)
    next
      case (Cons c r)
      show ?thesis
      proof (cases "startswith (c # r) old")
        case True
        then have le: "length old \<le> length s"
          using Cons by (metis startswith_iff_prefix prefix_length_le)
        let ?d = "drop (length old) (c # r)"
        have "length ?d < length s"
          using le ne Cons by (cases old) auto
        with 1 have "length (py_replace old new ?d) \<le> length ?d"
          by blast
        then show ?thesis using True Cons ne le assms by (auto simp: py_replace_Cons)
      next
        case False
        then show ?thesis using 1 ne Cons by (simp add: py_replace_Cons)
      qed
    qed
  qed
qed

function collapse :: "string \<Rightarrow> string" where
  "collapse raw = (if contains ''//'' raw then collapse (py_replace ''//'' ''/'' raw) else raw)"
  by pat_completeness auto
termination
  by (relation "measure length") (auto simp: py_replace_shorter)

declare collapse.simps [simp del]

definition canonical :: "string \<Rightarrow> string" where
  "canonical resource =
     (let raw = collapse (strip resource)
      in if endswith raw ''/'' \<and> \<not> endswith raw '':/'' then rstrip_by (\<lambda>c. c = CHR ''/'') raw else raw)"

text \<open>Python's \<open>s[:-2]\<close>.\<close>

definition drop_last2 :: "string \<Rightarrow> string" where
  "drop_last2 s = take (length s - 2) s"

definition parse :: "string \<Rightarrow> bool \<Rightarrow> resource_pattern res" where
  "parse resource requested =
     (let raw = canonical resource in
      if raw = ''*'' then
        Inl (CapabilityDenied ''capability resources must be typed; use '<kind>:*' instead of global '*' '')
      else if CHR ''*'' \<in> set raw \<and> \<not> (endswith raw '':*'' \<or> endswith raw ''/*'') then
        Inl (CapabilityDenied (''resource wildcard must be terminal and canonical: '' @ resource))
      else if CHR '':'' \<notin> set raw then
        Inl (CapabilityDenied (''resource must be typed: '' @ resource))
      else
        let (kind, body) = split1 (CHR '':'') raw in
        if kind = [] \<or> body = [] then
          Inl (CapabilityDenied (''resource must be typed: '' @ resource))
        else if endswith raw '':*'' then
          (if requested \<and> raw \<noteq> resource then
             Inl (CapabilityDenied (''requested resource is not canonical: '' @ resource))
           else Inr \<lparr>rp_raw = raw, rp_kind = kind, rp_body = drop_last2 body, rp_scope = Prefix\<rparr>)
        else if endswith raw ''/*'' then
          Inr \<lparr>rp_raw = raw, rp_kind = kind,
               rp_body = rstrip_by (\<lambda>c. c = CHR ''/'') (drop_last2 body), rp_scope = Subtree\<rparr>
        else Inr \<lparr>rp_raw = raw, rp_kind = kind, rp_body = body, rp_scope = Exact\<rparr>)"

text \<open>The comparison of two parsed resources, the body of \<open>matches\<close> after its \<open>try\<close>.\<close>

definition pattern_matches :: "resource_pattern \<Rightarrow> resource_pattern \<Rightarrow> bool" where
  "pattern_matches pattern request =
     (if rp_kind pattern \<noteq> rp_kind request then False
      else case rp_scope pattern of
        Exact \<Rightarrow> rp_raw pattern = rp_raw request
      | Prefix \<Rightarrow>
          if rp_body pattern = [] then startswith (rp_raw request) (rp_kind pattern @ '':'')
          else startswith (rp_raw request) (rp_kind pattern @ '':'' @ rp_body pattern @ '':'')
               \<or> rp_raw request = rp_kind pattern @ '':'' @ rp_body pattern
      | Subtree \<Rightarrow>
          rp_body request = rp_body pattern
          \<or> startswith (rp_body request) (rp_body pattern @ ''/'')
      | Global \<Rightarrow> False)"

definition matches :: "string \<Rightarrow> string \<Rightarrow> bool" where
  "matches granted requested =
     (case parse granted False of
        Inl _ \<Rightarrow> False
      | Inr pattern \<Rightarrow>
          (case parse requested True of
             Inl _ \<Rightarrow> False
           | Inr request \<Rightarrow> pattern_matches pattern request))"

definition covers :: "string \<Rightarrow> string \<Rightarrow> bool" where
  "covers granted requested_pattern =
     (case parse requested_pattern False of
        Inl _ \<Rightarrow> False
      | Inr requested \<Rightarrow> matches granted (rp_raw requested))"

section \<open>Canonical forms\<close>

lemma collapse_no_double: "\<not> contains ''//'' (collapse s)"
proof (induction s rule: collapse.induct)
  case (1 raw)
  then show ?case by (simp add: collapse.simps [of raw])
qed

lemma collapse_id: "\<not> contains ''//'' s \<Longrightarrow> collapse s = s"
  by (simp add: collapse.simps)

lemma contains_prefix: "contains p s \<Longrightarrow> prefix s t \<Longrightarrow> contains p t"
  by (auto simp: contains_iff_sublist prefix_def sublist_append)

lemma canonical_no_double: "\<not> contains ''//'' (canonical s)"
  using collapse_no_double [of "strip s"] rstrip_by_prefix [of "\<lambda>c. c = CHR ''/''" "collapse (strip s)"]
  by (auto simp: canonical_def Let_def dest: contains_prefix)

lemma endswith_last: "endswith s [c] \<longleftrightarrow> s \<noteq> [] \<and> last s = c"
  by (cases s rule: rev_cases) (auto simp: endswith_def)

lemma canonical_trailing: "endswith (canonical s) ''/'' \<Longrightarrow> endswith (canonical s) '':/''"
proof -
  let ?r = "collapse (strip s)"
  assume e: "endswith (canonical s) ''/''"
  show ?thesis
  proof (cases "endswith ?r ''/'' \<and> \<not> endswith ?r '':/''")
    case True
    then have "canonical s = rstrip_by (\<lambda>c. c = CHR ''/'') ?r" by (simp add: canonical_def)
    then show ?thesis
      using rstrip_by_last [of "\<lambda>c. c = CHR ''/''" ?r] e by (auto simp: endswith_last)
  next
    case False
    then show ?thesis using e by (auto simp: canonical_def Let_def)
  qed
qed

text \<open>Canonicalisation is a projection, but for a space left in front of a stripped final slash.\<close>

lemma canonical_idem: "strip (canonical s) = canonical s \<Longrightarrow> canonical (canonical s) = canonical s"
  using canonical_no_double [of s] canonical_trailing [of s]
  by (auto simp: canonical_def [of "canonical s"] collapse_id Let_def)


section \<open>What a parsed pattern says about its text\<close>

lemma drop_last2_append: "length t = 2 \<Longrightarrow> drop_last2 (s @ t) = s"
  by (simp add: drop_last2_def)

lemma endswith_split2: "endswith s [a, b] \<Longrightarrow> \<exists>t. s = t @ [a, b]"
  by (auto simp: endswith_iff_suffix suffix_def)

lemma parse_raw: "parse r b = Inr p \<Longrightarrow> rp_raw p = canonical r"
  by (auto simp: parse_def Let_def split: prod.splits if_splits)

lemma parse_shape:
  assumes "parse r b = Inr p" "split1 (CHR '':'') (canonical r) = (k, body)"
  shows "rp_kind p = k \<and> k \<noteq> [] \<and> body \<noteq> [] \<and> CHR '':'' \<in> set (canonical r) \<and>
    (rp_scope p = Exact \<and> rp_body p = body \<and> CHR ''*'' \<notin> set (canonical r)
     \<or> rp_scope p = Prefix \<and> rp_body p = drop_last2 body \<and> endswith (canonical r) '':*''
     \<or> rp_scope p = Subtree \<and> rp_body p = rstrip_by (\<lambda>c. c = CHR ''/'') (drop_last2 body)
       \<and> endswith (canonical r) ''/*'')"
  using assms by (auto simp: parse_def Let_def split: if_splits)

lemma parse_typed:
  assumes "parse r b = Inr p"
  obtains body where "canonical r = rp_kind p @ '':'' @ body" "CHR '':'' \<notin> set (rp_kind p)"
    "rp_kind p \<noteq> []" "body \<noteq> []" "split1 (CHR '':'') (canonical r) = (rp_kind p, body)"
proof -
  obtain k body where sp: "split1 (CHR '':'') (canonical r) = (k, body)" by fastforce
  have colon: "CHR '':'' \<in> set (canonical r)" and k: "rp_kind p = k" "k \<noteq> []" "body \<noteq> []"
    using parse_shape [OF assms sp] by auto
  then show ?thesis using that [of body] split1_join [OF colon sp] sp by simp
qed

lemma parse_Exact:
  assumes "parse r b = Inr p" "rp_scope p = Exact"
  shows "canonical r = rp_kind p @ '':'' @ rp_body p" "CHR ''*'' \<notin> set (canonical r)"
proof -
  obtain body where body: "canonical r = rp_kind p @ '':'' @ body"
    "split1 (CHR '':'') (canonical r) = (rp_kind p, body)"
    using parse_typed [OF assms(1)] by metis
  then have "rp_body p = body" "CHR ''*'' \<notin> set (canonical r)"
    using parse_shape [OF assms(1) body(2)] assms(2) by auto
  with body show "canonical r = rp_kind p @ '':'' @ rp_body p" "CHR ''*'' \<notin> set (canonical r)"
    by simp_all
qed

lemma parse_Prefix:
  assumes "parse r b = Inr p" "rp_scope p = Prefix"
  shows "rp_body p \<noteq> [] \<and> canonical r = rp_kind p @ '':'' @ rp_body p @ '':*''
    \<or> rp_body p = [] \<and> (canonical r = rp_kind p @ '':*'' \<or> canonical r = rp_kind p @ ''::*'')"
proof -
  obtain body where body: "canonical r = rp_kind p @ '':'' @ body" "body \<noteq> []"
    "split1 (CHR '':'') (canonical r) = (rp_kind p, body)"
    using parse_typed [OF assms(1)] by metis
  have b: "rp_body p = drop_last2 body" and e: "endswith (canonical r) '':*''"
    using parse_shape [OF assms(1) body(3)] assms(2) by auto
  obtain t where t: "canonical r = t @ '':*''" using endswith_split2 [OF e] by auto
  show ?thesis
  proof (cases "length body = 1")
    case True
    then obtain c where c: "body = [c]" by (metis length_Suc_conv length_0_conv One_nat_def)
    then have "c = CHR ''*''" using t body(1) by simp
    then show ?thesis using b body(1) c by (simp add: drop_last2_def)
  next
    case False
    then have "2 \<le> length body" using body(2) by (cases body) (auto simp: Suc_le_eq)
    then obtain u v where uv: "body = u @ v" "length v = 2"
      by (metis append_take_drop_id diff_diff_cancel length_drop)
    then have "(rp_kind p @ '':'' @ u) @ v = t @ '':*''" using t body(1) by simp
    then have "v = '':*''"
      using uv(2) append_eq_append_conv [of "rp_kind p @ '':'' @ u" t v "'':*''"] by simp
    then show ?thesis using uv b body(1) by (auto simp: drop_last2_def)
  qed
qed

lemma parse_Subtree:
  assumes "parse r b = Inr p" "rp_scope p = Subtree"
  shows "canonical r = rp_kind p @ '':'' @ rp_body p @ ''/*''"
proof -
  obtain body where body: "canonical r = rp_kind p @ '':'' @ body" "body \<noteq> []"
    "split1 (CHR '':'') (canonical r) = (rp_kind p, body)"
    using parse_typed [OF assms(1)] by metis
  have b: "rp_body p = rstrip_by (\<lambda>c. c = CHR ''/'') (drop_last2 body)"
    and e: "endswith (canonical r) ''/*''"
    using parse_shape [OF assms(1) body(3)] assms(2) by auto
  obtain t where t: "canonical r = t @ ''/*''" using endswith_split2 [OF e] by auto
  have "length body \<noteq> 1"
  proof
    assume "length body = 1"
    then obtain c where "body = [c]" by (metis length_Suc_conv length_0_conv One_nat_def)
    then show False using t body(1) by simp
  qed
  then have "2 \<le> length body" using body(2) by (cases body) (auto simp: Suc_le_eq)
  then obtain u v where uv: "body = u @ v" "length v = 2"
    by (metis append_take_drop_id diff_diff_cancel length_drop)
  then have "(rp_kind p @ '':'' @ u) @ v = t @ ''/*''" using t body(1) by simp
  then have v: "v = ''/*''"
    using uv(2) append_eq_append_conv [of "rp_kind p @ '':'' @ u" t v "''/*''"] by simp
  have "u = [] \<or> last u \<noteq> CHR ''/''"
  proof (rule ccontr)
    assume "\<not> ?thesis"
    then obtain w where "u = w @ ''/''" by (cases u rule: rev_cases) auto
    then have "canonical r = (rp_kind p @ '':'' @ w) @ ''//'' @ ''*''"
      using body(1) uv v by simp
    then have "contains ''//'' (canonical r)"
      unfolding contains_iff_sublist by (metis sublist_appendI)
    then show False using canonical_no_double by blast
  qed
  then have "rp_body p = u" using b uv by (simp add: drop_last2_append dropWhile_rev_id)
  then show ?thesis using body(1) uv v by simp
qed

section \<open>The region of a pattern\<close>

text \<open>
  The specification of a grant: the concrete resources a pattern reaches, as a predicate on the
  text, with no parser in it.
\<close>

definition in_region :: "resource_pattern \<Rightarrow> string \<Rightarrow> bool" where
  "in_region p s =
     (let base = rp_kind p @ '':'' @ rp_body p in
      case rp_scope p of
        Exact \<Rightarrow> s = rp_raw p
      | Prefix \<Rightarrow> if rp_body p = [] then startswith s (rp_kind p @ '':'')
                  else s = base \<or> startswith s (base @ '':'')
      | Subtree \<Rightarrow> s = base \<or> startswith s (base @ ''/'')
      | Global \<Rightarrow> False)"

lemma kind_determined:
  assumes "k @ '':'' @ x = k' @ '':'' @ y" "CHR '':'' \<notin> set k" "CHR '':'' \<notin> set k'"
  shows "k = k' \<and> x = y"
proof -
  have "split1 (CHR '':'') (k @ CHR '':'' # x) = (k, x)"
    by (rule split1_append [OF assms(2)])
  moreover have "split1 (CHR '':'') (k' @ CHR '':'' # y) = (k', y)"
    by (rule split1_append [OF assms(3)])
  moreover have "k @ CHR '':'' # x = k' @ CHR '':'' # y" using assms(1) by simp
  ultimately show ?thesis by (metis prod.inject)
qed

lemma startswith_Cons [simp]: "startswith (c # s) (d # t) \<longleftrightarrow> c = d \<and> startswith s t"
  by (auto simp: startswith_def)

lemma startswith_cancel [simp]: "startswith (k @ s) (k @ t) = startswith s t"
  by (simp add: startswith_def)

lemma startswith_kind:
  assumes "CHR '':'' \<notin> set k" "CHR '':'' \<notin> set k'"
  shows "startswith (k @ '':'' @ x) (k' @ '':'' @ y) \<longleftrightarrow> k = k' \<and> startswith x y"
proof
  assume "startswith (k @ '':'' @ x) (k' @ '':'' @ y)"
  then obtain z where "k @ '':'' @ x = k' @ '':'' @ (y @ z)"
    by (auto simp: startswith_iff_prefix prefix_def)
  then show "k = k' \<and> startswith x y"
    using kind_determined assms by (metis startswith_append)
qed auto


text \<open>
  The matcher decides exactly the region: on a concrete request (one with no wildcard) it answers
  whether the request's canonical text lies in the region of the granted pattern.
\<close>

text \<open>
  What of a request a pattern is compared with: its canonical text, and for a subtree pattern the name that is
  left of the request when its own wildcard is cut off.
\<close>

definition compared :: "resource_pattern \<Rightarrow> resource_pattern \<Rightarrow> string" where
  "compared p q = (if rp_scope p = Subtree then rp_kind q @ '':'' @ rp_body q else rp_raw q)"

lemma pattern_matches_compared:
  assumes p: "parse g b = Inr p" and q: "parse r b' = Inr q"
  shows "pattern_matches p q \<longleftrightarrow> in_region p (compared p q)"
proof -
  obtain body where r: "rp_raw q = rp_kind q @ '':'' @ body" using parse_typed [OF q] parse_raw [OF q] by metis
  have kp: "CHR '':'' \<notin> set (rp_kind p)" by (rule parse_typed [OF p])
  have kq: "CHR '':'' \<notin> set (rp_kind q)" by (rule parse_typed [OF q])
  note sk = startswith_kind [OF kq kp] and kd = kind_determined [OF _ kq kp]
  show ?thesis
  proof (cases "rp_scope p")
    case Exact
    then have "rp_raw q = rp_raw p \<Longrightarrow> rp_kind p = rp_kind q"
      using parse_Exact [OF p] parse_raw [OF p] r kd by metis
    then show ?thesis using Exact by (auto simp: pattern_matches_def in_region_def compared_def)
  next
    case Prefix
    then show ?thesis using r sk [of body] kd [of body]
      by (auto simp: pattern_matches_def in_region_def compared_def Let_def)
  next
    case Subtree
    then show ?thesis using sk [of "rp_body q"] kd [of "rp_body q"]
      by (auto simp: pattern_matches_def in_region_def compared_def Let_def)
  qed (simp add: pattern_matches_def in_region_def compared_def)
qed

lemma compared_Exact: "parse r b = Inr q \<Longrightarrow> rp_scope q = Exact \<Longrightarrow> compared p q = canonical r"
  using parse_Exact [of r b q] parse_raw [of r b q] by (simp add: compared_def)

lemma pattern_matches_region:
  "parse g b = Inr p \<Longrightarrow> parse r b' = Inr q \<Longrightarrow> rp_scope q = Exact \<Longrightarrow> pattern_matches p q \<longleftrightarrow> in_region p (canonical r)"
  using pattern_matches_compared [of g b p r b' q] compared_Exact [of r b' q p] by metis

section \<open>Attenuation\<close>

lemma parse_requested_flag: "parse r False = Inr p \<Longrightarrow> canonical r = r \<Longrightarrow> parse r True = Inr p"
  by (auto simp: parse_def Let_def split: prod.splits if_splits)

lemma covers_pattern_matches:
  "canonical r = r \<Longrightarrow> parse g False = Inr p \<Longrightarrow> parse r False = Inr q \<Longrightarrow>
    covers g r \<longleftrightarrow> pattern_matches p q"
  by (simp add: covers_def matches_def parse_raw parse_requested_flag)

lemma prefix_snoc_past:
  assumes "prefix (y @ [c]) (x @ t)" "c \<notin> set t"
  shows "prefix (y @ [c]) x"
  using assms
proof (induction t rule: rev_induct)
  case Nil
  then show ?case by simp
next
  case (snoc d t)
  then have "prefix (y @ [c]) ((x @ t) @ [d])" "d \<noteq> c" by auto
  then have "prefix (y @ [c]) (x @ t)" unfolding prefix_snoc by auto
  with snoc show ?case by simp
qed

text \<open>
  The two ways in which a pattern that a grant matches reaches past the grant: a prefix pattern over the body of a
  subtree grant, and a wildcard pattern whose text is the very name of a prefix grant.
\<close>

definition escapes :: "resource_pattern \<Rightarrow> resource_pattern \<Rightarrow> bool" where
  "escapes p q \<longleftrightarrow>
     rp_scope p = Subtree \<and> rp_scope q = Prefix \<and> rp_body q = rp_body p
     \<or> rp_scope p = Prefix \<and> rp_scope q \<noteq> Exact \<and> rp_raw q = rp_kind p @ '':'' @ rp_body p"

lemma wildcard_text:
  assumes "parse r b = Inr q" "rp_scope q \<noteq> Exact"
  shows "CHR ''*'' \<in> set (rp_raw q)" "last (rp_raw q) = CHR ''*''"
  using parse_shape [OF assms(1)] assms(2) parse_raw [OF assms(1)]
  by (cases "split1 (CHR '':'') (canonical r)"; auto simp: endswith_iff_suffix suffix_def)+

lemma prefix_region_mono:
  assumes gP: "rp_scope p = Prefix" "rp_body p \<noteq> []" "\<not> escapes p q"
    and q: "parse r b = Inr q" and m: "pattern_matches p q"
    and reg: "in_region q s"
  shows "in_region p s"
proof -
  have kk: "rp_kind q = rp_kind p" using m by (auto simp: pattern_matches_def split: if_splits)
  let ?k = "rp_kind p" and ?b = "rp_body p" and ?c = "rp_body q"
  have m': "prefix (?k @ '':'' @ ?b @ '':'') (canonical r) \<or> canonical r = ?k @ '':'' @ ?b"
    using m gP parse_raw [OF q] kk
    by (auto simp: pattern_matches_def startswith_iff_prefix split: if_splits)
  have nb: "rp_scope q \<noteq> Exact \<Longrightarrow> canonical r \<noteq> ?k @ '':'' @ ?b"
    using gP(1,3) parse_raw [OF q] by (auto simp: escapes_def)
  have sc: "rp_scope q \<noteq> Global" using parse_shape [OF q] by (cases "split1 (CHR '':'') (canonical r)") auto
  have star: "prefix (?b @ '':'') (x @ ''*'') \<Longrightarrow> prefix (?b @ '':'') x"
    "prefix (?b @ '':'') (x @ ''/*'') \<Longrightarrow> prefix (?b @ '':'') x" for x
    by (erule prefix_snoc_past, simp)+
  have body: "rp_scope q = Exact \<and> canonical r = ?k @ '':'' @ ?c
      \<or> ?c \<noteq> [] \<and> (rp_scope q = Prefix \<and> ?c = ?b \<or> prefix (?b @ '':'') ?c)"
  proof (cases "rp_scope q")
    case Exact
    then show ?thesis using parse_Exact [OF q] kk by simp
  next
    case Prefix
    consider "?c \<noteq> []" "canonical r = ?k @ '':'' @ ?c @ '':*''"
      | "canonical r = ?k @ '':*''" | "canonical r = ?k @ ''::*''"
      using parse_Prefix [OF q Prefix] kk by auto
    then show ?thesis
    proof cases
      case 1
      then have "prefix (?b @ '':'') ((?c @ '':'') @ ''*'')" using m' nb Prefix by simp
      then have "prefix (?b @ '':'') (?c @ '':'')" by (rule star)
      then show ?thesis using 1 Prefix by auto
    next
      case 2
      then have "prefix (?b @ '':'') ([] @ ''*'')" using m' nb Prefix by auto
      from star(1) [OF this] show ?thesis by simp
    next
      case 3
      then have "prefix (?b @ '':'') ('':'' @ ''*'')" using m' nb Prefix by auto
      from star(1) [OF this] show ?thesis using gP(2) by (cases ?b) auto
    qed
  next
    case Subtree
    then have "canonical r = ?k @ '':'' @ ?c @ ''/*''" using parse_Subtree [OF q] kk by simp
    then have "prefix (?b @ '':'') (?c @ ''/*'')" using m' nb Subtree by simp
    then show ?thesis using star(2) [of ?c] by auto
  qed (use sc in simp)
  have raw: "rp_scope q = Exact \<Longrightarrow> rp_raw q = ?k @ '':'' @ ?c"
    using parse_Exact [OF q] parse_raw [OF q] kk by simp
  show ?thesis
    using body
  proof (elim disjE conjE)
    assume "rp_scope q = Exact" "canonical r = ?k @ '':'' @ ?c"
    then show ?thesis
      using m' gP reg parse_raw [OF q] by (auto simp: in_region_def startswith_iff_prefix)
  qed (use gP reg kk sc raw in \<open>auto simp: in_region_def startswith_iff_prefix Let_def prefix_def
      split: resource_scope.splits if_splits\<close>)
qed


lemma subtree_region_mono:
  assumes gS: "rp_scope p = Subtree"
    and q: "parse r b = Inr q" and m: "pattern_matches p q"
    and esc: "\<not> escapes p q"
    and reg: "in_region q s"
  shows "in_region p s"
proof -
  let ?k = "rp_kind p" and ?b = "rp_body p" and ?c = "rp_body q"
  have kk: "rp_kind q = ?k" and m': "?c = ?b \<or> prefix (?b @ ''/'') ?c"
    using m gS by (auto simp: pattern_matches_def startswith_iff_prefix split: if_splits)
  have raw: "rp_scope q = Exact \<Longrightarrow> rp_raw q = ?k @ '':'' @ ?c"
    using parse_Exact [OF q] parse_raw [OF q] kk by simp
  have clash: "\<not> (rp_scope q = Prefix \<and> rp_body q = rp_body p)" using esc gS by (simp add: escapes_def)
  show ?thesis
    using m' clash gS reg kk raw
    by (auto simp: in_region_def startswith_iff_prefix Let_def prefix_def
        split: resource_scope.splits if_splits)
qed

lemma prefix_all_region_mono:
  assumes gP: "rp_scope p = Prefix" "rp_body p = []"
    and q: "parse r b = Inr q" and m: "pattern_matches p q" and reg: "in_region q s"
  shows "in_region p s"
proof -
  have kk: "rp_kind q = rp_kind p" using m by (auto simp: pattern_matches_def split: if_splits)
  have raw: "rp_scope q = Exact \<Longrightarrow> rp_raw q = rp_kind p @ '':'' @ rp_body q"
    using parse_Exact [OF q] parse_raw [OF q] kk by simp
  show ?thesis
    using gP reg kk raw
    by (auto simp: in_region_def startswith_iff_prefix Let_def prefix_def
        split: resource_scope.splits if_splits)
qed

lemma exact_region_mono:
  assumes gE: "rp_scope p = Exact" and p: "parse g b = Inr p"
    and q: "parse r b' = Inr q" and m: "pattern_matches p q" and reg: "in_region q s"
  shows "in_region p s"
proof -
  have raw: "rp_raw p = rp_raw q" using m gE by (auto simp: pattern_matches_def split: if_splits)
  then have "CHR ''*'' \<notin> set (rp_raw q)"
    using parse_Exact [OF p gE] parse_raw [OF p] by simp
  then have "rp_scope q = Exact" using wildcard_text(1) [OF q] by blast
  then show ?thesis using raw gE reg by (simp add: in_region_def)
qed

text \<open>Attenuation with its exact proviso: what a matched pattern reaches, the grant reaches, unless the pattern escapes.\<close>

lemma region_mono:
  assumes p: "parse g b = Inr p" and q: "parse r b' = Inr q" and m: "pattern_matches p q"
    and esc: "\<not> escapes p q" and reg: "in_region q s"
  shows "in_region p s"
proof (cases "rp_scope p")
  case Exact
  then show ?thesis using exact_region_mono p q m reg by blast
next
  case Prefix
  then show ?thesis
    using prefix_region_mono [OF Prefix _ esc q m reg] prefix_all_region_mono [OF Prefix _ q m reg] by blast
next
  case Subtree
  then show ?thesis by (rule subtree_region_mono [OF _ q m esc reg])
next
  case Global
  then show ?thesis using m by (auto simp: pattern_matches_def split: if_splits)
qed

text \<open>The same on texts: what one pattern is accepted for, the other is accepted for as well.\<close>

definition concrete :: "string \<Rightarrow> bool" where
  "concrete s \<longleftrightarrow> (case parse s True of Inr t \<Rightarrow> rp_scope t = Exact | Inl _ \<Rightarrow> False)"

definition escaping :: "string \<Rightarrow> string \<Rightarrow> bool" where
  "escaping g r \<longleftrightarrow> (case (parse g False, parse r False) of (Inr p, Inr q) \<Rightarrow> escapes p q | _ \<Rightarrow> False)"

definition contains_reach :: "string \<Rightarrow> string \<Rightarrow> bool" where
  "contains_reach g r \<longleftrightarrow> (\<forall>s. concrete s \<and> matches r s \<longrightarrow> matches g s)"

lemma parse_unflagged: "parse r True = Inr q \<Longrightarrow> parse r False = Inr q"
  by (auto simp: parse_def Let_def split: prod.splits if_splits)

lemma matches_contains:
  assumes "matches g r" "\<not> escaping g r"
  shows "contains_reach g r"
  unfolding contains_reach_def
proof (intro allI impI)
  fix s assume s: "concrete s \<and> matches r s"
  obtain p q where p: "parse g False = Inr p" and q: "parse r True = Inr q" and m: "pattern_matches p q"
    using assms(1) by (auto simp: matches_def split: sum.splits)
  obtain t where t: "parse s True = Inr t" "rp_scope t = Exact" using s by (auto simp: concrete_def split: sum.splits)
  note q' = parse_unflagged [OF q]
  have "in_region q (canonical s)" using s pattern_matches_region [OF q' t] by (simp add: matches_def q' t)
  then have "in_region p (canonical s)"
    using region_mono [OF p q' m] assms(2) by (simp add: escaping_def p q')
  then show "matches g s" using pattern_matches_region [OF p t] by (simp add: matches_def p t)
qed

section \<open>Properties\<close>

text \<open>
  C1. A grant matches a request exactly when both parse and what is compared of the request lies in the region of
  the grant: an exact grant reaches its own text only, \<open>kind:b:*\<close> the name \<open>kind:b\<close> and the names below
  \<open>kind:b:\<close>, \<open>kind:b/*\<close> the name \<open>kind:b\<close> and those below \<open>kind:b/\<close>, so a grant never reaches an
  adjacent namespace. Of a concrete request the canonical text is compared, and that of a request with a wildcard
  as well, except that a subtree grant sees the name before the wildcard of the request.
\<close>

theorem matches_iff_region:
  "(matches granted requested \<longleftrightarrow>
      (\<exists>p q. parse granted False = Inr p \<and> parse requested True = Inr q \<and> in_region p (compared p q)))
   \<and> (\<forall>p q. parse requested True = Inr q \<longrightarrow>
        compared p q = (if rp_scope p = Subtree \<and> rp_scope q \<noteq> Exact then rp_kind q @ '':'' @ rp_body q else canonical requested))"
proof
  show "matches granted requested \<longleftrightarrow>
      (\<exists>p q. parse granted False = Inr p \<and> parse requested True = Inr q \<and> in_region p (compared p q))"
    using pattern_matches_compared by (auto simp: matches_def split: sum.splits)
  show "\<forall>p q. parse requested True = Inr q \<longrightarrow>
        compared p q = (if rp_scope p = Subtree \<and> rp_scope q \<noteq> Exact then rp_kind q @ '':'' @ rp_body q else canonical requested)"
  proof (intro allI impI)
    fix p q assume q: "parse requested True = Inr q"
    show "compared p q = (if rp_scope p = Subtree \<and> rp_scope q \<noteq> Exact then rp_kind q @ '':'' @ rp_body q else canonical requested)"
      using compared_Exact [OF q, of p] parse_raw [OF q] by (cases "rp_scope q = Exact") (simp_all add: compared_def)
  qed
qed

theorem matches_iff_region_witness:
  "matches ''file:/a/*'' ''file:/a/b.txt'' \<and> \<not> matches ''file:/a/*'' ''file:/ab'' \<and> matches ''file:/a/*'' ''file:/a:*''"
proof -
  let ?p = "\<lparr>rp_raw = ''file:/a/*'', rp_kind = ''file'', rp_body = ''/a'', rp_scope = Subtree\<rparr>"
  let ?e = "\<lambda>b. \<lparr>rp_raw = ''file:'' @ b, rp_kind = ''file'', rp_body = b, rp_scope = Exact\<rparr>"
  let ?w = "\<lparr>rp_raw = ''file:/a:*'', rp_kind = ''file'', rp_body = ''/a'', rp_scope = Prefix\<rparr>"
  have p: "parse ''file:/a/*'' False = Inr ?p" by code_simp
  have q: "parse ''file:/a/b.txt'' True = Inr (?e ''/a/b.txt'')" "parse ''file:/ab'' True = Inr (?e ''/ab'')"
    "parse ''file:/a:*'' True = Inr ?w" by code_simp+
  have c: "canonical ''file:/a/b.txt'' = ''file:/a/b.txt''" "canonical ''file:/ab'' = ''file:/ab''" by code_simp+
  have m: "matches ''file:/a/*'' r \<longleftrightarrow> in_region ?p (compared ?p q)" if "parse r True = Inr q" for r q
    using matches_iff_region [of "''file:/a/*''" r] p that by simp
  have t: "compared ?p (?e ''/a/b.txt'') = ''file:/a/b.txt''" "compared ?p (?e ''/ab'') = ''file:/ab''"
    "compared ?p ?w = ''file:/a''"
    using matches_iff_region [of g "''file:/a/b.txt''" for g] matches_iff_region [of g "''file:/ab''" for g]
      matches_iff_region [of g "''file:/a:*''" for g] q c by simp_all
  show ?thesis unfolding m [OF q(1)] m [OF q(2)] m [OF q(3)] t by (simp add: in_region_def startswith_def)
qed

text \<open>
  C2. Attenuation. When \<open>covers\<close> accepts a narrower pattern, everything the narrower pattern
  reaches is reached by the granted one, provided the granted body holds no inner wildcard and
  the two patterns are not a subtree grant and a prefix pattern over the same body.
\<close>

theorem covers_attenuates:
  assumes "parse granted False = Inr p" and "parse r False = Inr q" and "canonical r = r"
    and "CHR ''*'' \<notin> set (rp_body p)"
    and "\<not> (rp_scope p = Subtree \<and> rp_scope q = Prefix \<and> rp_body q = rp_body p)"
    and "covers granted r" and "in_region q s"
  shows "in_region p s"
proof -
  have m: "pattern_matches p q" using assms by (simp add: covers_pattern_matches)
  obtain body where "canonical r = rp_kind q @ '':'' @ body" "body \<noteq> []" by (rule parse_typed [OF assms(2)])
  moreover have "rp_kind p = rp_kind q" using m by (auto simp: pattern_matches_def split: if_splits)
  ultimately have body: "rp_body p \<noteq> []" if "rp_raw q = rp_kind p @ '':'' @ rp_body p"
    using that parse_raw [OF assms(2)] by simp
  have "rp_raw q \<noteq> rp_kind p @ '':'' @ rp_body p" if "rp_scope q \<noteq> Exact"
  proof
    assume e: "rp_raw q = rp_kind p @ '':'' @ rp_body p"
    have "last (rp_body p) = CHR ''*''" using wildcard_text(2) [OF assms(2) that] body [OF e] by (simp add: e)
    then show False using last_in_set [OF body [OF e]] assms(4) by simp
  qed
  then have "\<not> escapes p q" using assms(5) by (auto simp: escapes_def)
  from region_mono [OF assms(1,2) m this assms(7)] show ?thesis .
qed

theorem covers_attenuates_witness:
  "in_region \<lparr>rp_raw = ''file:/a/*'', rp_kind = ''file'', rp_body = ''/a'', rp_scope = Subtree\<rparr>
     ''file:/a/b/c''"
proof -
  have p: "parse ''file:/a/*'' False =
      Inr \<lparr>rp_raw = ''file:/a/*'', rp_kind = ''file'', rp_body = ''/a'', rp_scope = Subtree\<rparr>"
    by code_simp
  have q: "parse ''file:/a/b/*'' False =
      Inr \<lparr>rp_raw = ''file:/a/b/*'', rp_kind = ''file'', rp_body = ''/a/b'', rp_scope = Subtree\<rparr>"
    by code_simp
  have c: "canonical ''file:/a/b/*'' = ''file:/a/b/*''" by code_simp
  have v: "covers ''file:/a/*'' ''file:/a/b/*''" by code_simp
  show ?thesis
    by (rule covers_attenuates [OF p q c _ _ v]) (simp_all add: in_region_def startswith_def)
qed



text \<open>
  A well-typed pattern in canonical form covers itself, so delegating exactly what one holds
  is always within the grant.
\<close>

theorem covers_refl:
  assumes "parse r False = Inr p" and "canonical r = r"
  shows "covers r r"
proof -
  have raw: "rp_raw p = r" using assms parse_raw by metis
  obtain body where body: "r = rp_kind p @ '':'' @ body" using parse_typed [OF assms(1)] assms(2) by metis
  have "pattern_matches p p"
  proof (cases "rp_scope p")
    case Prefix
    then show ?thesis
      using parse_Prefix [OF assms(1) Prefix] raw assms(2) body
      by (auto simp: pattern_matches_def startswith_def)
  next
    case Global
    then show ?thesis
      using parse_shape [OF assms(1)] by (cases "split1 (CHR '':'') (canonical r)") auto
  qed (auto simp: pattern_matches_def)
  then show ?thesis using covers_pattern_matches [OF assms(2,1,1)] by simp
qed

theorem covers_refl_witness: "covers ''shell:git:*'' ''shell:git:*''"
proof -
  have p: "parse ''shell:git:*'' False =
      Inr \<lparr>rp_raw = ''shell:git:*'', rp_kind = ''shell'', rp_body = ''git'', rp_scope = Prefix\<rparr>"
    by code_simp
  have c: "canonical ''shell:git:*'' = ''shell:git:*''" by code_simp
  show ?thesis by (rule covers_refl [OF p c])
qed

end
