(* ===== verification/PyVal.thy ===== *)
theory PyVal
  imports Complex_Main PyStr
begin

text \<open>
  The dynamically typed values the code passes around in \<open>dict[str, Any]\<close> payloads: the JSON
  types of Python with tuples, sets and bytes beside them. A float is its exact rational value or
  one of the three special ones. Also here: Python equality and truth of such values, \<open>str()\<close>,
  and the JSON text of \<open>json.dumps\<close> as \<open>agent_libos/utils/serde.py\<close> uses it.
\<close>

section \<open>Values\<close>

datatype pyfloat = Fin rat | PosInf | NegInf | NaN

datatype pyval =
    VNone
  | VBool bool
  | VInt int
  | VFloat pyfloat
  | VStr string
  | VBytes string
  | VList "pyval list"
  | VTuple "pyval list"
  | VSet "pyval list"
  | VDict "(pyval \<times> pyval) list"

type_synonym pydict = "(pyval \<times> pyval) list"

text \<open>A dict display with string keys, \<open>d.get(k)\<close> without default and \<open>d.get(k, v)\<close>.\<close>

definition sdict :: "(string \<times> pyval) list \<Rightarrow> pydict" where
  "sdict d = map (\<lambda>(k, v). (VStr k, v)) d"

definition dget :: "pydict \<Rightarrow> string \<Rightarrow> pyval" where
  "dget d k = (case map_of d (VStr k) of None \<Rightarrow> VNone | Some v \<Rightarrow> v)"

definition dget_or :: "pydict \<Rightarrow> string \<Rightarrow> pyval \<Rightarrow> pyval" where
  "dget_or d k v0 = (case map_of d (VStr k) of None \<Rightarrow> v0 | Some v \<Rightarrow> v)"

definition dhas :: "pydict \<Rightarrow> string \<Rightarrow> bool" where
  "dhas d k \<longleftrightarrow> map_of d (VStr k) \<noteq> None"

fun is_str :: "pyval \<Rightarrow> bool" where
  "is_str (VStr _) = True" | "is_str _ = False"

fun is_bool :: "pyval \<Rightarrow> bool" where
  "is_bool (VBool _) = True" | "is_bool _ = False"

text \<open>\<open>isinstance(v, int)\<close>: a bool is an int.\<close>

fun is_int :: "pyval \<Rightarrow> bool" where
  "is_int (VInt _) = True" | "is_int (VBool _) = True" | "is_int _ = False"

fun is_list :: "pyval \<Rightarrow> bool" where
  "is_list (VList _) = True" | "is_list _ = False"

fun is_dict :: "pyval \<Rightarrow> bool" where
  "is_dict (VDict _) = True" | "is_dict _ = False"

fun the_str :: "pyval \<Rightarrow> string" where
  "the_str (VStr s) = s" | "the_str _ = []"

fun the_list :: "pyval \<Rightarrow> pyval list" where
  "the_list (VList xs) = xs" | "the_list _ = []"

text \<open>\<open>isinstance(v, list) and all(isinstance(i, str) for i in v)\<close>, and the strings.\<close>

definition is_str_list :: "pyval \<Rightarrow> bool" where
  "is_str_list v \<longleftrightarrow> is_list v \<and> list_all is_str (the_list v)"

definition str_list :: "pyval \<Rightarrow> string list" where
  "str_list v = map the_str (the_list v)"

section \<open>Equality, truth and \<open>str()\<close>\<close>

fun num_val :: "pyval \<Rightarrow> pyfloat option" where
  "num_val (VBool b) = Some (Fin (if b then 1 else 0))"
| "num_val (VInt i) = Some (Fin (rat_of_int i))"
| "num_val (VFloat x) = Some x"
| "num_val _ = None"

fun float_eq :: "pyfloat \<Rightarrow> pyfloat \<Rightarrow> bool" where
  "float_eq (Fin a) (Fin b) = (a = b)"
| "float_eq PosInf PosInf = True"
| "float_eq NegInf NegInf = True"
| "float_eq _ _ = False"

text \<open>\<open>a == b\<close>. Dicts compare without regard to order, tuples and lists are never equal.\<close>

fun py_eq :: "pyval \<Rightarrow> pyval \<Rightarrow> bool" where
  "py_eq VNone w = (w = VNone)"
| "py_eq (VStr s) w = (w = VStr s)"
| "py_eq (VBytes s) w = (w = VBytes s)"
| "py_eq (VList xs) w = (case w of VList ys \<Rightarrow> list_all2 py_eq xs ys | _ \<Rightarrow> False)"
| "py_eq (VTuple xs) w = (case w of VTuple ys \<Rightarrow> list_all2 py_eq xs ys | _ \<Rightarrow> False)"
| "py_eq (VSet xs) w = (case w of
     VSet ys \<Rightarrow> length xs = length ys \<and> list_all (\<lambda>x. list_ex (\<lambda>y. py_eq x y) ys) xs
   | _ \<Rightarrow> False)"
| "py_eq (VDict d) w = (case w of
     VDict e \<Rightarrow> length d = length e \<and>
       list_all (\<lambda>p. list_ex (\<lambda>q. py_eq (fst p) (fst q) \<and> py_eq (snd p) (snd q)) e) d
   | _ \<Rightarrow> False)"
| "py_eq v w = (case (num_val v, num_val w) of (Some a, Some b) \<Rightarrow> float_eq a b | _ \<Rightarrow> False)"

fun truthy :: "pyval \<Rightarrow> bool" where
  "truthy VNone = False"
| "truthy (VBool b) = b"
| "truthy (VInt i) = (i \<noteq> 0)"
| "truthy (VFloat x) = (x \<noteq> Fin 0)"
| "truthy (VStr s) = (s \<noteq> [])"
| "truthy (VBytes s) = (s \<noteq> [])"
| "truthy (VList xs) = (xs \<noteq> [])"
| "truthy (VTuple xs) = (xs \<noteq> [])"
| "truthy (VSet xs) = (xs \<noteq> [])"
| "truthy (VDict d) = (d \<noteq> [])"

definition py_or :: "pyval \<Rightarrow> pyval \<Rightarrow> pyval" where
  "py_or v w = (if truthy v then v else w)"

text \<open>
  \<open>str(v)\<close>. The \<open>repr\<close> of floats and of containers is the argument \<open>rp\<close>: where the code
  takes \<open>str\<close> of such a value it only compares the text with a plain string.
\<close>

fun py_str :: "(pyval \<Rightarrow> string) \<Rightarrow> pyval \<Rightarrow> string" where
  "py_str rp VNone = ''None''"
| "py_str rp (VBool b) = (if b then ''True'' else ''False'')"
| "py_str rp (VInt i) = show_int i"
| "py_str rp (VStr s) = s"
| "py_str rp v = rp v"

text \<open>\<open>hash(v)\<close> does not raise: lists and dicts are unhashable, also inside a tuple.\<close>

fun hashable :: "pyval \<Rightarrow> bool" where
  "hashable (VList _) = False"
| "hashable (VDict _) = False"
| "hashable (VTuple xs) = list_all hashable xs"
| "hashable _ = True"

text \<open>\<open>sorted(set(keys))\<close> of strings.\<close>

definition sorted_set :: "string list \<Rightarrow> string list" where
  "sorted_set ks = sort (remdups ks)"

lemma py_eq_str [simp]: "py_eq v (VStr s) \<longleftrightarrow> v = VStr s"
  by (cases v) auto

lemma set_sorted_set [simp]: "set (sorted_set ks) = set ks"
  by (simp add: sorted_set_def)

lemma sorted_sorted_set: "sorted (sorted_set ks) \<and> distinct (sorted_set ks)"
  by (simp add: sorted_set_def)

lemma dget_sdict: "dget (sdict d) k = (case map_of d k of None \<Rightarrow> VNone | Some v \<Rightarrow> v)"
  by (induction d) (auto simp: dget_def sdict_def)

lemma dhas_sdict: "dhas (sdict d) k \<longleftrightarrow> k \<in> set (map fst d)"
  by (induction d) (auto simp: dhas_def sdict_def)

lemma dget_not_has: "\<not> dhas d k \<Longrightarrow> dget d k = VNone"
  by (simp add: dget_def dhas_def)

end
