(* ===== verification/CapModel.thy ===== *)
theory CapModel
  imports PyVal
begin

text \<open>
  The data of \<open>agent_libos/models/capability.py\<close>: the string enumerations with their values and
  their lookup by value, authority rules with the freezing of their conditions, capability specs,
  decisions and rows, and the summary record of the reservation recovery.
\<close>

section \<open>Enumerations\<close>

datatype capability_right =
  RRead | RWrite | RExecute | RLink | RDiff | RMaterialize | RDelete | RGrant | RRevoke
  | RApprove | RAdmin

fun right_value :: "capability_right \<Rightarrow> string" where
  "right_value RRead = ''read''"
| "right_value RWrite = ''write''"
| "right_value RExecute = ''execute''"
| "right_value RLink = ''link''"
| "right_value RDiff = ''diff''"
| "right_value RMaterialize = ''materialize''"
| "right_value RDelete = ''delete''"
| "right_value RGrant = ''grant''"
| "right_value RRevoke = ''revoke''"
| "right_value RApprove = ''approve''"
| "right_value RAdmin = ''admin''"

definition all_rights :: "capability_right list" where
  "all_rights = [RRead, RWrite, RExecute, RLink, RDiff, RMaterialize, RDelete, RGrant, RRevoke,
     RApprove, RAdmin]"

datatype capability_effect = Allow | Deny | Ask

fun effect_value :: "capability_effect \<Rightarrow> string" where
  "effect_value Allow = ''allow''"
| "effect_value Deny = ''deny''"
| "effect_value Ask = ''ask''"

datatype capability_status = Active | Revoked | Disabled | ExecRevoked

fun status_value :: "capability_status \<Rightarrow> string" where
  "status_value Active = ''active''"
| "status_value Revoked = ''revoked''"
| "status_value Disabled = ''disabled''"
| "status_value ExecRevoked = ''exec_revoked''"

datatype authority_risk = Harmless | Low | Medium | High | Destructive

fun risk_value :: "authority_risk \<Rightarrow> string" where
  "risk_value Harmless = ''harmless''"
| "risk_value Low = ''low''"
| "risk_value Medium = ''medium''"
| "risk_value High = ''high''"
| "risk_value Destructive = ''destructive''"

text \<open>\<open>EnumType(value)\<close>: the member of that value, or a ValueError.\<close>

definition enum_lookup :: "'a list \<Rightarrow> ('a \<Rightarrow> string) \<Rightarrow> string \<Rightarrow> 'a res" where
  "enum_lookup members val v =
     (case List.find (\<lambda>m. val m = v) members of
        None \<Rightarrow> Inl (ValueError (v @ '' is not a valid enum value''))
      | Some m \<Rightarrow> Inr m)"

definition effect_of :: "string \<Rightarrow> capability_effect res" where
  "effect_of = enum_lookup [Allow, Deny, Ask] effect_value"

definition status_of :: "string \<Rightarrow> capability_status res" where
  "status_of = enum_lookup [Active, Revoked, Disabled, ExecRevoked] status_value"

definition risk_of :: "string \<Rightarrow> authority_risk res" where
  "risk_of = enum_lookup [Harmless, Low, Medium, High, Destructive] risk_value"

section \<open>Rules, decisions and capabilities\<close>

text \<open>\<open>_freeze_authority_condition\<close>: the same value in immutable containers.\<close>

fun freeze_condition :: "pyval \<Rightarrow> pyval" where
  "freeze_condition (VDict d) = VDict (map (\<lambda>(k, v). (k, freeze_condition v)) d)"
| "freeze_condition (VList xs) = VList (map freeze_condition xs)"
| "freeze_condition (VTuple xs) = VTuple (map freeze_condition xs)"
| "freeze_condition (VSet xs) = VSet (map freeze_condition xs)"
| "freeze_condition v = v"

record authority_rule =
  ar_rule_id :: string
  ar_operation :: string
  ar_effect :: capability_effect
  ar_risk :: authority_risk
  ar_conditions :: pydict
  ar_description :: string

text \<open>The constructor \<open>AuthorityRule(...)\<close> with its \<open>__post_init__\<close>.\<close>

definition make_rule ::
  "string \<Rightarrow> string \<Rightarrow> capability_effect \<Rightarrow> authority_risk \<Rightarrow> pyval \<Rightarrow> string \<Rightarrow> authority_rule res" where
  "make_rule rid opn eff rsk conditions descr =
     (case freeze_condition conditions of
        VDict d \<Rightarrow> Inr \<lparr>ar_rule_id = rid, ar_operation = opn, ar_effect = eff, ar_risk = rsk,
                         ar_conditions = d, ar_description = descr\<rparr>
      | _ \<Rightarrow> Inl (PyTypeError ''authority rule conditions must be a mapping''))"

record capability_row =
  cap_id :: string
  cap_subject :: string
  cap_resource :: string
  cap_rights :: "string list"
  cap_constraints :: "(string \<times> pyval) list"
  cap_issued_by :: string
  cap_issued_at :: string
  cap_expires_at :: "string option"
  cap_delegable :: bool
  cap_revocable :: bool
  cap_effect :: capability_effect
  cap_issuer_cap_id :: "string option"
  cap_parent_cap_id :: "string option"
  cap_delegation_depth :: int
  cap_max_delegation_depth :: "int option"
  cap_uses_remaining :: "int option"
  cap_status :: capability_status
  cap_metadata :: pydict

definition revoked :: "capability_row \<Rightarrow> bool" where
  "revoked c \<longleftrightarrow> cap_status c \<in> {Revoked, ExecRevoked}"

definition active :: "capability_row \<Rightarrow> bool" where
  "active c \<longleftrightarrow> cap_status c = Active"

text \<open>
  The result of one constraint: the JSON object \<open>{"ok": ..., "effect": ..., "reason": ..., ...}\<close>
  with the three keys the code reads as fields and the remaining keys in \<open>cr_info\<close>.
\<close>

record constraint_result =
  cr_ok :: bool
  cr_effect :: "capability_effect option"
  cr_reason :: "string option"
  cr_info :: "(string \<times> pyval) list"

record capability_decision =
  cd_subject :: string
  cd_resource :: string
  cd_right :: string
  cd_allowed :: bool
  cd_effect :: "capability_effect option"
  cd_reason :: string
  cd_matched :: "string list"
  cd_selected :: "string option"
  cd_consume :: "string option"
  cd_human_request :: "string option"
  cd_issuer_chain :: "string list"
  cd_results :: "(string \<times> constraint_result) list"
  cd_context :: pydict

text \<open>\<open>CapabilityDecision.policy\<close>\<close>

definition policy :: "capability_decision \<Rightarrow> string" where
  "policy d = (case cd_effect d of
     Some Allow \<Rightarrow> (case cd_consume d of
         Some s \<Rightarrow> if s = [] then ''always_allow'' else ''allow_once''
       | None \<Rightarrow> ''always_allow'')
   | Some Deny \<Rightarrow> ''always_deny''
   | Some Ask \<Rightarrow> ''ask_each_time''
   | None \<Rightarrow> ''missing'')"

section \<open>Recovery summary\<close>

record recovery_summary =
  rs_total :: int
  rs_sample :: "string list"

definition make_recovery_summary :: "pyval \<Rightarrow> pyval list \<Rightarrow> recovery_summary res" where
  "make_recovery_summary tot sample =
     (case tot of
        VInt n \<Rightarrow>
          if n < 0 then Inl (ValueError ''capability reservation recovery total_count must be non-negative'')
          else if n < int (length sample) then
            Inl (ValueError ''capability reservation recovery sample exceeds total'')
          else if list_ex (\<lambda>v. \<not> is_str v \<or> the_str v = []) sample then
            Inl (ValueError ''capability reservation recovery sample IDs must not be empty'')
          else Inr \<lparr>rs_total = n, rs_sample = map the_str sample\<rparr>
      | _ \<Rightarrow> Inl (ValueError ''capability reservation recovery total_count must be non-negative''))"

definition summary_truncated :: "recovery_summary \<Rightarrow> bool" where
  "summary_truncated s \<longleftrightarrow> int (length (rs_sample s)) < rs_total s"

section \<open>Lemmas\<close>

lemma enum_lookup_Inr: "enum_lookup ms val v = Inr m \<Longrightarrow> m \<in> set ms \<and> val m = v"
  by (auto simp: enum_lookup_def split: option.splits dest: find_SomeD)

lemma effect_of_value [simp]: "effect_of (effect_value e) = Inr e"
  by (cases e) (simp_all add: effect_of_def enum_lookup_def)

lemma risk_of_value [simp]: "risk_of (risk_value r) = Inr r"
  by (cases r) (simp_all add: risk_of_def enum_lookup_def)

lemma status_of_value [simp]: "status_of (status_value s) = Inr s"
  by (cases s) (simp_all add: status_of_def enum_lookup_def)

lemma effect_of_Inr: "effect_of s = Inr e \<Longrightarrow> s = effect_value e"
  by (auto simp: effect_of_def dest: enum_lookup_Inr)

lemma freeze_condition_id [simp]: "freeze_condition v = v"
proof (induction v)
  case (VDict d)
  then show ?case by (auto intro!: map_idI)
qed (auto intro: map_idI)

lemma make_rule_dict [simp]:
  "make_rule rid opn eff rsk (VDict d) descr = Inr \<lparr>ar_rule_id = rid, ar_operation = opn,
     ar_effect = eff, ar_risk = rsk, ar_conditions = d, ar_description = descr\<rparr>"
  by (simp add: make_rule_def)

end
