(* ===== verification/Host.thy ===== *)
theory Host
  imports PyVal
begin

text \<open>
  What the modelled code takes from outside the repository, as the fields of one record that the
  definitions receive as an argument: the third-party \<open>regex\<close> engine and the clock of its time
  limit, \<open>hashlib.sha256\<close>, the reader of ISO timestamps, the float reader and the \<open>repr\<close> of
  floats and containers, and the configured byte limits. The theorems hold for every such record.
  Also here: \<open>float()\<close> of an integer, which rounds to 53 bits and may overflow, and the JSON
  text of \<open>agent_libos/utils/serde.py\<close>.
\<close>

record host =
  h_repr :: "pyval \<Rightarrow> string"
  h_parse_float :: "pyval \<Rightarrow> pyfloat option"
  h_iso :: "string \<Rightarrow> (int \<times> bool) option"
  h_isoformat :: "int \<Rightarrow> string"
  h_sha256 :: "string \<Rightarrow> string"
  h_regex_compiles :: "string \<Rightarrow> bool"
  h_regex_fullmatch :: "string \<Rightarrow> string \<Rightarrow> bool option"
  h_deadline_passed :: "nat \<Rightarrow> bool"
  h_regex_pattern_max_bytes :: nat
  h_regex_token_max_bytes :: nat

text \<open>
  \<open>h_iso s\<close> is \<open>datetime.fromisoformat(s)\<close>: \<open>None\<close> for a ValueError, otherwise the instant in
  microseconds, read as UTC when the text has no offset, and whether it has one.
  \<open>h_isoformat t\<close> is the text of \<open>datetime.isoformat\<close> of that instant in UTC.
  \<open>h_regex_fullmatch p s\<close> is \<open>None\<close> for a timeout or an engine error.
\<close>

section \<open>\<open>float()\<close>\<close>

text \<open>Rounding half to even at the given bit, for numbers of more than 53 bits.\<close>

fun bit_length :: "nat \<Rightarrow> nat" where
  "bit_length n = (if n = 0 then 0 else Suc (bit_length (n div 2)))"

declare bit_length.simps [simp del]

definition round53 :: "nat \<Rightarrow> nat" where
  "round53 n =
     (if bit_length n \<le> 53 then n
      else let e = bit_length n - 53; q = n div 2 ^ e; r = n mod 2 ^ e; half = 2 ^ (e - 1) in
           (if half < r \<or> (r = half \<and> odd q) then Suc q else q) * 2 ^ e)"

datatype float_result = FloatOk pyfloat | FloatOverflow | FloatBad

text \<open>
  \<open>float(v)\<close>: \<open>FloatOverflow\<close> is the OverflowError of a huge integer, \<open>FloatBad\<close> a TypeError or
  ValueError.
\<close>

fun py_float :: "host \<Rightarrow> pyval \<Rightarrow> float_result" where
  "py_float h (VBool b) = FloatOk (Fin (if b then 1 else 0))"
| "py_float h (VInt i) =
     (let m = round53 (nat \<bar>i\<bar>) in
      if 2 ^ 1024 \<le> m then FloatOverflow
      else FloatOk (Fin (if i < 0 then - rat_of_nat m else rat_of_nat m)))"
| "py_float h (VFloat x) = FloatOk x"
| "py_float h (VStr s) = (case h_parse_float h (VStr s) of None \<Rightarrow> FloatBad | Some x \<Rightarrow> FloatOk x)"
| "py_float h (VBytes s) = (case h_parse_float h (VBytes s) of None \<Rightarrow> FloatBad | Some x \<Rightarrow> FloatOk x)"
| "py_float h _ = FloatBad"

lemma bit_length_bound: "n < 2 ^ bit_length n"
proof (induction n rule: bit_length.induct)
  case (1 n)
  then show ?case by (cases "n = 0") (simp_all add: bit_length.simps [of n] bit_length.simps [of 0])
qed

lemma bit_length_mono_bound: "n < 2 ^ k \<Longrightarrow> bit_length n \<le> k"
proof (induction n arbitrary: k rule: bit_length.induct)
  case (1 n)
  show ?case
  proof (cases "n = 0")
    case False
    with 1(2) obtain j where k: "k = Suc j" by (cases k) auto
    then have "n div 2 < 2 ^ j" using 1(2) by (simp add: less_mult_imp_div_less mult.commute)
    then show ?thesis using 1(1) False k by (simp add: bit_length.simps [of n])
  qed (simp add: bit_length.simps)
qed

lemma round53_id: "n < 2 ^ 53 \<Longrightarrow> round53 n = n"
  by (simp add: round53_def bit_length_mono_bound)

section \<open>JSON text\<close>

definition hex_digit :: "nat \<Rightarrow> char" where
  "hex_digit n = (if n < 10 then char_of (48 + n) else char_of (87 + n))"

text \<open>
  The options of \<open>json.dumps\<close> the code varies: ASCII only, \<open>default=str\<close>, \<open>allow_nan\<close>, separators.
\<close>

record json_format =
  jf_ascii :: bool
  jf_default :: bool
  jf_nan :: bool
  jf_item_sep :: string
  jf_key_sep :: string

definition json_escape :: "bool \<Rightarrow> char \<Rightarrow> string" where
  "json_escape asc c =
     (let n = code c in
      if c = CHR 0x22 then [CHR 0x5C, CHR 0x22]
      else if c = CHR 0x5C then [CHR 0x5C, CHR 0x5C]
      else if n = 10 then [CHR 0x5C, CHR ''n'']
      else if n = 13 then [CHR 0x5C, CHR ''r'']
      else if n = 9 then [CHR 0x5C, CHR ''t'']
      else if n = 12 then [CHR 0x5C, CHR ''f'']
      else if n = 8 then [CHR 0x5C, CHR ''b'']
      else if 32 \<le> n \<and> (n \<le> 126 \<or> \<not> asc) then [c]
      else [CHR 0x5C, CHR ''u'', CHR ''0'', CHR ''0'', hex_digit (n div 16), hex_digit (n mod 16)])"

lemma json_escape_code [code]:
  "json_escape asc c =
     (if c = CHR 0x22 then [CHR 0x5C, CHR 0x22]
      else if c = CHR 0x5C then [CHR 0x5C, CHR 0x5C]
      else if (digit5 c \<or> digit6 c \<or> digit7 c) \<and> (\<not> digit7 c \<and> c \<noteq> CHR 0x7F \<or> \<not> asc) then [c]
      else if c = CHR 0x0A then [CHR 0x5C, CHR ''n'']
      else if c = CHR 0x0D then [CHR 0x5C, CHR ''r'']
      else if c = CHR 0x09 then [CHR 0x5C, CHR ''t'']
      else if c = CHR 0x0C then [CHR 0x5C, CHR ''f'']
      else if c = CHR 0x08 then [CHR 0x5C, CHR ''b'']
      else [CHR 0x5C, CHR ''u'', CHR ''0'', CHR ''0'', hex_digit (code c div 16), hex_digit (code c mod 16)])"
proof -
  have "code c = 10 \<longleftrightarrow> c = CHR 0x0A" "code c = 13 \<longleftrightarrow> c = CHR 0x0D" "code c = 9 \<longleftrightarrow> c = CHR 0x09"
    "code c = 12 \<longleftrightarrow> c = CHR 0x0C" "code c = 8 \<longleftrightarrow> c = CHR 0x08"
    using code_inject [of c "CHR 0x0A"] code_inject [of c "CHR 0x0D"] code_inject [of c "CHR 0x09"]
      code_inject [of c "CHR 0x0C"] code_inject [of c "CHR 0x08"] by (simp_all add: code_Char)
  then show ?thesis
    unfolding json_escape_def Let_def code_printable code_126 by (simp cong: if_cong)
qed

definition json_str :: "bool \<Rightarrow> string \<Rightarrow> string" where
  "json_str asc s = CHR 0x22 # concat (map (json_escape asc) s) @ [CHR 0x22]"

text \<open>
  \<open>sorted(...)\<close> of plain values: strings by code point, numbers by value; anything else in a list of
  two or more raises a TypeError.
\<close>

fun num_less :: "pyfloat \<Rightarrow> pyfloat \<Rightarrow> bool" where
  "num_less (Fin a) (Fin b) = (a < b)"
| "num_less NegInf x = (x \<noteq> NegInf \<and> x \<noteq> NaN)"
| "num_less x PosInf = (x \<noteq> PosInf \<and> x \<noteq> NaN)"
| "num_less _ _ = False"

definition value_less :: "pyval \<Rightarrow> pyval \<Rightarrow> bool" where
  "value_less v w =
     (case (num_val v, num_val w) of (Some a, Some b) \<Rightarrow> num_less a b | _ \<Rightarrow> False)"

fun insert_by :: "('a \<Rightarrow> pyval) \<Rightarrow> 'a \<Rightarrow> 'a list \<Rightarrow> 'a list" where
  "insert_by f v [] = [v]"
| "insert_by f v (w # ws) = (if value_less (f w) (f v) then w # insert_by f v ws else v # w # ws)"

definition comparable :: "pyval list \<Rightarrow> bool" where
  "comparable vs \<longleftrightarrow>
     length vs \<le> 1 \<or> list_all is_str vs \<or> list_all (\<lambda>v. num_val v \<noteq> None) vs"

definition py_sort_key :: "('a \<Rightarrow> pyval) \<Rightarrow> 'a list \<Rightarrow> 'a list" where
  "py_sort_key f xs =
     (if list_all (\<lambda>x. is_str (f x)) xs then sort_key (\<lambda>x. the_str (f x)) xs
      else foldr (insert_by f) xs [])"

definition py_sorted :: "pyval list \<Rightarrow> pyval list res" where
  "py_sorted vs =
     (if comparable vs then Inr (py_sort_key (\<lambda>v. v) vs)
      else Inl (PyTypeError ''values are not comparable''))"

text \<open>The text of a dictionary key; a key of another type raises a TypeError.\<close>

fun json_key :: "host \<Rightarrow> pyval \<Rightarrow> string option" where
  "json_key h VNone = Some ''null''"
| "json_key h (VBool b) = Some (if b then ''true'' else ''false'')"
| "json_key h (VInt i) = Some (show_int i)"
| "json_key h (VFloat x) = Some (h_repr h (VFloat x))"
| "json_key h (VStr s) = Some s"
| "json_key h _ = None"

text \<open>\<open>json.dumps(v, sort_keys=True, ...)\<close>\<close>

fun json_text :: "host \<Rightarrow> json_format \<Rightarrow> pyval \<Rightarrow> string res" where
  "json_text h f VNone = Inr ''null''"
| "json_text h f (VBool b) = Inr (if b then ''true'' else ''false'')"
| "json_text h f (VInt i) = Inr (show_int i)"
| "json_text h f (VFloat x) =
     (case x of
        Fin q \<Rightarrow> Inr (h_repr h (VFloat x))
      | _ \<Rightarrow> if jf_nan f then
          Inr (case x of NaN \<Rightarrow> ''NaN'' | PosInf \<Rightarrow> ''Infinity'' | _ \<Rightarrow> ''-Infinity'')
        else Inl (ValueError ''Out of range float values are not JSON compliant''))"
| "json_text h f (VStr s) = Inr (json_str (jf_ascii f) s)"
| "json_text h f (VList xs) =
     bindR (mapR (json_text h f) xs) (\<lambda>ts. Inr (''['' @ join (jf_item_sep f) ts @ '']''))"
| "json_text h f (VTuple xs) =
     bindR (mapR (json_text h f) xs) (\<lambda>ts. Inr (''['' @ join (jf_item_sep f) ts @ '']''))"
| "json_text h f (VDict d) =
     bindR (check (comparable (map fst d)) (PyTypeError ''keys are not comparable'')) (\<lambda>_.
     bindR (check (list_all (\<lambda>p. json_key h (fst p) \<noteq> None) d) (PyTypeError ''keys must be str'')) (\<lambda>_.
     bindR (mapR (\<lambda>p. bindR (json_text h f (snd p)) (\<lambda>t. Inr (fst p, t))) d)
       (\<lambda>kts. Inr (''{'' @ join (jf_item_sep f)
           (map (\<lambda>(k, t). json_str (jf_ascii f) (case json_key h k of Some s \<Rightarrow> s | None \<Rightarrow> [])
               @ jf_key_sep f @ t)
             (py_sort_key fst kts)) @ ''}''))))"
| "json_text h f v =
     (if jf_default f then Inr (json_str (jf_ascii f) (py_str (h_repr h) v))
      else Inl (PyTypeError ''Object is not JSON serializable''))"

text \<open>\<open>to_jsonable\<close> on plain values.\<close>

fun to_jsonable :: "host \<Rightarrow> pyval \<Rightarrow> pyval res" where
  "to_jsonable h (VSet xs) = bindR (mapR (to_jsonable h) xs) (\<lambda>ys. bindR (py_sorted ys) (\<lambda>zs. Inr (VList zs)))"
| "to_jsonable h (VTuple xs) = bindR (mapR (to_jsonable h) xs) (\<lambda>ys. Inr (VList ys))"
| "to_jsonable h (VList xs) = bindR (mapR (to_jsonable h) xs) (\<lambda>ys. Inr (VList ys))"
| "to_jsonable h (VDict d) =
     bindR (mapR (\<lambda>p. bindR (to_jsonable h (snd p)) (\<lambda>v. Inr (VStr (py_str (h_repr h) (fst p)), v))) d)
       (\<lambda>kvs. Inr (VDict (fold (\<lambda>(k, v) e. dset e k v) kvs [])))"
| "to_jsonable h v = Inr v"

text \<open>\<open>dumps\<close>\<close>

definition dumps :: "host \<Rightarrow> pyval \<Rightarrow> string res" where
  "dumps h v = bindR (to_jsonable h v)
     (json_text h \<lparr>jf_ascii = True, jf_default = True, jf_nan = False, jf_item_sep = '', '', jf_key_sep = '': ''\<rparr>)"

end
