(* ===== verification/EffectBinding.thy ===== *)
theory EffectBinding
  imports Host
begin

text \<open>
  Approval bindings: \<open>agent_libos/capability/effect_binding.py\<close>, with the strict wire model
  \<open>SemanticApprovalBindingV2\<close> of \<open>agent_libos/models/semantic.py\<close> that version-2 bindings go
  through. An approval binds the hash of the effect's canonical arguments; the lemmas show what
  that hash depends on and that normalisation is idempotent and fails closed.
\<close>

section \<open>The semantic binding, version 2\<close>

definition sem_text :: "pyval \<Rightarrow> nat \<Rightarrow> unit res" where
  "sem_text v max_chars =
     (case v of
        VStr s \<Rightarrow> check (s \<noteq> [] \<and> s = strip s \<and> length s \<le> max_chars \<and> CHR 0x00 \<notin> set s)
                   (ValueError ''must be non-empty, trimmed, NUL-free, and bounded'')
      | _ \<Rightarrow> Inl (ValueError ''must be non-empty, trimmed, NUL-free, and bounded''))"

definition sem_optional_text :: "pyval \<Rightarrow> nat \<Rightarrow> unit res" where
  "sem_optional_text v max_chars = (if v = VNone then Inr () else sem_text v max_chars)"

definition sem_sha256 :: "pyval \<Rightarrow> unit res" where
  "sem_sha256 v =
     (case v of
        VStr s \<Rightarrow> check (is_sha256_hex s) (ValueError ''must be a lowercase SHA-256 digest'')
      | _ \<Rightarrow> Inl (ValueError ''must be a lowercase SHA-256 digest''))"

definition sem_optional_sha256 :: "pyval \<Rightarrow> unit res" where
  "sem_optional_sha256 v = (if v = VNone then Inr () else sem_sha256 v)"

definition sem_nonnegative_int :: "pyval \<Rightarrow> unit res" where
  "sem_nonnegative_int v =
     (case v of VInt i \<Rightarrow> check (0 \<le> i) (ValueError ''must be a non-negative integer'')
      | _ \<Rightarrow> Inl (ValueError ''must be a non-negative integer''))"

definition sem_positive_int :: "pyval \<Rightarrow> unit res" where
  "sem_positive_int v =
     (case v of VInt i \<Rightarrow> check (0 < i) (ValueError ''must be a positive integer'')
      | _ \<Rightarrow> Inl (ValueError ''must be a positive integer''))"

definition sem_timestamp :: "host \<Rightarrow> pyval \<Rightarrow> int res" where
  "sem_timestamp h v =
     bindR (sem_text v 64) (\<lambda>_.
       case h_iso h (py_replace ''Z'' ''+00:00'' (the_str v)) of
         None \<Rightarrow> Inl (ValueError ''must be an ISO-8601 timestamp'')
       | Some (t, aware) \<Rightarrow> if aware then Inr t else Inl (ValueError ''must include a timezone''))"

text \<open>A full match of \<open>[a-z][a-z0-9_]*(\.[a-z][a-z0-9_]*)+\<close>.\<close>

definition action_segment :: "string \<Rightarrow> bool" where
  "action_segment w \<longleftrightarrow>
     (case w of [] \<Rightarrow> False
      | c # r \<Rightarrow> (97 \<le> code c \<and> code c \<le> 122) \<and>
          list_all (\<lambda>d. (97 \<le> code d \<and> code d \<le> 122) \<or> (48 \<le> code d \<and> code d \<le> 57) \<or> d = CHR ''_'') r)"

definition is_action :: "string \<Rightarrow> bool" where
  "is_action s \<longleftrightarrow> (let ws = splitall (CHR ''.'') s in 2 \<le> length ws \<and> list_all action_segment ws)"

definition action_catalog_v1 :: "(string \<times> string list) list" where
  "action_catalog_v1 =
     [(''filesystem.read'', [''read'']), (''git.read'', [''read'']), (''git.diff'', [''diff''])]"

definition binding_v2_fields :: "string list" where
  "binding_v2_fields =
     [''schema_version'', ''request_id'', ''request_revision'', ''pid'', ''operation_id'',
      ''effect_id'', ''authority_operation'', ''resource'', ''right'', ''canonical_args_hash'',
      ''target_state_version'', ''manifest_id'', ''manifest_sha256'', ''ceiling_sha256'',
      ''policy_epoch_id'', ''policy_epoch_sha256'', ''control_generation'', ''assessment_id'',
      ''assessment_sha256'', ''classifier_profile_sha256'', ''classifier_model_sha256'',
      ''tenant_bucket_sha256'', ''source_labels_sha256'', ''source_refs_sha256'',
      ''flow_snapshot_sha256'', ''sink_identity_sha256'', ''tool_schema_sha256'',
      ''provider_spec_sha256'', ''nonce'', ''issued_at'', ''expires_at'']"

definition seqR :: "unit res list \<Rightarrow> unit res" where
  "seqR cs = foldr (\<lambda>c r. bindR c (\<lambda>_. r)) cs (Inr ())"

text \<open>\<open>SemanticApprovalBindingV2.__post_init__\<close>, the checks in the order of the code.\<close>

definition binding_v2_check :: "host \<Rightarrow> pydict \<Rightarrow> unit res" where
  "binding_v2_check h d =
     (let f = dget d; opn = f ''authority_operation''; res = f ''resource'' in
      bindR (seqR (
        [check (f ''schema_version'' = VInt 2)
           (ValueError ''unsupported semantic approval binding schema_version'')]
        @ map (\<lambda>k. sem_text (f k) 512)
            [''request_id'', ''pid'', ''effect_id'', ''manifest_id'', ''policy_epoch_id'',
             ''assessment_id'', ''nonce'']
        @ [sem_optional_text (f ''operation_id'') 512,
           sem_nonnegative_int (f ''request_revision''),
           sem_positive_int (f ''control_generation''),
           check (is_str opn) (PyTypeError ''expected string or bytes-like object''),
           check (is_action (the_str opn) \<and> the_str opn \<in> set (map fst action_catalog_v1))
             (ValueError ''semantic binding authority_operation must be in action catalog v1''),
           sem_text res 2048,
           check (CHR ''*'' \<notin> set (the_str res)) (ValueError ''semantic binding resource must be exact''),
           check (CHR '':'' \<in> set (the_str res) \<and> fst (split1 (CHR '':'') (the_str res)) \<noteq> []
               \<and> snd (split1 (CHR '':'') (the_str res)) \<noteq> []
               \<and> fst (split1 (CHR '':'') (the_str res)) = fst (split1 (CHR ''.'') (the_str opn)))
             (ValueError ''semantic binding resource kind must match the authority operation''),
           check (is_str (f ''right'') \<and>
               (case map_of action_catalog_v1 (the_str opn) of
                  None \<Rightarrow> False | Some rs \<Rightarrow> the_str (f ''right'') \<in> set rs))
             (ValueError ''semantic binding right must be the exact operation right of the catalog'')]
        @ map (\<lambda>k. sem_sha256 (f k))
            [''canonical_args_hash'', ''manifest_sha256'', ''ceiling_sha256'', ''policy_epoch_sha256'',
             ''assessment_sha256'', ''classifier_profile_sha256'', ''classifier_model_sha256'',
             ''tenant_bucket_sha256'', ''source_labels_sha256'', ''source_refs_sha256'',
             ''flow_snapshot_sha256'']
        @ map (\<lambda>k. sem_optional_sha256 (f k))
            [''sink_identity_sha256'', ''tool_schema_sha256'', ''provider_spec_sha256'']
        @ [case f ''target_state_version'' of
             VNone \<Rightarrow> Inr ()
           | VStr s \<Rightarrow> sem_text (VStr s) 512
           | VInt i \<Rightarrow> sem_nonnegative_int (VInt i)
           | _ \<Rightarrow> Inl (PyTypeError ''target_state_version must be a string, integer, or null'')]))
      (\<lambda>_. bindR (sem_timestamp h (f ''issued_at'')) (\<lambda>issued.
           bindR (sem_timestamp h (f ''expires_at'')) (\<lambda>expires.
           bindR (check (issued < expires) (ValueError ''semantic binding expires_at must be after issued_at''))
             (\<lambda>_. check (expires - issued \<le> 300000000)
                (ValueError ''semantic binding lifetime must not exceed 300 seconds''))))))"

text \<open>\<open>from_dict\<close> followed by \<open>to_dict\<close>: exactly the fields, checked, in the order of \<open>to_dict\<close>.\<close>

definition binding_v2_normalize :: "host \<Rightarrow> pydict \<Rightarrow> pydict res" where
  "binding_v2_normalize h d =
     (if set (map fst d) \<noteq> VStr ` set binding_v2_fields then
        Inl (ValueError ''semantic approval binding fields must be exact'')
      else bindR (binding_v2_check h d)
        (\<lambda>_. Inr (sdict (map (\<lambda>k. (k, dget d k)) binding_v2_fields))))"

section \<open>Canonical effect arguments\<close>

definition transient_keys :: "string list" where
  "transient_keys =
     [''sandbox_profile'', ''capability_ids'', ''selected_capability_id'', ''matched_capability_ids'',
      ''request_id'', ''human_request_id'', ''policy'', ''policy_level'', ''policy_reason'',
      ''grant_scope'', ''working_directory'', ''workspace_root'', ''high_risk'', ''matched_rule'',
      ''rpc_method'', ''mcp_name'', ''transport'', ''risk'', ''rule_id'', ''rule_effect'', ''reason'']"

definition is_bound_key :: "string \<Rightarrow> bool" where
  "is_bound_key k \<longleftrightarrow> k \<notin> set transient_keys \<and>
     \<not> (endswith k ''_preview'' \<or> endswith k ''_observation'')"

text \<open>\<open>canonical_effect_payload\<close>; the context's keys are strings.\<close>

definition canonical_effect_payload :: "host \<Rightarrow> pydict \<Rightarrow> pyval res" where
  "canonical_effect_payload h context =
     bindR (mapR (\<lambda>p. bindR (to_jsonable h (snd p)) (\<lambda>v. Inr (fst p, v)))
         (filter (\<lambda>p. is_bound_key (the_str (fst p)))
           (sort_key (\<lambda>p. the_str (fst p)) context)))
       (\<lambda>kvs. Inr (VDict kvs))"

definition canonical_effect_hash :: "host \<Rightarrow> pydict \<Rightarrow> string res" where
  "canonical_effect_hash h context =
     bindR (canonical_effect_payload h context) (\<lambda>p.
     bindR (dumps h p) (\<lambda>t. Inr (h_sha256 h t)))"

section \<open>Normalised bindings\<close>

definition legacy_binding_fields :: "string list" where
  "legacy_binding_fields = [''canonical_args_hash'', ''effect_id'', ''target_state_version'']"

definition is_semantic_binding :: "pyval \<Rightarrow> bool" where
  "is_semantic_binding v = (case v of VDict d \<Rightarrow> dget d ''schema_version'' = VInt 2 | _ \<Rightarrow> False)"

fun exn_text :: "exn \<Rightarrow> string" where
  "exn_text (ValidationError m) = m"
| "exn_text (CapabilityDenied m) = m"
| "exn_text (NotFound m) = m"
| "exn_text (ProcessError m) = m"
| "exn_text (ProcessRevisionConflict m) = m"
| "exn_text (ResourceLimitExceeded m) = m"
| "exn_text (ValueError m) = m"
| "exn_text (PyTypeError m) = m"
| "exn_text (PyRuntimeError m) = m"
| "exn_text (PyOverflowError m) = m"
| "exn_text (SemanticTripDeferred m) = m"

text \<open>\<open>except (TypeError, ValueError) as exc: raise ValidationError(str(exc))\<close>\<close>

definition as_validation :: "'a res \<Rightarrow> 'a res" where
  "as_validation r =
     (case r of
        Inl (PyTypeError m) \<Rightarrow> Inl (ValidationError m)
      | Inl (ValueError m) \<Rightarrow> Inl (ValidationError m)
      | _ \<Rightarrow> r)"

definition normalize_approval_binding :: "host \<Rightarrow> pyval \<Rightarrow> pydict res" where
  "normalize_approval_binding h v =
     (case v of
        VDict d \<Rightarrow>
          if is_semantic_binding v then as_validation (binding_v2_normalize h d)
          else if \<not> list_all (dhas d) legacy_binding_fields then
            Inl (ValidationError ''approval binding is missing fields'')
          else if \<not> list_all (\<lambda>p. fst p \<in> VStr ` set legacy_binding_fields) d then
            Inl (ValidationError ''approval binding contains unknown fields'')
          else if \<not> is_str (dget d ''effect_id'') then
            Inl (ValidationError ''approval binding effect_id must be a string'')
          else if \<not> is_str (dget d ''canonical_args_hash'') then
            Inl (ValidationError ''approval binding canonical_args_hash must be a string'')
          else
            let version = dget d ''target_state_version'';
                effect_id = strip (the_str (dget d ''effect_id''));
                args_hash = py_lower (strip (the_str (dget d ''canonical_args_hash''))) in
            if version \<noteq> VNone \<and> (is_bool version \<or> \<not> (is_str version \<or> is_int version)) then
              Inl (ValidationError ''approval binding target_state_version must be a string, integer, or null'')
            else if \<not> startswith effect_id ''eff_'' then
              Inl (ValidationError ''approval binding requires a planned external effect id'')
            else if length args_hash \<noteq> 64 \<or> \<not> list_all is_lower_hex args_hash then
              Inl (ValidationError ''approval binding requires a canonical SHA-256 argument hash'')
            else Inr (sdict [(''effect_id'', VStr effect_id), (''canonical_args_hash'', VStr args_hash),
                             (''target_state_version'', version)])
      | _ \<Rightarrow> Inl (ValidationError ''approval binding must be an object''))"

text \<open>\<open>approval_binding_sha256\<close>\<close>

definition approval_binding_sha256 :: "host \<Rightarrow> pyval \<Rightarrow> string res" where
  "approval_binding_sha256 h v =
     bindR (normalize_approval_binding h v) (\<lambda>d.
     bindR (json_text h \<lparr>jf_ascii = False, jf_default = False, jf_nan = False, jf_item_sep = '','', jf_key_sep = '':''\<rparr>
         (VDict d))
       (\<lambda>t. Inr (h_sha256 h t)))"

section \<open>The binding of an operation chain\<close>

text \<open>
  What \<open>current_approval_effect_binding\<close> reads of the store: the reservation ids linked to an
  operation as evidence, the capability of a reservation, the capability's constraints, and the
  operations with their parents.
\<close>

record effect_store =
  es_links :: "(string \<times> string list) list"
  es_reservation_cap :: "(string \<times> string) list"
  es_cap_constraints :: "(string \<times> (string \<times> pyval) list) list"
  es_operations :: "(string \<times> string option) list"

text \<open>One evidence link of the inner loop: the raw binding it leads to, then its effect.\<close>

definition raw_binding :: "effect_store \<Rightarrow> string \<Rightarrow> pyval option" where
  "raw_binding st res =
     (case map_of (es_reservation_cap st) res of
        None \<Rightarrow> None
      | Some c \<Rightarrow>
          if c = [] then None
          else case map_of (es_cap_constraints st) c of
            None \<Rightarrow> None
          | Some cs \<Rightarrow>
              (case map_of cs ''approval_binding'' of
                 None \<Rightarrow> None
               | Some v \<Rightarrow> if v = VNone then None else Some v))"

definition binding_effect_id :: "pydict \<Rightarrow> string" where
  "binding_effect_id b = the_str (dget b ''effect_id'')"

definition link_binding ::
  "host \<Rightarrow> effect_store \<Rightarrow> string \<Rightarrow> (string \<times> pydict) list \<Rightarrow> (string \<times> pydict) list res" where
  "link_binding h st res bindings =
     (case raw_binding st res of
        None \<Rightarrow> Inr bindings
      | Some v \<Rightarrow>
          bindR (normalize_approval_binding h v) (\<lambda>b.
            case map_of bindings (binding_effect_id b) of
              Some b' \<Rightarrow>
                if b' \<noteq> b then
                  Inl (ValidationError ''external effect dispatch has conflicting approval bindings'')
                else Inr (dset bindings (binding_effect_id b) b)
            | None \<Rightarrow> Inr (dset bindings (binding_effect_id b) b)))"

fun links_bindings ::
  "host \<Rightarrow> effect_store \<Rightarrow> string list \<Rightarrow> (string \<times> pydict) list \<Rightarrow> (string \<times> pydict) list res" where
  "links_bindings h st [] bindings = Inr bindings"
| "links_bindings h st (r # rs) bindings =
     bindR (link_binding h st r bindings) (links_bindings h st rs)"

definition operation_links :: "effect_store \<Rightarrow> string \<Rightarrow> string list" where
  "operation_links st i = (case map_of (es_links st) i of None \<Rightarrow> [] | Some ls \<Rightarrow> ls)"

definition operation_parent :: "effect_store \<Rightarrow> string \<Rightarrow> string option" where
  "operation_parent st i = (case map_of (es_operations st) i of None \<Rightarrow> None | Some parent \<Rightarrow> parent)"

text \<open>The outer loop over the parent chain, which may be cyclic.\<close>

function chain_bindings ::
  "host \<Rightarrow> effect_store \<Rightarrow> string option \<Rightarrow> string list \<Rightarrow> (string \<times> pydict) list \<Rightarrow>
   (string \<times> pydict) list res" where
  "chain_bindings h st None seen bindings = Inr bindings"
| "chain_bindings h st (Some i) seen bindings =
     (if i \<in> set seen then Inr bindings
      else bindR (links_bindings h st (operation_links st i) bindings)
        (\<lambda>b. chain_bindings h st (operation_parent st i) (i # seen) b))"
  by pat_completeness auto
termination
proof (relation "measure (\<lambda>(h, st, i, seen, b). case i of None \<Rightarrow> 0
    | Some _ \<Rightarrow> Suc (card (fst ` set (es_operations st) - set seen)))", goal_cases)
  case 1
  show ?case by simp
next
  case (2 h st i seen bindings b)
  show ?case
  proof (cases "map_of (es_operations st) i")
    case None
    then show ?thesis by (simp add: operation_parent_def)
  next
    case (Some parent)
    then have "i \<in> fst ` set (es_operations st) - set seen"
      using 2(1) by (force dest: map_of_SomeD)
    then have "card (fst ` set (es_operations st) - set (i # seen))
        < card (fst ` set (es_operations st) - set seen)"
      by (intro psubset_card_mono) auto
    then show ?thesis using Some by (auto simp: operation_parent_def split: option.split)
  qed
qed

definition current_approval_effect_binding ::
  "host \<Rightarrow> effect_store \<Rightarrow> string option \<Rightarrow> pydict option res" where
  "current_approval_effect_binding h st opid =
     bindR (chain_bindings h st opid [] []) (\<lambda>bindings.
       if 1 < length bindings then
         Inl (ValidationError ''external effect dispatch has multiple approval bindings'')
       else Inr (case bindings of [] \<Rightarrow> None | b # _ \<Rightarrow> Some (snd b)))"


section \<open>Lemmas on the canonical hash\<close>

lemma the_str_inj: "is_str v \<Longrightarrow> is_str w \<Longrightarrow> the_str v = the_str w \<Longrightarrow> v = w"
  by (cases v; cases w) auto

text \<open>
  The bound entries of a context as a sorted list are determined by the map they define.
\<close>

lemma sorted_entries_unique:
  fixes d e :: pydict
  assumes "distinct (map fst d)" "distinct (map fst e)"
    and "\<forall>p \<in> set d. is_str (fst p)" "\<forall>p \<in> set e. is_str (fst p)"
    and "map_of d = map_of e"
  shows "sort_key (\<lambda>p. the_str (fst p)) d = sort_key (\<lambda>p. the_str (fst p)) e"
proof -
  let ?f = "\<lambda>p :: pyval \<times> pyval. the_str (fst p)"
  have se: "set d = set e"
    using assms(1,2,5) by (metis map_of_eq_Some_iff surj_pair set_eqI)
  have inj: "inj_on ?f (set d)"
  proof (rule inj_onI)
    fix p q assume pq: "p \<in> set d" "q \<in> set d" "?f p = ?f q"
    then have "fst p = fst q" using assms(3) the_str_inj by blast
    then show "p = q" using pq assms(1) by (metis eq_key_imp_eq_value prod.collapse)
  qed
  have dd: "distinct d" "distinct e" using assms(1,2) by (auto simp: distinct_map)
  have dm: "distinct (map ?f (sort_key ?f d))"
    using inj dd by (simp add: distinct_map)
  show ?thesis
    by (rule map_sorted_distinct_set_unique [of ?f]) (use inj dd se dm in \<open>auto simp: distinct_map\<close>)
qed

lemma canonical_payload_determined:
  assumes "distinct (map fst d)" "distinct (map fst e)"
    and "\<forall>p \<in> set d. is_str (fst p)" "\<forall>p \<in> set e. is_str (fst p)"
    and "\<And>k. is_bound_key k \<Longrightarrow> map_of d (VStr k) = map_of e (VStr k)"
  shows "canonical_effect_payload h d = canonical_effect_payload h e"
proof -
  let ?P = "\<lambda>p :: pyval \<times> pyval. is_bound_key (the_str (fst p))"
  let ?Q = "\<lambda>k. is_bound_key (the_str k)"
  have "map_of (filter ?P d) k = map_of (filter ?P e) k" for k
  proof (cases "is_str k \<and> ?Q k")
    case True
    then obtain s where "k = VStr s" "is_bound_key s" by (cases k) auto
    then show ?thesis
      using assms(5) [of s] map_of_filter_key [of ?Q d k] map_of_filter_key [of ?Q e k] by simp
  next
    case False
    then show ?thesis
      using assms(3,4) map_of_filter_key [of ?Q d k] map_of_filter_key [of ?Q e k]
        map_of_SomeD [of d k] map_of_SomeD [of e k]
      by (cases "map_of d k"; cases "map_of e k") force+
  qed
  then have "map_of (filter ?P d) = map_of (filter ?P e)" by (rule ext)
  moreover have "distinct (map fst (filter ?P d))" "distinct (map fst (filter ?P e))"
    using assms(1,2) by (simp_all add: distinct_map_filter)
  ultimately have "sort_key (\<lambda>p. the_str (fst p)) (filter ?P d) = sort_key (\<lambda>p. the_str (fst p)) (filter ?P e)"
    using assms(3,4) by (intro sorted_entries_unique) auto
  then show ?thesis by (simp add: canonical_effect_payload_def filter_sort)
qed


section \<open>Lemmas on normalisation\<close>

lemma map_of_self_map: "map_of (map (\<lambda>k. (k, f k)) ks) k = (if k \<in> set ks then Some (f k) else None)"
  by (induction ks) auto

lemma dget_field_dict:
  "dget (sdict (map (\<lambda>k. (k, f k)) ks)) k = (if k \<in> set ks then f k else VNone)"
  by (simp add: dget_sdict map_of_self_map)

lemma binding_v2_check_fields:
  assumes "\<And>k. k \<in> set binding_v2_fields \<Longrightarrow> dget d k = dget e k"
  shows "binding_v2_check h d = binding_v2_check h e"
proof -
  have "list_all (\<lambda>k. dget d k = dget e k) binding_v2_fields"
    using assms by (simp add: list_all_iff)
  note a = this [unfolded binding_v2_fields_def list.pred_inject]
  show ?thesis by (simp only: binding_v2_check_def Let_def list.map a)
qed

lemma binding_v2_normalize_idem:
  assumes "binding_v2_normalize h d = Inr e"
  shows "binding_v2_normalize h e = Inr e"
proof -
  have chk: "binding_v2_check h d = Inr ()" and e: "e = sdict (map (\<lambda>k. (k, dget d k)) binding_v2_fields)"
    using assms by (auto simp: binding_v2_normalize_def res_simps split: if_splits)
  have keys: "set (map fst e) = VStr ` set binding_v2_fields"
    by (auto simp: e sdict_def image_image)
  have g: "dget e k = dget d k" if "k \<in> set binding_v2_fields" for k
    using that by (simp add: e dget_field_dict)
  then have "binding_v2_check h e = Inr ()" using binding_v2_check_fields [of e d h] chk by simp
  moreover have "sdict (map (\<lambda>k. (k, dget e k)) binding_v2_fields) = e"
    unfolding e [symmetric] by (subst (2) e) (simp add: g cong: map_cong)
  ultimately show ?thesis using keys by (simp only: binding_v2_normalize_def) simp
qed

lemma lower_hex_char: "is_lower_hex c \<Longrightarrow> lower_char c = c \<and> \<not> py_isspace c"
  by (auto simp: is_lower_hex_def lower_char_def py_isspace_def Let_def)

lemma strip_no_space: "list_all (\<lambda>c. \<not> py_isspace c) s \<Longrightarrow> strip s = s"
proof -
  assume a: "list_all (\<lambda>c. \<not> py_isspace c) s"
  then have "dropWhile py_isspace s = s" by (cases s) auto
  moreover have "s = [] \<or> \<not> py_isspace (last s)" using a by (auto simp: list_all_iff)
  ultimately show ?thesis by (simp add: strip_def dropWhile_rev_id)
qed

lemma hex_stable: "list_all is_lower_hex s \<Longrightarrow> py_lower (strip s) = s"
  using strip_no_space [of s] lower_hex_char
  by (auto simp: list_all_iff py_lower_def intro: map_idI)

lemma as_validation_Inr [res_simps]: "as_validation r = Inr x \<longleftrightarrow> r = Inr x"
  by (cases r) (auto simp: as_validation_def split: exn.splits)

definition legacy_dict :: "string \<Rightarrow> string \<Rightarrow> pyval \<Rightarrow> pydict" where
  "legacy_dict eid hash ver =
     sdict [(''effect_id'', VStr eid), (''canonical_args_hash'', VStr hash), (''target_state_version'', ver)]"

lemma legacy_dict_simps [simp]:
  "dget (legacy_dict eid hash ver) ''effect_id'' = VStr eid"
  "dget (legacy_dict eid hash ver) ''canonical_args_hash'' = VStr hash"
  "dget (legacy_dict eid hash ver) ''target_state_version'' = ver"
  "dget (legacy_dict eid hash ver) ''schema_version'' = VNone"
  "list_all (dhas (legacy_dict eid hash ver)) legacy_binding_fields"
  "list_all (\<lambda>p. fst p \<in> VStr ` set legacy_binding_fields) (legacy_dict eid hash ver)"
  by (simp_all add: legacy_dict_def dget_sdict dhas_sdict legacy_binding_fields_def)
     (simp add: sdict_def)

lemma normalize_legacy_dict:
  assumes "startswith eid ''eff_''" "strip eid = eid" "length hash = 64" "list_all is_lower_hex hash"
    and "ver = VNone \<or> (\<not> is_bool ver \<and> (is_str ver \<or> is_int ver))"
  shows "normalize_approval_binding h (VDict (legacy_dict eid hash ver)) = Inr (legacy_dict eid hash ver)"
proof -
  have "\<not> is_semantic_binding (VDict (legacy_dict eid hash ver))" by (simp add: is_semantic_binding_def)
  then show ?thesis
    unfolding normalize_approval_binding_def
    using assms hex_stable [of hash] by (auto simp: Let_def legacy_dict_def [symmetric])
qed

text \<open>What a normalised binding is, in both formats.\<close>

lemma normalize_cases:
  assumes "normalize_approval_binding h v = Inr b"
  obtains (v2) d where "v = VDict d" "binding_v2_normalize h d = Inr b" "dget b ''schema_version'' = VInt 2"
  | (legacy) eid hash ver where
      "b = legacy_dict eid hash ver"
      "startswith eid ''eff_''" "strip eid = eid" "length hash = 64" "list_all is_lower_hex hash"
      "ver = VNone \<or> (\<not> is_bool ver \<and> (is_str ver \<or> is_int ver))"
proof -
  obtain d where d: "v = VDict d"
    using assms by (cases v) (auto simp: normalize_approval_binding_def)
  show ?thesis
  proof (cases "is_semantic_binding v")
    case True
    then have n: "binding_v2_normalize h d = Inr b"
      using assms d by (simp add: normalize_approval_binding_def res_simps)
    then have "b = sdict (map (\<lambda>k. (k, dget d k)) binding_v2_fields)"
      by (auto simp: binding_v2_normalize_def res_simps split: if_splits)
    moreover have "''schema_version'' \<in> set binding_v2_fields" by (simp add: binding_v2_fields_def)
    ultimately have "dget b ''schema_version'' = VInt 2"
      using True d by (simp add: dget_field_dict is_semantic_binding_def)
    then show ?thesis using v2 d n by blast
  next
    case False
    then show ?thesis
      using assms d legacy [of "strip (the_str (dget d ''effect_id''))"
          "py_lower (strip (the_str (dget d ''canonical_args_hash'')))" "dget d ''target_state_version''"]
      by (simp add: normalize_approval_binding_def Let_def legacy_dict_def split: if_splits)
  qed
qed

section \<open>Lemmas on the operation chain\<close>

text \<open>\<open>k\<close> is \<open>i\<close> or one of its ancestors.\<close>

inductive op_ancestor :: "effect_store \<Rightarrow> string \<Rightarrow> string \<Rightarrow> bool" for st where
  op_ancestor_self: "op_ancestor st i i"
| op_ancestor_parent: "operation_parent st i = Some j \<Longrightarrow> op_ancestor st j k \<Longrightarrow> op_ancestor st i k"

text \<open>Every link of an operation that leads to a binding is recorded under its effect.\<close>

definition recorded :: "host \<Rightarrow> effect_store \<Rightarrow> (string \<times> pydict) list \<Rightarrow> string \<Rightarrow> bool" where
  "recorded h st bs r \<longleftrightarrow> (\<forall>v. raw_binding st r = Some v \<longrightarrow>
     (\<exists>b. normalize_approval_binding h v = Inr b \<and> map_of bs (binding_effect_id b) = Some b))"

lemma recorded_mono: "recorded h st bs r \<Longrightarrow> map_of bs \<subseteq>\<^sub>m map_of bs' \<Longrightarrow> recorded h st bs' r"
  unfolding recorded_def map_le_def by (metis domI)

lemma link_binding_step:
  assumes "link_binding h st r bs = Inr bs'"
  shows "map_of bs \<subseteq>\<^sub>m map_of bs' \<and> recorded h st bs' r"
proof (cases "raw_binding st r")
  case None
  then show ?thesis using assms by (auto simp: link_binding_def recorded_def)
next
  case (Some v)
  then obtain b where b: "normalize_approval_binding h v = Inr b"
    using assms by (auto simp: link_binding_def res_simps)
  show ?thesis
    using assms Some b
    by (cases "map_of bs (binding_effect_id b)")
       (auto simp: link_binding_def recorded_def map_le_def split: if_splits)
qed

lemma links_bindings_steps:
  "links_bindings h st rs bs = Inr bs' \<Longrightarrow>
   map_of bs \<subseteq>\<^sub>m map_of bs' \<and> list_all (recorded h st bs') rs"
proof (induction h st rs bs rule: links_bindings.induct)
  case (2 h st r rs bs)
  then obtain bs1 where "link_binding h st r bs = Inr bs1" "links_bindings h st rs bs1 = Inr bs'"
    by (auto simp: res_simps)
  then show ?case
    using 2 link_binding_step [of h st r bs bs1] recorded_mono by (auto intro: map_le_trans)
qed simp

lemma chain_bindings_closed:
  assumes "chain_bindings h st opid seen bs = Inr bs'"
    and "\<forall>s \<in> set seen. list_all (recorded h st bs) (operation_links st s)"
    and "\<forall>s \<in> set seen. \<forall>p. operation_parent st s = Some p \<longrightarrow> p \<in> set seen \<or> opid = Some p"
  shows "\<exists>S. set seen \<union> set_option opid \<subseteq> S
    \<and> (\<forall>s \<in> S. \<forall>p. operation_parent st s = Some p \<longrightarrow> p \<in> S)
    \<and> (\<forall>s \<in> S. list_all (recorded h st bs') (operation_links st s))"
  using assms
proof (induction h st opid seen bs rule: chain_bindings.induct)
  case (1 h st seen bs)
  then show ?case by (intro exI [of _ "set seen"]) auto
next
  case (2 h st i seen bs)
  show ?case
  proof (cases "i \<in> set seen")
    case True
    then show ?thesis using 2 by (intro exI [of _ "set seen"]) auto
  next
    case False
    then obtain b where b: "links_bindings h st (operation_links st i) bs = Inr b"
        "chain_bindings h st (operation_parent st i) (i # seen) b = Inr bs'"
      using 2(2) by (auto simp: res_simps)
    have le: "map_of bs \<subseteq>\<^sub>m map_of b" and i: "list_all (recorded h st b) (operation_links st i)"
      using links_bindings_steps [OF b(1)] by simp_all
    have "list_all (recorded h st b) (operation_links st s)" if "s \<in> set seen" for s
      using that 2(3) recorded_mono [OF _ le] by (auto simp: list_all_iff)
    then have "\<forall>s \<in> set (i # seen). list_all (recorded h st b) (operation_links st s)"
      using i by simp
    moreover have "\<forall>s \<in> set (i # seen). \<forall>p. operation_parent st s = Some p \<longrightarrow>
        p \<in> set (i # seen) \<or> operation_parent st i = Some p"
      using 2(4) by auto
    ultimately obtain S where "set (i # seen) \<union> set_option (operation_parent st i) \<subseteq> S"
        "(\<forall>s \<in> S. \<forall>p. operation_parent st s = Some p \<longrightarrow> p \<in> S)
         \<and> (\<forall>s \<in> S. list_all (recorded h st bs') (operation_links st s))"
      using 2(1) [OF False b] by blast
    then show ?thesis by (intro exI [of _ S]) simp
  qed
qed

lemma ancestor_in_closed:
  "op_ancestor st i k \<Longrightarrow> \<forall>s \<in> S. \<forall>p. operation_parent st s = Some p \<longrightarrow> p \<in> S \<Longrightarrow> i \<in> S \<Longrightarrow> k \<in> S"
  by (induction rule: op_ancestor.induct) auto

section \<open>Properties\<close>

text \<open>
  The approved hash is a function of the bound arguments: two contexts that agree on every key
  that is neither transient nor a preview or observation have the same hash, in whatever order and
  with whatever transient entries.
\<close>

theorem approval_hash_of_bound_arguments:
  assumes "distinct (map fst d)" "distinct (map fst e)"
    and "\<forall>p \<in> set d. is_str (fst p)" "\<forall>p \<in> set e. is_str (fst p)"
    and "\<And>k. is_bound_key k \<Longrightarrow> map_of d (VStr k) = map_of e (VStr k)"
  shows "canonical_effect_hash h d = canonical_effect_hash h e"
  using canonical_payload_determined [OF assms] by (simp add: canonical_effect_hash_def)

theorem approval_hash_of_bound_arguments_witness:
  "\<forall>h. canonical_effect_hash h
       (sdict [(''path'', VStr ''/a''), (''reason'', VStr ''x''), (''right'', VStr ''read'')])
     = canonical_effect_hash h (sdict [(''right'', VStr ''read''), (''path'', VStr ''/a'')])"
proof (rule allI, rule approval_hash_of_bound_arguments)
  fix k assume "is_bound_key k"
  then have "k \<noteq> ''reason''" by (auto simp: is_bound_key_def transient_keys_def)
  then show "map_of (sdict [(''path'', VStr ''/a''), (''reason'', VStr ''x''), (''right'', VStr ''read'')]) (VStr k)
    = map_of (sdict [(''right'', VStr ''read''), (''path'', VStr ''/a'')]) (VStr k)"
    by (simp add: sdict_def)
qed (simp_all add: sdict_def)

text \<open>
  Normalising an approval binding is idempotent in both formats: what is stored is accepted
  again as it is.
\<close>

theorem normalize_binding_idem:
  assumes "normalize_approval_binding h v = Inr b"
  shows "normalize_approval_binding h (VDict b) = Inr b"
  using assms
proof (cases rule: normalize_cases)
  case (v2 d)
  then show ?thesis
    using binding_v2_normalize_idem [of h d b]
    by (simp add: normalize_approval_binding_def is_semantic_binding_def as_validation_def)
next
  case (legacy eid hash ver)
  then show ?thesis using normalize_legacy_dict by simp
qed

theorem normalize_binding_idem_witness:
  "\<forall>h. normalize_approval_binding h (VDict (legacy_dict '' eff_1'' (replicate 64 (CHR ''A'')) (VInt 3)))
       = Inr (legacy_dict ''eff_1'' (replicate 64 (CHR ''a'')) (VInt 3))
     \<and> normalize_approval_binding h (VDict (legacy_dict ''eff_1'' (replicate 64 (CHR ''a'')) (VInt 3)))
       = Inr (legacy_dict ''eff_1'' (replicate 64 (CHR ''a'')) (VInt 3))"
proof (rule allI)
  fix h
  have "normalize_approval_binding h (VDict (legacy_dict '' eff_1'' (replicate 64 (CHR ''A'')) (VInt 3)))
    = Inr (legacy_dict ''eff_1'' (replicate 64 (CHR ''a'')) (VInt 3))"
    unfolding legacy_dict_def by code_simp
  then show "normalize_approval_binding h (VDict (legacy_dict '' eff_1'' (replicate 64 (CHR ''A'')) (VInt 3)))
       = Inr (legacy_dict ''eff_1'' (replicate 64 (CHR ''a'')) (VInt 3))
     \<and> normalize_approval_binding h (VDict (legacy_dict ''eff_1'' (replicate 64 (CHR ''a'')) (VInt 3)))
       = Inr (legacy_dict ''eff_1'' (replicate 64 (CHR ''a'')) (VInt 3))"
    using normalize_binding_idem by blast
qed

text \<open>
  The binding returned for an operation is the only one its chain carries: every evidence link
  of the operation or of any ancestor (the chain may be cyclic) that leads to a raw binding leads
  to one that normalises to the returned binding; a conflict or a second effect is an error.
\<close>

theorem chain_binding_unique:
  assumes "current_approval_effect_binding h st (Some i) = Inr (Some b)"
    and "op_ancestor st i k" "r \<in> set (operation_links st k)" "raw_binding st r = Some v"
  shows "normalize_approval_binding h v = Inr b"
proof -
  obtain bs where bs: "chain_bindings h st (Some i) [] [] = Inr bs" "length bs \<le> 1" "map snd bs = [b]"
    using assms(1)
    by (auto simp: current_approval_effect_binding_def res_simps split: if_splits list.splits)
  obtain S where "i \<in> S" "\<forall>s \<in> S. \<forall>p. operation_parent st s = Some p \<longrightarrow> p \<in> S"
      "\<forall>s \<in> S. list_all (recorded h st bs) (operation_links st s)"
    using chain_bindings_closed [OF bs(1)] by auto
  then have "recorded h st bs r"
    using ancestor_in_closed [OF assms(2)] assms(3) by (auto simp: list_all_iff)
  then show ?thesis using bs(3) assms(4) by (auto simp: recorded_def map_of_eq_Some_iff dest: map_of_SomeD)
qed

definition example_store :: effect_store where
  "example_store =
     \<lparr>es_links = [(''op2'', [''res1''])], es_reservation_cap = [(''res1'', ''cap1'')],
      es_cap_constraints =
        [(''cap1'', [(''approval_binding'', VDict (legacy_dict ''eff_1'' (replicate 64 (CHR ''A'')) (VInt 3)))])],
      es_operations = [(''op1'', Some ''op2''), (''op2'', Some ''op1'')]\<rparr>"

theorem chain_binding_unique_witness:
  "\<forall>h. current_approval_effect_binding h example_store (Some ''op1'')
       = Inr (Some (legacy_dict ''eff_1'' (replicate 64 (CHR ''a'')) (VInt 3)))
     \<and> normalize_approval_binding h (VDict (legacy_dict ''eff_1'' (replicate 64 (CHR ''A'')) (VInt 3)))
       = Inr (legacy_dict ''eff_1'' (replicate 64 (CHR ''a'')) (VInt 3))"
proof (rule allI)
  fix h
  have cur: "current_approval_effect_binding h example_store (Some ''op1'')
    = Inr (Some (legacy_dict ''eff_1'' (replicate 64 (CHR ''a'')) (VInt 3)))"
    unfolding example_store_def legacy_dict_def by code_simp
  have "op_ancestor example_store ''op1'' ''op2''"
    by (rule op_ancestor_parent [OF _ op_ancestor_self]) (simp add: operation_parent_def example_store_def)
  then have "normalize_approval_binding h (VDict (legacy_dict ''eff_1'' (replicate 64 (CHR ''A'')) (VInt 3)))
    = Inr (legacy_dict ''eff_1'' (replicate 64 (CHR ''a'')) (VInt 3))"
    using chain_binding_unique [OF cur, of "''op2''" "''res1''"]
    by (simp add: operation_links_def raw_binding_def example_store_def)
  then show "current_approval_effect_binding h example_store (Some ''op1'')
       = Inr (Some (legacy_dict ''eff_1'' (replicate 64 (CHR ''a'')) (VInt 3)))
     \<and> normalize_approval_binding h (VDict (legacy_dict ''eff_1'' (replicate 64 (CHR ''A'')) (VInt 3)))
       = Inr (legacy_dict ''eff_1'' (replicate 64 (CHR ''a'')) (VInt 3))"
    using cur by simp
qed

end
