(* ===== verification/DataFlow.thy ===== *)
theory DataFlow
  imports Host "HOL-Library.Product_Lexorder"
begin

text \<open>
  The data-flow model of \<open>agent_libos/models/data_flow.py\<close>: the ordered label enumerations, data
  labels and their aggregation, source references, flow contexts, sinks, sink trust rules and
  records, decisions, release bindings and file label bindings, with the validation of each
  constructor. The lemmas show that a dictionary made from a value is read back as the same value,
  and that aggregation is an upper bound that never hides a mixed identity.
\<close>

section \<open>Enumerations\<close>

datatype data_sensitivity = SPublic | SNormal | SConfidential | SRestricted | SSecret
datatype data_trust = TUntrusted | TUnknown | TUserAsserted | TVerified | TTrusted
datatype data_integrity = IUntrusted | IUnknown | IChecked | IVerified
datatype sink_trust = SinkUntrusted | SinkConditional | SinkTrusted
datatype flow_direction = DirNone | DirIngress | DirEgress | DirBidirectional
datatype flow_outcome = OutAllow | OutDeny | OutReleaseRequired

fun sensitivity_value :: "data_sensitivity \<Rightarrow> string" where
  "sensitivity_value SPublic = ''public''"
| "sensitivity_value SNormal = ''normal''"
| "sensitivity_value SConfidential = ''confidential''"
| "sensitivity_value SRestricted = ''restricted''"
| "sensitivity_value SSecret = ''secret''"

fun trust_value :: "data_trust \<Rightarrow> string" where
  "trust_value TUntrusted = ''untrusted''"
| "trust_value TUnknown = ''unknown''"
| "trust_value TUserAsserted = ''user_asserted''"
| "trust_value TVerified = ''verified''"
| "trust_value TTrusted = ''trusted''"

fun integrity_value :: "data_integrity \<Rightarrow> string" where
  "integrity_value IUntrusted = ''untrusted''"
| "integrity_value IUnknown = ''unknown''"
| "integrity_value IChecked = ''checked''"
| "integrity_value IVerified = ''verified''"

fun sink_trust_value :: "sink_trust \<Rightarrow> string" where
  "sink_trust_value SinkUntrusted = ''untrusted''"
| "sink_trust_value SinkConditional = ''conditional''"
| "sink_trust_value SinkTrusted = ''trusted''"

fun direction_value :: "flow_direction \<Rightarrow> string" where
  "direction_value DirNone = ''none''"
| "direction_value DirIngress = ''ingress''"
| "direction_value DirEgress = ''egress''"
| "direction_value DirBidirectional = ''bidirectional''"

fun outcome_value :: "flow_outcome \<Rightarrow> string" where
  "outcome_value OutAllow = ''allow''"
| "outcome_value OutDeny = ''deny''"
| "outcome_value OutReleaseRequired = ''release_required''"

definition sensitivity_order :: "string list" where
  "sensitivity_order = [''public'', ''normal'', ''confidential'', ''restricted'', ''secret'']"

definition trust_order :: "string list" where
  "trust_order = [''untrusted'', ''unknown'', ''user_asserted'', ''verified'', ''trusted'']"

definition integrity_order :: "string list" where
  "integrity_order = [''untrusted'', ''unknown'', ''checked'', ''verified'']"

text \<open>\<open>order.index(value)\<close> of a value that occurs.\<close>

definition index_of :: "'a list \<Rightarrow> 'a \<Rightarrow> nat" where
  "index_of xs x = length (takeWhile (\<lambda>y. y \<noteq> x) xs)"

definition sensitivity_rank :: "data_sensitivity \<Rightarrow> nat" where
  "sensitivity_rank s = index_of sensitivity_order (sensitivity_value s)"

definition trust_rank :: "data_trust \<Rightarrow> nat" where
  "trust_rank s = index_of trust_order (trust_value s)"

definition integrity_rank :: "data_integrity \<Rightarrow> nat" where
  "integrity_rank s = index_of integrity_order (integrity_value s)"

text \<open>\<open>_coerce_enum\<close>: a member (a string of its value) or a value of the enumeration.\<close>

definition coerce_enum :: "'a list \<Rightarrow> ('a \<Rightarrow> string) \<Rightarrow> string \<Rightarrow> pyval \<Rightarrow> 'a res" where
  "coerce_enum members val label v =
     (case List.find (\<lambda>m. VStr (val m) = v) members of
        None \<Rightarrow> Inl (ValueError (label @ '' must be one of the enumerated values''))
      | Some m \<Rightarrow> Inr m)"

definition all_sensitivities :: "data_sensitivity list" where
  "all_sensitivities = [SPublic, SNormal, SConfidential, SRestricted, SSecret]"

definition all_trusts :: "data_trust list" where
  "all_trusts = [TUntrusted, TUnknown, TUserAsserted, TVerified, TTrusted]"

definition all_integrities :: "data_integrity list" where
  "all_integrities = [IUntrusted, IUnknown, IChecked, IVerified]"

definition sensitivity_of :: "pyval \<Rightarrow> data_sensitivity res" where
  "sensitivity_of = coerce_enum all_sensitivities sensitivity_value ''sensitivity''"

definition trust_of :: "pyval \<Rightarrow> data_trust res" where
  "trust_of = coerce_enum all_trusts trust_value ''trust_level''"

definition integrity_of :: "pyval \<Rightarrow> data_integrity res" where
  "integrity_of = coerce_enum all_integrities integrity_value ''integrity''"

definition sink_trust_of :: "pyval \<Rightarrow> sink_trust res" where
  "sink_trust_of =
     coerce_enum [SinkUntrusted, SinkConditional, SinkTrusted] sink_trust_value ''trust_level''"

definition direction_of :: "pyval \<Rightarrow> flow_direction res" where
  "direction_of =
     coerce_enum [DirNone, DirIngress, DirEgress, DirBidirectional] direction_value ''direction''"

definition outcome_of :: "pyval \<Rightarrow> flow_outcome res" where
  "outcome_of = coerce_enum [OutAllow, OutDeny, OutReleaseRequired] outcome_value ''outcome''"

text \<open>The label orders as linear orders, so that the library's lemmas on \<open>max\<close> apply.\<close>

lemmas rank_simps = sensitivity_rank_def trust_rank_def integrity_rank_def index_of_def
  sensitivity_order_def trust_order_def integrity_order_def

lemma sensitivity_rank_inject [simp]: "sensitivity_rank a = sensitivity_rank b \<longleftrightarrow> a = b"
  by (cases a; cases b) (simp_all add: rank_simps)

lemma trust_rank_inject [simp]: "trust_rank a = trust_rank b \<longleftrightarrow> a = b"
  by (cases a; cases b) (simp_all add: rank_simps)

lemma integrity_rank_inject [simp]: "integrity_rank a = integrity_rank b \<longleftrightarrow> a = b"
  by (cases a; cases b) (simp_all add: rank_simps)

instantiation data_sensitivity :: linorder
begin
definition less_eq_data_sensitivity :: "data_sensitivity \<Rightarrow> data_sensitivity \<Rightarrow> bool" where
  "less_eq_data_sensitivity a b \<longleftrightarrow> sensitivity_rank a \<le> sensitivity_rank b"
definition less_data_sensitivity :: "data_sensitivity \<Rightarrow> data_sensitivity \<Rightarrow> bool" where
  "less_data_sensitivity a b \<longleftrightarrow> sensitivity_rank a < sensitivity_rank b"
instance by standard (auto simp: less_eq_data_sensitivity_def less_data_sensitivity_def)
end

instantiation data_trust :: linorder
begin
definition less_eq_data_trust :: "data_trust \<Rightarrow> data_trust \<Rightarrow> bool" where
  "less_eq_data_trust a b \<longleftrightarrow> trust_rank a \<le> trust_rank b"
definition less_data_trust :: "data_trust \<Rightarrow> data_trust \<Rightarrow> bool" where
  "less_data_trust a b \<longleftrightarrow> trust_rank a < trust_rank b"
instance by standard (auto simp: less_eq_data_trust_def less_data_trust_def)
end

instantiation data_integrity :: linorder
begin
definition less_eq_data_integrity :: "data_integrity \<Rightarrow> data_integrity \<Rightarrow> bool" where
  "less_eq_data_integrity a b \<longleftrightarrow> integrity_rank a \<le> integrity_rank b"
definition less_data_integrity :: "data_integrity \<Rightarrow> data_integrity \<Rightarrow> bool" where
  "less_data_integrity a b \<longleftrightarrow> integrity_rank a < integrity_rank b"
instance by standard (auto simp: less_eq_data_integrity_def less_data_integrity_def)
end

section \<open>Field validators\<close>

definition has_control :: "string \<Rightarrow> bool" where
  "has_control s \<longleftrightarrow> list_ex (\<lambda>c. code c < 32 \<or> code c = 127) s"

definition require_text :: "string \<Rightarrow> pyval \<Rightarrow> string res" where
  "require_text name v =
     (case v of
        VStr s \<Rightarrow> if strip s = [] \<or> has_control s
          then Inl (ValueError (name @ '' must be a non-empty string without control characters''))
          else Inr s
      | _ \<Rightarrow> Inl (ValueError (name @ '' must be a non-empty string without control characters'')))"

definition optional_text :: "string \<Rightarrow> pyval \<Rightarrow> bool \<Rightarrow> string option res" where
  "optional_text name v allow_mixed =
     (if v = VNone then Inr None
      else bindR (require_text name v) (\<lambda>s.
        if s \<noteq> strip s \<or> 256 < length s then
          Inl (ValueError (name @ '' must be a canonical string of at most 256 characters''))
        else if s = ''mixed'' \<and> \<not> allow_mixed then
          Inl (ValueError (name @ '' must not use the reserved mixed identity''))
        else Inr (Some s)))"

definition require_sha256 :: "string \<Rightarrow> pyval \<Rightarrow> string res" where
  "require_sha256 name v =
     (case v of
        VStr s \<Rightarrow> if is_sha256_hex s then Inr s
          else Inl (ValueError (name @ '' must be a lowercase SHA-256 hex digest''))
      | _ \<Rightarrow> Inl (ValueError (name @ '' must be a lowercase SHA-256 hex digest'')))"

definition optional_sha256 :: "string \<Rightarrow> pyval \<Rightarrow> string option res" where
  "optional_sha256 name v =
     (if v = VNone then Inr None else bindR (require_sha256 name v) (\<lambda>s. Inr (Some s)))"

text \<open>\<open>not isinstance(v, bool) and isinstance(v, int) and v >= low\<close>\<close>

definition int_at_least :: "int \<Rightarrow> string \<Rightarrow> pyval \<Rightarrow> int res" where
  "int_at_least low msg v =
     (case v of VInt i \<Rightarrow> if low \<le> i then Inr i else Inl (ValueError msg)
      | _ \<Rightarrow> Inl (ValueError msg))"

text \<open>A field of a dataclass as the value of a dictionary entry.\<close>

definition opt_str :: "string option \<Rightarrow> pyval" where
  "opt_str o' = (case o' of None \<Rightarrow> VNone | Some s \<Rightarrow> VStr s)"

text \<open>\<open>for item in value\<close>\<close>

definition iter_values :: "pyval \<Rightarrow> pyval list res" where
  "iter_values v =
     (case v of
        VList xs \<Rightarrow> Inr xs
      | VTuple xs \<Rightarrow> Inr xs
      | VSet xs \<Rightarrow> Inr xs
      | VDict d \<Rightarrow> Inr (map fst d)
      | VStr s \<Rightarrow> Inr (map (\<lambda>c. VStr [c]) s)
      | VBytes s \<Rightarrow> Inr (map (\<lambda>c. VInt (int (code c))) s)
      | _ \<Rightarrow> Inl (PyTypeError ''object is not iterable''))"

text \<open>The unknown-field rejection of the \<open>from_dict\<close> methods; \<open>sorted\<close> runs first.\<close>

definition unknown_fields :: "string list \<Rightarrow> string \<Rightarrow> pydict \<Rightarrow> unit res" where
  "unknown_fields expected msg d =
     (let unknown = filter (\<lambda>k. k \<notin> VStr ` set expected) (map fst d) in
      if unknown = [] then Inr ()
      else bindR (py_sorted unknown) (\<lambda>_. Inl (ValueError msg)))"

text \<open>\<open>_canonical_sha256\<close>\<close>

definition canonical_sha256 :: "host \<Rightarrow> pyval \<Rightarrow> string res" where
  "canonical_sha256 h v =
     bindR (json_text h \<lparr>jf_ascii = True, jf_default = False, jf_nan = True, jf_item_sep = '','', jf_key_sep = '':''\<rparr> v)
       (\<lambda>t. Inr (h_sha256 h t))"

section \<open>Labels\<close>

record data_labels =
  dl_sensitivity :: data_sensitivity
  dl_trust :: data_trust
  dl_integrity :: data_integrity
  dl_origin :: "string option"
  dl_tenant :: "string option"
  dl_principal :: "string option"
  dl_declass :: "string option"

definition make_labels ::
  "pyval \<Rightarrow> pyval \<Rightarrow> pyval \<Rightarrow> pyval \<Rightarrow> pyval \<Rightarrow> pyval \<Rightarrow> pyval \<Rightarrow> data_labels res" where
  "make_labels sens tr integ origin tenant principl declass =
     bindR (sensitivity_of sens) (\<lambda>s.
     bindR (trust_of tr) (\<lambda>t.
     bindR (integrity_of integ) (\<lambda>i.
     bindR (optional_text ''origin'' origin False) (\<lambda>orig.
     bindR (optional_text ''tenant'' tenant True) (\<lambda>ten.
     bindR (optional_text ''principal'' principl True) (\<lambda>prin.
     bindR (optional_text ''declassification_authority'' declass False) (\<lambda>dec.
       Inr \<lparr>dl_sensitivity = s, dl_trust = t, dl_integrity = i, dl_origin = orig, dl_tenant = ten,
            dl_principal = prin, dl_declass = dec\<rparr>)))))))"

definition default_labels :: data_labels where
  "default_labels = \<lparr>dl_sensitivity = SNormal, dl_trust = TUnknown, dl_integrity = IUnknown,
     dl_origin = Some ''local'', dl_tenant = None, dl_principal = None, dl_declass = None\<rparr>"

definition is_mixed_identity :: "data_labels \<Rightarrow> bool" where
  "is_mixed_identity l \<longleftrightarrow> dl_tenant l = Some ''mixed'' \<or> dl_principal l = Some ''mixed''"

definition labels_to_dict :: "data_labels \<Rightarrow> pydict" where
  "labels_to_dict l = sdict
     [(''sensitivity'', VStr (sensitivity_value (dl_sensitivity l))),
      (''trust_level'', VStr (trust_value (dl_trust l))),
      (''integrity'', VStr (integrity_value (dl_integrity l))),
      (''origin'', opt_str (dl_origin l)), (''tenant'', opt_str (dl_tenant l)),
      (''principal'', opt_str (dl_principal l)),
      (''declassification_authority'', opt_str (dl_declass l))]"

definition label_fields :: "string list" where
  "label_fields = [''sensitivity'', ''trust_level'', ''integrity'', ''origin'', ''tenant'',
     ''principal'', ''declassification_authority'']"

definition labels_from_dict :: "pyval \<Rightarrow> data_labels res" where
  "labels_from_dict v =
     (case v of
        VDict d \<Rightarrow>
          bindR (unknown_fields label_fields ''data labels contain unknown fields'' d) (\<lambda>_.
            make_labels (dget_or d ''sensitivity'' (VStr ''normal''))
              (dget_or d ''trust_level'' (VStr ''unknown'')) (dget_or d ''integrity'' (VStr ''unknown''))
              (dget_or d ''origin'' (VStr ''local'')) (dget d ''tenant'') (dget d ''principal'')
              (dget d ''declassification_authority''))
      | _ \<Rightarrow> Inl (ValueError ''data labels must be an object''))"

text \<open>\<open>max(xs, key=f)\<close> and \<open>min(xs, key=f)\<close> of a non-empty sequence: the first extreme element.\<close>

definition max_by :: "('a \<Rightarrow> 'k::linorder) \<Rightarrow> 'a \<Rightarrow> 'a list \<Rightarrow> 'a" where
  "max_by f x xs = foldl (\<lambda>b y. if f b < f y then y else b) x xs"

definition min_by :: "('a \<Rightarrow> 'k::linorder) \<Rightarrow> 'a \<Rightarrow> 'a list \<Rightarrow> 'a" where
  "min_by f x xs = foldl (\<lambda>b y. if f y < f b then y else b) x xs"

definition merge_identity :: "string option list \<Rightarrow> string option \<Rightarrow> string option" where
  "merge_identity vs mixed =
     (case sorted_set (map the (filter (\<lambda>v. v \<noteq> None \<and> v \<noteq> Some []) vs)) of
        [] \<Rightarrow> None
      | [s] \<Rightarrow> Some s
      | _ \<Rightarrow> mixed)"

definition merge_declassification :: "string option list \<Rightarrow> string option" where
  "merge_declassification vs =
     (case vs of
        [] \<Rightarrow> None
      | None # _ \<Rightarrow> None
      | Some a # _ \<Rightarrow> if list_all (\<lambda>v. v = Some a) vs then Some a else None)"

definition aggregate_labels :: "data_labels list \<Rightarrow> data_labels res" where
  "aggregate_labels ls =
     (case ls of
        [] \<Rightarrow> Inr default_labels
      | l # r \<Rightarrow> make_labels
          (VStr (sensitivity_value (dl_sensitivity (max_by (\<lambda>x. sensitivity_rank (dl_sensitivity x)) l r))))
          (VStr (trust_value (dl_trust (min_by (\<lambda>x. trust_rank (dl_trust x)) l r))))
          (VStr (integrity_value (dl_integrity (min_by (\<lambda>x. integrity_rank (dl_integrity x)) l r))))
          (opt_str (merge_identity (map dl_origin ls) (Some ''derived'')))
          (opt_str (merge_identity (map dl_tenant ls) (Some ''mixed'')))
          (opt_str (merge_identity (map dl_principal ls) (Some ''mixed'')))
          (opt_str (merge_declassification (map dl_declass ls))))"

definition labels_hash :: "host \<Rightarrow> data_labels \<Rightarrow> string res" where
  "labels_hash h l = canonical_sha256 h (VDict (labels_to_dict l))"

section \<open>Source references and flow contexts\<close>

record source_ref =
  sr_oid :: string
  sr_version :: int
  sr_sha :: string

definition make_source_ref :: "pyval \<Rightarrow> pyval \<Rightarrow> pyval \<Rightarrow> source_ref res" where
  "make_source_ref oid ver sha =
     bindR (require_text ''source oid'' oid) (\<lambda>i.
     bindR (int_at_least 1 ''source version must be a positive integer'' ver) (\<lambda>v.
     bindR (require_sha256 ''source content_sha256'' sha) (\<lambda>s.
       Inr \<lparr>sr_oid = i, sr_version = v, sr_sha = s\<rparr>)))"

definition source_ref_to_dict :: "source_ref \<Rightarrow> pydict" where
  "source_ref_to_dict r = sdict
     [(''oid'', VStr (sr_oid r)), (''version'', VInt (sr_version r)), (''content_sha256'', VStr (sr_sha r))]"

definition source_ref_from_dict :: "pyval \<Rightarrow> source_ref res" where
  "source_ref_from_dict v =
     (case v of
        VDict d \<Rightarrow>
          if set (map fst d) \<noteq> VStr ` {''oid'', ''version'', ''content_sha256''} then
            Inl (ValueError ''data source ref must contain only oid, version, and content_sha256'')
          else make_source_ref (dget d ''oid'') (dget d ''version'') (dget d ''content_sha256'')
      | _ \<Rightarrow> Inl (ValueError ''data source ref must be an object''))"

definition ref_key :: "source_ref \<Rightarrow> string \<times> int \<times> string" where
  "ref_key r = (sr_oid r, sr_version r, sr_sha r)"

text \<open>\<open>_normalize_source_refs\<close>: a dict by key, then the values in the order of the keys.\<close>

definition sort_refs :: "source_ref list \<Rightarrow> source_ref list" where
  "sort_refs rs = map snd (sort_key fst (fold (\<lambda>r d. dset d (ref_key r) r) rs []))"

definition normalize_source_refs :: "pyval \<Rightarrow> source_ref list res" where
  "normalize_source_refs v =
     (case v of
        VStr _ \<Rightarrow> Inl (ValueError ''source_refs must be a sequence'')
      | VBytes _ \<Rightarrow> Inl (ValueError ''source_refs must be a sequence'')
      | _ \<Rightarrow> bindR (iter_values v) (\<lambda>vs.
               bindR (mapR source_ref_from_dict vs) (\<lambda>rs. Inr (sort_refs rs))))"

record flow_context =
  fc_labels :: data_labels
  fc_refs :: "source_ref list"
  fc_mat :: "string option"

definition make_context :: "data_labels \<Rightarrow> source_ref list \<Rightarrow> pyval \<Rightarrow> flow_context res" where
  "make_context l rs mat =
     bindR (optional_text ''materialization_id'' mat False) (\<lambda>m.
       Inr \<lparr>fc_labels = l, fc_refs = sort_refs rs, fc_mat = m\<rparr>)"

definition aggregate_contexts :: "flow_context list \<Rightarrow> flow_context res" where
  "aggregate_contexts cs =
     bindR (aggregate_labels (map fc_labels cs)) (\<lambda>l.
       make_context l (sort_refs (concat (map fc_refs cs))) VNone)"

definition source_refs_hash :: "host \<Rightarrow> flow_context \<Rightarrow> string res" where
  "source_refs_hash h c = canonical_sha256 h (VList (map (\<lambda>r. VDict (source_ref_to_dict r)) (fc_refs c)))"

definition context_to_dict :: "flow_context \<Rightarrow> pydict" where
  "context_to_dict c = sdict
     [(''labels'', VDict (labels_to_dict (fc_labels c))),
      (''source_refs'', VList (map (\<lambda>r. VDict (source_ref_to_dict r)) (fc_refs c))),
      (''materialization_id'', opt_str (fc_mat c))]"

definition context_from_dict :: "pyval \<Rightarrow> flow_context res" where
  "context_from_dict v =
     (case v of
        VDict d \<Rightarrow>
          bindR (unknown_fields [''labels'', ''source_refs'', ''materialization_id'']
              ''data-flow context contains unknown fields'' d) (\<lambda>_.
          bindR (labels_from_dict (py_or (dget d ''labels'') (VDict []))) (\<lambda>l.
          bindR (iter_values (py_or (dget d ''source_refs'') (VTuple []))) (\<lambda>vs.
          bindR (mapR source_ref_from_dict vs) (\<lambda>rs.
            make_context l rs (dget d ''materialization_id'')))))
      | _ \<Rightarrow> Inl (ValueError ''data-flow context must be an object''))"

section \<open>Sinks and sink trust\<close>

record data_sink =
  ds_identity :: string
  ds_identity_sha :: "string option"
  ds_trust_identity :: "string option"
  ds_trust_sha :: "string option"

definition make_sink :: "pyval \<Rightarrow> pyval \<Rightarrow> pyval \<Rightarrow> pyval \<Rightarrow> data_sink res" where
  "make_sink ident sha tident tsha =
     bindR (require_text ''sink identity'' ident) (\<lambda>i.
       if CHR ''*'' \<in> set i then
         Inl (ValueError ''concrete sink identity must not contain wildcards'')
       else if i \<noteq> strip i \<or> CHR '':'' \<notin> set i then
         Inl (ValueError ''sink identity must be a canonical namespaced value'')
       else if fst (split1 (CHR '':'') i) = [] \<or> snd (split1 (CHR '':'') i) = [] then
         Inl (ValueError ''sink identity must include a non-empty namespace and target'')
       else
         bindR (optional_sha256 ''sink identity_sha256'' sha) (\<lambda>s.
         bindR (if tident = VNone then Inr None
                else bindR (require_text ''sink trust_identity'' tident) (\<lambda>t.
                  if CHR ''*'' \<in> set t \<or> CHR '':'' \<notin> set t then
                    Inl (ValueError ''sink trust_identity must be a concrete canonical namespaced value'')
                  else Inr (Some t))) (\<lambda>t.
         bindR (optional_sha256 ''sink trust_identity_sha256'' tsha) (\<lambda>ts.
           Inr \<lparr>ds_identity = i, ds_identity_sha = s, ds_trust_identity = t, ds_trust_sha = ts\<rparr>))))"

text \<open>\<open>trust_identity or identity\<close>: an empty string falls through as None does.\<close>

definition registry_identity :: "data_sink \<Rightarrow> string" where
  "registry_identity k =
     (case ds_trust_identity k of Some t \<Rightarrow> if t = [] then ds_identity k else t | None \<Rightarrow> ds_identity k)"

definition registry_identity_sha :: "data_sink \<Rightarrow> string option" where
  "registry_identity_sha k =
     (case ds_trust_sha k of Some t \<Rightarrow> if t = [] then ds_identity_sha k else Some t
      | None \<Rightarrow> ds_identity_sha k)"

definition validate_sink_pattern :: "pyval \<Rightarrow> string res" where
  "validate_sink_pattern v =
     bindR (require_text ''sink pattern'' v) (\<lambda>p.
       if p \<noteq> strip p \<or> CHR '':'' \<notin> set p \<or> CHR 0x00 \<in> set p then
         Inl (ValueError ''sink pattern must be a canonical namespaced value'')
       else if 1 < count_list p (CHR ''*'') \<or> (CHR ''*'' \<in> set p \<and> \<not> endswith p ''*'') then
         Inl (ValueError ''sink pattern only supports one trailing wildcard'')
       else if fst (split1 (CHR '':'') p) = [] \<or> snd (split1 (CHR '':'') p) = [] then
         Inl (ValueError ''sink pattern must include a non-empty namespace and target'')
       else Inr p)"

text \<open>\<open>sink.startswith(pattern[:-1]) if pattern.endswith("*") else sink == pattern\<close>\<close>

definition pattern_accepts :: "string \<Rightarrow> string \<Rightarrow> bool" where
  "pattern_accepts p sink =
     (if endswith p ''*'' then startswith sink (butlast p) else sink = p)"

definition sink_pattern_matches :: "string \<Rightarrow> string \<Rightarrow> bool res" where
  "sink_pattern_matches p sink =
     bindR (validate_sink_pattern (VStr p)) (\<lambda>_.
     bindR (make_sink (VStr sink) VNone VNone VNone) (\<lambda>_. Inr (pattern_accepts p sink)))"

fun clearance_identities :: "string \<Rightarrow> pyval list \<Rightarrow> string list \<Rightarrow> string list res" where
  "clearance_identities name [] acc = Inr (sort acc)"
| "clearance_identities name (v # vs) acc =
     bindR (require_text name v) (\<lambda>s.
       if s \<in> {''*'', ''mixed''} then
         Inl (ValueError (name @ '' must explicitly enumerate identities''))
       else clearance_identities name vs (if s \<in> set acc then acc else acc @ [s]))"

definition normalize_clearance :: "string \<Rightarrow> pyval \<Rightarrow> string list res" where
  "normalize_clearance name v =
     (if is_str v then Inl (ValueError (name @ '' must be a sequence, not a string''))
      else bindR (iter_values v) (\<lambda>vs. clearance_identities name vs []))"

definition provider_backed_prefixes :: "string list" where
  "provider_backed_prefixes = [''llm:'', ''jsonrpc:'', ''mcp:'', ''mcp_stdio:'', ''shell:'', ''pty:'']"

record sink_rule =
  su_pattern :: string
  su_trust :: sink_trust
  su_max :: data_sensitivity
  su_tenants :: "string list"
  su_principals :: "string list"
  su_sha :: "string option"

definition make_sink_rule ::
  "pyval \<Rightarrow> pyval \<Rightarrow> pyval \<Rightarrow> pyval \<Rightarrow> pyval \<Rightarrow> pyval \<Rightarrow> sink_rule res" where
  "make_sink_rule pattern tr maxs tenants principals sha =
     bindR (validate_sink_pattern pattern) (\<lambda>p.
     bindR (sink_trust_of tr) (\<lambda>t.
     bindR (sensitivity_of maxs) (\<lambda>m.
     bindR (normalize_clearance ''tenants'' tenants) (\<lambda>ts.
     bindR (normalize_clearance ''principals'' principals) (\<lambda>ps.
     bindR (optional_sha256 ''identity_sha256'' sha) (\<lambda>s.
       if t = SinkUntrusted \<and> sensitivity_rank SNormal < sensitivity_rank m then
         Inl (ValueError ''untrusted sink max_sensitivity must not exceed normal'')
       else if list_ex (startswith p) provider_backed_prefixes
           \<and> sensitivity_rank SNormal < sensitivity_rank m \<and> s = None then
         Inl (ValueError ''provider-backed sink clearance above normal requires identity_sha256'')
       else Inr \<lparr>su_pattern = p, su_trust = t, su_max = m, su_tenants = ts, su_principals = ps,
                 su_sha = s\<rparr>))))))"

definition rule_to_dict :: "sink_rule \<Rightarrow> pydict" where
  "rule_to_dict r = sdict
     [(''pattern'', VStr (su_pattern r)), (''trust_level'', VStr (sink_trust_value (su_trust r))),
      (''max_sensitivity'', VStr (sensitivity_value (su_max r))),
      (''tenants'', VList (map VStr (su_tenants r))),
      (''principals'', VList (map VStr (su_principals r))), (''identity_sha256'', opt_str (su_sha r))]"

definition rule_hash :: "host \<Rightarrow> sink_rule \<Rightarrow> string res" where
  "rule_hash h r = canonical_sha256 h (VDict (sdict [(''schema_version'', VInt 1)] @ rule_to_dict r))"

record sink_spec =
  ss_id :: string
  ss_rule :: sink_rule
  ss_generation :: int
  ss_created_by :: string
  ss_created_at :: string
  ss_hash :: string
  ss_active :: bool
  ss_deactivated :: "string option"

text \<open>
  \<open>SinkTrustSpec\<close> repeats the fields of a rule; the record keeps them as one rule. The stored hash
  is recomputed, a given one has to agree.
\<close>

definition make_sink_spec ::
  "host \<Rightarrow> pyval \<Rightarrow> sink_rule \<Rightarrow> pyval \<Rightarrow> pyval \<Rightarrow> pyval \<Rightarrow> pyval \<Rightarrow> pyval \<Rightarrow> pyval \<Rightarrow> pyval \<Rightarrow> sink_spec res" where
  "make_sink_spec h tid rl gen by created hash act deact ver =
     bindR (require_text ''trust_id'' tid) (\<lambda>i.
     bindR (require_text ''created_by'' by) (\<lambda>b.
     bindR (require_text ''created_at'' created) (\<lambda>a.
     bindR (check (ver = VInt 1) (ValueError ''unsupported sink trust schema_version'')) (\<lambda>_.
     bindR (int_at_least 1 ''sink trust generation must be a positive integer'' gen) (\<lambda>g.
     bindR (check (is_bool act) (ValueError ''sink trust active must be boolean'')) (\<lambda>_.
     bindR (optional_text ''deactivated_at'' deact False) (\<lambda>d.
     bindR (check (\<not> (act = VBool True \<and> d \<noteq> None))
       (ValueError ''active sink trust record cannot have deactivated_at'')) (\<lambda>_.
     bindR (check (\<not> (act = VBool False \<and> d = None))
       (ValueError ''inactive sink trust record requires deactivated_at'')) (\<lambda>_.
     bindR (make_sink_rule (VStr (su_pattern rl)) (VStr (sink_trust_value (su_trust rl)))
         (VStr (sensitivity_value (su_max rl))) (VTuple (map VStr (su_tenants rl)))
         (VTuple (map VStr (su_principals rl))) (opt_str (su_sha rl))) (\<lambda>rule'.
     bindR (rule_hash h rule') (\<lambda>actual.
     bindR (check (\<not> (truthy hash \<and> hash \<noteq> VStr actual))
       (ValueError ''sink trust spec_hash does not match the canonical spec'')) (\<lambda>_.
       Inr \<lparr>ss_id = i, ss_rule = rule', ss_generation = g, ss_created_by = b, ss_created_at = a,
            ss_hash = actual, ss_active = (act = VBool True), ss_deactivated = d\<rparr>))))))))))))"

section \<open>Decisions, release bindings and file labels\<close>

record flow_decision =
  fd_id :: string
  fd_pid :: string
  fd_sink :: string
  fd_direction :: flow_direction
  fd_outcome :: flow_outcome
  fd_reason :: string
  fd_labels :: data_labels
  fd_refs :: "source_ref list"
  fd_payload :: string
  fd_generation :: int
  fd_created_at :: string
  fd_trust_id :: "string option"
  fd_trust_hash :: "string option"
  fd_release :: "string option"

text \<open>\<open>DataFlowDecision.__post_init__\<close> on a candidate record.\<close>

definition make_flow_decision :: "flow_decision \<Rightarrow> flow_decision res" where
  "make_flow_decision c =
     bindR (mapR (\<lambda>(n, s). require_text n (VStr s))
        [(''decision_id'', fd_id c), (''pid'', fd_pid c), (''sink'', fd_sink c),
         (''reason'', fd_reason c), (''created_at'', fd_created_at c)]) (\<lambda>_.
     bindR (check (\<not> (1024 < length (fd_reason c) \<or> CHR 0x00 \<in> set (fd_reason c)))
       (ValueError ''data-flow decision reason must be at most 1024 characters without NUL'')) (\<lambda>_.
     bindR (make_sink (VStr (fd_sink c)) VNone VNone VNone) (\<lambda>_.
     bindR (require_sha256 ''payload_hash'' (VStr (fd_payload c))) (\<lambda>_.
     bindR (check (0 \<le> fd_generation c) (ValueError ''registry_generation must be a non-negative integer'')) (\<lambda>_.
     bindR (optional_text ''trust_id'' (opt_str (fd_trust_id c)) False) (\<lambda>_.
     bindR (optional_sha256 ''trust_hash'' (opt_str (fd_trust_hash c))) (\<lambda>_.
     bindR (optional_text ''release_capability_id'' (opt_str (fd_release c)) False) (\<lambda>_.
     bindR (check ((fd_trust_id c = None) = (fd_trust_hash c = None))
       (ValueError ''trust_id and trust_hash must either both be set or both be absent'')) (\<lambda>_.
       Inr (c\<lparr>fd_refs := sort_refs (fd_refs c)\<rparr>))))))))))"

record release_binding =
  rb_sink :: string
  rb_sink_sha :: "string option"
  rb_trust_id :: string
  rb_trust_hash :: string
  rb_generation :: int
  rb_manifest :: string
  rb_labels :: string
  rb_refs :: string
  rb_payload :: string
  rb_operation :: string
  rb_version :: pyval

definition release_fields :: "string list" where
  "release_fields =
     [''schema_version'', ''sink'', ''sink_identity_sha256'', ''trust_id'', ''trust_hash'',
      ''registry_generation'', ''manifest_hash'', ''labels_hash'', ''source_refs_hash'',
      ''payload_hash'', ''operation'', ''target_state_version'']"

text \<open>The constructor of \<open>DataReleaseBinding\<close> on the fields of a dictionary.\<close>

definition make_release_binding :: "(string \<Rightarrow> pyval) \<Rightarrow> release_binding res" where
  "make_release_binding f =
     bindR (check (f ''schema_version'' = VInt 1)
       (ValueError ''unsupported data release binding schema_version'')) (\<lambda>_.
     bindR (make_sink (f ''sink'') (f ''sink_identity_sha256'') VNone VNone) (\<lambda>k.
     bindR (require_text ''trust_id'' (f ''trust_id'')) (\<lambda>tid.
     bindR (require_text ''operation'' (f ''operation'')) (\<lambda>opn.
     bindR (require_sha256 ''trust_hash'' (f ''trust_hash'')) (\<lambda>th.
     bindR (require_sha256 ''manifest_hash'' (f ''manifest_hash'')) (\<lambda>mh.
     bindR (require_sha256 ''labels_hash'' (f ''labels_hash'')) (\<lambda>lh.
     bindR (require_sha256 ''source_refs_hash'' (f ''source_refs_hash'')) (\<lambda>sh.
     bindR (require_sha256 ''payload_hash'' (f ''payload_hash'')) (\<lambda>ph.
     bindR (int_at_least 0 ''registry_generation must be a non-negative integer''
        (f ''registry_generation'')) (\<lambda>g.
     let ver = f ''target_state_version'' in
     if ver \<noteq> VNone \<and> (is_bool ver \<or> \<not> (is_str ver \<or> is_int ver)) then
       Inl (ValueError ''target_state_version must be a string, integer, or null'')
     else Inr \<lparr>rb_sink = ds_identity k, rb_sink_sha = ds_identity_sha k, rb_trust_id = tid,
        rb_trust_hash = th, rb_generation = g, rb_manifest = mh, rb_labels = lh, rb_refs = sh,
        rb_payload = ph, rb_operation = opn, rb_version = ver\<rparr>))))))))))"

definition release_to_dict :: "release_binding \<Rightarrow> pydict" where
  "release_to_dict b = sdict
     [(''schema_version'', VInt 1), (''sink'', VStr (rb_sink b)),
      (''sink_identity_sha256'', opt_str (rb_sink_sha b)), (''trust_id'', VStr (rb_trust_id b)),
      (''trust_hash'', VStr (rb_trust_hash b)), (''registry_generation'', VInt (rb_generation b)),
      (''manifest_hash'', VStr (rb_manifest b)), (''labels_hash'', VStr (rb_labels b)),
      (''source_refs_hash'', VStr (rb_refs b)), (''payload_hash'', VStr (rb_payload b)),
      (''operation'', VStr (rb_operation b)), (''target_state_version'', rb_version b)]"

definition release_from_dict :: "pyval \<Rightarrow> release_binding res" where
  "release_from_dict v =
     (case v of
        VDict d \<Rightarrow>
          bindR (unknown_fields release_fields ''data release binding contains unknown fields'' d) (\<lambda>_.
            make_release_binding ((dget d)(''schema_version'' := dget_or d ''schema_version'' (VInt 1))))
      | _ \<Rightarrow> Inl (ValueError ''data release binding must be an object''))"

text \<open>\<open>DataReleaseBinding.normalize\<close>\<close>

definition release_normalize :: "pyval \<Rightarrow> pydict res" where
  "release_normalize v = bindR (release_from_dict v) (\<lambda>b. Inr (release_to_dict b))"

record file_label =
  fl_id :: string
  fl_path :: string
  fl_sha :: "string option"
  fl_labels :: data_labels
  fl_refs :: "source_ref list"
  fl_generation :: int
  fl_tombstoned :: bool
  fl_active :: bool
  fl_created_by :: string
  fl_created_at :: string
  fl_superseded :: "string option"

text \<open>\<open>FileLabelBinding.__post_init__\<close> on a candidate record.\<close>

definition make_file_label :: "file_label \<Rightarrow> file_label res" where
  "make_file_label c =
     bindR (mapR (\<lambda>(n, s). require_text n (VStr s))
        [(''binding_id'', fl_id c), (''normalized_path'', fl_path c),
         (''created_by'', fl_created_by c), (''created_at'', fl_created_at c)]) (\<lambda>_.
     bindR (check (CHR 0x00 \<notin> set (fl_path c)) (ValueError ''normalized_path must not contain NUL'')) (\<lambda>_.
     bindR (optional_sha256 ''content_sha256'' (opt_str (fl_sha c))) (\<lambda>_.
     bindR (check (1 \<le> fl_generation c) (ValueError ''file label generation must be a positive integer'')) (\<lambda>_.
     bindR (check (\<not> (fl_tombstoned c \<and> fl_sha c \<noteq> None))
       (ValueError ''tombstoned file label binding must not carry a content hash'')) (\<lambda>_.
     bindR (check (\<not> (\<not> fl_tombstoned c \<and> fl_sha c = None))
       (ValueError ''live file label binding requires a content hash'')) (\<lambda>_.
     bindR (optional_text ''superseded_at'' (opt_str (fl_superseded c)) False) (\<lambda>_.
     bindR (check (\<not> (fl_active c \<and> fl_superseded c \<noteq> None))
       (ValueError ''active file label binding cannot have superseded_at'')) (\<lambda>_.
     bindR (check (\<not> (\<not> fl_active c \<and> fl_superseded c = None))
       (ValueError ''inactive file label binding requires superseded_at'')) (\<lambda>_.
       Inr (c\<lparr>fl_refs := sort_refs (fl_refs c)\<rparr>))))))))))"

section \<open>Lemmas on the validators\<close>

definition text_ok :: "bool \<Rightarrow> string \<Rightarrow> bool" where
  "text_ok allow_mixed s \<longleftrightarrow> s \<noteq> [] \<and> \<not> has_control s \<and> s = strip s \<and> length s \<le> 256
     \<and> (s = ''mixed'' \<longrightarrow> allow_mixed)"

definition opt_ok :: "bool \<Rightarrow> string option \<Rightarrow> bool" where
  "opt_ok allow_mixed o' \<longleftrightarrow> (case o' of None \<Rightarrow> True | Some s \<Rightarrow> text_ok allow_mixed s)"

definition labels_wf :: "data_labels \<Rightarrow> bool" where
  "labels_wf l \<longleftrightarrow> opt_ok False (dl_origin l) \<and> opt_ok True (dl_tenant l)
     \<and> opt_ok True (dl_principal l) \<and> opt_ok False (dl_declass l)"

lemma opt_str_simps [simp]:
  "opt_str None = VNone" "opt_str (Some s) = VStr s"
  "opt_str o' = VNone \<longleftrightarrow> o' = None" "VNone = opt_str o' \<longleftrightarrow> o' = None" "opt_str o' = VStr s \<longleftrightarrow> o' = Some s"
  by (simp_all add: opt_str_def split: option.split)

lemma opt_str_inject [simp]: "opt_str a = opt_str b \<longleftrightarrow> a = b"
  by (cases a; cases b) simp_all

lemma require_text_Inr [res_simps]:
  "require_text n v = Inr s \<longleftrightarrow> v = VStr s \<and> strip s \<noteq> [] \<and> \<not> has_control s"
  by (cases v) (auto simp: require_text_def)

lemma optional_text_Inr [res_simps]: "optional_text n v m = Inr o' \<longleftrightarrow> v = opt_str o' \<and> opt_ok m o'"
  by (cases v; cases o') (auto simp: optional_text_def opt_ok_def text_ok_def require_text_def)

lemma require_sha256_Inr [res_simps]: "require_sha256 n v = Inr s \<longleftrightarrow> v = VStr s \<and> is_sha256_hex s"
  by (cases v) (auto simp: require_sha256_def)

lemma optional_sha256_Inr [res_simps]:
  "optional_sha256 n v = Inr o' \<longleftrightarrow> v = opt_str o' \<and> (\<forall>s. o' = Some s \<longrightarrow> is_sha256_hex s)"
  by (cases v; cases o') (auto simp: optional_sha256_def require_sha256_def)

lemma int_at_least_Inr [res_simps]: "int_at_least low m v = Inr i \<longleftrightarrow> v = VInt i \<and> low \<le> i"
  by (cases v) (auto simp: int_at_least_def)

lemma coerce_enum_Inr: "coerce_enum ms val n v = Inr m \<Longrightarrow> v = VStr (val m)"
  by (auto simp: coerce_enum_def split: option.splits dest: find_SomeD)

lemma sensitivity_of_value [simp]: "sensitivity_of (VStr (sensitivity_value s)) = Inr s"
  by (cases s) (simp_all add: sensitivity_of_def coerce_enum_def all_sensitivities_def)

lemma trust_of_value [simp]: "trust_of (VStr (trust_value t)) = Inr t"
  by (cases t) (simp_all add: trust_of_def coerce_enum_def all_trusts_def)

lemma integrity_of_value [simp]: "integrity_of (VStr (integrity_value i)) = Inr i"
  by (cases i) (simp_all add: integrity_of_def coerce_enum_def all_integrities_def)

lemma sink_trust_of_value [simp]: "sink_trust_of (VStr (sink_trust_value k)) = Inr k"
  by (cases k) (simp_all add: sink_trust_of_def coerce_enum_def)

lemma coerce_Inr_value:
  "sensitivity_of v = Inr s \<Longrightarrow> v = VStr (sensitivity_value s)"
  "trust_of v = Inr t \<Longrightarrow> v = VStr (trust_value t)"
  "integrity_of v = Inr i \<Longrightarrow> v = VStr (integrity_value i)"
  "sink_trust_of v = Inr k \<Longrightarrow> v = VStr (sink_trust_value k)"
  by (simp_all add: sensitivity_of_def trust_of_def integrity_of_def sink_trust_of_def coerce_enum_Inr)

text \<open>The constructor on the values of well-formed labels.\<close>

lemma make_labels_values:
  "make_labels (VStr (sensitivity_value s)) (VStr (trust_value t)) (VStr (integrity_value i))
     (opt_str orig) (opt_str ten) (opt_str prin) (opt_str dec) = Inr l \<longleftrightarrow>
   l = \<lparr>dl_sensitivity = s, dl_trust = t, dl_integrity = i, dl_origin = orig, dl_tenant = ten,
        dl_principal = prin, dl_declass = dec\<rparr> \<and> labels_wf l"
  by (simp add: make_labels_def res_simps) (auto simp: labels_wf_def)

lemma make_labels_wf: "make_labels s t i orig ten prin dec = Inr l \<Longrightarrow> labels_wf l"
  by (auto simp: make_labels_def res_simps labels_wf_def)

section \<open>Lemmas on aggregation\<close>

lemma max_by_props:
  "max_by f x xs \<in> set (x # xs) \<and> (\<forall>y \<in> set (x # xs). f y \<le> f (max_by f x xs))"
  unfolding max_by_def
proof (induction xs arbitrary: x)
  case (Cons y ys)
  show ?case
  proof (cases "f x < f y")
    case True
    then show ?thesis using Cons [of y] by (auto intro: order_trans [OF less_imp_le])
  next
    case False
    then show ?thesis using Cons [of x] by (auto simp: not_less intro: order_trans)
  qed
qed simp

lemma min_by_props:
  "min_by f x xs \<in> set (x # xs) \<and> (\<forall>y \<in> set (x # xs). f (min_by f x xs) \<le> f y)"
  unfolding min_by_def
proof (induction xs arbitrary: x)
  case (Cons y ys)
  show ?case
  proof (cases "f y < f x")
    case True
    then show ?thesis using Cons [of y] by (auto intro: order_trans [OF _ less_imp_le])
  next
    case False
    then show ?thesis using Cons [of x] by (auto simp: not_less intro: order_trans)
  qed
qed simp

text \<open>The identities that occur.\<close>

definition identities :: "string option list \<Rightarrow> string set" where
  "identities vs = {s. Some s \<in> set vs \<and> s \<noteq> []}"

lemma identities_simps [simp]:
  "identities [] = {}"
  "identities (None # vs) = identities vs"
  "identities (Some s # vs) = (if s = [] then identities vs else insert s (identities vs))"
  "identities (vs @ ws) = identities vs \<union> identities ws"
  by (auto simp: identities_def)

lemma merge_identity_cases:
  obtains (none) "identities vs = {}" "merge_identity vs m = None"
  | (one) s where "identities vs = {s}" "merge_identity vs m = Some s"
  | (many) a b where "a \<noteq> b" "a \<in> identities vs" "b \<in> identities vs" "merge_identity vs m = m"
proof -
  define l where "l = sorted_set (map the (filter (\<lambda>v. v \<noteq> None \<and> v \<noteq> Some []) vs))"
  have set: "set l = identities vs" by (force simp: identities_def l_def)
  have dist: "distinct l" by (simp add: sorted_sorted_set l_def)
  have m: "merge_identity vs m = (case l of [] \<Rightarrow> None | [s] \<Rightarrow> Some s | _ \<Rightarrow> m)"
    by (simp add: merge_identity_def l_def)
  consider "l = []" | a where "l = [a]" | a b r where "l = a # b # r"
    by (cases l; cases "tl l") auto
  then show ?thesis
  proof cases
    case 1
    then show ?thesis using none set m by simp
  next
    case (2 a)
    then show ?thesis using one [of a] set m by simp
  next
    case (3 a b r)
    then show ?thesis using many [of a b] set dist m by auto
  qed
qed

lemma merge_identity_ok:
  assumes "list_all (opt_ok m) vs" "opt_ok m mx"
  shows "opt_ok m (merge_identity vs mx)"
proof (cases rule: merge_identity_cases [of vs mx])
  case (one s)
  then have "Some s \<in> set vs" by (auto simp: identities_def)
  then show ?thesis using assms one by (auto simp: list_all_iff)
qed (use assms in \<open>simp_all add: opt_ok_def\<close>)

lemma merge_identity_member:
  assumes "v \<in> set vs"
  shows "merge_identity vs (Some mx) = v \<or> v = None \<or> v = Some [] \<or> merge_identity vs (Some mx) = Some mx"
proof (cases v)
  case (Some s)
  show ?thesis
  proof (cases rule: merge_identity_cases [of vs "Some mx"])
    case none
    then show ?thesis using assms Some by (auto simp: identities_def)
  next
    case (one t)
    then have "s = [] \<or> s = t" using assms Some by (auto simp: identities_def)
    then show ?thesis using one Some by auto
  qed simp
qed simp

text \<open>Merging the merged identities of two groups is merging all of them.\<close>

lemma merge_identity_none: "identities vs = {} \<Longrightarrow> merge_identity vs m = None"
  by (cases rule: merge_identity_cases [of vs m]) simp_all

lemma merge_identity_one: "identities vs = {s} \<Longrightarrow> merge_identity vs m = Some s"
  by (cases rule: merge_identity_cases [of vs m]) simp_all

lemma merge_identity_two: "a \<in> identities vs \<Longrightarrow> b \<in> identities vs \<Longrightarrow> a \<noteq> b \<Longrightarrow> merge_identity vs m = m"
  by (cases rule: merge_identity_cases [of vs m]) simp_all

lemma merge_identity_absorb: "m \<in> identities vs \<Longrightarrow> merge_identity vs (Some m) = Some m"
  by (cases rule: merge_identity_cases [of vs "Some m"]) simp_all

lemma merge_identity_append:
  assumes "mx \<noteq> []"
  shows "merge_identity [merge_identity vs (Some mx), merge_identity ws (Some mx)] (Some mx)
    = merge_identity (vs @ ws) (Some mx)"
proof -
  consider (vmany) a b where "a \<in> identities vs" "b \<in> identities vs" "a \<noteq> b"
    | (wmany) a b where "a \<in> identities ws" "b \<in> identities ws" "a \<noteq> b"
    | (vnone) "identities vs = {}" | (wnone) "identities ws = {}"
    | (one) s t where "identities vs = {s}" "identities ws = {t}"
    by (metis merge_identity_cases)
  then show ?thesis
  proof cases
    case (vmany a b)
    then show ?thesis
      using merge_identity_two [of a vs b] merge_identity_two [of a "vs @ ws" b] assms
      by (simp add: merge_identity_absorb)
  next
    case (wmany a b)
    then show ?thesis
      using merge_identity_two [of a ws b] merge_identity_two [of a "vs @ ws" b] assms
      by (cases "merge_identity vs (Some mx)") (simp_all add: merge_identity_absorb)
  next
    case vnone
    show ?thesis
    proof (cases rule: merge_identity_cases [of ws "Some mx"])
      case (many a b)
      then show ?thesis
        using merge_identity_two [of a "vs @ ws" b] vnone assms
        by (simp add: merge_identity_none merge_identity_absorb)
    next
      case (one s)
      then have "s \<noteq> []" by (auto simp: identities_def)
      then show ?thesis using one vnone by (simp add: merge_identity_none merge_identity_one)
    qed (use vnone in \<open>simp add: merge_identity_none\<close>)
  next
    case wnone
    show ?thesis
    proof (cases rule: merge_identity_cases [of vs "Some mx"])
      case (many a b)
      then show ?thesis
        using merge_identity_two [of a "vs @ ws" b] wnone assms
        by (simp add: merge_identity_none merge_identity_absorb)
    next
      case (one s)
      then have "s \<noteq> []" by (auto simp: identities_def)
      then show ?thesis using one wnone by (simp add: merge_identity_none merge_identity_one)
    qed (use wnone in \<open>simp add: merge_identity_none\<close>)
  next
    case (one s t)
    then have st: "s \<noteq> []" "t \<noteq> []" by (auto simp: identities_def)
    show ?thesis
    proof (cases "s = t")
      case True
      then show ?thesis using one st by (simp add: merge_identity_one)
    next
      case False
      then show ?thesis
        using one st merge_identity_two [of s "vs @ ws" t] merge_identity_two [of s "[Some s, Some t]" t]
        by (simp add: merge_identity_one)
    qed
  qed
qed

lemma merge_declassification_append:
  assumes "vs \<noteq> []" "ws \<noteq> []"
  shows "merge_declassification [merge_declassification vs, merge_declassification ws]
    = merge_declassification (vs @ ws)"
proof -
  obtain v vs' w ws' where "vs = v # vs'" "ws = w # ws'" using assms by (meson list.exhaust)
  then show ?thesis
    by (cases v; cases w) (auto simp: merge_declassification_def list_all_iff)
qed

lemma merge_declassification_ok:
  "list_all (opt_ok m) vs \<Longrightarrow> opt_ok m (merge_declassification vs)"
  by (auto simp: merge_declassification_def opt_ok_def split: list.split option.split)

lemma merge_declassification_member:
  "v \<in> set vs \<Longrightarrow> merge_declassification vs = v \<or> merge_declassification vs = None"
  by (auto simp: merge_declassification_def list_all_iff split: list.splits option.splits)

lemma max_by_sensitivity:
  "dl_sensitivity (max_by (\<lambda>x. sensitivity_rank (dl_sensitivity x)) l r) = Max (dl_sensitivity ` set (l # r))"
  using max_by_props [of "\<lambda>x. sensitivity_rank (dl_sensitivity x)" l r]
  by (intro Max_eqI [symmetric]) (auto simp: less_eq_data_sensitivity_def)

lemma min_by_trust:
  "dl_trust (min_by (\<lambda>x. trust_rank (dl_trust x)) l r) = Min (dl_trust ` set (l # r))"
  using min_by_props [of "\<lambda>x. trust_rank (dl_trust x)" l r]
  by (intro Min_eqI [symmetric]) (auto simp: less_eq_data_trust_def)

lemma min_by_integrity:
  "dl_integrity (min_by (\<lambda>x. integrity_rank (dl_integrity x)) l r) = Min (dl_integrity ` set (l # r))"
  using min_by_props [of "\<lambda>x. integrity_rank (dl_integrity x)" l r]
  by (intro Min_eqI [symmetric]) (auto simp: less_eq_data_integrity_def)

text \<open>Aggregation in closed form: on well-formed labels the constructor never rejects the result.\<close>

definition merged :: "data_labels list \<Rightarrow> data_labels" where
  "merged ls =
     \<lparr>dl_sensitivity = Max (dl_sensitivity ` set ls), dl_trust = Min (dl_trust ` set ls),
      dl_integrity = Min (dl_integrity ` set ls),
      dl_origin = merge_identity (map dl_origin ls) (Some ''derived''),
      dl_tenant = merge_identity (map dl_tenant ls) (Some ''mixed''),
      dl_principal = merge_identity (map dl_principal ls) (Some ''mixed''),
      dl_declass = merge_declassification (map dl_declass ls)\<rparr>"

lemma reserved_ok [simp]: "opt_ok False (Some ''derived'')" "opt_ok True (Some ''mixed'')"
  by (simp_all add: opt_ok_def text_ok_def) code_simp+

lemma merged_wf: "list_all labels_wf ls \<Longrightarrow> labels_wf (merged ls)"
  by (auto simp: labels_wf_def merged_def list_all_iff
      intro!: merge_identity_ok merge_declassification_ok)

lemma aggregate_merged:
  assumes "ls \<noteq> []" "list_all labels_wf ls"
  shows "aggregate_labels ls = Inr (merged ls)"
proof -
  obtain l r where ls: "ls = l # r" using assms by (cases ls) auto
  show ?thesis
    using merged_wf [OF assms(2)]
    by (simp add: ls aggregate_labels_def make_labels_values max_by_sensitivity min_by_trust
        min_by_integrity merged_def)
qed

lemma merged_append:
  assumes "as \<noteq> []" "bs \<noteq> []"
  shows "merged [merged as, merged bs] = merged (as @ bs)"
  using assms
  by (simp add: merged_def merge_identity_append merge_declassification_append image_Un Max_Un Min_Un)

lemma default_labels_wf: "labels_wf default_labels"
  by code_simp

lemma aggregate_wf: "list_all labels_wf ls \<Longrightarrow> aggregate_labels ls = Inr a \<Longrightarrow> labels_wf a"
proof (cases "ls = []")
  case True
  then show "aggregate_labels ls = Inr a \<Longrightarrow> labels_wf a"
    using default_labels_wf by (simp add: aggregate_labels_def)
qed (use merged_wf aggregate_merged in auto)

section \<open>Lemmas on source references\<close>

lemma ref_key_inject: "ref_key a = ref_key b \<longleftrightarrow> a = b"
  by (auto simp: ref_key_def)

lemma fold_refs_inv:
  assumes "distinct (map fst d)" "\<forall>p \<in> set d. fst p = ref_key (snd p)"
  shows "distinct (map fst (fold (\<lambda>r d. dset d (ref_key r) r) rs d))
    \<and> (\<forall>p \<in> set (fold (\<lambda>r d. dset d (ref_key r) r) rs d). fst p = ref_key (snd p))
    \<and> set (map snd (fold (\<lambda>r d. dset d (ref_key r) r) rs d)) = set (map snd d) \<union> set rs"
  using assms
proof (induction rs arbitrary: d)
  case (Cons r rs)
  have dset: "set (map snd (dset d (ref_key r) r)) = insert r (set (map snd d))
      \<and> (\<forall>p \<in> set (dset d (ref_key r) r). fst p = ref_key (snd p))"
    using Cons.prems(2)
    by (induction d "ref_key r" r rule: dset.induct) (auto simp: ref_key_inject)
  have "distinct (map fst (dset d (ref_key r) r))"
    using distinct_dset [of d "ref_key r" r] Cons.prems(1) by (simp add: dkeys_def)
  then show ?case using Cons.IH [of "dset d (ref_key r) r"] dset by auto
qed simp

lemma sort_refs_spec:
  "set (sort_refs rs) = set rs \<and> sorted (map ref_key (sort_refs rs)) \<and> distinct (sort_refs rs)"
proof -
  define d where "d = fold (\<lambda>r d. dset d (ref_key r) r) rs []"
  have d: "distinct (map fst d)" "\<forall>p \<in> set d. fst p = ref_key (snd p)" "set (map snd d) = set rs"
    using fold_refs_inv [of "[]" rs] by (simp_all add: d_def)
  have eq: "map ref_key (sort_refs rs) = map fst (sort_key fst d)"
    using d(2) by (simp add: sort_refs_def d_def [symmetric])
  have "distinct (map ref_key (sort_refs rs))"
    unfolding eq using d(1) by (metis distinct_map distinct_sort inj_on_def set_sort)
  then have "distinct (sort_refs rs)" by (simp add: distinct_map)
  moreover have "set (sort_refs rs) = set rs"
    using d(3) by (simp add: sort_refs_def d_def [symmetric])
  moreover have "sorted (map ref_key (sort_refs rs))"
    unfolding eq by (simp add: sorted_sort_key)
  ultimately show ?thesis by simp
qed

lemma sort_refs_cong: "set rs = set rs' \<Longrightarrow> sort_refs rs = sort_refs rs'"
  using sort_refs_spec [of rs] sort_refs_spec [of rs']
  by (intro map_sorted_distinct_set_unique [of ref_key]) (auto simp: inj_on_def ref_key_inject distinct_map)

lemma sort_refs_idem [simp]: "sort_refs (sort_refs rs) = sort_refs rs"
  by (rule sort_refs_cong) (simp add: sort_refs_spec)

definition ref_wf :: "source_ref \<Rightarrow> bool" where
  "ref_wf r \<longleftrightarrow> strip (sr_oid r) \<noteq> [] \<and> \<not> has_control (sr_oid r) \<and> 1 \<le> sr_version r
     \<and> is_sha256_hex (sr_sha r)"

lemma source_ref_roundtrip: "ref_wf r \<Longrightarrow> source_ref_from_dict (VDict (source_ref_to_dict r)) = Inr r"
  by (simp add: source_ref_from_dict_def source_ref_to_dict_def dget_sdict make_source_ref_def
      ref_wf_def res_simps) (auto simp: sdict_def require_text_def int_at_least_def require_sha256_def)

definition context_wf :: "flow_context \<Rightarrow> bool" where
  "context_wf c \<longleftrightarrow> labels_wf (fc_labels c) \<and> list_all ref_wf (fc_refs c)
     \<and> sort_refs (fc_refs c) = fc_refs c \<and> opt_ok False (fc_mat c)"

lemma unknown_fields_sdict [simp]:
  "set (map fst d) \<subseteq> set expected \<Longrightarrow> unknown_fields expected msg (sdict d) = Inr ()"
  by (auto simp: unknown_fields_def sdict_def filter_empty_conv)

lemma dget_or_sdict: "dget_or (sdict d) k v = (case map_of d k of None \<Rightarrow> v | Some w \<Rightarrow> w)"
  by (induction d) (auto simp: dget_or_def sdict_def)

lemma truthy_dict [simp]: "truthy (VDict (sdict d)) \<longleftrightarrow> d \<noteq> []"
  by (cases d) (auto simp: sdict_def)

lemma labels_from_to_dict: "labels_wf l \<Longrightarrow> labels_from_dict (VDict (labels_to_dict l)) = Inr l"
  by (simp add: labels_from_dict_def labels_to_dict_def label_fields_def dget_sdict dget_or_sdict
      make_labels_values)

lemma optional_text_ok [simp]: "opt_ok m o' \<Longrightarrow> optional_text n (opt_str o') m = Inr o'"
  by (simp add: optional_text_Inr)

lemma make_sink_plain:
  assumes "make_sink a b VNone VNone = Inr k"
  shows "k = \<lparr>ds_identity = ds_identity k, ds_identity_sha = ds_identity_sha k,
      ds_trust_identity = None, ds_trust_sha = None\<rparr>"
    and "make_sink (VStr (ds_identity k)) (opt_str (ds_identity_sha k)) VNone VNone = Inr k"
  using assms by (auto simp: make_sink_def res_simps split: if_splits)

definition release_wf :: "release_binding \<Rightarrow> bool" where
  "release_wf b \<longleftrightarrow>
     list_all is_sha256_hex [rb_trust_hash b, rb_manifest b, rb_labels b, rb_refs b, rb_payload b]
     \<and> 0 \<le> rb_generation b
     \<and> (rb_version b = VNone \<or> (\<not> is_bool (rb_version b) \<and> (is_str (rb_version b) \<or> is_int (rb_version b))))
     \<and> list_all (\<lambda>s. strip s \<noteq> [] \<and> \<not> has_control s) [rb_trust_id b, rb_operation b]
     \<and> make_sink (VStr (rb_sink b)) (opt_str (rb_sink_sha b)) VNone VNone =
       Inr \<lparr>ds_identity = rb_sink b, ds_identity_sha = rb_sink_sha b, ds_trust_identity = None,
            ds_trust_sha = None\<rparr>"

lemma make_release_binding_wf:
  assumes "make_release_binding f = Inr b"
  shows "release_wf b"
proof -
  from assms show ?thesis
    unfolding make_release_binding_def bindR_Inr_iff check_Inr_iff
    by (elim exE conjE)
       (use make_sink_plain in \<open>force simp: release_wf_def res_simps Let_def split: if_splits\<close>)
qed

lemma release_from_dict_wf: "release_from_dict v = Inr b \<Longrightarrow> release_wf b"
  by (cases v) (auto simp: release_from_dict_def bindR_Inr_iff intro: make_release_binding_wf)

lemma release_from_to_dict:
  assumes "release_wf b"
  shows "release_from_dict (VDict (release_to_dict b)) = Inr b"
proof -
  note f = assms [unfolded release_wf_def list.pred_inject]
  have u: "unknown_fields release_fields m (release_to_dict b) = Inr ()" for m
    unfolding release_to_dict_def by (rule unknown_fields_sdict) (simp add: release_fields_def)
  have req: "require_text n (VStr (rb_trust_id b)) = Inr (rb_trust_id b)"
    "require_text n (VStr (rb_operation b)) = Inr (rb_operation b)" for n
    using f by (simp_all add: require_text_def)
  have sha: "is_sha256_hex s \<Longrightarrow> require_sha256 n (VStr s) = Inr s" for n s
    by (simp add: require_sha256_def)
  show ?thesis
    unfolding release_from_dict_def make_release_binding_def
    using f by (simp add: u) (simp add: release_to_dict_def dget_sdict dget_or_sdict req sha int_at_least_def Let_def)
qed

section \<open>Properties\<close>

text \<open>
  Every well-formed label set survives the dictionary it is stored as, and so does every flow
  context with its sorted source references.
\<close>

theorem context_roundtrip:
  assumes "context_wf c"
  shows "context_from_dict (VDict (context_to_dict c)) = Inr c"
proof -
  have refs: "mapR (source_ref_from_dict \<circ> (\<lambda>r. VDict (source_ref_to_dict r))) (fc_refs c) = Inr (fc_refs c)"
    using assms source_ref_roundtrip by (intro mapR_Inr_map [where g = id, simplified]) (auto simp: context_wf_def list_all_iff)
  have iter: "iter_values (py_or (VList (map (\<lambda>r. VDict (source_ref_to_dict r)) rs)) (VTuple []))
      = Inr (map (\<lambda>r. VDict (source_ref_to_dict r)) rs)" for rs
    by (cases rs) (simp_all add: py_or_def iter_values_def)
  have lab: "py_or (VDict (labels_to_dict l)) w = VDict (labels_to_dict l)" for l w
    by (simp add: py_or_def labels_to_dict_def sdict_def)
  show ?thesis
    using assms labels_from_to_dict [of "fc_labels c"] refs
    by (simp add: context_from_dict_def context_to_dict_def context_wf_def dget_sdict iter lab
        make_context_def mapR_map comp_def)
qed

definition example_labels :: data_labels where
  "example_labels = default_labels\<lparr>dl_sensitivity := SSecret, dl_tenant := Some ''acme''\<rparr>"

definition example_context :: flow_context where
  "example_context = \<lparr>fc_labels = example_labels,
     fc_refs = [\<lparr>sr_oid = ''obj_1'', sr_version = 2, sr_sha = replicate 64 (CHR ''a'')\<rparr>], fc_mat = None\<rparr>"

theorem context_roundtrip_witness:
  "context_from_dict (VDict (context_to_dict example_context)) = Inr example_context"
  by (rule context_roundtrip) code_simp

text \<open>
  C4. Aggregated labels are at least as restrictive as every member: sensitivity only rises, trust
  and integrity only fall, a tenant or principal is kept or becomes \<open>mixed\<close>, and a declassification
  authority survives only when all members carry it.
\<close>

theorem aggregate_restricts:
  assumes "aggregate_labels ls = Inr a" "list_all labels_wf ls" "l \<in> set ls"
  shows "sensitivity_rank (dl_sensitivity l) \<le> sensitivity_rank (dl_sensitivity a)
    \<and> trust_rank (dl_trust a) \<le> trust_rank (dl_trust l)
    \<and> integrity_rank (dl_integrity a) \<le> integrity_rank (dl_integrity l)
    \<and> (dl_tenant l = None \<or> dl_tenant a \<in> {dl_tenant l, Some ''mixed''})
    \<and> (dl_principal l = None \<or> dl_principal a \<in> {dl_principal l, Some ''mixed''})
    \<and> dl_declass a \<in> {dl_declass l, None}"
proof -
  have a: "a = merged ls" using assms aggregate_merged [of ls] by (cases ls) auto
  have ord: "dl_sensitivity l \<le> dl_sensitivity a" "dl_trust a \<le> dl_trust l"
      "dl_integrity a \<le> dl_integrity l"
    using assms(3) by (simp_all add: a merged_def)
  have wf: "dl_tenant l \<noteq> Some []" "dl_principal l \<noteq> Some []"
    using assms(2,3) by (auto simp: list_all_iff labels_wf_def opt_ok_def text_ok_def)
  have "dl_tenant l = None \<or> dl_tenant a \<in> {dl_tenant l, Some ''mixed''}"
    using merge_identity_member [of "dl_tenant l" "map dl_tenant ls" "''mixed''"] wf assms(3)
    by (auto simp: a merged_def)
  moreover have "dl_principal l = None \<or> dl_principal a \<in> {dl_principal l, Some ''mixed''}"
    using merge_identity_member [of "dl_principal l" "map dl_principal ls" "''mixed''"] wf assms(3)
    by (auto simp: a merged_def)
  moreover have "dl_declass a \<in> {dl_declass l, None}"
    using merge_declassification_member [of "dl_declass l" "map dl_declass ls"] assms(3)
    by (auto simp: a merged_def)
  ultimately show ?thesis
    using ord by (simp add: less_eq_data_sensitivity_def less_eq_data_trust_def less_eq_data_integrity_def)
qed

theorem aggregate_restricts_witness:
  "aggregate_labels [default_labels, example_labels]
     = Inr (example_labels\<lparr>dl_tenant := Some ''acme''\<rparr>)
   \<and> sensitivity_rank (dl_sensitivity default_labels) \<le> sensitivity_rank SSecret"
proof -
  have agg: "aggregate_labels [default_labels, example_labels] = Inr (example_labels\<lparr>dl_tenant := Some ''acme''\<rparr>)"
    by code_simp
  moreover have "list_all labels_wf [default_labels, example_labels]" by code_simp
  ultimately show ?thesis
    using aggregate_restricts [OF agg, of default_labels] by (simp add: example_labels_def)
qed

text \<open>
  C5. Aggregation does not depend on how sources are grouped: merging two groups and then the
  results is merging all sources at once, so no staging of a derivation can lower a label.
\<close>

theorem aggregate_grouping:
  assumes "as \<noteq> []" "bs \<noteq> []" "list_all labels_wf (as @ bs)"
  shows "bindR (aggregate_labels as) (\<lambda>a. bindR (aggregate_labels bs) (\<lambda>b. aggregate_labels [a, b]))
    = aggregate_labels (as @ bs)"
  using assms merged_wf [of as] merged_wf [of bs]
  by (simp add: aggregate_merged merged_append)

theorem aggregate_grouping_witness:
  "bindR (aggregate_labels [example_labels, default_labels]) (\<lambda>a.
     bindR (aggregate_labels [example_labels\<lparr>dl_tenant := Some ''umbrella''\<rparr>]) (\<lambda>b. aggregate_labels [a, b]))
   = aggregate_labels ([example_labels, default_labels] @ [example_labels\<lparr>dl_tenant := Some ''umbrella''\<rparr>])"
  by (rule aggregate_grouping) code_simp+

text \<open>
  A release binding that was accepted once is accepted again from its own dictionary and
  normalises to the same dictionary, so the comparison of bindings by their dictionaries is stable.
\<close>

theorem release_normalize_stable:
  assumes "release_normalize v = Inr d"
  shows "release_normalize (VDict d) = Inr d"
  using assms release_from_dict_wf release_from_to_dict
  by (auto simp: release_normalize_def bindR_Inr_iff)

definition example_release :: release_binding where
  "example_release =
     \<lparr>rb_sink = ''mcp:tool'', rb_sink_sha = None, rb_trust_id = ''t1'',
      rb_trust_hash = replicate 64 (CHR ''a''), rb_generation = 3,
      rb_manifest = replicate 64 (CHR ''b''), rb_labels = replicate 64 (CHR ''c''),
      rb_refs = replicate 64 (CHR ''d''), rb_payload = replicate 64 (CHR ''e''),
      rb_operation = ''mcp.call'', rb_version = VNone\<rparr>"

theorem release_normalize_stable_witness:
  "release_normalize (VDict (release_to_dict example_release)) = Inr (release_to_dict example_release)"
proof (rule release_normalize_stable)
  show "release_normalize (VDict (dpop (release_to_dict example_release) (VStr ''schema_version'')))
    = Inr (release_to_dict example_release)"
    by code_simp
qed

end
