(* ===== verification/AuthorityRules.thy ===== *)
theory AuthorityRules
  imports CapModel EffectBinding
begin

text \<open>
  The strict codec for authority rules, \<open>AuthorityRuleCodec\<close> of
  \<open>agent_libos/capability/rules.py\<close>: reading a rule from a constraint value and writing it back.
  The shell classifier of the same file is in ShellRules.
\<close>

definition authority_rule_fields :: "string list" where
  "authority_rule_fields =
     [''rule_id'', ''operation'', ''effect'', ''risk'', ''conditions'', ''description'']"

text \<open>\<open>_string\<close>\<close>

definition rule_string :: "pyval \<Rightarrow> string \<Rightarrow> string res" where
  "rule_string v field =
     (case v of
        VStr s \<Rightarrow> if strip s = [] then
            Inl (ValidationError (''authority rule '' @ field @ '' must be a non-empty string''))
          else Inr (strip s)
      | _ \<Rightarrow> Inl (ValidationError (''authority rule '' @ field @ '' must be a non-empty string'')))"

text \<open>\<open>except ValueError as exc: raise ValidationError(f"invalid authority rule: {exc}")\<close>\<close>

definition value_as_validation :: "string \<Rightarrow> 'a res \<Rightarrow> 'a res" where
  "value_as_validation pre r =
     (case r of Inl (ValueError m) \<Rightarrow> Inl (ValidationError (pre @ m)) | _ \<Rightarrow> r)"

definition coerce_rule :: "host \<Rightarrow> pyval \<Rightarrow> authority_rule res" where
  "coerce_rule h v =
     (case v of
        VDict d \<Rightarrow>
          (let unknown = filter (\<lambda>k. k \<notin> VStr ` set authority_rule_fields) (map fst d) in
           if unknown \<noteq> [] then
             Inl (ValidationError (''authority rule has unknown fields: ''
               @ join '', '' (sort (map (py_str (h_repr h)) unknown))))
           else value_as_validation ''invalid authority rule: '' (
             bindR (case dget d ''conditions'' of
                      VNone \<Rightarrow> Inr []
                    | VDict c \<Rightarrow> Inr c
                    | _ \<Rightarrow> Inl (ValidationError ''authority rule conditions must be a mapping'')) (\<lambda>conds.
             bindR (rule_string (dget d ''rule_id'') ''rule_id'') (\<lambda>rid.
             bindR (rule_string (dget d ''operation'') ''operation'') (\<lambda>opn.
             bindR (effect_of (py_str (h_repr h) (dget_or d ''effect'' (VStr ''ask'')))) (\<lambda>eff.
             bindR (risk_of (py_str (h_repr h) (dget_or d ''risk'' (VStr ''medium'')))) (\<lambda>rsk.
               make_rule rid opn eff rsk (VDict conds)
                 (py_str (h_repr h) (py_or (dget d ''description'') (VStr []))))))))))
      | _ \<Rightarrow> Inl (ValidationError ''authority rule must be a mapping''))"

definition coerce_rules :: "host \<Rightarrow> pyval \<Rightarrow> authority_rule list res" where
  "coerce_rules h v =
     (case v of
        VNone \<Rightarrow> Inr []
      | VList vs \<Rightarrow> mapR (coerce_rule h) vs
      | _ \<Rightarrow> Inl (ValidationError ''authority rules must be a list''))"

text \<open>\<open>to_json\<close> of a typed rule.\<close>

definition rule_to_json :: "authority_rule \<Rightarrow> pydict" where
  "rule_to_json r = sdict
     [(''rule_id'', VStr (ar_rule_id r)), (''operation'', VStr (ar_operation r)),
      (''effect'', VStr (effect_value (ar_effect r))), (''risk'', VStr (risk_value (ar_risk r))),
      (''conditions'', VDict (ar_conditions r)), (''description'', VStr (ar_description r))]"

section \<open>Lemmas\<close>

lemma rule_string_Inr [res_simps]:
  "rule_string v n = Inr s \<longleftrightarrow> (\<exists>t. v = VStr t \<and> strip t = s \<and> s \<noteq> [])"
  by (cases v) (auto simp: rule_string_def)

lemma value_as_validation_Inr [res_simps]: "value_as_validation p r = Inr x \<longleftrightarrow> r = Inr x"
  by (cases r) (auto simp: value_as_validation_def split: exn.splits)

definition rule_wf :: "authority_rule \<Rightarrow> bool" where
  "rule_wf r \<longleftrightarrow> ar_rule_id r \<noteq> [] \<and> strip (ar_rule_id r) = ar_rule_id r
     \<and> ar_operation r \<noteq> [] \<and> strip (ar_operation r) = ar_operation r"

lemma coerce_rule_wf: "coerce_rule h v = Inr r \<Longrightarrow> rule_wf r"
  by (auto simp: coerce_rule_def res_simps rule_wf_def Let_def split: pyval.splits if_splits)

lemma rule_roundtrip:
  assumes "rule_wf r"
  shows "coerce_rule h (VDict (rule_to_json r)) = Inr r"
proof -
  have dg: "dget (rule_to_json r) ''conditions'' = VDict (ar_conditions r)"
    "dget (rule_to_json r) ''rule_id'' = VStr (ar_rule_id r)"
    "dget (rule_to_json r) ''operation'' = VStr (ar_operation r)"
    "dget (rule_to_json r) ''description'' = VStr (ar_description r)"
    "dget_or (rule_to_json r) ''effect'' v = VStr (effect_value (ar_effect r))"
    "dget_or (rule_to_json r) ''risk'' v = VStr (risk_value (ar_risk r))" for v
    by (simp_all add: rule_to_json_def dget_sdict dget_or_def) (simp_all add: sdict_def)
  have keys: "filter (\<lambda>k. k \<notin> VStr ` set authority_rule_fields) (map fst (rule_to_json r)) = []"
    by (simp add: rule_to_json_def sdict_def authority_rule_fields_def)
  have str: "rule_string (VStr (ar_rule_id r)) n = Inr (ar_rule_id r)"
    "rule_string (VStr (ar_operation r)) n = Inr (ar_operation r)" for n
    using assms by (simp_all add: rule_string_def rule_wf_def)
  show ?thesis
    by (simp add: coerce_rule_def dg keys str value_as_validation_def py_or_def)
qed

lemma rules_roundtrip:
  "list_all rule_wf rs \<Longrightarrow> coerce_rules h (VList (map (\<lambda>r. VDict (rule_to_json r)) rs)) = Inr rs"
  by (induction rs) (auto simp: coerce_rules_def rule_roundtrip)

end
