(* ===== verification/Evaluator.thy ===== *)
theory Evaluator
  imports AuthorityRules DataFlow "HOL-Library.Multiset"
begin

text \<open>
  The side-effect-free evaluator of capability constraints and precedence,
  \<open>agent_libos/capability/evaluator.py\<close>: conditions of authority rules against an operation
  context, the result of every constraint key, the decision of one capability and the decision
  over all matching capabilities, expiry, and the order of matching capabilities. The properties
  give the precedence of denial, the effect of failed constraints and of regex timeouts.
\<close>

section \<open>Condition names\<close>

definition known_constraint_keys :: "string list" where
  "known_constraint_keys =
     [''shell_policy_level'', ''inherited_from'', ''authority_rules'', ''approval_binding'',
      ''data_release_binding'', ''git_remote'', ''git_allowed_refs'', ''git_url_fingerprint'',
      ''git_expected_state_token'', ''git_old_oid'']"

definition string_conditions :: "string list" where
  "string_conditions =
     [''operation'', ''authority_operation'', ''argv_sha256'', ''cwd'', ''path'', ''resource'',
      ''right'', ''endpoint_id'', ''method_id'', ''rpc_method'', ''params_sha256'', ''server_id'',
      ''transport'', ''tool_id'', ''mcp_name'', ''arguments_sha256'', ''registry_spec_sha256'',
      ''content_sha256'', ''network'', ''filesystem_intent'', ''image_id'', ''git_remote'',
      ''git_remote_ref'', ''git_url_fingerprint'', ''git_expected_state_token'', ''git_old_oid'']"

definition integer_conditions :: "string list" where
  "integer_conditions = [''registry_generation'']"

definition boolean_conditions :: "string list" where
  "boolean_conditions =
     [''continuous_session'', ''recursive'', ''missing_ok'', ''overwrite'', ''parents'', ''exist_ok'']"

definition direct_conditions :: "string list" where
  "direct_conditions =
     sort (filter (\<lambda>k. k \<notin> {''operation'', ''authority_operation''}) string_conditions
       @ boolean_conditions @ integer_conditions)"

definition allowed_conditions :: "string list" where
  "allowed_conditions = string_conditions @ boolean_conditions @ integer_conditions
     @ [''argv'', ''match'', ''regex_token'', ''timeout_s'', ''timeout_max_s'']"

section \<open>Checks on conditions\<close>

text \<open>
  \<open>_finite_nonnegative_timeout\<close>. A huge integer makes \<open>float()\<close> raise OverflowError, which the
  code does not catch.
\<close>

definition finite_timeout :: "host \<Rightarrow> pyval \<Rightarrow> rat option res" where
  "finite_timeout h v =
     (if is_bool v then Inr None
      else case py_float h v of
             FloatOverflow \<Rightarrow> Inl (PyOverflowError ''int too large to convert to float'')
           | FloatOk (Fin q) \<Rightarrow> Inr (if 0 \<le> q then Some q else None)
           | _ \<Rightarrow> Inr None)"

definition valid_regex :: "host \<Rightarrow> pyval \<Rightarrow> bool" where
  "valid_regex h v =
     (case v of
        VStr p \<Rightarrow> utf8_length p \<le> h_regex_pattern_max_bytes h \<and> h_regex_compiles h p
      | _ \<Rightarrow> False)"

definition malformed_typed :: "pydict \<Rightarrow> string list" where
  "malformed_typed d =
     filter (\<lambda>k. dhas d k \<and> \<not> is_str (dget d k)) string_conditions
     @ filter (\<lambda>k. dhas d k \<and> \<not> is_bool (dget d k)) boolean_conditions
     @ filter (\<lambda>k. dhas d k \<and> \<not> (case dget d k of VInt i \<Rightarrow> 0 \<le> i | _ \<Rightarrow> False)) integer_conditions"

definition malformed_timeout :: "host \<Rightarrow> pydict \<Rightarrow> string \<Rightarrow> string list res" where
  "malformed_timeout h d k =
     (if dhas d k then bindR (finite_timeout h (dget d k)) (\<lambda>o'. Inr (if o' = None then [k] else []))
      else Inr [])"

text \<open>\<open>_malformed_authority_rule_conditions\<close>; the membership test of \<open>match\<close> hashes the value.\<close>

definition malformed_conditions :: "host \<Rightarrow> pydict \<Rightarrow> string list res" where
  "malformed_conditions h d =
     bindR (check (\<not> (dhas d ''match'' \<and> dhas d ''argv'' \<and> \<not> hashable (dget d ''match'')))
       (PyTypeError ''unhashable type'')) (\<lambda>_.
     bindR (malformed_timeout h d ''timeout_s'') (\<lambda>ts.
     bindR (malformed_timeout h d ''timeout_max_s'') (\<lambda>tm.
       Inr (sorted_set (malformed_typed d
         @ (if dhas d ''argv'' \<and> \<not> is_str_list (dget d ''argv'') then [''argv''] else [])
         @ (if dhas d ''match'' \<and> (\<not> dhas d ''argv''
               \<or> dget d ''match'' \<notin> {VStr ''exact'', VStr ''prefix''}) then [''match''] else [])
         @ (if dhas d ''regex_token'' \<and> \<not> valid_regex h (dget d ''regex_token'') then [''regex_token'']
            else [])
         @ ts @ tm)))))"

text \<open>\<open>_unknown_authority_rule_conditions\<close>: the keys are sorted as they are.\<close>

definition unknown_conditions :: "pydict \<Rightarrow> pyval list res" where
  "unknown_conditions d = py_sorted (filter (\<lambda>k. k \<notin> VStr ` set allowed_conditions) (map fst d))"

section \<open>Matching a rule\<close>

definition argv_condition_matches :: "host \<Rightarrow> pydict \<Rightarrow> pydict \<Rightarrow> bool" where
  "argv_condition_matches h conds ctx =
     (is_str_list (dget conds ''argv'') \<and> is_str_list (dget ctx ''argv'') \<and>
      (let expected = str_list (dget conds ''argv''); actual = str_list (dget ctx ''argv'');
           m = py_str (h_repr h) (dget_or conds ''match'' (VStr ''exact'')) in
       if m = ''exact'' then actual = expected
       else m = ''prefix'' \<and> length expected \<le> length actual \<and> take (length expected) actual = expected))"

datatype regex_result = RegexMatch | RegexNoMatch | RegexUnavailable

text \<open>The scan of the tokens; the clock is read before each.\<close>

fun regex_scan :: "host \<Rightarrow> string \<Rightarrow> nat \<Rightarrow> string list \<Rightarrow> regex_result" where
  "regex_scan h p n [] = RegexNoMatch"
| "regex_scan h p n (t # ts) =
     (if h_deadline_passed h n then RegexUnavailable
      else case h_regex_fullmatch h p t of
             None \<Rightarrow> RegexUnavailable
           | Some True \<Rightarrow> RegexMatch
           | Some False \<Rightarrow> regex_scan h p (Suc n) ts)"

definition regex_matches_any :: "host \<Rightarrow> string \<Rightarrow> pyval list \<Rightarrow> regex_result" where
  "regex_matches_any h p argv =
     (if list_all (\<lambda>v. is_str v \<and> utf8_length (the_str v) \<le> h_regex_token_max_bytes h) argv
      then regex_scan h p 0 (map the_str argv) else RegexNoMatch)"

definition timeout_conditions_match :: "host \<Rightarrow> pydict \<Rightarrow> pydict \<Rightarrow> bool res" where
  "timeout_conditions_match h conds ctx =
     bindR (if dhas conds ''timeout_s'' then
              bindR (finite_timeout h (dget ctx ''timeout_s'')) (\<lambda>a.
              bindR (finite_timeout h (dget conds ''timeout_s'')) (\<lambda>e.
                Inr (a \<noteq> None \<and> a = e)))
            else Inr True) (\<lambda>ok.
       if \<not> ok then Inr False
       else if dhas conds ''timeout_max_s'' then
         bindR (finite_timeout h (dget ctx ''timeout_s'')) (\<lambda>a.
         bindR (finite_timeout h (dget conds ''timeout_max_s'')) (\<lambda>m.
           Inr (case (a, m) of (Some x, Some y) \<Rightarrow> x \<le> y | _ \<Rightarrow> False)))
       else Inr True)"

text \<open>The regex condition; a value that is not a string is not looked at here.\<close>

definition regex_condition :: "host \<Rightarrow> pydict \<Rightarrow> pydict \<Rightarrow> regex_result" where
  "regex_condition h conds ctx =
     (case dget conds ''regex_token'' of
        VStr p \<Rightarrow>
          if \<not> valid_regex h (VStr p) \<or> \<not> is_list (dget ctx ''argv'') then RegexNoMatch
          else regex_matches_any h p (the_list (dget ctx ''argv''))
      | _ \<Rightarrow> RegexMatch)"

text \<open>\<open>_authority_rule_matches\<close>\<close>

definition rule_matches :: "host \<Rightarrow> authority_rule \<Rightarrow> pydict \<Rightarrow> bool res" where
  "rule_matches h r ctx =
     (let d = ar_conditions r; st = py_str (h_repr h); rx = regex_condition h d ctx in
      if dhas d ''operation'' \<and> st (dget ctx ''operation'') \<noteq> st (dget d ''operation'') then Inr False
      else if dhas d ''authority_operation''
          \<and> st (dget ctx ''authority_operation'') \<noteq> st (dget d ''authority_operation'') then Inr False
      else if dhas d ''argv'' \<and> \<not> argv_condition_matches h d ctx then Inr False
      else if rx = RegexNoMatch then Inr False
      else if list_ex (\<lambda>k. dhas d k \<and> \<not> py_eq (dget ctx k) (dget d k)) direct_conditions then Inr False
      else bindR (timeout_conditions_match h d ctx) (\<lambda>ok.
        Inr (ok \<and> (rx = RegexUnavailable \<longrightarrow> ar_effect r \<in> {Deny, Ask}))))"

section \<open>Constraints\<close>

definition failed_result :: "string \<Rightarrow> constraint_result" where
  "failed_result reason = \<lparr>cr_ok = False, cr_effect = None, cr_reason = Some reason, cr_info = []\<rparr>"

text \<open>\<open>_rule_condition_error\<close>\<close>

definition rule_condition_error ::
  "host \<Rightarrow> authority_rule \<Rightarrow> string \<Rightarrow> constraint_result option res" where
  "rule_condition_error h r opn =
     bindR (unknown_conditions (ar_conditions r)) (\<lambda>unknown.
     bindR (malformed_conditions h (ar_conditions r)) (\<lambda>malformed.
       Inr (if unknown = [] \<and> malformed = [] then None
         else Some \<lparr>cr_ok = False, cr_effect = Some Deny,
                    cr_reason = Some ''malformed authority rule condition'',
                    cr_info = [(''operation'', VStr opn), (''rule_id'', VStr (ar_rule_id r)),
                      if unknown \<noteq> [] then (''unknown_conditions'', VList unknown)
                      else (''malformed_conditions'', VList (map VStr malformed))]\<rparr>)))"

text \<open>The loop over the rules of the operation: an error result, or the rules that match.\<close>

fun scan_rules ::
  "host \<Rightarrow> string \<Rightarrow> pydict \<Rightarrow> authority_rule list \<Rightarrow> authority_rule list \<Rightarrow>
   (constraint_result + authority_rule list) res" where
  "scan_rules h opn ctx [] matched = Inr (Inr matched)"
| "scan_rules h opn ctx (r # rs) matched =
     (if ar_operation r \<noteq> opn then scan_rules h opn ctx rs matched
      else bindR (rule_condition_error h r opn) (\<lambda>err.
        case err of
          Some e \<Rightarrow> Inr (Inl e)
        | None \<Rightarrow> bindR (rule_matches h r ctx) (\<lambda>m.
            scan_rules h opn ctx rs (if m then matched @ [r] else matched))))"

definition select_rule :: "authority_rule list \<Rightarrow> authority_rule option" where
  "select_rule matched =
     (case List.find (\<lambda>r. ar_effect r = Deny) matched of
        Some r \<Rightarrow> Some r
      | None \<Rightarrow> (case List.find (\<lambda>r. ar_effect r = Ask) matched of
            Some r \<Rightarrow> Some r
          | None \<Rightarrow> (case matched of [] \<Rightarrow> None | r # _ \<Rightarrow> Some r)))"

definition evaluate_authority_rules ::
  "host \<Rightarrow> authority_rule list \<Rightarrow> pydict \<Rightarrow> constraint_result res" where
  "evaluate_authority_rules h rules ctx =
     (let opn = py_str (h_repr h)
           (py_or (py_or (dget ctx ''authority_operation'') (dget ctx ''operation'')) (VStr [])) in
      if opn = [] then Inr (failed_result ''authority rule requires operation context'')
      else bindR (scan_rules h opn ctx rules []) (\<lambda>s.
        Inr (case s of
          Inl e \<Rightarrow> e
        | Inr matched \<Rightarrow>
            (case select_rule matched of
               None \<Rightarrow> (failed_result ''no authority rule matched operation context'')
                 \<lparr>cr_info := [(''operation'', VStr opn),
                               (''rule_ids'', VList (map (\<lambda>r. VStr (ar_rule_id r)) rules))]\<rparr>
             | Some r \<Rightarrow>
                 \<lparr>cr_ok = (ar_effect r \<noteq> Deny), cr_effect = Some (ar_effect r),
                  cr_reason = (if ar_effect r = Deny then Some ''authority rule denied operation'' else None),
                  cr_info = [(''rule_id'', VStr (ar_rule_id r)),
                    (''risk'', VStr (risk_value (ar_risk r))), (''operation'', VStr opn)]\<rparr>))))"

text \<open>A ValidationError of the codec or of a binding becomes a failed result.\<close>

definition or_failed :: "'a res \<Rightarrow> ('a \<Rightarrow> constraint_result res) \<Rightarrow> constraint_result res" where
  "or_failed r f =
     (case r of
        Inl (ValidationError m) \<Rightarrow> Inr (failed_result m)
      | Inl e \<Rightarrow> Inl e
      | Inr x \<Rightarrow> f x)"

definition evaluate_rule_constraint :: "host \<Rightarrow> pyval \<Rightarrow> pydict \<Rightarrow> constraint_result res" where
  "evaluate_rule_constraint h v ctx =
     or_failed (coerce_rules h v) (\<lambda>rules. evaluate_authority_rules h rules ctx)"

definition evaluate_approval_binding :: "host \<Rightarrow> pyval \<Rightarrow> pydict \<Rightarrow> constraint_result res" where
  "evaluate_approval_binding h v ctx =
     or_failed (normalize_approval_binding h v) (\<lambda>b.
     bindR (canonical_effect_hash h ctx) (\<lambda>actual_hash.
       let expected = dget b ''target_state_version''; actual = dget ctx ''target_state_version'';
           matched = (dget b ''canonical_args_hash'' = VStr actual_hash \<and>
             (expected = VNone \<or> py_eq expected actual)) in
       Inr \<lparr>cr_ok = matched, cr_effect = None,
            cr_reason = Some (if matched then ''approval binding matched''
              else ''approved effect arguments or target state changed''),
            cr_info = [(''effect_id'', dget b ''effect_id''),
              (''canonical_args_hash'', VStr actual_hash), (''target_state_version'', actual)]\<rparr>))"

definition evaluate_release_binding :: "pyval \<Rightarrow> pydict \<Rightarrow> constraint_result res" where
  "evaluate_release_binding v ctx =
     (case bindR (release_normalize v) (\<lambda>e.
             bindR (release_normalize (dget ctx ''data_release_binding'')) (\<lambda>a. Inr (e, a))) of
        Inl (PyTypeError m) \<Rightarrow> Inr (failed_result m)
      | Inl (ValueError m) \<Rightarrow> Inr (failed_result m)
      | Inl e \<Rightarrow> Inl e
      | Inr (expected, actual) \<Rightarrow>
          Inr \<lparr>cr_ok = (expected = actual), cr_effect = None,
               cr_reason = Some (if expected = actual then ''data release binding matched''
                 else ''data release Sink, source, payload, policy, or operation changed''),
               cr_info = [(''sink'', dget actual ''sink''),
                 (''registry_generation'', dget actual ''registry_generation''),
                 (''payload_hash'', dget actual ''payload_hash'')]\<rparr>)"

definition evaluate_git_equal :: "pyval \<Rightarrow> pyval \<Rightarrow> string \<Rightarrow> constraint_result" where
  "evaluate_git_equal expected actual label =
     (let matched = is_str expected \<and> py_eq expected actual in
      \<lparr>cr_ok = matched, cr_effect = None,
       cr_reason = Some (''Git '' @ label @ (if matched then '' matched'' else '' did not match'')),
       cr_info = []\<rparr>)"

definition evaluate_git_refs :: "host \<Rightarrow> pyval \<Rightarrow> pyval \<Rightarrow> constraint_result" where
  "evaluate_git_refs h v actual =
     (let allowed = (case v of VList xs \<Rightarrow> xs | VTuple xs \<Rightarrow> xs | VSet xs \<Rightarrow> xs | _ \<Rightarrow> []);
          matched = is_str actual \<and> the_str actual \<in> set (map (py_str (h_repr h)) allowed) in
      \<lparr>cr_ok = matched, cr_effect = None,
       cr_reason = Some (if matched then ''Git ref matched''
         else ''Git ref is outside the capability allowlist''), cr_info = []\<rparr>)"

definition evaluate_constraint :: "host \<Rightarrow> string \<Rightarrow> pyval \<Rightarrow> pydict \<Rightarrow> constraint_result res" where
  "evaluate_constraint h key v ctx =
     (if key \<notin> set known_constraint_keys then Inr (failed_result ''unknown constraint key'')
      else if key = ''authority_rules'' then evaluate_rule_constraint h v ctx
      else if key = ''approval_binding'' then evaluate_approval_binding h v ctx
      else if key = ''data_release_binding'' then evaluate_release_binding v ctx
      else if key = ''git_remote'' then Inr (evaluate_git_equal v (dget ctx key) ''remote'')
      else if key = ''git_url_fingerprint'' then
        Inr (evaluate_git_equal v (dget ctx key) ''remote URL fingerprint'')
      else if key = ''git_expected_state_token'' then Inr (evaluate_git_equal v (dget ctx key) ''state token'')
      else if key = ''git_old_oid'' then Inr (evaluate_git_equal v (dget ctx key) ''old object id'')
      else if key = ''git_allowed_refs'' then Inr (evaluate_git_refs h v (dget ctx ''git_remote_ref''))
      else Inr \<lparr>cr_ok = True, cr_effect = None, cr_reason = None, cr_info = [(''value'', v)]\<rparr>)"

definition evaluate_constraints ::
  "host \<Rightarrow> capability_row \<Rightarrow> pydict \<Rightarrow> (string \<times> constraint_result) list res" where
  "evaluate_constraints h cap ctx =
     mapR (\<lambda>(k, v). bindR (evaluate_constraint h k v ctx) (\<lambda>r. Inr (k, r))) (cap_constraints cap)"

definition constraint_effect :: "(string \<times> constraint_result) list \<Rightarrow> capability_effect option" where
  "constraint_effect rs =
     List.find (\<lambda>e. Some e \<in> set (map (\<lambda>p. cr_effect (snd p)) rs)) [Deny, Ask, Allow]"

definition failure_is_scoped_miss :: "(string \<times> constraint_result) list \<Rightarrow> bool" where
  "failure_is_scoped_miss rs =
     (let failed = filter (\<lambda>p. \<not> cr_ok (snd p)) rs in
      set (map fst failed) = {''authority_rules''} \<and>
      (case map_of failed ''authority_rules'' of
         None \<Rightarrow> False
       | Some r \<Rightarrow> cr_reason r = Some ''no authority rule matched operation context''))"

section \<open>Decisions\<close>

definition make_decision ::
  "capability_row \<Rightarrow> string \<Rightarrow> string \<Rightarrow> string \<Rightarrow> bool \<Rightarrow> capability_effect option \<Rightarrow> string \<Rightarrow>
   string list \<Rightarrow> string list \<Rightarrow> (string \<times> constraint_result) list \<Rightarrow> pydict \<Rightarrow> capability_decision" where
  "make_decision cap subj res rt allowed eff reason matched chain results ctx =
     \<lparr>cd_subject = subj, cd_resource = res, cd_right = rt, cd_allowed = allowed, cd_effect = eff,
      cd_reason = reason, cd_matched = matched, cd_selected = Some (cap_id cap),
      cd_consume = (if allowed \<and> cap_uses_remaining cap \<noteq> None then Some (cap_id cap) else None),
      cd_human_request = None, cd_issuer_chain = chain, cd_results = results, cd_context = ctx\<rparr>"

text \<open>\<open>_decide_match\<close>\<close>

definition decide_match ::
  "capability_row \<Rightarrow> string \<Rightarrow> string \<Rightarrow> string \<Rightarrow> string list \<Rightarrow> pydict \<Rightarrow>
   (string \<times> constraint_result) list \<Rightarrow> string list \<Rightarrow> capability_decision option" where
  "decide_match cap subj res rt matched ctx results chain =
     (let ceff = constraint_effect results;
          ok = list_all (\<lambda>p. cr_ok (snd p)) results;
          restrictive = (\<not> ok \<and> cap_effect cap \<in> {Deny, Ask} \<and> \<not> failure_is_scoped_miss results);
          on = rt @ '' on '' @ res in
      if ceff = Some Deny \<or> restrictive then
        Some (make_decision cap subj res rt False (Some Deny)
          (''capability constraints denied '' @ on) matched chain results ctx)
      else if \<not> ok then None
      else if cap_effect cap = Deny then
        Some (make_decision cap subj res rt False (Some Deny) (subj @ '' denied '' @ on)
          matched chain results ctx)
      else if cap_effect cap = Ask \<or> ceff = Some Ask then
        Some (make_decision cap subj res rt False (Some Ask)
          (subj @ '' requires human approval for '' @ on) matched chain results ctx)
      else Some (make_decision cap subj res rt True (Some (cap_effect cap))
          ''capability allowed operation'' matched chain results ctx))"

text \<open>\<open>_is_matched_one_shot_approval\<close>\<close>

definition one_shot_approval :: "capability_row \<Rightarrow> capability_decision \<Rightarrow> bool" where
  "one_shot_approval cap d \<longleftrightarrow>
     cd_effect d = Some Allow \<and> cap_uses_remaining cap = Some 1 \<and> cd_consume d = Some (cap_id cap)
     \<and> (case map_of (cd_results d) ''approval_binding'' of None \<Rightarrow> False | Some r \<Rightarrow> cr_ok r)"

text \<open>The evaluation of every capability: its results and its decision, if it has one.\<close>

type_synonym evaluated =
  "capability_row \<times> (string \<times> constraint_result) list \<times> capability_decision option"

definition evaluate_matches ::
  "host \<Rightarrow> string \<Rightarrow> string \<Rightarrow> string \<Rightarrow> capability_row list \<Rightarrow> pydict \<Rightarrow> (string \<Rightarrow> string list) \<Rightarrow>
   evaluated list res" where
  "evaluate_matches h subj res rt caps ctx chain_of =
     mapR (\<lambda>cap. bindR (evaluate_constraints h cap ctx) (\<lambda>results.
       Inr (cap, results,
         decide_match cap subj res rt (map cap_id caps) ctx results (chain_of (cap_id cap))))) caps"

definition decided :: "evaluated list \<Rightarrow> (capability_row \<times> capability_decision) list" where
  "decided es = concat (map (\<lambda>(c, rs, d). case d of None \<Rightarrow> [] | Some x \<Rightarrow> [(c, x)]) es)"

definition undecided :: "evaluated list \<Rightarrow> (capability_row \<times> (string \<times> constraint_result) list) list" where
  "undecided es = concat (map (\<lambda>(c, rs, d). case d of None \<Rightarrow> [(c, rs)] | Some x \<Rightarrow> []) es)"

text \<open>The precedence: a denial, then a matched one-shot approval, then ask, then allow.\<close>

definition find_effect ::
  "capability_effect \<Rightarrow> (capability_row \<times> capability_decision) list \<Rightarrow>
   (capability_row \<times> capability_decision) option" where
  "find_effect e ds = List.find (\<lambda>p. cd_effect (snd p) = Some e) ds"

definition choose_decision ::
  "(capability_row \<times> capability_decision) list \<Rightarrow> (capability_row \<times> capability_decision) option" where
  "choose_decision ds =
     (case find_effect Deny ds of
        Some p \<Rightarrow> Some p
      | None \<Rightarrow> (case List.find (\<lambda>p. one_shot_approval (fst p) (snd p)) ds of
          Some p \<Rightarrow> Some p
        | None \<Rightarrow> (case find_effect Ask ds of
            Some p \<Rightarrow> Some p
          | None \<Rightarrow> find_effect Allow ds)))"

definition no_match_decision ::
  "string \<Rightarrow> string \<Rightarrow> string \<Rightarrow> string list \<Rightarrow> pydict \<Rightarrow> capability_decision" where
  "no_match_decision subj res rt ids ctx =
     \<lparr>cd_subject = subj, cd_resource = res, cd_right = rt, cd_allowed = False, cd_effect = None,
      cd_reason = subj @ '' lacks '' @ rt @ '' on '' @ res, cd_matched = ids, cd_selected = None,
      cd_consume = None, cd_human_request = None, cd_issuer_chain = [], cd_results = [],
      cd_context = ctx\<rparr>"

text \<open>\<open>decide\<close>\<close>

definition decide ::
  "host \<Rightarrow> string \<Rightarrow> string \<Rightarrow> string \<Rightarrow> capability_row list \<Rightarrow> pydict \<Rightarrow> (string \<Rightarrow> string list) \<Rightarrow>
   capability_decision res" where
  "decide h subj res rt caps ctx chain_of =
     bindR (evaluate_matches h subj res rt caps ctx chain_of) (\<lambda>es.
       Inr (case choose_decision (decided es) of
         Some p \<Rightarrow> snd p
       | None \<Rightarrow>
           (case undecided es of
             (cap, results) # _ \<Rightarrow> make_decision cap subj res rt False None
               (''capability constraints rejected '' @ rt @ '' on '' @ res) (map cap_id caps)
               (chain_of (cap_id cap)) results ctx
           | [] \<Rightarrow> no_match_decision subj res rt (map cap_id caps) ctx)))"

section \<open>Expiry, order and contexts\<close>

definition expires_at_datetime :: "host \<Rightarrow> string \<Rightarrow> int res" where
  "expires_at_datetime h v =
     (let raw = strip v in
      if raw = [] then Inl (ValidationError ''capability expires_at must be a non-empty ISO timestamp'')
      else case h_iso h (py_replace ''Z'' ''+00:00'' raw) of
             None \<Rightarrow> Inl (ValidationError ''capability expires_at must be an ISO timestamp'')
           | Some (t, aware) \<Rightarrow> Inr t)"

definition is_expired :: "host \<Rightarrow> int \<Rightarrow> capability_row \<Rightarrow> bool" where
  "is_expired h now cap =
     (case cap_expires_at cap of
        None \<Rightarrow> False
      | Some v \<Rightarrow> (case expires_at_datetime h v of Inl _ \<Rightarrow> True | Inr t \<Rightarrow> t \<le> now))"

text \<open>A stable sort with \<open>reverse=True\<close> keeps the order of equal elements.\<close>

definition sort_desc :: "('a \<Rightarrow> 'k::linorder) \<Rightarrow> 'a list \<Rightarrow> 'a list" where
  "sort_desc f xs = rev (sort_key f (rev xs))"

definition sort_matching :: "capability_row list \<Rightarrow> capability_row list" where
  "sort_matching caps =
     sort_key (\<lambda>c. if cap_effect c = Deny then 0 else (1 :: nat))
       (sort_desc (\<lambda>c. length (cap_resource c))
         (sort_desc cap_issued_at (sort_key cap_id caps)))"

datatype operation_context =
    NoContext
  | OperationContext pyval pyval pydict
  | MappingContext pydict

fun context_dict :: "operation_context \<Rightarrow> pydict" where
  "context_dict NoContext = []"
| "context_dict (OperationContext primitive opn md) =
     fold (\<lambda>(k, v) d. dset d k v) md (sdict [(''primitive'', primitive), (''operation'', opn)])"
| "context_dict (MappingContext d) = d"

section \<open>Lemmas\<close>

lemma set_decided: "(c, d) \<in> set (decided es) \<longleftrightarrow> (\<exists>rs. (c, rs, Some d) \<in> set es)"
  by (force simp: decided_def split: option.splits)

lemma evaluate_matches_Inr:
  assumes "evaluate_matches h subj res rt caps ctx chain_of = Inr es" "(c, rs, d) \<in> set es"
  shows "c \<in> set caps \<and> evaluate_constraints h c ctx = Inr rs
    \<and> d = decide_match c subj res rt (map cap_id caps) ctx rs (chain_of (cap_id c))"
  using mapR_Inr_set [OF assms(1) [unfolded evaluate_matches_def] assms(2)]
  by (auto simp: res_simps)

lemma evaluate_matches_complete:
  assumes "evaluate_matches h subj res rt caps ctx chain_of = Inr es" "c \<in> set caps"
  shows "\<exists>rs. evaluate_constraints h c ctx = Inr rs
    \<and> (c, rs, decide_match c subj res rt (map cap_id caps) ctx rs (chain_of (cap_id c))) \<in> set es"
proof -
  have "\<exists>y. y \<in> set ys \<and> f x = Inr y" if "mapR f xs = Inr ys" "x \<in> set xs"
    for f :: "capability_row \<Rightarrow> evaluated res" and xs ys x
    using that by (induction xs arbitrary: ys) (auto simp: res_simps)
  from this [OF assms(1) [unfolded evaluate_matches_def] assms(2)]
  show ?thesis by (auto simp: res_simps)
qed

lemma decide_match_effect:
  "decide_match cap subj res rt ms ctx rs ch = Some d \<Longrightarrow> cd_allowed d \<longleftrightarrow> cd_effect d = Some Allow"
  by (cases "cap_effect cap") (auto simp: decide_match_def make_decision_def Let_def split: if_splits)

lemma decide_match_selected:
  "decide_match cap subj res rt ms ctx rs ch = Some d \<Longrightarrow>
   cd_selected d = Some (cap_id cap) \<and> cd_results d = rs
   \<and> cd_consume d = (if cd_allowed d \<and> cap_uses_remaining cap \<noteq> None then Some (cap_id cap) else None)"
  by (auto simp: decide_match_def make_decision_def Let_def split: if_splits)

lemma decide_match_allowed:
  assumes "decide_match cap subj res rt ms ctx rs ch = Some d" "cd_allowed d"
  shows "cap_effect cap = Allow \<and> list_all (\<lambda>p. cr_ok (snd p)) rs
    \<and> constraint_effect rs \<notin> {Some Deny, Some Ask}"
  using assms by (cases "cap_effect cap") (auto simp: decide_match_def make_decision_def Let_def split: if_splits)

lemma constraint_effect_None:
  "constraint_effect rs \<notin> {Some Deny, Some Ask} \<Longrightarrow> p \<in> set rs \<Longrightarrow> cr_effect (snd p) \<notin> {Some Deny, Some Ask}"
  by (force simp: constraint_effect_def split: if_splits)

lemma find_effect_Some: "find_effect e ds = Some p \<Longrightarrow> p \<in> set ds \<and> cd_effect (snd p) = Some e"
  by (auto simp: find_effect_def dest: find_SomeD)

lemma find_effect_None: "find_effect e ds = None \<Longrightarrow> \<forall>p \<in> set ds. cd_effect (snd p) \<noteq> Some e"
  using find_NoneD by (fastforce simp: find_effect_def)

lemma choose_decision_allow:
  assumes "choose_decision ds = Some p" "cd_effect (snd p) = Some Allow"
  shows "p \<in> set ds \<and> (\<forall>q \<in> set ds. cd_effect (snd q) \<noteq> Some Deny)
    \<and> (one_shot_approval (fst p) (snd p) \<or> (\<forall>q \<in> set ds. cd_effect (snd q) \<noteq> Some Ask))"
  using assms
  by (auto simp: choose_decision_def split: option.splits
      dest: find_effect_Some find_effect_None find_SomeD)

lemma choose_decision_deny:
  assumes "q \<in> set ds" "cd_effect (snd q) = Some Deny"
  shows "\<exists>p. choose_decision ds = Some p \<and> p \<in> set ds \<and> cd_effect (snd p) = Some Deny"
  using assms find_effect_None [of Deny ds] find_effect_Some [of Deny ds]
  by (cases "find_effect Deny ds") (auto simp: choose_decision_def)

lemma decided_effect:
  assumes "evaluate_matches h subj res rt caps ctx chain_of = Inr es" "p \<in> set (decided es)"
  shows "cd_allowed (snd p) \<longleftrightarrow> cd_effect (snd p) = Some Allow"
proof -
  obtain rs where "(fst p, rs, Some (snd p)) \<in> set es"
    using assms(2) set_decided [of "fst p" "snd p" es] by auto
  from evaluate_matches_Inr [OF assms(1) this] show ?thesis using decide_match_effect by metis
qed

lemma decide_from_decided:
  assumes "decide h subj res rt caps ctx chain_of = Inr d" "cd_allowed d"
    and "evaluate_matches h subj res rt caps ctx chain_of = Inr es"
  shows "\<exists>c. (c, d) \<in> set (decided es)
    \<and> (\<forall>p \<in> set (decided es). cd_effect (snd p) \<noteq> Some Deny)
    \<and> (one_shot_approval c d \<or> (\<forall>p \<in> set (decided es). cd_effect (snd p) \<noteq> Some Ask))"
proof (cases "choose_decision (decided es)")
  case None
  then have "\<not> cd_allowed d"
    using assms(1,3)
    by (auto simp: decide_def make_decision_def no_match_decision_def split: list.splits)
  then show ?thesis using assms(2) by simp
next
  case (Some p)
  then have d: "d = snd p" using assms(1,3) by (simp add: decide_def)
  have "p \<in> set (decided es)"
    using Some by (auto simp: choose_decision_def split: option.splits dest: find_effect_Some find_SomeD)
  then have "cd_effect (snd p) = Some Allow" using decided_effect [OF assms(3)] assms(2) d by simp
  from choose_decision_allow [OF Some this] show ?thesis using d by (intro exI [of _ "fst p"]) simp
qed

lemma scan_rules_keeps:
  "scan_rules h opn ctx rs ms = Inr (Inr out) \<Longrightarrow> set ms \<subseteq> set out"
  by (induction rs arbitrary: ms) (force simp: res_simps split: if_splits option.splits)+

lemma scan_rules_matched:
  assumes "scan_rules h opn ctx rs ms = Inr (Inr out)" "r \<in> set rs" "ar_operation r = opn"
    and "rule_matches h r ctx = Inr True"
  shows "r \<in> set out"
  using assms
proof (induction rs arbitrary: ms)
  case (Cons q qs)
  then show ?case using scan_rules_keeps [of h opn ctx qs "ms @ [r]" out]
    by (auto simp: res_simps split: if_splits option.splits)
qed simp

lemma scan_rules_error:
  "scan_rules h opn ctx rs ms = Inr (Inl e) \<Longrightarrow> \<not> cr_ok e \<and> cr_effect e = Some Deny"
  by (induction rs arbitrary: ms)
     (auto simp: res_simps rule_condition_error_def split: if_splits option.splits)

text \<open>A stable sort refines the order its input already has.\<close>

lemma insort_key_lex:
  assumes "sorted_wrt (\<lambda>a b. f a < f b \<or> (f a = f b \<and> R a b)) ys" "\<forall>y \<in> set ys. R x y"
  shows "sorted_wrt (\<lambda>a b. f a < f b \<or> (f a = f b \<and> R a b)) (insort_key f x ys)"
  using assms by (induction ys) (auto simp: set_insort_key not_le)

lemma sort_key_lex:
  "sorted_wrt R xs \<Longrightarrow> sorted_wrt (\<lambda>a b. f a < f b \<or> (f a = f b \<and> R a b)) (sort_key f xs)"
  by (induction xs) (auto intro: insort_key_lex)

lemma sort_desc_lex:
  assumes "sorted_wrt R xs"
  shows "sorted_wrt (\<lambda>a b. f b < f a \<or> (f a = f b \<and> R a b)) (sort_desc f xs)"
proof -
  have "sorted_wrt (\<lambda>a b. R b a) (rev xs)" using assms by (simp add: sorted_wrt_rev)
  from sort_key_lex [OF this, of f] show ?thesis
    by (simp add: sort_desc_def sorted_wrt_rev) (metis (mono_tags, lifting) sorted_wrt_mono_rel)
qed

section \<open>Properties\<close>

text \<open>
  C6. An allowing decision is sound: the selected capability is one of the matching ones, it is an
  allow capability, every one of its constraints holds in the context and none asks or denies; no
  matching capability decided to deny, and unless the selected one is a bound one-shot approval
  none asks; a use is consumed exactly when the capability counts its uses.
\<close>

theorem decide_allow_sound:
  assumes "decide h subj res rt caps ctx chain_of = Inr d" "cd_allowed d"
  shows "\<exists>c \<in> set caps. \<exists>rs. cd_selected d = Some (cap_id c) \<and> cap_effect c = Allow
    \<and> evaluate_constraints h c ctx = Inr rs
    \<and> (\<forall>p \<in> set rs. cr_ok (snd p) \<and> cr_effect (snd p) \<notin> {Some Deny, Some Ask})
    \<and> cd_consume d = (if cap_uses_remaining c = None then None else Some (cap_id c))
    \<and> (\<forall>c' \<in> set caps. \<forall>rs' d'. evaluate_constraints h c' ctx = Inr rs'
          \<and> decide_match c' subj res rt (map cap_id caps) ctx rs' (chain_of (cap_id c')) = Some d'
        \<longrightarrow> cd_effect d' \<noteq> Some Deny \<and> (one_shot_approval c d \<or> cd_effect d' \<noteq> Some Ask))"
proof -
  obtain es where es: "evaluate_matches h subj res rt caps ctx chain_of = Inr es"
    using assms(1) by (auto simp: decide_def res_simps)
  obtain c where c: "(c, d) \<in> set (decided es)"
      "\<forall>p \<in> set (decided es). cd_effect (snd p) \<noteq> Some Deny"
      "one_shot_approval c d \<or> (\<forall>p \<in> set (decided es). cd_effect (snd p) \<noteq> Some Ask)"
    using decide_from_decided [OF assms es] by (elim exE conjE)
  then obtain rs where rs: "(c, rs, Some d) \<in> set es" by (auto simp: set_decided)
  note ev = evaluate_matches_Inr [OF es rs]
  have dm: "decide_match c subj res rt (map cap_id caps) ctx rs (chain_of (cap_id c)) = Some d"
    using ev by simp
  note al = decide_match_allowed [OF dm assms(2)] and sel = decide_match_selected [OF dm]
  have others: "cd_effect d' \<noteq> Some Deny \<and> (one_shot_approval c d \<or> cd_effect d' \<noteq> Some Ask)"
    if "c' \<in> set caps" and "evaluate_constraints h c' ctx = Inr rs'
      \<and> decide_match c' subj res rt (map cap_id caps) ctx rs' (chain_of (cap_id c')) = Some d'" for c' rs' d'
  proof -
    have "(c', d') \<in> set (decided es)"
      using evaluate_matches_complete [OF es that(1)] that(2) by (force simp: set_decided)
    then show ?thesis using c(2,3) by force
  qed
  have "\<forall>p \<in> set rs. cr_ok (snd p) \<and> cr_effect (snd p) \<notin> {Some Deny, Some Ask}"
    using al constraint_effect_None by (auto simp: list_all_iff)
  moreover have "cd_consume d = (if cap_uses_remaining c = None then None else Some (cap_id c))"
    using sel assms(2) by simp
  moreover have "\<forall>c' \<in> set caps. \<forall>rs' d'. evaluate_constraints h c' ctx = Inr rs'
          \<and> decide_match c' subj res rt (map cap_id caps) ctx rs' (chain_of (cap_id c')) = Some d'
        \<longrightarrow> cd_effect d' \<noteq> Some Deny \<and> (one_shot_approval c d \<or> cd_effect d' \<noteq> Some Ask)"
    by (intro ballI allI impI others)
  ultimately show ?thesis
    using ev al sel by (intro bexI [of _ c] exI [of _ rs] conjI) simp_all
qed

definition example_host :: host where
  "example_host =
     \<lparr>h_repr = (\<lambda>_. ''?''), h_parse_float = (\<lambda>_. None), h_iso = (\<lambda>_. None), h_isoformat = (\<lambda>_. []), h_sha256 = (\<lambda>_. replicate 64 (CHR ''a'')),
      h_regex_compiles = (\<lambda>_. True), h_regex_fullmatch = (\<lambda>p t. None), h_deadline_passed = (\<lambda>_. False),
      h_regex_pattern_max_bytes = 512, h_regex_token_max_bytes = 512\<rparr>"

definition example_cap :: capability_row where
  "example_cap =
     \<lparr>cap_id = ''cap_1'', cap_subject = ''pid_1'', cap_resource = ''git:repo'', cap_rights = [''read''],
      cap_constraints = [(''git_remote'', VStr ''origin'')], cap_issued_by = ''host'',
      cap_issued_at = ''2025'', cap_expires_at = None, cap_delegable = False, cap_revocable = True,
      cap_effect = Allow, cap_issuer_cap_id = None, cap_parent_cap_id = None, cap_delegation_depth = 0,
      cap_max_delegation_depth = None, cap_uses_remaining = Some 2, cap_status = Active,
      cap_metadata = []\<rparr>"

definition allow_decision :: "capability_row \<Rightarrow> pydict \<Rightarrow> capability_decision" where
  "allow_decision cap ctx =
     make_decision cap (cap_subject cap) (cap_resource cap) ''read'' True (Some Allow)
       ''capability allowed operation'' [cap_id cap] []
       [(''git_remote'', evaluate_git_equal (VStr ''origin'') (VStr ''origin'') ''remote'')] ctx"

theorem decide_allow_sound_witness:
  "decide example_host ''pid_1'' ''git:repo'' ''read'' [example_cap]
      (sdict [(''git_remote'', VStr ''origin'')]) (\<lambda>_. [])
     = Inr (allow_decision example_cap (sdict [(''git_remote'', VStr ''origin'')]))
   \<and> cap_effect example_cap = Allow"
proof -
  have d: "decide example_host ''pid_1'' ''git:repo'' ''read'' [example_cap]
      (sdict [(''git_remote'', VStr ''origin'')]) (\<lambda>_. [])
     = Inr (allow_decision example_cap (sdict [(''git_remote'', VStr ''origin'')]))"
    by code_simp
  moreover have "cd_allowed (allow_decision example_cap (sdict [(''git_remote'', VStr ''origin'')]))"
    by (simp add: allow_decision_def make_decision_def)
  ultimately show ?thesis using decide_allow_sound [OF d] by auto
qed

text \<open>
  A denial dominates: when any matching capability decides to deny, whatever the others say
  and in whatever order they come, the decision is a denial.
\<close>

theorem decide_deny_dominates:
  assumes "decide h subj res rt caps ctx chain_of = Inr d"
    and "c \<in> set caps" "evaluate_constraints h c ctx = Inr rs"
    and "decide_match c subj res rt (map cap_id caps) ctx rs (chain_of (cap_id c)) = Some d'"
    and "cd_effect d' = Some Deny"
  shows "cd_effect d = Some Deny \<and> \<not> cd_allowed d"
proof -
  obtain es where es: "evaluate_matches h subj res rt caps ctx chain_of = Inr es"
    using assms(1) by (auto simp: decide_def res_simps)
  have "(c, d') \<in> set (decided es)"
    using evaluate_matches_complete [OF es assms(2)] assms(3,4) by (force simp: set_decided)
  then obtain p where p: "choose_decision (decided es) = Some p" "p \<in> set (decided es)"
      "cd_effect (snd p) = Some Deny"
    using choose_decision_deny [of "(c, d')" "decided es"] assms(5) by auto
  then have "d = snd p" using assms(1) es by (simp add: decide_def)
  then show ?thesis using p decided_effect [OF es p(2)] by simp
qed

theorem decide_deny_dominates_witness:
  "\<exists>d. decide example_host ''pid_1'' ''git:repo'' ''read'' [example_cap, example_cap\<lparr>cap_effect := Deny\<rparr>]
      (sdict [(''git_remote'', VStr ''origin'')]) (\<lambda>_. []) = Inr d \<and> cd_effect d = Some Deny"
proof -
  let ?caps = "[example_cap, example_cap\<lparr>cap_effect := Deny\<rparr>]"
  let ?ctx = "sdict [(''git_remote'', VStr ''origin'')]"
  let ?rs = "[(''git_remote'', evaluate_git_equal (VStr ''origin'') (VStr ''origin'') ''remote'')]"
  have ok: "is_ok (decide example_host ''pid_1'' ''git:repo'' ''read'' ?caps ?ctx (\<lambda>_. []))"
    by code_simp
  have ev: "evaluate_constraints example_host (example_cap\<lparr>cap_effect := Deny\<rparr>) ?ctx = Inr ?rs"
    by code_simp
  obtain d where d: "decide example_host ''pid_1'' ''git:repo'' ''read'' ?caps ?ctx (\<lambda>_. []) = Inr d"
    using ok by (auto simp: is_ok_iff)
  have "constraint_effect ?rs \<noteq> Some Deny \<and> list_all (\<lambda>p. cr_ok (snd p)) ?rs" by code_simp
  then have "decide_match (example_cap\<lparr>cap_effect := Deny\<rparr>) ''pid_1'' ''git:repo'' ''read'' (map cap_id ?caps) ?ctx ?rs []
    = Some (make_decision (example_cap\<lparr>cap_effect := Deny\<rparr>) ''pid_1'' ''git:repo'' ''read'' False (Some Deny)
        (''pid_1'' @ '' denied '' @ ''read'' @ '' on '' @ ''git:repo'') (map cap_id ?caps) [] ?rs ?ctx)"
    by (simp add: decide_match_def Let_def)
  from decide_deny_dominates [OF d _ ev this] have "cd_effect d = Some Deny"
    by (simp add: make_decision_def)
  then show ?thesis using d by blast
qed

text \<open>
  A regex that cannot be evaluated in time never makes a rule allow: with an unavailable result
  an allow rule does not match, and every rule that then matches denies or asks.
\<close>

theorem regex_timeout_never_allows:
  assumes "regex_condition h (ar_conditions r) ctx = RegexUnavailable"
    and "rule_matches h r ctx = Inr True"
  shows "ar_effect r \<in> {Deny, Ask}"
  using assms by (auto simp: rule_matches_def Let_def res_simps split: if_splits)

definition example_rule :: authority_rule where
  "example_rule =
     \<lparr>ar_rule_id = ''r1'', ar_operation = ''shell.run'', ar_effect = Deny, ar_risk = High,
      ar_conditions = sdict [(''regex_token'', VStr ''(a+)+'')], ar_description = []\<rparr>"

theorem regex_timeout_never_allows_witness:
  "rule_matches example_host example_rule (sdict [(''argv'', VList [VStr ''aaa''])]) = Inr True
   \<and> ar_effect example_rule \<in> {Deny, Ask}"
proof -
  have m: "rule_matches example_host example_rule (sdict [(''argv'', VList [VStr ''aaa''])]) = Inr True"
    by code_simp
  have "regex_condition example_host (ar_conditions example_rule) (sdict [(''argv'', VList [VStr ''aaa''])])
    = RegexUnavailable"
    by code_simp
  from regex_timeout_never_allows [OF this m] show ?thesis using m by blast
qed

text \<open>
  Among the rules of an operation a matching deny rule decides: when one of them matches the
  context, the constraint fails with the effect deny, wherever the rule stands in the list.
\<close>

theorem deny_rule_dominates:
  assumes "evaluate_authority_rules h rules ctx = Inr res"
    and "r \<in> set rules" "ar_effect r = Deny" "ar_operation r \<noteq> []"
    and "ar_operation r = py_str (h_repr h)
      (py_or (py_or (dget ctx ''authority_operation'') (dget ctx ''operation'')) (VStr []))"
    and "rule_matches h r ctx = Inr True"
  shows "\<not> cr_ok res \<and> cr_effect res = Some Deny"
proof -
  obtain s where s: "scan_rules h (ar_operation r) ctx rules [] = Inr s"
    and res: "res = (case s of
          Inl e \<Rightarrow> e
        | Inr matched \<Rightarrow>
            (case select_rule matched of
               None \<Rightarrow> (failed_result ''no authority rule matched operation context'')
                 \<lparr>cr_info := [(''operation'', VStr (ar_operation r)),
                               (''rule_ids'', VList (map (\<lambda>r. VStr (ar_rule_id r)) rules))]\<rparr>
             | Some q \<Rightarrow>
                 \<lparr>cr_ok = (ar_effect q \<noteq> Deny), cr_effect = Some (ar_effect q),
                  cr_reason = (if ar_effect q = Deny then Some ''authority rule denied operation'' else None),
                  cr_info = [(''rule_id'', VStr (ar_rule_id q)),
                    (''risk'', VStr (risk_value (ar_risk q))), (''operation'', VStr (ar_operation r))]\<rparr>))"
    using assms(1,4) unfolding evaluate_authority_rules_def assms(5) [symmetric]
    by (auto simp: Let_def res_simps)
  show ?thesis
  proof (cases s)
    case (Inl e)
    then show ?thesis using scan_rules_error [of h _ ctx rules "[]" e] s res by simp
  next
    case (Inr matched)
    then have "r \<in> set matched" using scan_rules_matched s assms(2,6) by blast
    then have "List.find (\<lambda>r. ar_effect r = Deny) matched \<noteq> None"
      using find_NoneD assms(3) by fastforce
    then obtain q where "List.find (\<lambda>r. ar_effect r = Deny) matched = Some q" by blast
    then have "select_rule matched = Some q" "ar_effect q = Deny"
      using find_SomeD by (force simp: select_rule_def)+
    then show ?thesis using res Inr by simp
  qed
qed

theorem deny_rule_dominates_witness:
  "\<exists>res. evaluate_authority_rules example_host
      [example_rule\<lparr>ar_effect := Allow, ar_conditions := []\<rparr>, example_rule]
      (sdict [(''operation'', VStr ''shell.run''), (''argv'', VList [VStr ''aaa''])]) = Inr res
    \<and> \<not> cr_ok res \<and> cr_effect res = Some Deny"
proof -
  let ?ctx = "sdict [(''operation'', VStr ''shell.run''), (''argv'', VList [VStr ''aaa''])]"
  have "is_ok (evaluate_authority_rules example_host
      [example_rule\<lparr>ar_effect := Allow, ar_conditions := []\<rparr>, example_rule] ?ctx)"
    by code_simp
  then obtain res where res: "evaluate_authority_rules example_host
      [example_rule\<lparr>ar_effect := Allow, ar_conditions := []\<rparr>, example_rule] ?ctx = Inr res"
    by (auto simp: is_ok_iff)
  have "rule_matches example_host example_rule ?ctx = Inr True" by code_simp
  moreover have "ar_operation example_rule = py_str (h_repr example_host)
      (py_or (py_or (dget ?ctx ''authority_operation'') (dget ?ctx ''operation'')) (VStr []))"
    by code_simp
  ultimately have "\<not> cr_ok res \<and> cr_effect res = Some Deny"
    using deny_rule_dominates [OF res, of example_rule] by (simp add: example_rule_def)
  then show ?thesis using res by blast
qed

definition precedes :: "capability_row \<Rightarrow> capability_row \<Rightarrow> bool" where
  "precedes a b \<longleftrightarrow>
     (if (cap_effect a = Deny) \<noteq> (cap_effect b = Deny) then cap_effect a = Deny
      else if length (cap_resource a) \<noteq> length (cap_resource b) then
        length (cap_resource b) < length (cap_resource a)
      else if cap_issued_at a \<noteq> cap_issued_at b then cap_issued_at b < cap_issued_at a
      else cap_id a \<le> cap_id b)"

text \<open>
  Matching capabilities are tried in one fixed order, none lost and none repeated:
  denials first, then the longer resource, then the later issue time, then the smaller id.
\<close>

theorem sort_matching_order:
  "mset (sort_matching caps) = mset caps \<and> sorted_wrt precedes (sort_matching caps)"
proof
  show "mset (sort_matching caps) = mset caps"
    by (simp add: sort_matching_def sort_desc_def)
  have "sorted_wrt (\<lambda>a b. cap_id a \<le> cap_id b) (sort_key cap_id caps)"
    using sorted_sort_key [of cap_id caps] by (simp add: sorted_wrt_map)
  from sort_key_lex [OF sort_desc_lex [OF sort_desc_lex [OF this, of cap_issued_at],
      of "\<lambda>c. length (cap_resource c)"], of "\<lambda>c. if cap_effect c = Deny then 0 else (1 :: nat)"]
  show "sorted_wrt precedes (sort_matching caps)"
    unfolding sort_matching_def [symmetric]
    by (rule sorted_wrt_mono_rel [rotated]) (auto simp: precedes_def split: if_splits)
qed

end
