(* ===== verification/CapStore.thy ===== *)
theory CapStore
  imports CapModel Host "HOL-Library.Product_Lexorder"
begin

text \<open>
  The durable capability rows and use reservations: the row operations of
  \<open>agent_libos/storage/sql.py\<close> (insert, update, consume, reserve, commit, restore, status
  transition, recovery of stale reservations), the lease service of
  \<open>agent_libos/capability/lease.py\<close> and the mutations of \<open>agent_libos/capability/mutation.py\<close>.
  The locale \<open>finite_use\<close> is the contract of a store of finite-use grants; its client lemma bounds
  what any sequence of operations can use, and the interpretation shows that the rows keep it.
  Every operation is one store transaction: an error leaves the state as it was.
\<close>

section \<open>State\<close>

datatype reservation_status = Reserved | Committed | Restored | Invalidated | Abandoned

record use_reservation =
  ur_id :: string
  ur_cap :: string
  ur_count :: int
  ur_status :: reservation_status
  ur_by :: string
  ur_reason :: string
  ur_created :: string
  ur_updated :: string

record cap_store =
  st_caps :: "capability_row list"
  st_res :: "use_reservation list"

definition get_cap :: "cap_store \<Rightarrow> string \<Rightarrow> capability_row option" where
  "get_cap st i = List.find (\<lambda>c. cap_id c = i) (st_caps st)"

definition get_reservation :: "cap_store \<Rightarrow> string \<Rightarrow> use_reservation option" where
  "get_reservation st i = List.find (\<lambda>r. ur_id r = i) (st_res st)"

text \<open>\<open>list_capabilities\<close>, of one subject or of all.\<close>

definition list_caps :: "cap_store \<Rightarrow> string option \<Rightarrow> capability_row list" where
  "list_caps st subj =
     (case subj of
        None \<Rightarrow> sort_key (\<lambda>c. (cap_subject c, cap_issued_at c, cap_id c)) (st_caps st)
      | Some s \<Rightarrow> sort_key (\<lambda>c. (cap_issued_at c, cap_id c))
          (filter (\<lambda>c. cap_subject c = s) (st_caps st)))"

definition map_cap :: "string \<Rightarrow> (capability_row \<Rightarrow> capability_row) \<Rightarrow> cap_store \<Rightarrow> cap_store" where
  "map_cap i f st = st\<lparr>st_caps := map (\<lambda>c. if cap_id c = i then f c else c) (st_caps st)\<rparr>"

definition map_res :: "(use_reservation \<Rightarrow> bool) \<Rightarrow> (use_reservation \<Rightarrow> use_reservation) \<Rightarrow> cap_store \<Rightarrow> cap_store" where
  "map_res p f st = st\<lparr>st_res := map (\<lambda>r. if p r then f r else r) (st_res st)\<rparr>"

section \<open>Row operations\<close>

definition positive_use_count :: "int \<Rightarrow> int res" where
  "positive_use_count n = (if n < 1 then Inl (ValueError ''count must be a positive integer'') else Inr n)"

text \<open>
  The write validation shared by \<open>insert_capability\<close> and \<open>update_capability\<close>: use count, rights,
  JSON objects, delegation depths.
\<close>

definition json_object_ok :: "host \<Rightarrow> pydict \<Rightarrow> bool" where
  "json_object_ok h d \<longleftrightarrow> list_all (\<lambda>p. is_str (fst p)) d \<and>
     is_ok (json_text h \<lparr>jf_ascii = True, jf_default = False, jf_nan = True, jf_item_sep = '', '',
       jf_key_sep = '': ''\<rparr> (VDict d))"

definition check_write :: "host \<Rightarrow> nat \<Rightarrow> capability_row \<Rightarrow> unit res" where
  "check_write h max_rights c =
     bindR (case cap_uses_remaining c of
        None \<Rightarrow> Inr ()
      | Some n \<Rightarrow>
          if n < 0 then Inl (ValueError ''uses_remaining must be a non-negative integer'')
          else if cap_status c = Active \<and> n < 1 then
            Inl (ValueError ''active capability uses_remaining must be positive'')
          else Inr ()) (\<lambda>_.
     bindR (check (cap_rights c \<noteq> [])
       (ValueError ''capability rights must contain non-empty string rights'')) (\<lambda>_.
     bindR (check (list_all (\<lambda>r. r \<in> set (map right_value all_rights)) (cap_rights c))
       (ValueError ''capability rights contain an unknown right'')) (\<lambda>_.
     bindR (check (json_object_ok h (sdict (cap_constraints c)))
       (ValueError ''capability constraints must be JSON-serializable'')) (\<lambda>_.
     bindR (check (json_object_ok h (cap_metadata c))
       (ValueError ''capability metadata must be JSON-serializable'')) (\<lambda>_.
     bindR (check (card (set (cap_rights c)) \<le> max_rights)
       (ValueError ''capability rights exceed configured limit'')) (\<lambda>_.
     bindR (check (0 \<le> cap_delegation_depth c)
       (ValueError ''delegation_depth must be a non-negative integer'')) (\<lambda>_.
       case cap_max_delegation_depth c of
         None \<Rightarrow> Inr ()
       | Some m \<Rightarrow>
           if m < 0 then Inl (ValueError ''max_delegation_depth must be a non-negative integer'')
           else if m < cap_delegation_depth c then
             Inl (ValueError ''max_delegation_depth cannot be less than delegation_depth'')
           else Inr ())))))))"

text \<open>A duplicate primary key raises the database's integrity error.\<close>

definition insert_capability :: "host \<Rightarrow> nat \<Rightarrow> capability_row \<Rightarrow> cap_store \<Rightarrow> cap_store res" where
  "insert_capability h max_rights c st =
     bindR (check_write h max_rights c) (\<lambda>_.
       if get_cap st (cap_id c) \<noteq> None then Inl (PyRuntimeError ''UNIQUE constraint failed: capabilities.cap_id'')
       else Inr (st\<lparr>st_caps := st_caps st @ [c]\<rparr>))"

text \<open>The guarded decrement shared by \<open>consume_capability_uses\<close> and \<open>reserve_capability_uses\<close>.\<close>

definition decrement :: "int \<Rightarrow> capability_row \<Rightarrow> capability_row" where
  "decrement n c =
     (case cap_uses_remaining c of
        None \<Rightarrow> c
      | Some u \<Rightarrow> c\<lparr>cap_uses_remaining := Some (u - n),
                    cap_status := (if u - n \<le> 0 then Revoked else cap_status c)\<rparr>)"

definition can_decrement :: "int \<Rightarrow> capability_row \<Rightarrow> bool" where
  "can_decrement n c \<longleftrightarrow> cap_status c = Active \<and>
     (case cap_uses_remaining c of None \<Rightarrow> False | Some u \<Rightarrow> n \<le> u)"

definition consume_uses :: "string \<Rightarrow> int \<Rightarrow> cap_store \<Rightarrow> (cap_store \<times> capability_row option) res" where
  "consume_uses i n st =
     bindR (positive_use_count n) (\<lambda>n.
       Inr (case get_cap st i of
         Some c \<Rightarrow> if can_decrement n c then (map_cap i (decrement n) st, Some (decrement n c)) else (st, None)
       | None \<Rightarrow> (st, None)))"

definition reserve_uses ::
  "string \<Rightarrow> string \<Rightarrow> int \<Rightarrow> string \<Rightarrow> string \<Rightarrow> string \<Rightarrow> cap_store \<Rightarrow>
   (cap_store \<times> capability_row option) res" where
  "reserve_uses i rid n by reason now st =
     bindR (positive_use_count n) (\<lambda>n.
       case get_cap st i of
         Some c \<Rightarrow>
           if \<not> can_decrement n c then Inr (st, None)
           else if get_reservation st rid \<noteq> None then
             Inl (PyRuntimeError ''UNIQUE constraint failed: capability_use_reservations.reservation_id'')
           else Inr ((map_cap i (decrement n) st)
             \<lparr>st_res := st_res st @ [\<lparr>ur_id = rid, ur_cap = i, ur_count = n, ur_status = Reserved,
                 ur_by = by, ur_reason = reason, ur_created = now, ur_updated = now\<rparr>]\<rparr>,
             Some (decrement n c))
       | None \<Rightarrow> Inr (st, None))"

definition settle :: "string \<Rightarrow> reservation_status \<Rightarrow> string \<Rightarrow> cap_store \<Rightarrow> cap_store" where
  "settle rid s now =
     map_res (\<lambda>r. ur_id r = rid \<and> ur_status r = Reserved) (\<lambda>r. r\<lparr>ur_status := s, ur_updated := now\<rparr>)"

definition reserved_now :: "cap_store \<Rightarrow> string \<Rightarrow> use_reservation option" where
  "reserved_now st rid = List.find (\<lambda>r. ur_id r = rid \<and> ur_status r = Reserved) (st_res st)"

definition commit_reservation :: "string \<Rightarrow> string \<Rightarrow> cap_store \<Rightarrow> cap_store \<times> bool" where
  "commit_reservation rid now st = (settle rid Committed now st, reserved_now st rid \<noteq> None)"

definition give_back :: "int \<Rightarrow> capability_row \<Rightarrow> capability_row" where
  "give_back n c =
     (case cap_uses_remaining c of
        None \<Rightarrow> c
      | Some u \<Rightarrow> c\<lparr>cap_uses_remaining := Some (u + n),
                    cap_status := (if cap_status c = Revoked then Active else cap_status c)\<rparr>)"

definition restore_reservation ::
  "string \<Rightarrow> string \<Rightarrow> cap_store \<Rightarrow> (cap_store \<times> capability_row option) res" where
  "restore_reservation rid now st =
     (case reserved_now st rid of
        None \<Rightarrow> Inr (st, None)
      | Some r \<Rightarrow>
          if ur_count r < 1 then
            Inl (ValidationError ''persisted capability reservation count must be a positive integer'')
          else
            (case get_cap st (ur_cap r) of
               Some c \<Rightarrow>
                 if cap_uses_remaining c \<noteq> None \<and> cap_status c \<in> {Active, Revoked} then
                   Inr (settle rid Restored now (map_cap (ur_cap r) (give_back (ur_count r)) st),
                        Some (give_back (ur_count r) c))
                 else Inr (settle rid Invalidated now st, None)
             | None \<Rightarrow> Inr (settle rid Invalidated now st, None)))"

lemma give_back_id [simp]: "cap_id (give_back n c) = cap_id c"
  by (simp add: give_back_def split: option.split)

definition invalidate_reservations :: "string \<Rightarrow> string \<Rightarrow> cap_store \<Rightarrow> cap_store" where
  "invalidate_reservations i now =
     map_res (\<lambda>r. ur_cap r = i \<and> ur_status r = Reserved)
       (\<lambda>r. r\<lparr>ur_status := Invalidated, ur_updated := now\<rparr>)"

definition update_capability ::
  "host \<Rightarrow> nat \<Rightarrow> capability_row \<Rightarrow> string \<Rightarrow> cap_store \<Rightarrow> cap_store res" where
  "update_capability h max_rights c now st =
     bindR (check_write h max_rights c) (\<lambda>_.
       let st' = map_cap (cap_id c) (\<lambda>_. c) st in
       Inr (if cap_status c = Active then st' else invalidate_reservations (cap_id c) now st'))"

definition transition_status ::
  "string \<Rightarrow> capability_status \<Rightarrow> capability_status \<Rightarrow> pydict \<Rightarrow> string \<Rightarrow> cap_store \<Rightarrow>
   cap_store \<times> capability_row option" where
  "transition_status i expected s md now st =
     (case get_cap st i of
        Some c \<Rightarrow>
          if cap_status c \<noteq> expected then (st, None)
          else
            (let c' = c\<lparr>cap_status := s, cap_metadata := md\<rparr>; st' = map_cap i (\<lambda>_. c') st in
             (if s = Active then st' else invalidate_reservations i now st', Some c'))
      | None \<Rightarrow> (st, None))"

text \<open>
  \<open>abandon_stale_capability_use_reservations\<close>: pages of the reserved rows in the order of creation
  time and id, with a cursor; the fuel is the number of rows, and one page beyond the last is empty.
\<close>

definition stale_key :: "use_reservation \<Rightarrow> string \<times> string" where
  "stale_key r = (ur_created r, ur_id r)"

definition stale_page :: "nat \<Rightarrow> (string \<times> string) option \<Rightarrow> cap_store \<Rightarrow> use_reservation list" where
  "stale_page psize after st =
     take psize (sort_key stale_key (filter (\<lambda>r. ur_status r = Reserved \<and>
       (case after of None \<Rightarrow> True | Some k \<Rightarrow> k < stale_key r)) (st_res st)))"

definition abandon_row :: "string \<Rightarrow> use_reservation \<Rightarrow> cap_store \<Rightarrow> cap_store" where
  "abandon_row now r = settle (ur_id r) Abandoned now"

fun abandon_pages ::
  "nat \<Rightarrow> nat \<Rightarrow> string \<Rightarrow> (string \<times> string) option \<Rightarrow> int \<Rightarrow> string list \<Rightarrow> cap_store \<Rightarrow>
   (cap_store \<times> int \<times> string list) option" where
  "abandon_pages 0 psize now after n sample st = None"
| "abandon_pages (Suc fuel) psize now after n sample st =
     (let page = stale_page psize after st in
      if page = [] then Some (st, n, sample)
      else abandon_pages fuel psize now (Some (stale_key (last page))) (n + int (length page))
        (take psize (sample @ map ur_id page)) (fold (abandon_row now) page st))"

definition abandon_stale :: "nat \<Rightarrow> string \<Rightarrow> cap_store \<Rightarrow> (cap_store \<times> recovery_summary) option" where
  "abandon_stale psize now st =
     map_option (\<lambda>(st', n, sample). (st', \<lparr>rs_total = n, rs_sample = sample\<rparr>))
       (abandon_pages (Suc (length (st_res st))) psize now None 0 [] st)"

section \<open>The lease service\<close>

definition lease_count :: "int \<Rightarrow> int res" where
  "lease_count n =
     (if n < 1 then Inl (ValidationError ''capability count must be a positive integer'') else Inr n)"

definition require_cap :: "cap_store \<Rightarrow> string \<Rightarrow> capability_row res" where
  "require_cap st i =
     (case get_cap st i of None \<Rightarrow> Inl (NotFound (''capability not found: '' @ i)) | Some c \<Rightarrow> Inr c)"

definition lease_consume :: "string \<Rightarrow> int \<Rightarrow> cap_store \<Rightarrow> (cap_store \<times> capability_row) res" where
  "lease_consume i n st =
     bindR (lease_count n) (\<lambda>n.
     bindR (require_cap st i) (\<lambda>c.
       if cap_uses_remaining c = None then Inr (st, c)
       else bindR (consume_uses i n st) (\<lambda>(st', o').
         case o' of
           None \<Rightarrow> Inl (CapabilityDenied (''capability use exhausted: '' @ i))
         | Some c' \<Rightarrow> Inr (st', c'))))"

definition lease_reserve ::
  "string \<Rightarrow> string \<Rightarrow> int \<Rightarrow> string \<Rightarrow> string \<Rightarrow> string \<Rightarrow> cap_store \<Rightarrow> (cap_store \<times> string) res" where
  "lease_reserve i rid n by reason now st =
     bindR (lease_count n) (\<lambda>n.
     bindR (require_cap st i) (\<lambda>c.
       if cap_uses_remaining c = None then
         Inl (ValidationError (''capability is not finite-use: '' @ i))
       else bindR (reserve_uses i rid n by reason now st) (\<lambda>(st', o').
         case o' of
           None \<Rightarrow> Inl (CapabilityDenied (''capability use exhausted: '' @ i))
         | Some c' \<Rightarrow> Inr (st', rid))))"

definition lease_commit :: "string option \<Rightarrow> string \<Rightarrow> cap_store \<Rightarrow> cap_store \<times> bool" where
  "lease_commit rid now st =
     (case rid of None \<Rightarrow> (st, False) | Some r \<Rightarrow> commit_reservation r now st)"

definition lease_restore ::
  "string option \<Rightarrow> string \<Rightarrow> cap_store \<Rightarrow> (cap_store \<times> capability_row option) res" where
  "lease_restore rid now st =
     (case rid of None \<Rightarrow> Inr (st, None) | Some r \<Rightarrow> restore_reservation r now st)"

section \<open>Mutations\<close>

definition exec_token_key :: string where
  "exec_token_key = ''_agent_libos_exec_rollback_token''"

definition without_exec_token :: "pydict \<Rightarrow> pydict" where
  "without_exec_token d = dpop d (VStr exec_token_key)"

definition require_revocable :: "cap_store \<Rightarrow> string \<Rightarrow> capability_row res" where
  "require_revocable st i =
     bindR (require_cap st i) (\<lambda>c.
       if cap_revocable c then Inr c
       else Inl (CapabilityDenied (''capability is not revocable: '' @ i)))"

definition mutation_revoke ::
  "host \<Rightarrow> nat \<Rightarrow> string \<Rightarrow> string \<Rightarrow> cap_store \<Rightarrow> (cap_store \<times> capability_row) res" where
  "mutation_revoke h mr i now st =
     bindR (require_revocable st i) (\<lambda>c.
       let c' = c\<lparr>cap_status := Revoked, cap_metadata := without_exec_token (cap_metadata c)\<rparr> in
       bindR (update_capability h mr c' now st) (\<lambda>st'. Inr (st', c')))"

definition stage_exec_revocation ::
  "string \<Rightarrow> string \<Rightarrow> string \<Rightarrow> cap_store \<Rightarrow> (cap_store \<times> capability_row) res" where
  "stage_exec_revocation i token now st =
     (let tok = strip token in
      if tok = [] then Inl (ValueError ''exec capability rollback token must not be empty'')
      else bindR (require_revocable st i) (\<lambda>c.
        if \<not> active c then Inr (st, c)
        else case transition_status i Active ExecRevoked
               (dset (without_exec_token (cap_metadata c)) (VStr exec_token_key) (VStr tok)) now st of
          (st', Some c') \<Rightarrow> Inr (st', c')
        | (st', None) \<Rightarrow> bindR (require_cap st' i) (\<lambda>c'. Inr (st', c'))))"

text \<open>The loops over rows that write one row after the other; an error aborts all of them.\<close>

fun update_all ::
  "host \<Rightarrow> nat \<Rightarrow> string \<Rightarrow> capability_row list \<Rightarrow> cap_store \<Rightarrow> cap_store res" where
  "update_all h mr now [] st = Inr st"
| "update_all h mr now (c # cs) st = bindR (update_capability h mr c now st) (update_all h mr now cs)"

definition revoked_copy :: "capability_row \<Rightarrow> capability_row" where
  "revoked_copy c = c\<lparr>cap_status := Revoked, cap_metadata := without_exec_token (cap_metadata c)\<rparr>"

definition finalize_exec_revocations ::
  "host \<Rightarrow> nat \<Rightarrow> string \<Rightarrow> string \<Rightarrow> string \<Rightarrow> cap_store \<Rightarrow> (cap_store \<times> capability_row list) res" where
  "finalize_exec_revocations h mr subj token now st =
     (let sel = map revoked_copy (filter (\<lambda>c. cap_status c = ExecRevoked
            \<and> dget (cap_metadata c) exec_token_key = VStr token) (list_caps st (Some subj))) in
      bindR (update_all h mr now sel st) (\<lambda>st'. Inr (st', sel)))"

definition disable_capability ::
  "host \<Rightarrow> nat \<Rightarrow> string \<Rightarrow> string \<Rightarrow> cap_store \<Rightarrow> (cap_store \<times> capability_row) res" where
  "disable_capability h mr i now st =
     bindR (require_cap st i) (\<lambda>c.
       let c' = c\<lparr>cap_status := Disabled, cap_metadata := without_exec_token (cap_metadata c)\<rparr> in
       bindR (update_capability h mr c' now st) (\<lambda>st'. Inr (st', c')))"

definition revoke_resource ::
  "host \<Rightarrow> nat \<Rightarrow> string \<Rightarrow> string \<Rightarrow> cap_store \<Rightarrow> (cap_store \<times> capability_row list) res" where
  "revoke_resource h mr res now st =
     (let sel = map revoked_copy (filter (\<lambda>c. cap_resource c = res
            \<and> cap_status c \<in> {Active, ExecRevoked}) (list_caps st None)) in
      bindR (update_all h mr now sel st) (\<lambda>st'. Inr (st', sel)))"

section \<open>Operations as one step\<close>

text \<open>
  The operations that act on existing rows, as one transition function: an operation that raises
  rolls its transaction back and leaves the state as it was.
\<close>

datatype lease_op =
    Consume string int
  | Reserve string string int string string
  | Commit string
  | Restore string
  | Revoke string
  | Disable string
  | StageExec string string
  | FinalizeExec string string
  | RevokeResource string
  | AbandonStale nat

definition keep :: "cap_store \<Rightarrow> (cap_store \<times> 'a) res \<Rightarrow> cap_store" where
  "keep st r = (case r of Inl _ \<Rightarrow> st | Inr (st', _) \<Rightarrow> st')"

fun lease_apply :: "host \<Rightarrow> nat \<Rightarrow> string \<Rightarrow> lease_op \<Rightarrow> cap_store \<Rightarrow> cap_store" where
  "lease_apply h mr now (Consume i n) st = keep st (lease_consume i n st)"
| "lease_apply h mr now (Reserve i rid n by reason) st = keep st (lease_reserve i rid n by reason now st)"
| "lease_apply h mr now (Commit rid) st = fst (lease_commit (Some rid) now st)"
| "lease_apply h mr now (Restore rid) st = keep st (lease_restore (Some rid) now st)"
| "lease_apply h mr now (Revoke i) st = keep st (mutation_revoke h mr i now st)"
| "lease_apply h mr now (Disable i) st = keep st (disable_capability h mr i now st)"
| "lease_apply h mr now (StageExec i tok) st = keep st (stage_exec_revocation i tok now st)"
| "lease_apply h mr now (FinalizeExec subj tok) st = keep st (finalize_exec_revocations h mr subj tok now st)"
| "lease_apply h mr now (RevokeResource res) st = keep st (revoke_resource h mr res now st)"
| "lease_apply h mr now (AbandonStale n) st =
     (case abandon_stale n now st of None \<Rightarrow> st | Some (st', _) \<Rightarrow> st')"

section \<open>Accounting\<close>

definition remaining :: "cap_store \<Rightarrow> string \<Rightarrow> int" where
  "remaining st i =
     (case get_cap st i of
        None \<Rightarrow> 0
      | Some c \<Rightarrow> (case cap_uses_remaining c of None \<Rightarrow> 0 | Some u \<Rightarrow> u))"

definition claim :: "reservation_status set \<Rightarrow> string \<Rightarrow> use_reservation \<Rightarrow> int" where
  "claim S i r = (if ur_cap r = i \<and> ur_status r \<in> S then ur_count r else 0)"

definition claims :: "reservation_status set \<Rightarrow> cap_store \<Rightarrow> string \<Rightarrow> int" where
  "claims S st i = sum_list (map (claim S i) (st_res st))"

text \<open>What may still be used or already is: the remaining uses with the live reservations.\<close>

definition quota :: "cap_store \<Rightarrow> string \<Rightarrow> int" where
  "quota st i = remaining st i + claims {Reserved, Committed} st i"

definition used :: "cap_store \<Rightarrow> string \<Rightarrow> int" where
  "used st i = claims {Committed} st i"

text \<open>The uses that an operation takes at once.\<close>

fun spent :: "lease_op \<Rightarrow> cap_store \<Rightarrow> string \<Rightarrow> int" where
  "spent (Consume i n) st k =
     (if i = k \<and> (case get_cap st i of None \<Rightarrow> False | Some c \<Rightarrow> 1 \<le> n \<and> can_decrement n c) then n else 0)"
| "spent _ st k = 0"

definition store_ok :: "cap_store \<Rightarrow> bool" where
  "store_ok st \<longleftrightarrow>
     distinct (map cap_id (st_caps st)) \<and> list_all (\<lambda>r. 1 \<le> ur_count r) (st_res st) \<and>
     list_all (\<lambda>c. case cap_uses_remaining c of None \<Rightarrow> True | Some u \<Rightarrow> 0 \<le> u) (st_caps st)"

section \<open>The contract of a finite-use store\<close>

locale finite_use =
  fixes inv :: "'s \<Rightarrow> bool"
    and apply_op :: "'op \<Rightarrow> 's \<Rightarrow> 's"
    and quota_of used_of :: "'s \<Rightarrow> 'k \<Rightarrow> int"
    and spent_by :: "'op \<Rightarrow> 's \<Rightarrow> 'k \<Rightarrow> int"
  assumes inv_step: "inv s \<Longrightarrow> inv (apply_op p s)"
    and quota_step: "inv s \<Longrightarrow> quota_of (apply_op p s) k + spent_by p s k \<le> quota_of s k"
    and used_step: "inv s \<Longrightarrow> used_of s k \<le> used_of (apply_op p s) k"
    and used_quota: "inv s \<Longrightarrow> used_of s k \<le> quota_of s k"
begin

fun run :: "'op list \<Rightarrow> 's \<Rightarrow> 's" where
  "run [] s = s"
| "run (p # ps) s = run ps (apply_op p s)"

fun total_spent :: "'op list \<Rightarrow> 's \<Rightarrow> 'k \<Rightarrow> int" where
  "total_spent [] s k = 0"
| "total_spent (p # ps) s k = spent_by p s k + total_spent ps (apply_op p s) k"

lemma run_inv: "inv s \<Longrightarrow> inv (run ps s)"
  by (induction ps arbitrary: s) (auto intro: inv_step)

lemma run_quota: "inv s \<Longrightarrow> quota_of (run ps s) k + total_spent ps s k \<le> quota_of s k"
proof (induction ps arbitrary: s)
  case (Cons p ps)
  from Cons.IH [OF inv_step [OF Cons.prems], of p] quota_step [OF Cons.prems, of p k]
  show ?case by simp
qed simp

lemma run_used: "inv s \<Longrightarrow> used_of (run ps s) k + total_spent ps s k \<le> quota_of s k"
  using run_quota [of s ps k] used_quota [of "run ps s" k] run_inv [of s ps] by simp

lemma run_used_mono: "inv s \<Longrightarrow> used_of s k \<le> used_of (run ps s) k"
proof (induction ps arbitrary: s)
  case (Cons p ps)
  from Cons.IH [OF inv_step [OF Cons.prems], of p] used_step [OF Cons.prems, of k p]
  show ?case by simp
qed simp

end

section \<open>Lemmas on rows\<close>

lemma get_cap_SomeD: "get_cap st i = Some c \<Longrightarrow> c \<in> set (st_caps st) \<and> cap_id c = i"
  by (auto simp: get_cap_def dest: find_SomeD)

lemma get_cap_in: "distinct (map cap_id (st_caps st)) \<Longrightarrow> c \<in> set (st_caps st) \<Longrightarrow> get_cap st (cap_id c) = Some c"
proof -
  have "distinct (map cap_id cs) \<Longrightarrow> c \<in> set cs \<Longrightarrow> List.find (\<lambda>x. cap_id x = cap_id c) cs = Some c" for cs
    by (induction cs) force+
  then show "distinct (map cap_id (st_caps st)) \<Longrightarrow> c \<in> set (st_caps st) \<Longrightarrow> ?thesis"
    by (simp add: get_cap_def)
qed

lemma find_map_id:
  "\<forall>c. cap_id c = i \<longrightarrow> cap_id (f c) = i \<Longrightarrow>
   List.find (\<lambda>c. cap_id c = j) (map (\<lambda>c. if cap_id c = i then f c else c) cs) =
     (if j = i then map_option f (List.find (\<lambda>c. cap_id c = i) cs) else List.find (\<lambda>c. cap_id c = j) cs)"
  by (induction cs) auto

lemma get_cap_map_cap:
  "\<forall>c. cap_id c = i \<longrightarrow> cap_id (f c) = i \<Longrightarrow>
   get_cap (map_cap i f st) j = (if j = i then map_option f (get_cap st i) else get_cap st j)"
  by (simp add: get_cap_def map_cap_def find_map_id)

lemma get_cap_map_res [simp]: "get_cap (map_res p f st) j = get_cap st j"
  by (simp add: get_cap_def map_res_def)

lemma st_res_map_cap [simp]: "st_res (map_cap i f st) = st_res st"
  by (simp add: map_cap_def)

lemma st_caps_map_res [simp]: "st_caps (map_res p f st) = st_caps st"
  by (simp add: map_res_def)

lemma claims_map_cap [simp]: "claims S (map_cap i f st) k = claims S st k"
  by (simp add: claims_def)

lemma claims_cong: "st_res st = st_res st' \<Longrightarrow> claims S st k = claims S st' k"
  by (simp add: claims_def)

lemma map_cap_ids:
  "\<forall>c. cap_id c = i \<longrightarrow> cap_id (f c) = i \<Longrightarrow> map cap_id (st_caps (map_cap i f st)) = map cap_id (st_caps st)"
  by (simp add: map_cap_def)

lemma claims_map_res_le:
  assumes "\<forall>r \<in> set (st_res st). p r \<longrightarrow> claim S k (f r) \<le> claim S k r"
  shows "claims S (map_res p f st) k \<le> claims S st k"
  unfolding claims_def map_res_def using assms by (auto simp: comp_def intro!: sum_list_mono)

lemma claims_map_res_ge:
  assumes "\<forall>r \<in> set (st_res st). p r \<longrightarrow> claim S k r \<le> claim S k (f r)"
  shows "claims S st k \<le> claims S (map_res p f st) k"
  unfolding claims_def map_res_def using assms by (auto simp: comp_def intro!: sum_list_mono)

lemma sum_list_drop_at:
  fixes f g :: "'a \<Rightarrow> int"
  assumes "x \<in> set xs" "\<forall>y \<in> set xs. g y \<le> f y"
  shows "sum_list (map g xs) + (f x - g x) \<le> sum_list (map f xs)"
  using assms
proof (induction xs)
  case (Cons y ys)
  have "sum_list (map g ys) \<le> sum_list (map f ys)" using Cons.prems(2) by (auto intro: sum_list_mono)
  then show ?case using Cons by (cases "x = y") auto
qed simp

lemma claims_map_res_drop:
  assumes "r \<in> set (st_res st)" "p r" "\<forall>q \<in> set (st_res st). p q \<longrightarrow> claim S k (f q) \<le> claim S k q"
  shows "claims S (map_res p f st) k + (claim S k r - claim S k (f r)) \<le> claims S st k"
  using sum_list_drop_at [of r "st_res st" "\<lambda>q. claim S k (if p q then f q else q)" "claim S k"] assms
  by (auto simp: claims_def map_res_def comp_def)

text \<open>Settling a reservation as something else than committed frees its claim.\<close>

lemma settle_le:
  "store_ok st \<Longrightarrow> s \<noteq> Reserved \<Longrightarrow> claims {Reserved, Committed} (settle rid s now st) k \<le> claims {Reserved, Committed} st k"
  unfolding settle_def
  by (intro claims_map_res_le) (auto simp: claim_def store_ok_def list_all_iff)

lemma settle_used_ge:
  "store_ok st \<Longrightarrow> claims {Committed} st k \<le> claims {Committed} (settle rid s now st) k"
  unfolding settle_def
  by (intro claims_map_res_ge) (auto simp: claim_def store_ok_def list_all_iff)

lemma invalidate_le:
  "store_ok st \<Longrightarrow> claims {Reserved, Committed} (invalidate_reservations i now st) k \<le> claims {Reserved, Committed} st k"
  unfolding invalidate_reservations_def
  by (intro claims_map_res_le) (auto simp: claim_def store_ok_def list_all_iff)

lemma invalidate_used:
  "claims {Committed} (invalidate_reservations i now st) k = claims {Committed} st k"
  unfolding invalidate_reservations_def
  by (intro antisym claims_map_res_le claims_map_res_ge) (auto simp: claim_def)

lemma store_ok_map_res:
  "store_ok st \<Longrightarrow> \<forall>r. ur_count (f r) = ur_count r \<Longrightarrow> store_ok (map_res p f st)"
  by (auto simp: store_ok_def map_res_def list_all_iff)

lemma store_ok_map_cap:
  assumes "store_ok st" "\<forall>c. cap_id c = i \<longrightarrow> cap_id (f c) = i"
    and "\<And>c u. c \<in> set (st_caps st) \<Longrightarrow> cap_id c = i \<Longrightarrow> cap_uses_remaining (f c) = Some u \<Longrightarrow> 0 \<le> u"
  shows "store_ok (map_cap i f st)"
proof -
  have "list_all (\<lambda>c. case cap_uses_remaining c of None \<Rightarrow> True | Some u \<Rightarrow> 0 \<le> u) (st_caps (map_cap i f st))"
    using assms(1,3) by (auto simp: store_ok_def map_cap_def list_all_iff split: option.splits)
  then show ?thesis using assms(1) map_cap_ids [OF assms(2), of st] by (simp add: store_ok_def)
qed

lemma remaining_get: "get_cap st i = get_cap st' i \<Longrightarrow> remaining st i = remaining st' i"
  by (simp add: remaining_def)

lemma settle_remaining [simp]: "remaining (settle rid s now st) k = remaining st k"
  by (simp add: remaining_def settle_def)

lemma invalidate_remaining [simp]: "remaining (invalidate_reservations i now st) k = remaining st k"
  by (simp add: remaining_def invalidate_reservations_def)

lemma store_ok_settle: "store_ok st \<Longrightarrow> store_ok (settle rid s now st)"
  by (simp add: settle_def store_ok_map_res)

lemma store_ok_invalidate: "store_ok st \<Longrightarrow> store_ok (invalidate_reservations i now st)"
  by (simp add: invalidate_reservations_def store_ok_map_res)

lemma decrement_id [simp]: "cap_id (decrement n c) = cap_id c"
  by (simp add: decrement_def split: option.split)

lemma used_le_quota: "store_ok st \<Longrightarrow> used st k \<le> quota st k"
proof -
  assume ok: "store_ok st"
  have "0 \<le> remaining st k"
    using ok get_cap_SomeD [of st k]
    by (auto simp: remaining_def store_ok_def list_all_iff split: option.splits)
  moreover have "claims {Committed} st k \<le> claims {Reserved, Committed} st k"
    using ok by (auto simp: claims_def claim_def store_ok_def list_all_iff intro!: sum_list_mono)
  ultimately show ?thesis by (simp add: used_def quota_def)
qed

section \<open>Every operation keeps the account\<close>

definition step_ok :: "cap_store \<Rightarrow> cap_store \<Rightarrow> (string \<Rightarrow> int) \<Rightarrow> bool" where
  "step_ok st st' sp \<longleftrightarrow> store_ok st' \<and> (\<forall>k. quota st' k + sp k \<le> quota st k) \<and> (\<forall>k. used st k \<le> used st' k)"

lemma step_ok_refl: "store_ok st \<Longrightarrow> step_ok st st (\<lambda>_. 0)"
  by (simp add: step_ok_def)

lemma step_ok_trans: "step_ok st st' (\<lambda>_. 0) \<Longrightarrow> step_ok st' st'' (\<lambda>_. 0) \<Longrightarrow> step_ok st st'' (\<lambda>_. 0)"
  by (fastforce simp: step_ok_def intro: order_trans)

lemma settle_step: "store_ok st \<Longrightarrow> s \<noteq> Reserved \<Longrightarrow> step_ok st (settle rid s now st) (\<lambda>_. 0)"
  by (simp add: step_ok_def quota_def used_def store_ok_settle settle_le settle_used_ge)

lemma invalidate_step: "store_ok st \<Longrightarrow> step_ok st (invalidate_reservations i now st) (\<lambda>_. 0)"
  by (simp add: step_ok_def quota_def used_def store_ok_invalidate invalidate_le invalidate_used)

lemma remaining_decrement:
  assumes "get_cap st i = Some c" "can_decrement n c"
  shows "remaining (map_cap i (decrement n) st) k = remaining st k - (if i = k then n else 0)"
  using assms
  by (auto simp: remaining_def get_cap_map_cap decrement_def can_decrement_def split: option.splits)

lemma store_ok_decrement:
  assumes "store_ok st" "get_cap st i = Some c" "can_decrement n c"
  shows "store_ok (map_cap i (decrement n) st)"
proof (rule store_ok_map_cap [OF assms(1)])
  fix d u assume d: "d \<in> set (st_caps st)" "cap_id d = i" "cap_uses_remaining (decrement n d) = Some u"
  then have "d = c" using assms(1,2) get_cap_in [of st d] by (simp add: store_ok_def)
  then show "0 \<le> u" using d assms(3) by (auto simp: decrement_def can_decrement_def split: option.splits)
qed simp

lemma consume_step:
  assumes "store_ok st"
  shows "step_ok st (keep st (lease_consume i n st)) (spent (Consume i n) st)"
proof (cases "get_cap st i")
  case None
  then show ?thesis using assms
    by (auto simp: step_ok_def keep_def lease_consume_def lease_count_def require_cap_def)
next
  case (Some c)
  show ?thesis
  proof (cases "1 \<le> n \<and> can_decrement n c")
    case True
    then have "keep st (lease_consume i n st) = map_cap i (decrement n) st"
      using Some
      by (auto simp: keep_def lease_consume_def lease_count_def require_cap_def consume_uses_def
          positive_use_count_def can_decrement_def split: option.splits)
    then show ?thesis
      using True Some assms store_ok_decrement [OF assms Some]
      by (auto simp: step_ok_def quota_def used_def remaining_decrement)
  next
    case False
    then have "keep st (lease_consume i n st) = st"
      using Some
      by (auto simp: keep_def lease_consume_def lease_count_def require_cap_def consume_uses_def
          positive_use_count_def split: option.splits)
    moreover have "spent (Consume i n) st = (\<lambda>_. 0)" using False Some by (auto simp: fun_eq_iff)
    ultimately show ?thesis using step_ok_refl assms by simp
  qed
qed

lemma reserve_cases:
  assumes "lease_reserve i rid n by reason now st = Inr (st', x)"
  obtains c where "get_cap st i = Some c" "can_decrement n c" "1 \<le> n" "get_reservation st rid = None" "x = rid"
    "st' = (map_cap i (decrement n) st)\<lparr>st_res := st_res st @ [\<lparr>ur_id = rid, ur_cap = i, ur_count = n,
       ur_status = Reserved, ur_by = by, ur_reason = reason, ur_created = now, ur_updated = now\<rparr>]\<rparr>"
  using assms
  by (auto simp: lease_reserve_def lease_count_def require_cap_def reserve_uses_def
      positive_use_count_def res_simps split: option.splits if_splits)

lemma reserve_step:
  assumes "store_ok st"
  shows "step_ok st (keep st (lease_reserve i rid n by reason now st)) (\<lambda>_. 0)"
proof (cases "lease_reserve i rid n by reason now st")
  case (Inl e)
  then show ?thesis using assms step_ok_refl by (simp add: keep_def)
next
  case (Inr p)
  obtain st' x where p: "p = (st', x)" by (cases p)
  with Inr have res: "lease_reserve i rid n by reason now st = Inr (st', x)" by simp
  obtain c where c: "get_cap st i = Some c" "can_decrement n c" "1 \<le> n"
    and st': "st' = (map_cap i (decrement n) st)\<lparr>st_res := st_res st @ [\<lparr>ur_id = rid, ur_cap = i, ur_count = n,
       ur_status = Reserved, ur_by = by, ur_reason = reason, ur_created = now, ur_updated = now\<rparr>]\<rparr>"
    by (rule reserve_cases [OF res]) blast
  have rem: "remaining st' k = remaining st k - (if i = k then n else 0)" for k
    using remaining_decrement [OF c(1,2), of k] by (simp add: st' remaining_def get_cap_def)
  have cl: "claims S st' k = claims S st k + (if i = k \<and> Reserved \<in> S then n else 0)" for S k
    by (simp add: st' claims_def claim_def)
  have "store_ok st'"
    using store_ok_decrement [OF assms c(1,2)] assms c(3) by (simp add: st' store_ok_def)
  then show ?thesis using Inr p by (simp add: keep_def step_ok_def quota_def used_def rem cl)
qed

lemma restore_step:
  assumes ok: "store_ok st"
  shows "step_ok st (keep st (lease_restore (Some rid) now st)) (\<lambda>_. 0)"
proof (cases "reserved_now st rid")
  case None
  then show ?thesis using step_ok_refl [OF ok] by (simp add: keep_def lease_restore_def restore_reservation_def)
next
  case (Some r)
  have r: "r \<in> set (st_res st)" "ur_id r = rid" "ur_status r = Reserved"
    using Some by (auto simp: reserved_now_def dest: find_SomeD)
  have cnt: "1 \<le> ur_count r" using ok r(1) by (simp add: store_ok_def list_all_iff)
  have gid: "\<forall>c. cap_id c = ur_cap r \<longrightarrow> cap_id (give_back (ur_count r) c) = ur_cap r" by simp
  show ?thesis
  proof (cases "\<exists>c u. get_cap st (ur_cap r) = Some c \<and> cap_uses_remaining c = Some u \<and> cap_status c \<in> {Active, Revoked}")
    case True
    then obtain c u where c: "get_cap st (ur_cap r) = Some c" "cap_uses_remaining c = Some u"
        "cap_status c \<in> {Active, Revoked}" by blast
    let ?m = "map_cap (ur_cap r) (give_back (ur_count r)) st"
    have eq: "keep st (lease_restore (Some rid) now st) = settle rid Restored now ?m"
      using Some c cnt by (simp add: keep_def lease_restore_def restore_reservation_def)
    have okm: "store_ok ?m"
      by (rule store_ok_map_cap [OF ok gid])
         (use ok cnt in \<open>auto simp: give_back_def store_ok_def list_all_iff split: option.splits\<close>)
    have rem: "remaining ?m k = remaining st k + (if ur_cap r = k then ur_count r else 0)" for k
    proof -
      have g: "get_cap ?m k = (if k = ur_cap r then Some (give_back (ur_count r) c) else get_cap st k)"
        using c get_cap_map_cap [OF gid, of st k] by simp
      moreover have "cap_uses_remaining (give_back (ur_count r) c) = Some (u + ur_count r)" using c by (simp add: give_back_def)
      ultimately show ?thesis using c by (cases "k = ur_cap r") (simp_all add: remaining_def)
    qed
    have cl: "claims {Reserved, Committed} (settle rid Restored now ?m) k
        + (if ur_cap r = k then ur_count r else 0) \<le> claims {Reserved, Committed} st k" for k
    proof -
      have "claims {Reserved, Committed} (settle rid Restored now ?m) k
        + (claim {Reserved, Committed} k r - claim {Reserved, Committed} k (r\<lparr>ur_status := Restored, ur_updated := now\<rparr>))
        \<le> claims {Reserved, Committed} ?m k"
        unfolding settle_def
        by (rule claims_map_res_drop)
           (use r okm in \<open>auto simp: claim_def store_ok_def list_all_iff\<close>)
      then show ?thesis using r by (simp add: claim_def split: if_splits)
    qed
    have "quota (settle rid Restored now ?m) k \<le> quota st k" for k
      using cl [of k] rem [of k] by (simp add: quota_def)
    moreover have "used st k \<le> used (settle rid Restored now ?m) k" for k
      using settle_used_ge [OF okm, of k rid Restored now] by (simp add: used_def)
    ultimately show ?thesis
      unfolding eq step_ok_def using store_ok_settle [OF okm] by simp
  next
    case False
    then have "keep st (lease_restore (Some rid) now st) = settle rid Invalidated now st"
      using Some cnt
      by (auto simp: keep_def lease_restore_def restore_reservation_def Let_def split: option.splits)
    then show ?thesis using settle_step [OF ok] by simp
  qed
qed

text \<open>An update writes a row with the uses it read.\<close>

definition same_uses :: "cap_store \<Rightarrow> capability_row \<Rightarrow> bool" where
  "same_uses st c \<longleftrightarrow>
     (\<forall>c0. get_cap st (cap_id c) = Some c0 \<longrightarrow> cap_uses_remaining c0 = cap_uses_remaining c)"

lemma replace_step:
  assumes ok: "store_ok st" and su: "same_uses st c"
  shows "step_ok st (map_cap (cap_id c) (\<lambda>_. c) st) (\<lambda>_. 0)"
    and "map_option cap_uses_remaining (get_cap (map_cap (cap_id c) (\<lambda>_. c) st) j)
      = map_option cap_uses_remaining (get_cap st j)"
proof -
  let ?m = "map_cap (cap_id c) (\<lambda>_. c) st"
  have g: "get_cap ?m j = (if j = cap_id c then map_option (\<lambda>_. c) (get_cap st j) else get_cap st j)" for j
    using get_cap_map_cap [of "cap_id c" "\<lambda>_. c" st j] by auto
  show uses: "map_option cap_uses_remaining (get_cap ?m j) = map_option cap_uses_remaining (get_cap st j)" for j
    using su by (auto simp: g same_uses_def map_option_case split: option.split)
  have rem: "remaining ?m k = remaining st k" for k
    using uses [of k] by (auto simp: remaining_def split: option.splits)
  have "store_ok ?m"
  proof (rule store_ok_map_cap [OF ok])
    fix d u assume d: "d \<in> set (st_caps st)" "cap_id d = cap_id c" "cap_uses_remaining c = Some u"
    then have "cap_uses_remaining d = Some u"
      using su get_cap_in [of st d] ok by (auto simp: same_uses_def store_ok_def)
    then show "0 \<le> u" using ok d(1) by (force simp: store_ok_def list_all_iff)
  qed simp
  then show "step_ok st ?m (\<lambda>_. 0)" by (simp add: step_ok_def quota_def used_def rem)
qed

lemma update_step:
  assumes ok: "store_ok st" and su: "same_uses st c" and up: "update_capability h mr c now st = Inr st'"
  shows "step_ok st st' (\<lambda>_. 0)"
    and "map_option cap_uses_remaining (get_cap st' j) = map_option cap_uses_remaining (get_cap st j)"
proof -
  note r = replace_step [OF ok su]
  have st': "st' = (if cap_status c = Active then map_cap (cap_id c) (\<lambda>_. c) st
      else invalidate_reservations (cap_id c) now (map_cap (cap_id c) (\<lambda>_. c) st))"
    using up by (auto simp: update_capability_def res_simps Let_def)
  have "store_ok (map_cap (cap_id c) (\<lambda>_. c) st)" using r(1) by (simp add: step_ok_def)
  from step_ok_trans [OF r(1) invalidate_step [OF this]] show "step_ok st st' (\<lambda>_. 0)"
    using r(1) by (simp add: st')
  show "map_option cap_uses_remaining (get_cap st' j) = map_option cap_uses_remaining (get_cap st j)"
    using r(2) by (simp add: st' invalidate_reservations_def)
qed

lemma same_uses_transfer:
  assumes "same_uses st c"
    and "\<And>j. map_option cap_uses_remaining (get_cap st' j) = map_option cap_uses_remaining (get_cap st j)"
  shows "same_uses st' c"
  unfolding same_uses_def
proof (intro allI impI)
  fix c1 assume "get_cap st' (cap_id c) = Some c1"
  then have "map_option cap_uses_remaining (get_cap st (cap_id c)) = Some (cap_uses_remaining c1)"
    using assms(2) [of "cap_id c"] by simp
  then show "cap_uses_remaining c1 = cap_uses_remaining c"
    using assms(1) by (auto simp: same_uses_def)
qed

lemma update_all_step:
  "store_ok st \<Longrightarrow> \<forall>c \<in> set cs. same_uses st c \<Longrightarrow> update_all h mr now cs st = Inr st' \<Longrightarrow>
   step_ok st st' (\<lambda>_. 0)"
proof (induction cs arbitrary: st)
  case Nil
  then show ?case using step_ok_refl by simp
next
  case (Cons c cs)
  then obtain st1 where u: "update_capability h mr c now st = Inr st1" "update_all h mr now cs st1 = Inr st'"
    by (auto simp: res_simps)
  note s = update_step [OF Cons.prems(1) _ u(1)]
  have su: "same_uses st c" using Cons.prems(2) by simp
  have ok1: "store_ok st1" using s(1) [OF su] by (simp add: step_ok_def)
  have "\<forall>c \<in> set cs. same_uses st1 c"
    using Cons.prems(2) same_uses_transfer [of st _ st1] s(2) [OF su] by simp
  from step_ok_trans [OF s(1) [OF su] Cons.IH [OF ok1 this u(2)]] show ?case .
qed

lemma same_uses_listed:
  "store_ok st \<Longrightarrow> c \<in> set (st_caps st) \<Longrightarrow> cap_id c' = cap_id c \<Longrightarrow>
   cap_uses_remaining c' = cap_uses_remaining c \<Longrightarrow> same_uses st c'"
  using get_cap_in [of st c] by (simp add: same_uses_def store_ok_def)

lemma set_list_caps: "set (list_caps st subj) \<subseteq> set (st_caps st)"
  by (auto simp: list_caps_def split: option.split)

lemma update_all_listed:
  assumes "store_ok st" "update_all h mr now (map revoked_copy (filter P (list_caps st subj))) st = Inr st'"
  shows "step_ok st st' (\<lambda>_. 0)"
proof (rule update_all_step [OF assms(1) _ assms(2)], rule ballI)
  fix c assume "c \<in> set (map revoked_copy (filter P (list_caps st subj)))"
  then obtain d where "d \<in> set (st_caps st)" "c = revoked_copy d" using set_list_caps by fastforce
  then show "same_uses st c" using same_uses_listed [OF assms(1)] by (simp add: revoked_copy_def)
qed

lemma transition_step:
  assumes "store_ok st" "transition_status i expected s md now st = (st', o')"
  shows "step_ok st st' (\<lambda>_. 0)"
proof (cases "\<exists>c. get_cap st i = Some c \<and> cap_status c = expected")
  case True
  then obtain c where c: "get_cap st i = Some c" "cap_status c = expected" by blast
  let ?c = "c\<lparr>cap_status := s, cap_metadata := md\<rparr>"
  have id: "cap_id ?c = i" using get_cap_SomeD [OF c(1)] by simp
  have "same_uses st ?c" using c(1) id by (simp add: same_uses_def)
  from replace_step(1) [OF assms(1) this] have r: "step_ok st (map_cap i (\<lambda>_. ?c) st) (\<lambda>_. 0)"
    using id by simp
  moreover have "st' = (if s = Active then map_cap i (\<lambda>_. ?c) st
      else invalidate_reservations i now (map_cap i (\<lambda>_. ?c) st))"
    using assms(2) c by (auto simp: transition_status_def Let_def)
  moreover have "store_ok (map_cap i (\<lambda>_. ?c) st)" using r by (simp add: step_ok_def)
  ultimately show ?thesis using step_ok_trans [OF r invalidate_step] r by (cases "s = Active") simp_all
next
  case False
  then show ?thesis using assms step_ok_refl by (auto simp: transition_status_def split: option.splits)
qed

lemma abandon_step:
  "store_ok st \<Longrightarrow> abandon_pages fuel psize now after n sample st = Some (st', x) \<Longrightarrow> step_ok st st' (\<lambda>_. 0)"
proof (induction fuel psize now after n sample st rule: abandon_pages.induct)
  case (2 fuel psize now after n sample st)
  let ?page = "stale_page psize after st"
  have fold: "step_ok s (fold (abandon_row now) rs s) (\<lambda>_. 0)" if "store_ok s" for rs s
    using that
  proof (induction rs arbitrary: s)
    case (Cons r rs)
    have a: "step_ok s (abandon_row now r s) (\<lambda>_. 0)"
      using settle_step [OF Cons.prems] by (simp add: abandon_row_def)
    then have "store_ok (abandon_row now r s)" by (simp add: step_ok_def)
    from step_ok_trans [OF a Cons.IH [OF this]] show ?case by simp
  qed (simp add: step_ok_refl)
  show ?case
  proof (cases "?page = []")
    case True
    then show ?thesis using 2 step_ok_refl by simp
  next
    case False
    then have ap: "abandon_pages fuel psize now (Some (stale_key (last ?page))) (n + int (length ?page))
        (take psize (sample @ map ur_id ?page)) (fold (abandon_row now) ?page st) = Some (st', x)"
      using "2.prems"(2) by (simp add: Let_def)
    note f = fold [OF "2.prems"(1), of ?page]
    then have "store_ok (fold (abandon_row now) ?page st)" by (simp add: step_ok_def)
    from step_ok_trans [OF f "2.IH" [OF refl False this ap]] show ?thesis .
  qed
qed simp

lemma spent_zero: "\<forall>i n. p \<noteq> Consume i n \<Longrightarrow> spent p st = (\<lambda>_. 0)"
  by (cases p) (simp_all add: fun_eq_iff)

lemma lease_step:
  assumes ok: "store_ok st"
  shows "step_ok st (lease_apply h mr now p st) (spent p st)"
proof (cases p)
  case (Commit rid)
  then show ?thesis using settle_step [OF ok, of Committed rid now]
    by (simp add: lease_commit_def commit_reservation_def spent_zero)
next
  case (Revoke i)
  show ?thesis
  proof (cases "mutation_revoke h mr i now st")
    case (Inr q)
    then obtain c st' where c: "get_cap st i = Some c"
      and u: "update_capability h mr (revoked_copy c) now st = Inr st'" "q = (st', revoked_copy c)"
      by (auto simp: mutation_revoke_def require_revocable_def require_cap_def revoked_copy_def res_simps
          Let_def split: option.splits if_splits)
    have "same_uses st (revoked_copy c)"
      using c get_cap_SomeD [OF c] by (simp add: same_uses_def revoked_copy_def)
    from update_step(1) [OF ok this u(1)] show ?thesis using Revoke Inr u by (simp add: keep_def spent_zero)
  qed (use Revoke step_ok_refl [OF ok] in \<open>simp add: keep_def spent_zero\<close>)
next
  case (Disable i)
  show ?thesis
  proof (cases "disable_capability h mr i now st")
    case (Inr q)
    then obtain c st' where c: "get_cap st i = Some c"
      and u: "update_capability h mr (c\<lparr>cap_status := Disabled, cap_metadata := without_exec_token (cap_metadata c)\<rparr>)
        now st = Inr st'" "fst q = st'"
      by (auto simp: disable_capability_def require_cap_def res_simps Let_def split: option.splits)
    have "same_uses st (c\<lparr>cap_status := Disabled, cap_metadata := without_exec_token (cap_metadata c)\<rparr>)"
      using c get_cap_SomeD [OF c] by (simp add: same_uses_def)
    from update_step(1) [OF ok this u(1)] show ?thesis using Disable Inr u
      by (cases q) (simp add: keep_def spent_zero)
  qed (use Disable step_ok_refl [OF ok] in \<open>simp add: keep_def spent_zero\<close>)
next
  case (StageExec i tok)
  show ?thesis
  proof (cases "stage_exec_revocation i tok now st")
    case (Inr q)
    then have "fst q = st \<or> (\<exists>md o'. transition_status i Active ExecRevoked md now st = (fst q, o'))"
      by (auto simp: stage_exec_revocation_def res_simps Let_def split: if_splits option.splits prod.splits)
    then show ?thesis
      using StageExec Inr step_ok_refl [OF ok] transition_step [OF ok] by (cases q) (auto simp: keep_def spent_zero)
  qed (use StageExec step_ok_refl [OF ok] in \<open>simp add: keep_def spent_zero\<close>)
next
  case (FinalizeExec subj tok)
  show ?thesis
  proof (cases "finalize_exec_revocations h mr subj tok now st")
    case (Inr q)
    then show ?thesis using FinalizeExec update_all_listed [OF ok]
      by (cases q) (auto simp: keep_def spent_zero finalize_exec_revocations_def res_simps Let_def)
  qed (use FinalizeExec step_ok_refl [OF ok] in \<open>simp add: keep_def spent_zero\<close>)
next
  case (RevokeResource res)
  show ?thesis
  proof (cases "revoke_resource h mr res now st")
    case (Inr q)
    then show ?thesis using RevokeResource update_all_listed [OF ok]
      by (cases q) (auto simp: keep_def spent_zero revoke_resource_def res_simps Let_def)
  qed (use RevokeResource step_ok_refl [OF ok] in \<open>simp add: keep_def spent_zero\<close>)
next
  case (AbandonStale n)
  then show ?thesis
    using step_ok_refl [OF ok] abandon_step [OF ok]
    by (auto simp: abandon_stale_def spent_zero simp del: abandon_pages.simps split: option.splits)
qed (use consume_step [OF ok] reserve_step [OF ok] restore_step [OF ok] in \<open>simp_all del: spent.simps add: spent_zero\<close>)

text \<open>An operation with the time at which it runs.\<close>

type_synonym timed_op = "string \<times> lease_op"

definition apply_timed :: "host \<Rightarrow> nat \<Rightarrow> timed_op \<Rightarrow> cap_store \<Rightarrow> cap_store" where
  "apply_timed h mr p st = lease_apply h mr (fst p) (snd p) st"

definition spent_timed :: "timed_op \<Rightarrow> cap_store \<Rightarrow> string \<Rightarrow> int" where
  "spent_timed p st k = spent (snd p) st k"

interpretation uses: finite_use store_ok "apply_timed h mr" quota used spent_timed
proof unfold_locales
  fix st p k
  assume ok: "store_ok st"
  note l = lease_step [OF ok, of h mr "fst p" "snd p"]
  show "store_ok (apply_timed h mr p st)" using l by (simp add: step_ok_def apply_timed_def)
  show "quota (apply_timed h mr p st) k + spent_timed p st k \<le> quota st k"
    using l by (simp add: step_ok_def apply_timed_def spent_timed_def)
  show "used st k \<le> used (apply_timed h mr p st) k" using l by (simp add: step_ok_def apply_timed_def)
  show "used st k \<le> quota st k" by (rule used_le_quota [OF ok])
qed

definition run_leases :: "host \<Rightarrow> nat \<Rightarrow> timed_op list \<Rightarrow> cap_store \<Rightarrow> cap_store" where
  "run_leases h mr ps st = fold (apply_timed h mr) ps st"

fun taken :: "host \<Rightarrow> nat \<Rightarrow> timed_op list \<Rightarrow> cap_store \<Rightarrow> string \<Rightarrow> int" where
  "taken h mr [] st k = 0"
| "taken h mr (p # ps) st k = spent_timed p st k + taken h mr ps (apply_timed h mr p st) k"

lemma run_leases_run: "run_leases h mr ps st = uses.run h mr ps st"
  by (induction ps arbitrary: st) (simp_all add: run_leases_def)

lemma taken_total: "taken h mr ps st k = uses.total_spent h mr ps st k"
  by (induction ps arbitrary: st) simp_all

section \<open>Recovery of stale reservations\<close>

definition stale_rows :: "(string \<times> string) option \<Rightarrow> cap_store \<Rightarrow> use_reservation list" where
  "stale_rows after st = sort_key stale_key (filter (\<lambda>r. ur_status r = Reserved \<and>
       (case after of None \<Rightarrow> True | Some k \<Rightarrow> k < stale_key r)) (st_res st))"

lemma stale_page_rows: "stale_page n after st = take n (stale_rows after st)"
  by (simp add: stale_page_def stale_rows_def)

lemma abandon_rows_res:
  "distinct (map ur_id (st_res st)) \<Longrightarrow>
   st_res (fold (abandon_row now) rs st) =
     map (\<lambda>r. if ur_id r \<in> ur_id ` set rs \<and> ur_status r = Reserved
              then r\<lparr>ur_status := Abandoned, ur_updated := now\<rparr> else r) (st_res st)"
proof (induction rs arbitrary: st)
  case (Cons q rs)
  have ids: "map ur_id (st_res (abandon_row now q st)) = map ur_id (st_res st)"
    by (simp add: abandon_row_def settle_def map_res_def)
  have "distinct (map ur_id (st_res (abandon_row now q st)))" unfolding ids by (rule Cons.prems)
  from Cons.IH [OF this] show ?case
    by (auto simp: abandon_row_def settle_def map_res_def)
qed simp

lemma stale_rows_distinct:
  assumes "distinct (map ur_id (st_res st))"
  shows "distinct (map stale_key (stale_rows after st))" "distinct (map ur_id (stale_rows after st))"
proof -
  have "inj_on ur_id (set (st_res st))" "distinct (st_res st)" using assms by (simp_all add: distinct_map)
  then have d: "distinct (stale_rows after st)" "inj_on ur_id (set (stale_rows after st))"
    by (auto simp: stale_rows_def inj_on_def)
  then show "distinct (map ur_id (stale_rows after st))" by (simp add: distinct_map)
  show "distinct (map stale_key (stale_rows after st))"
    using d by (auto simp: distinct_map inj_on_def stale_key_def)
qed

lemma stale_rows_next:
  assumes d: "distinct (map ur_id (st_res st))" and n: "0 < n" and ne: "stale_rows after st \<noteq> []"
  shows "stale_rows (Some (stale_key (last (take n (stale_rows after st)))))
      (fold (abandon_row now) (take n (stale_rows after st)) st) = drop n (stale_rows after st)"
proof -
  define L where "L = stale_rows after st"
  define k where "k = stale_key (last (take n L))"
  have dk: "distinct (map stale_key L)" and did: "distinct (map ur_id L)"
    using stale_rows_distinct [OF d] by (simp_all add: L_def)
  have sorted: "sorted (map stale_key L)" by (simp add: L_def stale_rows_def sorted_sort_key)
  have lastin: "last (take n L) \<in> set (take n L)" using n ne by (simp add: L_def)
  have split: "map stale_key (take n L) @ map stale_key (drop n L) = map stale_key L"
    by (simp flip: map_append)
  have below: "stale_key r \<le> k" if "r \<in> set (take n L)" for r
  proof -
    have so: "sorted (map stale_key (take n L))"
      using sorted unfolding split [symmetric] sorted_append by simp
    obtain ys z where "take n L = ys @ [z]" using lastin by (cases "take n L" rule: rev_cases) auto
    then show ?thesis using so that by (auto simp: k_def sorted_append)
  qed
  have above: "k < stale_key r" if "r \<in> set (drop n L)" for r
  proof -
    have "k \<le> stale_key r"
      using sorted that lastin unfolding split [symmetric] sorted_append k_def by auto
    moreover have "k \<noteq> stale_key r"
      using dk that lastin unfolding split [symmetric] distinct_append k_def by auto
    ultimately show ?thesis by simp
  qed
  have res: "st_res (fold (abandon_row now) (take n L) st) =
     map (\<lambda>r. if ur_id r \<in> ur_id ` set (take n L) \<and> ur_status r = Reserved
              then r\<lparr>ur_status := Abandoned, ur_updated := now\<rparr> else r) (st_res st)"
    by (rule abandon_rows_res [OF d])
  have inj: "r = q" if "r \<in> set (st_res st)" "q \<in> set (st_res st)" "ur_id r = ur_id q" for r q
    using that d by (auto simp: distinct_map inj_on_def)
  have Lsub: "set L \<subseteq> set (st_res st)" by (auto simp: L_def stale_rows_def)
  have Lmem: "r \<in> set L \<longleftrightarrow> r \<in> set (st_res st) \<and> ur_status r = Reserved
      \<and> (case after of None \<Rightarrow> True | Some k \<Rightarrow> k < stale_key r)" for r
    by (auto simp: L_def stale_rows_def)
  have set: "set (stale_rows (Some k) (fold (abandon_row now) (take n L) st)) = set (drop n L)"
  proof (intro set_eqI iffI)
    fix r assume "r \<in> set (stale_rows (Some k) (fold (abandon_row now) (take n L) st))"
    then have r: "r \<in> set (st_res st)" "ur_status r = Reserved" "k < stale_key r"
      by (auto simp: stale_rows_def res split: if_splits)
    have "case after of None \<Rightarrow> True | Some j \<Rightarrow> j < stale_key r"
      using r(3) lastin Lmem [of "last (take n L)"] set_take_subset [of n L]
      by (auto simp: k_def split: option.splits)
    then have "r \<in> set L" using r Lmem by simp
    moreover have "r \<notin> set (take n L)" using below r(3) by fastforce
    ultimately show "r \<in> set (drop n L)" by (metis Un_iff append_take_drop_id set_append)
  next
    fix r assume r: "r \<in> set (drop n L)"
    then have rL: "r \<in> set L" by (rule in_set_dropD)
    have "ur_id r \<notin> ur_id ` set (take n L)"
    proof
      assume "ur_id r \<in> ur_id ` set (take n L)"
      then obtain q where "q \<in> set (take n L)" "ur_id q = ur_id r" by auto
      then have "q = r" using inj rL Lsub in_set_takeD by (metis subsetD)
      then show False using \<open>q \<in> set (take n L)\<close> below above [OF r] by fastforce
    qed
    then have "r \<in> set (st_res (fold (abandon_row now) (take n L) st))"
      using rL Lsub by (force simp: res)
    then show "r \<in> set (stale_rows (Some k) (fold (abandon_row now) (take n L) st))"
      using above [OF r] rL Lmem by (simp add: stale_rows_def)
  qed
  have ids: "map ur_id (st_res (fold (abandon_row now) (take n L) st)) = map ur_id (st_res st)"
    by (simp add: res)
  have "distinct (map stale_key (stale_rows (Some k) (fold (abandon_row now) (take n L) st)))"
    using stale_rows_distinct(1) d ids by metis
  moreover have "sorted (map stale_key (stale_rows (Some k) (fold (abandon_row now) (take n L) st)))"
    by (simp add: stale_rows_def sorted_sort_key)
  moreover have "distinct (map stale_key (drop n L))" "sorted (map stale_key (drop n L))"
    using dk sorted unfolding split [symmetric] by (simp_all add: sorted_append)
  ultimately show ?thesis
    using set unfolding L_def [symmetric] k_def [symmetric]
    by (intro map_sorted_distinct_set_unique [of stale_key]) (auto simp: distinct_map)
qed

lemma abandon_pages_result:
  assumes "distinct (map ur_id (st_res st))" "0 < n" "length (stale_rows after st) < fuel" "length sample \<le> n"
  shows "abandon_pages fuel n now after m sample st =
    Some (fold (abandon_row now) (stale_rows after st) st, m + int (length (stale_rows after st)),
      take n (sample @ map ur_id (stale_rows after st)))"
  using assms
proof (induction fuel arbitrary: after m sample st)
  case (Suc fuel)
  let ?L = "stale_rows after st"
  show ?case
  proof (cases "?L = []")
    case True
    then show ?thesis using Suc.prems(4) by (simp add: stale_page_rows Let_def)
  next
    case False
    let ?p = "take n ?L"
    let ?st = "fold (abandon_row now) ?p st"
    let ?after = "Some (stale_key (last ?p))"
    have nxt: "stale_rows ?after ?st = drop n ?L"
      by (rule stale_rows_next [OF Suc.prems(1,2) False])
    have ids: "map ur_id (st_res ?st) = map ur_id (st_res st)"
      by (simp add: abandon_rows_res [OF Suc.prems(1)])
    have d: "distinct (map ur_id (st_res ?st))" unfolding ids by (rule Suc.prems(1))
    have len: "length (stale_rows ?after ?st) < fuel"
      unfolding nxt using Suc.prems(2,3) False by (cases ?L) auto
    have lens: "length (take n (sample @ map ur_id ?p)) \<le> n" by simp
    have rec: "abandon_pages fuel n now ?after (m + int (length ?p)) (take n (sample @ map ur_id ?p)) ?st
      = Some (fold (abandon_row now) (drop n ?L) ?st, m + int (length ?p) + int (length (drop n ?L)),
          take n (take n (sample @ map ur_id ?p) @ map ur_id (drop n ?L)))"
      using Suc.IH [OF d Suc.prems(2) len lens, of "m + int (length ?p)"] unfolding nxt .
    have "fold (abandon_row now) (drop n ?L) ?st = fold (abandon_row now) ?L st"
      by (metis append_take_drop_id comp_apply fold_append)
    moreover have "take n (take n (sample @ map ur_id ?p) @ map ur_id (drop n ?L))
        = take n (sample @ map ur_id ?L)"
      by (cases "n \<le> length ?L") (simp_all add: take_map take_append min_def)
    moreover have "int (length ?p) + int (length (drop n ?L)) = int (length ?L)"
      by (cases "n \<le> length ?L") simp_all
    ultimately show ?thesis
      using rec False Suc.prems(2) by (simp add: stale_page_rows Let_def)
  qed
qed simp

section \<open>Lemmas on settling\<close>

lemma get_cap_settle [simp]: "get_cap (settle rid s now st) i = get_cap st i"
  by (simp add: settle_def)

lemma get_cap_give_back:
  "get_cap (map_cap i (give_back n) st) j = (if j = i then map_option (give_back n) (get_cap st j) else get_cap st j)"
  by (simp add: get_cap_map_cap)

lemma restore_cases:
  assumes "restore_reservation rid now st = Inr (st', o')"
  obtains (skip) "reserved_now st rid = None" "st' = st" "o' = None"
  | (invalid) r where "reserved_now st rid = Some r" "st' = settle rid Invalidated now st" "o' = None"
  | (restored) r c u where "reserved_now st rid = Some r" "get_cap st (ur_cap r) = Some c"
      "cap_uses_remaining c = Some u" "cap_status c \<in> {Active, Revoked}" "1 \<le> ur_count r"
      "st' = settle rid Restored now (map_cap (ur_cap r) (give_back (ur_count r)) st)"
      "o' = Some (give_back (ur_count r) c)"
proof (cases "reserved_now st rid")
  case None
  with assms have "st' = st" "o' = None" by (simp_all add: restore_reservation_def)
  with None show ?thesis by (rule skip)
next
  case r: (Some r)
  show ?thesis
  proof (cases "\<exists>c u. get_cap st (ur_cap r) = Some c \<and> cap_uses_remaining c = Some u \<and> cap_status c \<in> {Active, Revoked}")
    case True
    then obtain c u where c: "get_cap st (ur_cap r) = Some c" "cap_uses_remaining c = Some u"
        "cap_status c \<in> {Active, Revoked}" by blast
    have n: "1 \<le> ur_count r"
      using assms r by (simp add: restore_reservation_def split: if_splits)
    then have "st' = settle rid Restored now (map_cap (ur_cap r) (give_back (ur_count r)) st)"
        "o' = Some (give_back (ur_count r) c)"
      using assms r c by (simp_all add: restore_reservation_def)
    with r c n show ?thesis by (intro restored)
  next
    case False
    have "\<not> ur_count r < 1"
      using assms r by (simp add: restore_reservation_def split: if_splits)
    then have "Inr (st', o') = (Inr (settle rid Invalidated now st, None) :: (cap_store \<times> capability_row option) res)"
      unfolding assms [symmetric] restore_reservation_def r option.case
      using False by (cases "get_cap st (ur_cap r)") auto
    then have "st' = settle rid Invalidated now st" "o' = None" by simp_all
    with r show ?thesis by (intro invalid)
  qed
qed

lemma restore_keeps_other:
  assumes "restore_reservation rid now st = Inr (st', o')"
    and "\<And>r. reserved_now st rid = Some r \<Longrightarrow> ur_cap r \<noteq> i"
  shows "get_cap st' i = get_cap st i"
  using assms(1)
proof (cases rule: restore_cases)
  case (restored r c u)
  then show ?thesis using assms(2) [of r] by (simp add: get_cap_give_back)
qed simp_all

lemma map_res_status:
  assumes "r \<in> set (st_res (map_res p f st))" "\<And>q. ur_status (f q) = s"
  shows "ur_status r = s \<or> (r \<in> set (st_res st) \<and> \<not> p r)"
proof -
  obtain q where q: "q \<in> set (st_res st)" "r = (if p q then f q else q)"
    using assms(1) by (auto simp: map_res_def)
  show ?thesis
  proof (cases "p q")
    case True
    then have "r = f q" using q(2) by simp
    then show ?thesis using assms(2) by simp
  next
    case False
    then have "r = q" using q(2) by simp
    then show ?thesis using False q(1) by simp
  qed
qed

lemma mutation_revoke_cases:
  assumes "mutation_revoke h mr i now st = Inr (st', c)"
  obtains c0 where "get_cap st i = Some c0" "c = revoked_copy c0"
    "st' = invalidate_reservations i now (map_cap i (\<lambda>_. c) st)"
proof -
  obtain c0 where c0: "get_cap st i = Some c0" "c = revoked_copy c0"
    and up: "update_capability h mr c now st = Inr st'"
    using assms
    by (auto simp: mutation_revoke_def require_revocable_def require_cap_def revoked_copy_def res_simps
        Let_def split: option.splits if_splits)
  have "cap_id c = i" "cap_status c = Revoked"
    using get_cap_SomeD [OF c0(1)] by (simp_all add: c0(2) revoked_copy_def)
  with up have "st' = invalidate_reservations i now (map_cap i (\<lambda>_. c) st)"
    by (simp add: update_capability_def res_simps Let_def)
  with c0 show thesis by (rule that)
qed

lemma reserved_nowD: "reserved_now st rid = Some r \<Longrightarrow> r \<in> set (st_res st) \<and> ur_id r = rid \<and> ur_status r = Reserved"
  by (auto simp: reserved_now_def dest: find_SomeD)

lemma reserved_now_settle:
  assumes "s \<noteq> Reserved"
  shows "reserved_now (settle rid s now st) rid = None"
proof (cases "reserved_now (settle rid s now st) rid")
  case (Some r)
  note r = reserved_nowD [OF Some, unfolded settle_def]
  have "ur_status r = s \<or> (r \<in> set (st_res st) \<and> \<not> (ur_id r = rid \<and> ur_status r = Reserved))"
    by (rule map_res_status [OF conjunct1 [OF r]]) simp
  then show ?thesis using r assms by simp
qed

lemma reserved_now_invalidated:
  assumes "reserved_now (invalidate_reservations i now st) rid = Some r"
  shows "ur_cap r \<noteq> i"
proof -
  note r = reserved_nowD [OF assms, unfolded invalidate_reservations_def]
  have "ur_status r = Invalidated \<or> (r \<in> set (st_res st) \<and> \<not> (ur_cap r = i \<and> ur_status r = Reserved))"
    by (rule map_res_status [OF conjunct1 [OF r]]) simp
  then show ?thesis using r by auto
qed

text \<open>A reservation of the last uses of a grant, and what leaves it alone.\<close>

definition held_row :: "string \<Rightarrow> string \<Rightarrow> int \<Rightarrow> string \<Rightarrow> string \<Rightarrow> string \<Rightarrow> use_reservation" where
  "held_row i rid n by reason now = \<lparr>ur_id = rid, ur_cap = i, ur_count = n, ur_status = Reserved, ur_by = by,
     ur_reason = reason, ur_created = now, ur_updated = now\<rparr>"

lemma find_append_last: "\<forall>x \<in> set xs. \<not> P x \<Longrightarrow> P y \<Longrightarrow> List.find P (xs @ [y]) = Some y"
  by (induction xs) auto

lemma lease_reserve_row:
  assumes "lease_reserve i rid n by reason now st = Inr (st', x)" "get_cap st i = Some c" "cap_uses_remaining c = Some n"
  shows "active c" "get_cap st' i = Some (decrement n c)" "cap_status (decrement n c) = Revoked"
    "reserved_now st' rid = Some (held_row i rid n by reason now)" "1 \<le> n" "give_back n (decrement n c) = c"
proof -
  obtain d where d: "get_cap st i = Some d" "can_decrement n d" "1 \<le> n" "get_reservation st rid = None"
    "st' = (map_cap i (decrement n) st)\<lparr>st_res := st_res st @ [held_row i rid n by reason now]\<rparr>"
    using reserve_cases [OF assms(1)] unfolding held_row_def by metis
  have a: "cap_status c = Active" using d(1,2) assms(2) by (simp add: can_decrement_def)
  then show "active c" "cap_status (decrement n c) = Revoked" "give_back n (decrement n c) = c"
    using assms(3) by (simp_all add: active_def decrement_def give_back_def)
  show "get_cap st' i = Some (decrement n c)"
    using assms(2) get_cap_map_cap [of i "decrement n" st i] by (simp add: d(5) get_cap_def)
  have "\<forall>r \<in> set (st_res st). ur_id r \<noteq> rid" using d(4) by (auto simp: get_reservation_def find_None_iff)
  then show "reserved_now st' rid = Some (held_row i rid n by reason now)"
    unfolding reserved_now_def d(5) by (simp add: find_append_last held_row_def)
  show "1 \<le> n" by (rule d(3))
qed

lemma lease_reserve_ids:
  "lease_reserve i rid n by reason now st = Inr (st', x) \<Longrightarrow> map cap_id (st_caps st') = map cap_id (st_caps st)"
  by (erule reserve_cases) (simp add: map_cap_ids)

lemma find_map_other:
  "List.find P xs = Some r \<Longrightarrow> \<not> p r \<Longrightarrow> (\<And>x. p x \<Longrightarrow> \<not> P (f x)) \<Longrightarrow>
   List.find P (map (\<lambda>x. if p x then f x else x) xs) = Some r"
  by (induction xs) (auto split: if_splits)

lemma reserved_now_other:
  "reserved_now st rid = Some r \<Longrightarrow> ur_cap r \<noteq> i \<Longrightarrow> reserved_now (invalidate_reservations i now st) rid = Some r"
  unfolding reserved_now_def invalidate_reservations_def map_res_def
  by (simp add: find_map_other [where p = "\<lambda>r. ur_cap r = i \<and> ur_status r = Reserved"])

lemma update_keeps:
  assumes "update_capability h mr c now st = Inr st'" "cap_id c \<noteq> i"
  shows "get_cap st' i = get_cap st i"
    and "reserved_now st rid = Some r \<Longrightarrow> ur_cap r = i \<Longrightarrow> reserved_now st' rid = Some r"
proof -
  let ?m = "map_cap (cap_id c) (\<lambda>_. c) st"
  have st': "st' = ?m \<or> st' = invalidate_reservations (cap_id c) now ?m"
    using assms(1) by (auto simp: update_capability_def res_simps Let_def)
  then show "get_cap st' i = get_cap st i"
    using assms(2) by (auto simp: get_cap_map_cap invalidate_reservations_def)
  assume r: "reserved_now st rid = Some r" "ur_cap r = i"
  have m: "reserved_now ?m rid = Some r" using r(1) by (simp add: reserved_now_def)
  show "reserved_now st' rid = Some r"
    using st' reserved_now_other [OF m, of "cap_id c" now] m r(2) assms(2) by auto
qed

lemma update_all_keeps:
  "update_all h mr now cs st = Inr st' \<Longrightarrow> i \<notin> cap_id ` set cs \<Longrightarrow> get_cap st' i = get_cap st i
     \<and> (reserved_now st rid = Some r \<and> ur_cap r = i \<longrightarrow> reserved_now st' rid = Some r)"
proof (induction cs arbitrary: st)
  case (Cons c cs)
  obtain st1 where u: "update_capability h mr c now st = Inr st1" "update_all h mr now cs st1 = Inr st'"
    using Cons.prems(1) by (auto simp: res_simps)
  have "cap_id c \<noteq> i" using Cons.prems(2) by auto
  note k = update_keeps [OF u(1) this]
  have "i \<notin> cap_id ` set cs" using Cons.prems(2) by simp
  with Cons.IH [OF u(2)] k show ?case by metis
qed simp

lemma restore_held:
  assumes "reserved_now st rid = Some (held_row i rid n by reason now)" "get_cap st i = Some (decrement n c)" "1 \<le> n"
    "cap_uses_remaining c = Some n" "cap_status (decrement n c) = Revoked" "give_back n (decrement n c) = c"
  shows "\<exists>st'. lease_restore (Some rid) t st = Inr (st', Some c) \<and> get_cap st' i = Some c"
proof -
  have "cap_uses_remaining (decrement n c) \<noteq> None" using assms(4) by (simp add: decrement_def)
  then have "lease_restore (Some rid) t st = Inr (settle rid Restored t (map_cap i (give_back n) st), Some c)"
    using assms by (simp add: lease_restore_def restore_reservation_def held_row_def)
  then show ?thesis using assms(2,6) by (simp add: get_cap_give_back)
qed

section \<open>Properties\<close>

text \<open>
  C7. A finite grant is never used more than it was granted: over any sequence of consumptions,
  reservations, commits, restores, revocations and recoveries, the uses taken at once and the
  committed reservations together stay within the uses that remained or were claimed at the start.
  For a one-shot grant without reservations that bound is one.
\<close>

theorem uses_within_grant:
  assumes "store_ok st"
  shows "used (run_leases h mr ops st) i + taken h mr ops st i \<le> quota st i"
  unfolding run_leases_run taken_total by (rule uses.run_used [OF assms])

definition one_shot_cap :: capability_row where
  "one_shot_cap =
     \<lparr>cap_id = ''cap_1'', cap_subject = ''pid_1'', cap_resource = ''object:o1'', cap_rights = [''read''],
      cap_constraints = [], cap_issued_by = ''host'', cap_issued_at = ''2025'', cap_expires_at = None,
      cap_delegable = False, cap_revocable = True, cap_effect = Allow, cap_issuer_cap_id = None,
      cap_parent_cap_id = None, cap_delegation_depth = 0, cap_max_delegation_depth = None,
      cap_uses_remaining = Some 1, cap_status = Active, cap_metadata = []\<rparr>"

definition one_shot_store :: cap_store where
  "one_shot_store = \<lparr>st_caps = [one_shot_cap], st_res = []\<rparr>"

definition sample_host :: host where
  "sample_host =
     \<lparr>h_repr = (\<lambda>_. ''?''), h_parse_float = (\<lambda>_. None), h_iso = (\<lambda>_. None), h_isoformat = (\<lambda>_. []), h_sha256 = (\<lambda>_. []),
      h_regex_compiles = (\<lambda>_. True), h_regex_fullmatch = (\<lambda>p t. None), h_deadline_passed = (\<lambda>_. False),
      h_regex_pattern_max_bytes = 512, h_regex_token_max_bytes = 512\<rparr>"

theorem uses_within_grant_witness:
  "used (run_leases sample_host 8 [(''t1'', Reserve ''cap_1'' ''r1'' 1 ''p'' ''x''),
       (''t2'', Commit ''r1''), (''t3'', Consume ''cap_1'' 1)] one_shot_store) ''cap_1''
     + taken sample_host 8 [(''t1'', Reserve ''cap_1'' ''r1'' 1 ''p'' ''x''),
       (''t2'', Commit ''r1''), (''t3'', Consume ''cap_1'' 1)] one_shot_store ''cap_1'' \<le> 1"
proof -
  have "store_ok one_shot_store" by code_simp
  moreover have "quota one_shot_store ''cap_1'' = 1" by code_simp
  ultimately show ?thesis
    using uses_within_grant [of one_shot_store sample_host 8 "[(''t1'', Reserve ''cap_1'' ''r1'' 1 ''p'' ''x''),
       (''t2'', Commit ''r1''), (''t3'', Consume ''cap_1'' 1)]" "''cap_1''"] by simp
qed

text \<open>
  Restoring a reservation undoes it: right after a successful reservation, restoring it gives
  back exactly the row as it was, active again with its uses, and the reservation cannot be
  restored or committed a second time.
\<close>

theorem reserve_restore_roundtrip:
  assumes "lease_reserve i rid n by reason now st = Inr (st', x)"
    and "\<forall>r \<in> set (st_res st). ur_id r \<noteq> rid"
  shows "\<exists>st'' c'. lease_restore (Some rid) now' st' = Inr (st'', Some c') \<and> get_cap st'' i = get_cap st i
    \<and> get_cap st i = Some c' \<and> reserved_now st'' rid = None"
proof -
  obtain c where c: "get_cap st i = Some c" "can_decrement n c" "1 \<le> n"
    and st': "st' = (map_cap i (decrement n) st)\<lparr>st_res := st_res st @ [\<lparr>ur_id = rid, ur_cap = i, ur_count = n,
       ur_status = Reserved, ur_by = by, ur_reason = reason, ur_created = now, ur_updated = now\<rparr>]\<rparr>"
    by (rule reserve_cases [OF assms(1)]) blast
  let ?r = "\<lparr>ur_id = rid, ur_cap = i, ur_count = n, ur_status = Reserved, ur_by = by, ur_reason = reason,
      ur_created = now, ur_updated = now\<rparr>"
  obtain u where u: "cap_uses_remaining c = Some u" "n \<le> u" "cap_status c = Active"
    using c(2) by (auto simp: can_decrement_def split: option.splits)
  have "List.find (\<lambda>r. ur_id r = rid \<and> ur_status r = Reserved) (rs @ [?r]) = Some ?r"
    if "\<forall>r \<in> set rs. ur_id r \<noteq> rid" for rs
    using that by (induction rs) auto
  then have res: "reserved_now st' rid = Some ?r" using assms(2) by (simp add: reserved_now_def st')
  have g: "get_cap st' i = Some (decrement n c)"
    using c(1) get_cap_map_cap [of i "decrement n" st i] by (simp add: st' get_cap_def)
  have gb: "give_back n (decrement n c) = c"
    using u by (simp add: give_back_def decrement_def)
  have ok: "cap_uses_remaining (decrement n c) \<noteq> None" "cap_status (decrement n c) \<in> {Active, Revoked}"
    using u by (simp_all add: decrement_def)
  let ?t = "settle rid Restored now' (map_cap i (give_back n) st')"
  have eq: "lease_restore (Some rid) now' st' = Inr (?t, Some c)"
    using res g ok c(3) gb by (simp add: lease_restore_def restore_reservation_def)
  have gt: "get_cap ?t i = Some c" using g gb by (simp add: get_cap_give_back)
  have "reserved_now ?t rid = None" by (simp add: reserved_now_settle)
  then show ?thesis using eq gt c(1) by (intro exI [of _ ?t] exI [of _ c]) simp
qed

theorem reserve_restore_roundtrip_witness:
  "\<exists>st' x st'' c'. lease_reserve ''cap_1'' ''r1'' 1 ''p'' ''x'' ''t1'' one_shot_store = Inr (st', x)
    \<and> lease_restore (Some ''r1'') ''t2'' st' = Inr (st'', Some c')
    \<and> get_cap st'' ''cap_1'' = get_cap one_shot_store ''cap_1''"
proof -
  have "is_ok (lease_reserve ''cap_1'' ''r1'' 1 ''p'' ''x'' ''t1'' one_shot_store)" by code_simp
  then obtain st' x where r: "lease_reserve ''cap_1'' ''r1'' 1 ''p'' ''x'' ''t1'' one_shot_store = Inr (st', x)"
    by (auto simp: is_ok_iff)
  have "\<forall>r \<in> set (st_res one_shot_store). ur_id r \<noteq> ''r1''" by (simp add: one_shot_store_def)
  from reserve_restore_roundtrip [OF r this, of "''t2''"] show ?thesis using r by blast
qed

text \<open>
  An explicit revocation is final for what is in flight: after \<open>revoke\<close> no restore of any
  reservation, made before or for another grant, changes the revoked row again.
\<close>

theorem revoke_blocks_restore:
  assumes "mutation_revoke h mr i now st = Inr (st', c)"
    and "lease_restore rid now' st' = Inr (st'', x)"
  shows "get_cap st'' i = Some c \<and> cap_status c = Revoked"
proof -
  obtain c0 where c0: "get_cap st i = Some c0" and c: "c = revoked_copy c0"
    and st': "st' = invalidate_reservations i now (map_cap i (\<lambda>_. c) st)"
    by (rule mutation_revoke_cases [OF assms(1)])
  have id: "cap_id c = i" "cap_status c = Revoked"
    using get_cap_SomeD [OF c0] by (simp_all add: c revoked_copy_def)
  have g: "get_cap st' i = Some c"
    using c0 id by (simp add: st' invalidate_reservations_def get_cap_map_cap)
  have "get_cap st'' i = get_cap st' i"
  proof (cases rid)
    case None
    then show ?thesis using assms(2) by (simp add: lease_restore_def)
  next
    case (Some r)
    then have "restore_reservation r now' st' = Inr (st'', x)"
      using assms(2) by (simp add: lease_restore_def)
    then show ?thesis
      by (rule restore_keeps_other) (use reserved_now_invalidated st' in blast)
  qed
  then show ?thesis using g id by simp
qed

theorem revoke_blocks_restore_witness:
  "\<exists>st1 x st2 c st3 y. lease_reserve ''cap_1'' ''r1'' 1 ''p'' ''x'' ''t1'' one_shot_store = Inr (st1, x)
    \<and> mutation_revoke sample_host 8 ''cap_1'' ''t2'' st1 = Inr (st2, c)
    \<and> lease_restore (Some ''r1'') ''t3'' st2 = Inr (st3, y) \<and> get_cap st3 ''cap_1'' = Some c \<and> cap_status c = Revoked"
proof -
  let ?r = "bindR (lease_reserve ''cap_1'' ''r1'' 1 ''p'' ''x'' ''t1'' one_shot_store) (\<lambda>(st1, x).
    bindR (mutation_revoke sample_host 8 ''cap_1'' ''t2'' st1) (\<lambda>(st2, c).
    lease_restore (Some ''r1'') ''t3'' st2))"
  have "is_ok ?r" by code_simp
  then obtain st1 x st2 c st3 y where
      r: "lease_reserve ''cap_1'' ''r1'' 1 ''p'' ''x'' ''t1'' one_shot_store = Inr (st1, x)"
        "mutation_revoke sample_host 8 ''cap_1'' ''t2'' st1 = Inr (st2, c)"
        "lease_restore (Some ''r1'') ''t3'' st2 = Inr (st3, y)"
    by (auto simp: is_ok_iff bindR_Inr_iff)
  from revoke_blocks_restore [OF r(2,3)] show ?thesis using r by blast
qed

text \<open>
  C8. Revoking a resource does not reach a grant on it whose last uses are reserved: the row is already marked
  revoked, so \<open>revoke_resource\<close> passes it over and leaves the reservation live, and restoring the reservation
  afterwards gives back the row as it was, an active grant on the revoked resource.
\<close>

theorem revoke_resource_misses_reserved:
  assumes "distinct (map cap_id (st_caps st))" "get_cap st i = Some c" "cap_uses_remaining c = Some n"
    and reserve: "lease_reserve i rid n by reason t1 st = Inr (st1, x)"
    and revoke: "revoke_resource h mr (cap_resource c) t2 st1 = Inr (st2, rv)"
  shows "active c \<and> i \<notin> cap_id ` set rv
    \<and> (\<exists>st3. lease_restore (Some rid) t3 st2 = Inr (st3, Some c) \<and> get_cap st3 i = Some c)"
proof -
  note r = lease_reserve_row [OF reserve assms(2,3)]
  have ids: "map cap_id (st_caps st1) = map cap_id (st_caps st)" by (rule lease_reserve_ids [OF reserve])
  define P where "P d \<longleftrightarrow> cap_resource d = cap_resource c \<and> cap_status d \<in> {Active, ExecRevoked}"
    for d :: capability_row
  have sel: "rv = map revoked_copy (filter P (list_caps st1 None))" "P d \<Longrightarrow> cap_status d \<noteq> Revoked" for d
    using revoke by (auto simp: revoke_resource_def Let_def res_simps P_def [abs_def])
  have up: "update_all h mr t2 rv st1 = Inr st2" using revoke by (auto simp: revoke_resource_def Let_def res_simps)
  have miss: "i \<notin> cap_id ` set rv"
  proof
    assume "i \<in> cap_id ` set rv"
    then obtain d where d: "d \<in> set (st_caps st1)" "P d" "cap_id d = i"
      using sel(1) set_list_caps by (fastforce simp: revoked_copy_def)
    then have "get_cap st1 i = Some d" using get_cap_in [of st1 d] ids assms(1) by simp
    then show False using r(2,3) d(2) sel(2) by fastforce
  qed
  note kept = update_all_keeps [OF up miss, of rid "held_row i rid n by reason t1"]
  have "reserved_now st2 rid = Some (held_row i rid n by reason t1)" using kept r(4) by (auto simp: held_row_def)
  from restore_held [OF this _ r(5) assms(3) r(3,6)] kept r(1,2) show ?thesis using miss by simp
qed

theorem revoke_resource_misses_reserved_witness:
  "\<exists>st1 x st2 rv st3.
     lease_reserve ''cap_1'' ''r1'' 1 ''p'' ''x'' ''t1'' one_shot_store = Inr (st1, x)
   \<and> revoke_resource sample_host 8 (cap_resource one_shot_cap) ''t2'' st1 = Inr (st2, rv)
   \<and> lease_restore (Some ''r1'') ''t3'' st2 = Inr (st3, Some one_shot_cap)"
proof -
  have "is_ok (bindR (lease_reserve ''cap_1'' ''r1'' 1 ''p'' ''x'' ''t1'' one_shot_store) (\<lambda>(st1, x).
    revoke_resource sample_host 8 (cap_resource one_shot_cap) ''t2'' st1))" by code_simp
  then obtain st1 x st2 rv where s: "lease_reserve ''cap_1'' ''r1'' 1 ''p'' ''x'' ''t1'' one_shot_store = Inr (st1, x)"
    "revoke_resource sample_host 8 (cap_resource one_shot_cap) ''t2'' st1 = Inr (st2, rv)"
    by (auto simp: is_ok_iff bindR_Inr_iff)
  have "distinct (map cap_id (st_caps one_shot_store))" "get_cap one_shot_store ''cap_1'' = Some one_shot_cap"
    "cap_uses_remaining one_shot_cap = Some 1" by code_simp+
  from revoke_resource_misses_reserved [OF this s, of "''t3''"] show ?thesis using s by blast
qed

text \<open>
  Recovery ends and is complete: paging through the stale reservations terminates, leaves no
  reservation reserved, counts every one of them once, and samples the first page of ids in the
  order of creation time and id.
\<close>

theorem abandon_stale_complete:
  assumes "distinct (map ur_id (st_res st))" "0 < n"
  shows "\<exists>st'. abandon_stale n now st = Some (st',
      \<lparr>rs_total = int (length (filter (\<lambda>r. ur_status r = Reserved) (st_res st))),
       rs_sample = take n (map ur_id (sort_key stale_key (filter (\<lambda>r. ur_status r = Reserved) (st_res st))))\<rparr>)
    \<and> (\<forall>r \<in> set (st_res st'). ur_status r \<noteq> Reserved) \<and> st_caps st' = st_caps st"
proof -
  let ?L = "stale_rows None st"
  have L: "?L = sort_key stale_key (filter (\<lambda>r. ur_status r = Reserved) (st_res st))"
    by (simp add: stale_rows_def)
  have "length ?L < Suc (length (st_res st))"
    by (simp add: L less_Suc_eq_le)
  from abandon_pages_result [OF assms this, of "[]" now 0]
  have run: "abandon_stale n now st = Some (fold (abandon_row now) ?L st,
      \<lparr>rs_total = int (length ?L), rs_sample = take n (map ur_id ?L)\<rparr>)"
    by (simp add: abandon_stale_def del: abandon_pages.simps)
  have noneR: "ur_status r \<noteq> Reserved" if r: "r \<in> set (st_res (fold (abandon_row now) ?L st))" for r
  proof -
    have "r \<in> set (map (\<lambda>q. if ur_id q \<in> ur_id ` set ?L \<and> ur_status q = Reserved
        then q\<lparr>ur_status := Abandoned, ur_updated := now\<rparr> else q) (st_res st))"
      using r unfolding abandon_rows_res [OF assms(1)] .
    then have "r \<in> (\<lambda>q. if ur_id q \<in> ur_id ` set ?L \<and> ur_status q = Reserved
        then q\<lparr>ur_status := Abandoned, ur_updated := now\<rparr> else q) ` set (st_res st)"
      by (simp only: set_map)
    then obtain q where q: "r = (if ur_id q \<in> ur_id ` set ?L \<and> ur_status q = Reserved
        then q\<lparr>ur_status := Abandoned, ur_updated := now\<rparr> else q)" "q \<in> set (st_res st)"
      by (elim imageE)
    show ?thesis
    proof (cases "ur_status q = Reserved")
      case True
      then have "ur_id q \<in> ur_id ` set ?L" using q(2) by (simp add: L)
      then have "ur_status r = Abandoned" using q(1) True by simp
      then show ?thesis by simp
    next
      case False
      then have "ur_status r = ur_status q" using q(1) by simp
      then show ?thesis using False by simp
    qed
  qed
  have caps: "st_caps (fold (abandon_row now) rs s) = st_caps s" for rs s
    by (induction rs arbitrary: s) (simp_all add: abandon_row_def settle_def)
  have len: "length ?L = length (filter (\<lambda>r. ur_status r = Reserved) (st_res st))"
    by (simp add: L)
  show ?thesis
  proof (intro exI conjI ballI)
    show "abandon_stale n now st = Some (fold (abandon_row now) ?L st,
      \<lparr>rs_total = int (length (filter (\<lambda>r. ur_status r = Reserved) (st_res st))),
       rs_sample = take n (map ur_id (sort_key stale_key (filter (\<lambda>r. ur_status r = Reserved) (st_res st))))\<rparr>)"
      using run unfolding len unfolding L [symmetric] .
    show "st_caps (fold (abandon_row now) ?L st) = st_caps st" by (rule caps)
  qed (rule noneR)
qed

theorem abandon_stale_complete_witness:
  "\<exists>st'. abandon_stale 1 ''t9'' (run_leases sample_host 8 [(''t1'', Reserve ''cap_1'' ''r1'' 1 ''p'' ''x'')] one_shot_store)
     = Some (st', \<lparr>rs_total = 1, rs_sample = [''r1'']\<rparr>)
   \<and> (\<forall>r \<in> set (st_res st'). ur_status r \<noteq> Reserved)"
proof -
  let ?st = "run_leases sample_host 8 [(''t1'', Reserve ''cap_1'' ''r1'' 1 ''p'' ''x'')] one_shot_store"
  have "distinct (map ur_id (st_res ?st))" by code_simp
  from abandon_stale_complete [OF this, of 1 "''t9''"]
  have "\<exists>st'. abandon_stale 1 ''t9'' ?st = Some (st',
      \<lparr>rs_total = int (length (filter (\<lambda>r. ur_status r = Reserved) (st_res ?st))),
       rs_sample = take 1 (map ur_id (sort_key stale_key (filter (\<lambda>r. ur_status r = Reserved) (st_res ?st))))\<rparr>)
    \<and> (\<forall>r \<in> set (st_res st'). ur_status r \<noteq> Reserved)" by auto
  moreover have "int (length (filter (\<lambda>r. ur_status r = Reserved) (st_res ?st))) = 1" by code_simp
  moreover have "take 1 (map ur_id (sort_key stale_key (filter (\<lambda>r. ur_status r = Reserved) (st_res ?st)))) = [''r1'']"
    by code_simp
  ultimately show ?thesis by simp
qed

end
