(* ===== verification/CapDecide.thy ===== *)
theory CapDecide
  imports Resources Evaluator CapStore
begin

text \<open>
  The authorization half of \<open>agent_libos/capability/manager.py\<close> with
  \<open>agent_libos/capability/transaction.py\<close>: validation of persisted constraints, the liveness of
  parent chains, the checks of machine grants (BindingV2) under the emergency latch, the selection
  of matching capabilities, the decision over them, reauthorization, object handles, and the
  authority transaction that reserves and commits finite uses around a mutation.
\<close>

section \<open>The manager's surroundings\<close>

text \<open>
  \<open>ce_now\<close> is the clock read by the operation; \<open>ce_validator\<close> is the semantic approval validator
  that the composition root may supply, with the binding, the phase, the capability, the context and
  the effect id as arguments: whether it trips the latch, and the exception it raises, if any;
  \<open>ce_admission n\<close> is the outcome of the n-th admission check of a transaction.
\<close>

record cap_env =
  ce_host :: host
  ce_now :: int
  ce_max_constraints_bytes :: nat
  ce_shell_key :: string
  ce_shell_levels :: "string list"
  ce_max_rights :: nat
  ce_default_depth :: int
  ce_validator ::
    "(pydict \<Rightarrow> string \<Rightarrow> capability_row \<Rightarrow> pydict \<Rightarrow> string option \<Rightarrow> bool \<times> exn option) option"
  ce_admission :: "nat \<Rightarrow> exn option"

text \<open>
  The process-local latch \<open>_semantic_authority_locally_tripped\<close> is threaded through; it survives a
  rollback, so it is returned beside the result.
\<close>

type_synonym 'a latched = "bool \<Rightarrow> bool \<times> 'a res"

definition liftL :: "'a res \<Rightarrow> 'a latched" where
  "liftL r = (\<lambda>l. (l, r))"

definition bindL :: "'a latched \<Rightarrow> ('a \<Rightarrow> 'b latched) \<Rightarrow> 'b latched" where
  "bindL m f = (\<lambda>l. case m l of (l', Inl e) \<Rightarrow> (l', Inl e) | (l', Inr x) \<Rightarrow> f x l')"

fun mapL :: "('a \<Rightarrow> 'b latched) \<Rightarrow> 'a list \<Rightarrow> 'b list latched" where
  "mapL f [] = liftL (Inr [])"
| "mapL f (x # xs) = bindL (f x) (\<lambda>y. bindL (mapL f xs) (\<lambda>ys. liftL (Inr (y # ys))))"

section \<open>Validation of persisted constraints\<close>

type_synonym constraints = "(string \<times> pyval) list"

definition container_error :: "cap_env \<Rightarrow> constraints \<Rightarrow> string option" where
  "container_error env cs =
     (case json_text (ce_host env) \<lparr>jf_ascii = False, jf_default = False, jf_nan = True,
             jf_item_sep = '', '', jf_key_sep = '': ''\<rparr> (VDict (sdict cs)) of
        Inl _ \<Rightarrow> Some ''capability constraints must be JSON-serializable''
      | Inr text \<Rightarrow>
          if ce_max_constraints_bytes env < utf8_length text then
            Some ''capability constraints exceed configured byte limit''
          else
            (let unknown = sort (filter (\<lambda>k. k \<notin> set known_constraint_keys) (map fst cs)) in
             if unknown \<noteq> [] then
               Some (''capability constraints contain unknown keys: '' @ join '', '' unknown)
             else map_option (\<lambda>p. ''capability constraint '' @ fst p @ '' cannot be null'')
               (List.find (\<lambda>p. snd p = VNone) cs)))"

fun first_rule_error :: "host \<Rightarrow> authority_rule list \<Rightarrow> string option res" where
  "first_rule_error h [] = Inr None"
| "first_rule_error h (r # rs) =
     bindR (unknown_conditions (ar_conditions r)) (\<lambda>unknown.
       if unknown \<noteq> [] then
         Inr (Some (''capability authority rule contains unknown conditions: ''
           @ join '', '' (map the_str unknown)))
       else bindR (malformed_conditions h (ar_conditions r)) (\<lambda>malformed.
         if malformed \<noteq> [] then
           Inr (Some (''capability authority rule contains malformed conditions: ''
             @ join '', '' malformed))
         else first_rule_error h rs))"

definition rules_error :: "cap_env \<Rightarrow> constraints \<Rightarrow> string option res" where
  "rules_error env cs =
     (case map_of cs ''authority_rules'' of
        None \<Rightarrow> Inr None
      | Some v \<Rightarrow>
          (case coerce_rules (ce_host env) v of
             Inl (ValidationError m) \<Rightarrow> Inr (Some m)
           | Inl e \<Rightarrow> Inl e
           | Inr rules \<Rightarrow> first_rule_error (ce_host env) rules))"

definition shell_policy_error :: "cap_env \<Rightarrow> constraints \<Rightarrow> string option" where
  "shell_policy_error env cs =
     (case map_of cs (ce_shell_key env) of
        None \<Rightarrow> None
      | Some v \<Rightarrow>
          if is_str v \<and> the_str v \<in> set (ce_shell_levels env) then None
          else Some (''capability constraint '' @ ce_shell_key env
            @ '' has an invalid shell policy level''))"

definition non_empty_str :: "pyval \<Rightarrow> bool" where
  "non_empty_str v \<longleftrightarrow> is_str v \<and> the_str v \<noteq> []"

definition inherited_error :: "constraints \<Rightarrow> string option" where
  "inherited_error cs =
     (case map_of cs ''inherited_from'' of
        None \<Rightarrow> None
      | Some v \<Rightarrow> if non_empty_str v then None
          else Some ''capability constraint inherited_from must be a non-empty string'')"

definition approval_error :: "cap_env \<Rightarrow> constraints \<Rightarrow> string option res" where
  "approval_error env cs =
     (case map_of cs ''approval_binding'' of
        None \<Rightarrow> Inr None
      | Some v \<Rightarrow>
          if \<not> is_dict v then Inr (Some ''approval binding must be an object'')
          else (case normalize_approval_binding (ce_host env) v of
                  Inl (ValidationError m) \<Rightarrow> Inr (Some m)
                | Inl e \<Rightarrow> Inl e
                | Inr _ \<Rightarrow> Inr None))"

definition release_error :: "constraints \<Rightarrow> string option res" where
  "release_error cs =
     (case map_of cs ''data_release_binding'' of
        None \<Rightarrow> Inr None
      | Some v \<Rightarrow>
          (case release_normalize v of
             Inl (PyTypeError m) \<Rightarrow> Inr (Some m)
           | Inl (ValueError m) \<Rightarrow> Inr (Some m)
           | Inl e \<Rightarrow> Inl e
           | Inr _ \<Rightarrow> Inr None))"

definition git_text_keys :: "string list" where
  "git_text_keys =
     [''git_remote'', ''git_url_fingerprint'', ''git_expected_state_token'', ''git_old_oid'']"

definition git_error :: "constraints \<Rightarrow> string option" where
  "git_error cs =
     (case List.find (\<lambda>k. case map_of cs k of None \<Rightarrow> False | Some v \<Rightarrow> \<not> non_empty_str v) git_text_keys of
        Some k \<Rightarrow> Some (''capability constraint '' @ k @ '' must be a non-empty string'')
      | None \<Rightarrow>
          (case map_of cs ''git_allowed_refs'' of
             None \<Rightarrow> None
           | Some v \<Rightarrow>
               if is_list v \<and> list_all non_empty_str (the_list v) then None
               else Some ''capability constraint git_allowed_refs must be a list of non-empty strings''))"

text \<open>The validators in their order; the first error is the result.\<close>

fun first_error :: "string option res list \<Rightarrow> string option res" where
  "first_error [] = Inr None"
| "first_error (r # rs) = bindR r (\<lambda>e. if e = None then first_error rs else Inr e)"

definition constraint_validation_error :: "cap_env \<Rightarrow> constraints \<Rightarrow> string option res" where
  "constraint_validation_error env cs =
     first_error
       [Inr (container_error env cs), rules_error env cs, Inr (shell_policy_error env cs),
        Inr (inherited_error cs), approval_error env cs, release_error cs, Inr (git_error cs)]"

section \<open>Parent and issuer chains\<close>

definition ids_of :: "cap_store \<Rightarrow> string set" where
  "ids_of st = cap_id ` set (st_caps st)"

lemma finite_ids_of [simp]: "finite (ids_of st)"
  by (simp add: ids_of_def)

lemma get_cap_ids: "get_cap st i = Some c \<Longrightarrow> i \<in> ids_of st \<and> cap_id c = i"
  by (auto simp: get_cap_def ids_of_def dest: find_SomeD)

text \<open>\<open>_parent_chain_active\<close>: the loop over the parents, with the ids seen so far.\<close>

function chain_live :: "host \<Rightarrow> int \<Rightarrow> cap_store \<Rightarrow> string set \<Rightarrow> string option \<Rightarrow> bool" where
  "chain_live h now st seen None = True"
| "chain_live h now st seen (Some pid) =
     (if pid \<in> seen then False
      else case get_cap st pid of
             None \<Rightarrow> False
           | Some p \<Rightarrow>
               if \<not> active p \<or> is_expired h now p then False
               else chain_live h now st (insert pid seen) (cap_parent_cap_id p))"
  by pat_completeness auto
termination
proof (relation "measure (\<lambda>(h, now, st, seen, p). card (ids_of st - seen))", goal_cases)
  case (2 h now st seen pid p)
  then have "ids_of st - insert pid seen \<subset> ids_of st - seen" using get_cap_ids by blast
  then show ?case by (simp add: psubset_card_mono)
qed simp

definition parent_chain_active :: "cap_env \<Rightarrow> cap_store \<Rightarrow> capability_row \<Rightarrow> bool" where
  "parent_chain_active env st cap =
     chain_live (ce_host env) (ce_now env) st {cap_id cap} (cap_parent_cap_id cap)"

text \<open>\<open>_issuer_chain\<close>\<close>

definition issuer_of :: "capability_row \<Rightarrow> string option" where
  "issuer_of c =
     (case cap_parent_cap_id c of
        Some p \<Rightarrow> if p \<noteq> [] then Some p else cap_issuer_cap_id c
      | None \<Rightarrow> cap_issuer_cap_id c)"

function issuer_walk :: "cap_store \<Rightarrow> string set \<Rightarrow> capability_row \<Rightarrow> string list" where
  "issuer_walk st seen c =
     (if cap_id c \<in> seen then []
      else cap_id c #
        (case issuer_of c of
           None \<Rightarrow> []
         | Some p \<Rightarrow>
             if p = [] then []
             else (case get_cap st p of
                     None \<Rightarrow> []
                   | Some c' \<Rightarrow> issuer_walk st (insert (cap_id c) seen) c')))"
  by pat_completeness auto
termination
proof (relation "measure (\<lambda>(st, seen, c). card (insert (cap_id c) (ids_of st) - seen))", goal_cases)
  case (2 st seen c p c')
  then have "cap_id c' \<in> ids_of st" using get_cap_ids by auto
  then have "insert (cap_id c') (ids_of st) - insert (cap_id c) seen
      \<subset> insert (cap_id c) (ids_of st) - seen"
    using 2 by blast
  then show ?case by (simp add: psubset_card_mono)
qed simp

declare issuer_walk.simps [simp del]

definition issuer_chain :: "cap_store \<Rightarrow> capability_row \<Rightarrow> string list" where
  "issuer_chain st c = issuer_walk st {} c"

text \<open>\<open>_authority_chain_constraint_error\<close>\<close>

function chain_error :: "cap_env \<Rightarrow> cap_store \<Rightarrow> string set \<Rightarrow> capability_row \<Rightarrow> string option res" where
  "chain_error env st seen c =
     (if cap_id c \<in> seen then Inr (Some ''capability parent chain contains a cycle'')
      else bindR (constraint_validation_error env (cap_constraints c)) (\<lambda>e.
        if e \<noteq> None then Inr e
        else (case cap_parent_cap_id c of
                None \<Rightarrow> Inr None
              | Some p \<Rightarrow>
                  (case get_cap st p of
                     None \<Rightarrow> Inr None
                   | Some c' \<Rightarrow> chain_error env st (insert (cap_id c) seen) c'))))"
  by pat_completeness auto
termination
proof (relation "measure (\<lambda>(env, st, seen, c). card (insert (cap_id c) (ids_of st) - seen))", goal_cases)
  case (2 env st seen c x p c')
  then have "cap_id c' \<in> ids_of st" using get_cap_ids by auto
  then have "insert (cap_id c') (ids_of st) - insert (cap_id c) seen
      \<subset> insert (cap_id c) (ids_of st) - seen"
    using 2 by blast
  then show ?case by (simp add: psubset_card_mono)
qed simp

declare chain_error.simps [simp del]

definition authority_chain_error :: "cap_env \<Rightarrow> cap_store \<Rightarrow> capability_row \<Rightarrow> string option res" where
  "authority_chain_error env st c = chain_error env st {} c"

section \<open>Machine grants\<close>

definition constraint_value :: "capability_row \<Rightarrow> string \<Rightarrow> pyval" where
  "constraint_value c k = (case map_of (cap_constraints c) k of None \<Rightarrow> VNone | Some v \<Rightarrow> v)"

text \<open>\<open>_is_semantic_machine_capability\<close>\<close>

definition is_machine_grant :: "capability_row \<Rightarrow> bool" where
  "is_machine_grant c \<longleftrightarrow>
     is_semantic_binding (constraint_value c ''approval_binding'')
     \<or> startswith (cap_issued_by c) ''policy:semantic:''
     \<or> dhas (cap_metadata c) ''semantic_auto_approval''"

text \<open>\<open>_raw_semantic_action_is_high_risk\<close>\<close>

definition raw_high_risk :: "pyval \<Rightarrow> bool" where
  "raw_high_risk v \<longleftrightarrow>
     (case v of
        VDict d \<Rightarrow> py_eq (dget d ''schema_version'') (VInt 2) \<and>
          (case dget d ''authority_operation'' of
             VStr a \<Rightarrow> map_of action_catalog_v1 a = None
           | _ \<Rightarrow> False)
      | _ \<Rightarrow> False)"

text \<open>
  \<open>_trip_semantic_binding_violation\<close>: the latch is set first; outside the phase \<open>authorize\<close> the
  durable trip is deferred by an exception that carries the trip code. The observer's own failures
  are swallowed.
\<close>

definition trip_violation :: "cap_env \<Rightarrow> string \<Rightarrow> pydict option \<Rightarrow> string \<Rightarrow> unit latched" where
  "trip_violation env trip_code binding phase = (\<lambda>l.
     (True,
      bindR (case binding of
               None \<Rightarrow> Inr ()
             | Some b \<Rightarrow> bindR (approval_binding_sha256 (ce_host env) (VDict b)) (\<lambda>_. Inr ())) (\<lambda>_.
        if phase \<noteq> ''authorize'' then Inl (SemanticTripDeferred trip_code) else Inr ())))"

definition binding_identity_error ::
  "capability_row \<Rightarrow> pydict \<Rightarrow> string \<Rightarrow> string \<Rightarrow> string option res" where
  "binding_identity_error c b subj res =
     (if cap_effect c \<noteq> Allow then Inr (Some ''BindingV2 capability is not an allow grant'')
      else if cap_delegable c \<or> \<not> cap_revocable c then
        Inr (Some ''BindingV2 capability must be nondelegable and revocable'')
      else if cap_parent_cap_id c \<noteq> None \<or> cap_delegation_depth c \<noteq> 0 then
        Inr (Some ''BindingV2 capability must not be delegated'')
      else if cap_issued_by c \<noteq> ''policy:semantic:'' @ the_str (dget b ''policy_epoch_id'') then
        Inr (Some ''BindingV2 capability issuer is not its Host policy epoch'')
      else if cap_subject c \<noteq> subj \<or> dget b ''pid'' \<noteq> VStr subj then
        Inr (Some ''BindingV2 subject changed'')
      else if cap_resource c \<noteq> res \<or> dget b ''resource'' \<noteq> VStr res then
        Inr (Some ''BindingV2 resource changed'')
      else (case parse (cap_resource c) False of
              Inr p \<Rightarrow>
                if rp_scope p \<noteq> Exact then Inr (Some ''BindingV2 resource is not exact'') else Inr None
            | Inl (PyTypeError m) \<Rightarrow> Inr (Some ''BindingV2 resource is malformed'')
            | Inl (ValueError m) \<Rightarrow> Inr (Some ''BindingV2 resource is malformed'')
            | Inl (ValidationError m) \<Rightarrow> Inr (Some ''BindingV2 resource is malformed'')
            | Inl e \<Rightarrow> Inl e))"

definition binding_use_error ::
  "capability_row \<Rightarrow> pydict \<Rightarrow> string \<Rightarrow> string option \<Rightarrow> bool \<Rightarrow> string option" where
  "binding_use_error c b rt eff allow_reserved =
     (if set (cap_rights c) \<noteq> {rt} \<or> dget b ''right'' \<noteq> VStr rt then Some ''BindingV2 right changed''
      else if cap_expires_at c = None \<or> dget b ''expires_at'' \<noteq> VStr (the (cap_expires_at c)) then
        Some ''BindingV2 expiry changed''
      else if allow_reserved \<and> cap_uses_remaining c \<noteq> Some 0 then
        Some ''BindingV2 capability was not reserved exactly once''
      else if \<not> allow_reserved \<and> cap_uses_remaining c \<noteq> Some 1 then
        Some ''BindingV2 capability is not available exactly once''
      else (case eff of
              None \<Rightarrow> None
            | Some e \<Rightarrow> if dget b ''effect_id'' \<noteq> VStr e then Some ''BindingV2 effect changed'' else None))"

definition binding_capability_error ::
  "capability_row \<Rightarrow> pydict \<Rightarrow> string \<Rightarrow> string \<Rightarrow> string \<Rightarrow> string option \<Rightarrow> bool \<Rightarrow> string option res" where
  "binding_capability_error c b subj res rt eff allow_reserved =
     bindR (binding_identity_error c b subj res) (\<lambda>e.
       if e \<noteq> None then Inr e else Inr (binding_use_error c b rt eff allow_reserved))"

text \<open>\<open>_semantic_structural_trip_code\<close>\<close>

definition structural_trip_code :: "capability_row \<Rightarrow> pydict \<Rightarrow> string \<Rightarrow> string" where
  "structural_trip_code c b err =
     (if err \<in> {''BindingV2 capability was not reserved exactly once'',
                ''BindingV2 capability is not available exactly once''} then ''replay_detected''
      else if cap_delegable c \<or> \<not> cap_revocable c \<or> cap_parent_cap_id c \<noteq> None
          \<or> cap_delegation_depth c \<noteq> 0
          \<or> (case map_of action_catalog_v1 (case dget b ''authority_operation'' of VStr a \<Rightarrow> a | _ \<Rightarrow> []) of
               None \<Rightarrow> True
             | Some rs \<Rightarrow> \<not> set (cap_rights c) \<subseteq> set rs) then ''critical_high_grant''
      else if err \<in> {''BindingV2 resource changed'', ''BindingV2 right changed'',
                     ''BindingV2 effect changed''} then ''unauthorized_effect''
      else ''binding_mismatch'')"

text \<open>\<open>_semantic_binding_metadata_error\<close>\<close>

definition provenance_fields :: "string list" where
  "provenance_fields = [''settlement_id'', ''budget_bucket_id'', ''matched_rule_id'']"

definition binding_metadata_error :: "host \<Rightarrow> capability_row \<Rightarrow> pydict \<Rightarrow> string option res" where
  "binding_metadata_error h c b =
     (case dget (cap_metadata c) ''semantic_auto_approval'' of
        VDict m \<Rightarrow>
          bindR (approval_binding_sha256 h (VDict b)) (\<lambda>digest.
            let expected = [(''schema_version'', VInt 1), (''binding_sha256'', VStr digest),
                  (''request_id'', dget b ''request_id''), (''assessment_id'', dget b ''assessment_id''),
                  (''policy_epoch_id'', dget b ''policy_epoch_id'')] in
            Inr (if set (map fst m) = VStr ` (set (map fst expected) \<union> set provenance_fields)
                  \<and> list_all (\<lambda>k. non_empty_str (dget m k)) provenance_fields
                  \<and> list_all (\<lambda>(k, v). py_eq (dget m k) v) expected
                 then None else Some ''BindingV2 machine issuance provenance changed''))
      | _ \<Rightarrow> Inr (Some ''BindingV2 capability has no machine issuance provenance''))"

text \<open>\<open>_semantic_binding_host_validation_error\<close>; a deferred trip is raised again.\<close>

definition host_validation_error ::
  "cap_env \<Rightarrow> capability_row \<Rightarrow> pydict \<Rightarrow> pydict \<Rightarrow> string \<Rightarrow> string option \<Rightarrow> string option latched" where
  "host_validation_error env c b ctx phase eff = (\<lambda>l.
     (case ce_validator env of
        None \<Rightarrow> (l, Inr (Some ''Host semantic authority validator is not configured''))
      | Some validate \<Rightarrow>
          (case validate b phase c ctx eff of
             (trips, err) \<Rightarrow>
               (l \<or> trips,
                case err of
                  None \<Rightarrow> Inr None
                | Some (SemanticTripDeferred m) \<Rightarrow> Inl (SemanticTripDeferred m)
                | Some _ \<Rightarrow> Inr (Some ''Host semantic control rejected the BindingV2 grant'')))))"

text \<open>\<open>_semantic_approval_constraint_error\<close>\<close>

definition malformed_binding_error ::
  "cap_env \<Rightarrow> capability_row \<Rightarrow> string \<Rightarrow> string \<Rightarrow> string option latched" where
  "malformed_binding_error env c phase msg =
     bindL (trip_violation env
       (if raw_high_risk (constraint_value c ''approval_binding'') then ''critical_high_grant''
        else ''binding_mismatch'') None phase) (\<lambda>_. liftL (Inr (Some msg)))"

definition checked_binding_error ::
  "cap_env \<Rightarrow> capability_row \<Rightarrow> pydict \<Rightarrow> string \<Rightarrow> string \<Rightarrow> string \<Rightarrow> pydict \<Rightarrow> string \<Rightarrow> string option \<Rightarrow> bool \<Rightarrow>
   string option latched" where
  "checked_binding_error env c b subj res rt ctx phase eff allow_reserved =
     bindL (liftL (binding_capability_error c b subj res rt eff allow_reserved)) (\<lambda>serr.
       if serr \<noteq> None then
         bindL (trip_violation env (structural_trip_code c b (the serr)) (Some b) phase)
           (\<lambda>_. liftL (Inr serr))
       else
         bindL (liftL (binding_metadata_error (ce_host env) c b)) (\<lambda>merr.
           if merr \<noteq> None then
             bindL (trip_violation env ''binding_mismatch'' (Some b) phase) (\<lambda>_. liftL (Inr merr))
           else host_validation_error env c b ctx phase eff))"

definition semantic_error ::
  "cap_env \<Rightarrow> capability_row \<Rightarrow> string \<Rightarrow> string \<Rightarrow> string \<Rightarrow> pydict \<Rightarrow> string \<Rightarrow> string option \<Rightarrow> bool \<Rightarrow>
   string option latched" where
  "semantic_error env c subj res rt ctx phase eff allow_reserved = (\<lambda>l.
     if \<not> is_machine_grant c then (l, Inr None)
     else if l then (l, Inr (Some ''Runtime semantic authority emergency latch is tripped''))
     else
       let raw = constraint_value c ''approval_binding'' in
       if \<not> is_semantic_binding raw then
         malformed_binding_error env c phase ''BindingV2 schema marker is missing or malformed'' l
       else
         (case normalize_approval_binding (ce_host env) raw of
            Inr b \<Rightarrow> checked_binding_error env c b subj res rt ctx phase eff allow_reserved l
          | Inl (PyTypeError m) \<Rightarrow> malformed_binding_error env c phase ''BindingV2 is malformed'' l
          | Inl (ValueError m) \<Rightarrow> malformed_binding_error env c phase ''BindingV2 is malformed'' l
          | Inl (ValidationError m) \<Rightarrow> malformed_binding_error env c phase ''BindingV2 is malformed'' l
          | Inl e \<Rightarrow> (l, Inl e)))"

section \<open>Decisions\<close>

text \<open>
  A machine grant is hidden from a coarse probe: in the phase \<open>authorize\<close> its context must carry the
  exact-operation marker.
\<close>

definition grant_error ::
  "cap_env \<Rightarrow> cap_store \<Rightarrow> string \<Rightarrow> string \<Rightarrow> string \<Rightarrow> pydict \<Rightarrow> string \<Rightarrow> capability_row \<Rightarrow>
   string option latched" where
  "grant_error env st subj res rt ctx phase c =
     bindL
       (if is_machine_grant c \<and> phase = ''authorize''
           \<and> dget ctx ''semantic_exact_operation_context'' \<noteq> VBool True
        then liftL (Inr (Some ''BindingV2 requires an exact Host operation context''))
        else semantic_error env c subj res rt ctx phase None False)
       (\<lambda>e. if e \<noteq> None then liftL (Inr e) else liftL (authority_chain_error env st c))"

definition invalidated :: "capability_row \<Rightarrow> capability_row" where
  "invalidated c = c\<lparr>cap_constraints := [(''invalid_persisted_constraint'', VBool True)]\<rparr>"

definition evaluation_match ::
  "cap_env \<Rightarrow> cap_store \<Rightarrow> string \<Rightarrow> string \<Rightarrow> string \<Rightarrow> pydict \<Rightarrow> string \<Rightarrow> capability_row \<Rightarrow>
   capability_row latched" where
  "evaluation_match env st subj res rt ctx phase c =
     bindL (grant_error env st subj res rt ctx phase c) (\<lambda>e.
       liftL (Inr (if e \<noteq> None then invalidated c else c)))"

text \<open>\<open>_decision_from_matches\<close>\<close>

definition decision_from_matches ::
  "cap_env \<Rightarrow> cap_store \<Rightarrow> string \<Rightarrow> string \<Rightarrow> string \<Rightarrow> capability_row list \<Rightarrow> pydict \<Rightarrow> string \<Rightarrow>
   capability_decision latched" where
  "decision_from_matches env st subj res rt caps ctx phase =
     bindL (mapL (evaluation_match env st subj res rt ctx phase) caps) (\<lambda>evs.
     bindL (liftL (decide (ce_host env) subj res rt evs ctx (\<lambda>_. []))) (\<lambda>d.
       liftL (Inr (case List.find (\<lambda>c. Some (cap_id c) = cd_selected d) caps of
         None \<Rightarrow> d
       | Some c \<Rightarrow> d\<lparr>cd_issuer_chain := issuer_chain st c\<rparr>))))"

text \<open>The predicates of a live grant that the three selections share.\<close>

definition live_match :: "cap_env \<Rightarrow> cap_store \<Rightarrow> string \<Rightarrow> string \<Rightarrow> capability_row \<Rightarrow> bool" where
  "live_match env st res rt c \<longleftrightarrow>
     active c \<and> \<not> is_expired (ce_host env) (ce_now env) c \<and> parent_chain_active env st c
     \<and> matches (cap_resource c) res \<and> rt \<in> set (cap_rights c)"

text \<open>\<open>_matching_capabilities\<close>\<close>

definition matching_capabilities ::
  "cap_env \<Rightarrow> cap_store \<Rightarrow> string \<Rightarrow> string \<Rightarrow> string \<Rightarrow> bool \<Rightarrow> capability_row list res" where
  "matching_capabilities env st subj res rt include_ask =
     bindR (parse res True) (\<lambda>_.
       Inr (sort_matching (filter (\<lambda>c. live_match env st res rt c \<and> (include_ask \<or> cap_effect c \<noteq> Ask))
         (list_caps st (Some subj)))))"

definition authorize_in_phase ::
  "cap_env \<Rightarrow> cap_store \<Rightarrow> string \<Rightarrow> string \<Rightarrow> string \<Rightarrow> pydict \<Rightarrow> string \<Rightarrow> capability_decision latched" where
  "authorize_in_phase env st subj res rt ctx phase =
     bindL (liftL (matching_capabilities env st subj res rt True)) (\<lambda>caps.
       decision_from_matches env st subj res rt caps ctx phase)"

definition authorize ::
  "cap_env \<Rightarrow> cap_store \<Rightarrow> string \<Rightarrow> string \<Rightarrow> string \<Rightarrow> pydict \<Rightarrow> capability_decision latched" where
  "authorize env st subj res rt ctx = authorize_in_phase env st subj res rt ctx ''authorize''"

text \<open>\<open>authorize_matching_capabilities\<close>\<close>

definition authorize_matching ::
  "cap_env \<Rightarrow> cap_store \<Rightarrow> string \<Rightarrow> string \<Rightarrow> string \<Rightarrow> capability_row list \<Rightarrow> pydict \<Rightarrow>
   capability_decision latched" where
  "authorize_matching env st subj res rt caps ctx =
     decision_from_matches env st subj res rt
       (sort_matching (filter (\<lambda>c. cap_subject c = subj \<and> live_match env st res rt c) caps)) ctx ''authorize''"

section \<open>Reauthorization\<close>

text \<open>\<open>reauthorize_decision\<close>\<close>

definition reauthorize_decision ::
  "cap_env \<Rightarrow> cap_store \<Rightarrow> capability_decision \<Rightarrow> capability_decision latched" where
  "reauthorize_decision env st d =
     bindL (authorize_in_phase env st (cd_subject d) (cd_resource d) (cd_right d) (cd_context d) ''prepare'')
       (\<lambda>cur. liftL (if cd_allowed cur then Inr cur
          else Inl (CapabilityDenied (''capability authority changed before protected dispatch: ''
            @ cd_reason cur))))"

text \<open>\<open>reauthorize_selected_decision\<close>\<close>

definition selected_still_live ::
  "cap_env \<Rightarrow> cap_store \<Rightarrow> capability_decision \<Rightarrow> capability_row \<Rightarrow> unit res" where
  "selected_still_live env st d c =
     (if cap_subject c \<noteq> cd_subject d \<or> \<not> live_match env st (cd_resource d) (cd_right d) c then
        Inl (CapabilityDenied ''selected capability authority changed before protected dispatch'')
      else if dget (cap_metadata c) ''object_handle'' = VBool True \<and> cap_resource c \<noteq> cd_resource d then
        Inl (CapabilityDenied ''named object capability no longer matches its exact resource'')
      else Inr ())"

definition reauthorize_selected ::
  "cap_env \<Rightarrow> cap_store \<Rightarrow> capability_decision \<Rightarrow> capability_decision latched" where
  "reauthorize_selected env st d =
     (case cd_selected d of
        None \<Rightarrow> liftL (Inl (CapabilityDenied ''cannot reauthorize a denied or unbound capability decision''))
      | Some sel \<Rightarrow>
          if \<not> cd_allowed d then
            liftL (Inl (CapabilityDenied ''cannot reauthorize a denied or unbound capability decision''))
          else if cd_consume d \<noteq> None \<and> cd_consume d \<noteq> Some sel then
            liftL (Inl (CapabilityDenied
              ''cached finite-use decision is not bound to its selected capability''))
          else
            bindL (reauthorize_decision env st d) (\<lambda>_.
              case get_cap st sel of
                None \<Rightarrow> liftL (Inl (CapabilityDenied
                  ''selected capability no longer exists before protected dispatch''))
              | Some c \<Rightarrow>
                  bindL (liftL (selected_still_live env st d c)) (\<lambda>_.
                  bindL (decision_from_matches env st (cd_subject d) (cd_resource d) (cd_right d) [c]
                      (cd_context d) ''prepare'') (\<lambda>cur.
                    liftL (if cd_allowed cur \<and> cd_selected cur = Some sel then Inr cur
                      else Inl (CapabilityDenied
                        ''selected capability authority changed before protected dispatch''))))))"

text \<open>\<open>authorize_handle\<close> and \<open>_reauthorize_handle_decision\<close>\<close>

record object_handle =
  oh_oid :: string
  oh_rights :: "string list"
  oh_cap :: string

definition handle_cap :: "cap_env \<Rightarrow> cap_store \<Rightarrow> string \<Rightarrow> object_handle \<Rightarrow> string \<Rightarrow> capability_row res" where
  "handle_cap env st subj hdl rt =
     (if rt \<notin> set (oh_rights hdl) then Inl (CapabilityDenied ''object handle lacks the right'')
      else case get_cap st (oh_cap hdl) of
             None \<Rightarrow> Inl (CapabilityDenied ''invalid object capability'')
           | Some c \<Rightarrow>
               if revoked c \<or> \<not> active c \<or> is_expired (ce_host env) (ce_now env) c
                  \<or> \<not> parent_chain_active env st c then
                 Inl (CapabilityDenied ''invalid object capability'')
               else if cap_subject c \<noteq> subj then Inl (CapabilityDenied ''capability subject mismatch'')
               else if cap_resource c \<noteq> ''object:'' @ oh_oid hdl then
                 Inl (CapabilityDenied ''object handle resource mismatch'')
               else if rt \<notin> set (cap_rights c) then
                 Inl (CapabilityDenied ''object capability lacks the right'')
               else Inr c)"

definition authorize_handle ::
  "cap_env \<Rightarrow> cap_store \<Rightarrow> string \<Rightarrow> object_handle \<Rightarrow> string \<Rightarrow> capability_decision latched" where
  "authorize_handle env st subj hdl rt =
     bindL (liftL (handle_cap env st subj hdl rt)) (\<lambda>c.
     bindL (authorize env st subj (''object:'' @ oh_oid hdl) rt []) (\<lambda>g.
       if \<not> cd_allowed g then liftL (Inr g)
       else authorize_matching env st subj (''object:'' @ oh_oid hdl) rt [c] []))"

definition reauthorize_handle ::
  "cap_env \<Rightarrow> cap_store \<Rightarrow> string \<Rightarrow> object_handle \<Rightarrow> string \<Rightarrow> capability_decision latched" where
  "reauthorize_handle env st subj hdl rt = (\<lambda>l.
     case authorize_handle env st subj hdl rt l of
       (l', Inl (CapabilityDenied m)) \<Rightarrow>
         (l', Inl (CapabilityDenied ''object handle authority changed before permission claim''))
     | (l', Inl (SemanticTripDeferred m)) \<Rightarrow>
         (l', Inl (CapabilityDenied ''object handle authority changed before permission claim''))
     | (l', Inl e) \<Rightarrow> (l', Inl e)
     | (l', Inr d) \<Rightarrow>
         (l', if \<not> cd_allowed d then
                Inl (CapabilityDenied ''object handle authority changed before permission claim'')
              else if cd_selected d \<noteq> Some (oh_cap hdl) then
                Inl (CapabilityDenied ''object handle authority no longer matches its named capability'')
              else Inr d))"

section \<open>The authority transaction\<close>

text \<open>
  \<open>AuthorityTransaction\<close>: every decision is reauthorized in the transaction, each finite grant named
  by a decision is reserved once, the caller's mutation runs, and every reservation is committed. An
  exception anywhere leaves the store as it was. \<open>fresh n\<close> is the id of the n-th reservation made.
\<close>

definition admission_check :: "cap_env \<Rightarrow> nat \<Rightarrow> unit res" where
  "admission_check env n = (case ce_admission env n of None \<Rightarrow> Inr () | Some e \<Rightarrow> Inl e)"

text \<open>\<open>CapabilityLeaseService.reserve_decision\<close>, called for a decision that consumes.\<close>

definition reserve_decision ::
  "string \<Rightarrow> string \<Rightarrow> string \<Rightarrow> string \<Rightarrow> capability_decision \<Rightarrow> cap_store \<Rightarrow>
   (cap_store \<times> string option) res" where
  "reserve_decision rid actor reason stamp d st =
     (case cd_consume d of
        None \<Rightarrow> Inr (st, None)
      | Some i \<Rightarrow> bindR (lease_reserve i rid 1 actor reason stamp st) (\<lambda>(st', r). Inr (st', Some r)))"

fun reserve_each ::
  "(nat \<Rightarrow> string) \<Rightarrow> string \<Rightarrow> string \<Rightarrow> string \<Rightarrow> capability_decision list \<Rightarrow>
   (string \<times> string) list \<Rightarrow> cap_store \<Rightarrow> (cap_store \<times> (string \<times> string) list) res" where
  "reserve_each fresh actor opn stamp [] rs st = Inr (st, rs)"
| "reserve_each fresh actor opn stamp (d # ds) rs st =
     (case cd_consume d of
        None \<Rightarrow> reserve_each fresh actor opn stamp ds rs st
      | Some i \<Rightarrow>
          if map_of rs i \<noteq> None then reserve_each fresh actor opn stamp ds rs st
          else bindR (reserve_decision (fresh (length rs)) actor
                 (''one-time '' @ opn @ '' authority reserved'') stamp d st) (\<lambda>(st', r).
            case r of
              None \<Rightarrow> Inl (CapabilityDenied (opn @ '' authority reservation was not created''))
            | Some rid \<Rightarrow> reserve_each fresh actor opn stamp ds (rs @ [(i, rid)]) st'))"

fun commit_each :: "string \<Rightarrow> string \<Rightarrow> (string \<times> string) list \<Rightarrow> cap_store \<Rightarrow> cap_store res" where
  "commit_each opn stamp [] st = Inr st"
| "commit_each opn stamp ((i, rid) # rs) st =
     (case lease_commit (Some rid) stamp st of
        (st', committed) \<Rightarrow>
          if committed then commit_each opn stamp rs st'
          else Inl (CapabilityDenied (opn @ '' authority reservation is no longer active'')))"

definition authority_transaction ::
  "cap_env \<Rightarrow> (nat \<Rightarrow> string) \<Rightarrow> string \<Rightarrow> string \<Rightarrow> string \<Rightarrow>
   (cap_store \<Rightarrow> capability_decision \<Rightarrow> capability_decision latched) \<Rightarrow> capability_decision list \<Rightarrow>
   (capability_decision list \<Rightarrow> cap_store \<Rightarrow> (cap_store \<times> 'a) res) \<Rightarrow> cap_store \<Rightarrow>
   (cap_store \<times> capability_decision list \<times> 'a) latched" where
  "authority_transaction env fresh actor opn stamp reauth ds body st =
     bindL (liftL (admission_check env 0)) (\<lambda>_.
     bindL (liftL (admission_check env 1)) (\<lambda>_.
     bindL (mapL (reauth st) ds) (\<lambda>cur.
     bindL (liftL (reserve_each fresh actor opn stamp cur [] st)) (\<lambda>(st1, rs).
     bindL (liftL (body cur st1)) (\<lambda>(st2, x).
     bindL (liftL (admission_check env 2)) (\<lambda>_.
     bindL (liftL (commit_each opn stamp rs st2)) (\<lambda>st3.
     bindL (liftL (admission_check env 3)) (\<lambda>_.
       liftL (Inr (st3, cur, x))))))))))"

text \<open>The store after the transaction: an exception rolls it back, the latch stays as it is.\<close>

definition settled_store :: "cap_store \<Rightarrow> bool \<times> (cap_store \<times> 'a) res \<Rightarrow> cap_store" where
  "settled_store st r = keep st (snd r)"

text \<open>\<open>claim_decision_use\<close> and \<open>require\<close>\<close>

definition claim_decision_use ::
  "cap_env \<Rightarrow> (nat \<Rightarrow> string) \<Rightarrow> string \<Rightarrow> string \<Rightarrow> string \<Rightarrow> capability_decision \<Rightarrow> cap_store \<Rightarrow>
   (cap_store \<times> capability_decision list \<times> unit) latched" where
  "claim_decision_use env fresh actor reason stamp d st =
     (if \<not> cd_allowed d then
        liftL (Inl (CapabilityDenied ''cannot claim a denied capability decision''))
      else authority_transaction env fresh actor reason stamp (reauthorize_decision env) [d]
        (\<lambda>_ st. Inr (st, ())) st)"

definition require ::
  "cap_env \<Rightarrow> (nat \<Rightarrow> string) \<Rightarrow> string \<Rightarrow> string \<Rightarrow> string \<Rightarrow> pydict \<Rightarrow> bool \<Rightarrow> string \<Rightarrow> string \<Rightarrow> string \<Rightarrow>
   cap_store \<Rightarrow> (cap_store \<times> capability_decision) latched" where
  "require env fresh subj res rt ctx consume actor reason stamp st =
     bindL (authorize env st subj res rt ctx) (\<lambda>d.
       if \<not> cd_allowed d then liftL (Inl (CapabilityDenied (cd_reason d)))
       else if consume then
         bindL (authority_transaction env fresh actor reason stamp (reauthorize_decision env) [d]
             (\<lambda>_ st. Inr (st, ())) st) (\<lambda>(st', cur, _).
           liftL (Inr (st', (hd cur)\<lparr>cd_consume := None\<rparr>)))
       else liftL (Inr (st, d)))"

text \<open>\<open>assert_handle\<close>\<close>

definition assert_handle ::
  "cap_env \<Rightarrow> (nat \<Rightarrow> string) \<Rightarrow> string \<Rightarrow> object_handle \<Rightarrow> string \<Rightarrow> string \<Rightarrow> cap_store \<Rightarrow>
   (cap_store \<times> capability_decision list \<times> unit) latched" where
  "assert_handle env fresh subj hdl rt stamp st =
     bindL (authorize_handle env st subj hdl rt) (\<lambda>d.
       if \<not> cd_allowed d then liftL (Inl (CapabilityDenied ''capability lacks the right''))
       else authority_transaction env fresh ''object_memory'' ''object handle permission'' stamp
         (\<lambda>st _. reauthorize_handle env st subj hdl rt) [d] (\<lambda>_ st. Inr (st, ())) st)"

text \<open>\<open>constraints_satisfied\<close>\<close>

definition constraints_satisfied ::
  "cap_env \<Rightarrow> cap_store \<Rightarrow> capability_row \<Rightarrow> pydict \<Rightarrow> bool res" where
  "constraints_satisfied env st c ctx =
     bindR (authority_chain_error env st c) (\<lambda>e.
       if e \<noteq> None then Inr False
       else bindR (evaluate_constraints (ce_host env) c ctx) (\<lambda>results.
         Inr (list_all (\<lambda>p. cr_ok (snd p)) results \<and> constraint_effect results \<noteq> Some Deny)))"

section \<open>Lemmas on the latched results\<close>

lemma liftL_iff [simp]: "liftL r l = (l', r') \<longleftrightarrow> l' = l \<and> r' = r"
  by (auto simp: liftL_def)

lemma bindL_Inr_iff:
  "bindL m f l = (l', Inr y) \<longleftrightarrow> (\<exists>l1 x. m l = (l1, Inr x) \<and> f x l1 = (l', Inr y))"
  by (auto simp: bindL_def split: prod.split sum.split)

lemma latched_cases:
  "(case r of (l, Inl e) \<Rightarrow> False | (l, Inr d) \<Rightarrow> P l d) \<Longrightarrow> \<exists>l d. r = (l, Inr d) \<and> P l d"
  by (auto split: prod.splits sum.splits)

definition the_ok :: "'a res \<Rightarrow> 'a" where
  "the_ok r = (case r of Inr x \<Rightarrow> x | Inl e \<Rightarrow> undefined)"

lemma the_ok_Inr [simp]: "the_ok (Inr x) = x"
  by (simp add: the_ok_def)

lemma bindL_liftL [simp]: "bindL (liftL r) f l = (case r of Inl e \<Rightarrow> (l, Inl e) | Inr x \<Rightarrow> f x l)"
  by (simp add: bindL_def liftL_def split: sum.split)

text \<open>A computation that never resets the latch.\<close>

definition keeps_latch :: "'a latched \<Rightarrow> bool" where
  "keeps_latch m \<longleftrightarrow> (\<forall>l. l \<longrightarrow> fst (m l))"

named_theorems latch_intros

lemma keeps_latch_lift [latch_intros]: "keeps_latch (liftL r)"
  by (simp add: keeps_latch_def liftL_def)

lemma keeps_latch_bind [latch_intros]:
  "keeps_latch m \<Longrightarrow> (\<And>x. keeps_latch (f x)) \<Longrightarrow> keeps_latch (bindL m f)"
  unfolding keeps_latch_def bindL_def by (auto split: prod.split sum.split) (metis fst_conv)+

lemma keeps_latch_map [latch_intros]: "(\<And>x. keeps_latch (f x)) \<Longrightarrow> keeps_latch (mapL f xs)"
  by (induction xs) (auto intro!: latch_intros)

lemma keeps_latch_if [latch_intros]:
  "keeps_latch m \<Longrightarrow> keeps_latch n \<Longrightarrow> keeps_latch (if b then m else n)"
  by simp

lemma keeps_latch_trip [latch_intros]: "keeps_latch (trip_violation env k b phase)"
  by (simp add: keeps_latch_def trip_violation_def)

lemma keeps_latch_host [latch_intros]: "keeps_latch (host_validation_error env c b ctx phase eff)"
  by (auto simp: keeps_latch_def host_validation_error_def split: option.split prod.split)

lemma keeps_latch_malformed [latch_intros]: "keeps_latch (malformed_binding_error env c phase msg)"
  unfolding malformed_binding_error_def by (intro latch_intros)

lemma keeps_latch_semantic [latch_intros]:
  "keeps_latch (semantic_error env c subj res rt ctx phase eff ar)"
  by (auto simp: keeps_latch_def semantic_error_def)

lemma keeps_latch_grant [latch_intros]: "keeps_latch (grant_error env st subj res rt ctx phase c)"
  unfolding grant_error_def by (intro latch_intros)

lemma keeps_latch_evaluation [latch_intros]:
  "keeps_latch (evaluation_match env st subj res rt ctx phase c)"
  unfolding evaluation_match_def by (intro latch_intros)

lemma keeps_latch_decision [latch_intros]:
  "keeps_latch (decision_from_matches env st subj res rt caps ctx phase)"
  unfolding decision_from_matches_def by (intro latch_intros)

lemma keeps_latch_authorize [latch_intros]:
  "keeps_latch (authorize_in_phase env st subj res rt ctx phase)"
  unfolding authorize_in_phase_def by (intro latch_intros)

lemma keeps_latchD: "keeps_latch m \<Longrightarrow> m l = (l', r) \<Longrightarrow> l \<Longrightarrow> l'"
  by (metis fst_conv keeps_latch_def)

lemma mapL_Inr:
  assumes "mapL f xs l = (l', Inr ys)" "\<And>x. keeps_latch (f x)"
  shows "list_all2 (\<lambda>x y. \<exists>l1 l2. (l \<longrightarrow> l1) \<and> f x l1 = (l2, Inr y)) xs ys"
  using assms(1)
proof (induction xs arbitrary: l ys)
  case (Cons x xs)
  then obtain l1 y zs where y: "f x l = (l1, Inr y)" "mapL f xs l1 = (l', Inr zs)" "ys = y # zs"
    by (auto simp: bindL_Inr_iff)
  have "l \<longrightarrow> l1" using keeps_latchD [OF assms(2) y(1)] by blast
  with Cons.IH [OF y(2)] y(1,3) show ?case
    by (auto elim!: list_all2_mono)
qed simp

section \<open>Lemmas on decisions\<close>

lemma grant_error_ok:
  assumes "grant_error env st subj res rt ctx phase c l = (l', Inr None)"
  shows "authority_chain_error env st c = Inr None \<and> (is_machine_grant c \<longrightarrow> \<not> l)"
  using assms
  by (auto simp: grant_error_def bindL_Inr_iff semantic_error_def split: if_splits option.splits)

lemma evaluation_match_cases:
  assumes "evaluation_match env st subj res rt ctx phase c l = (l', Inr e)"
  obtains "e = invalidated c"
  | "e = c" "grant_error env st subj res rt ctx phase c l = (l', Inr None)"
  using assms by (auto simp: evaluation_match_def bindL_Inr_iff split: if_splits)

lemma evaluate_invalidated:
  "evaluate_constraints h (invalidated c) ctx =
     Inr [(''invalid_persisted_constraint'', failed_result ''unknown constraint key'')]"
  by (simp add: evaluate_constraints_def invalidated_def evaluate_constraint_def
      known_constraint_keys_def)

lemma decide_match_invalidated:
  "decide_match (invalidated c) subj res rt ms ctx
     [(''invalid_persisted_constraint'', failed_result ''unknown constraint key'')] ch =
   (if cap_effect c = Allow then None
    else Some (make_decision c subj res rt False (Some Deny)
      (''capability constraints denied '' @ rt @ '' on '' @ res) ms ch
      [(''invalid_persisted_constraint'', failed_result ''unknown constraint key'')] ctx))"
  by (cases "cap_effect c")
    (simp_all add: decide_match_def invalidated_def failed_result_def constraint_effect_def
      failure_is_scoped_miss_def make_decision_def)

lemma decision_from_matches_Inr:
  assumes "decision_from_matches env st subj res rt caps ctx phase l = (l', Inr d)"
  obtains evs d0 where
    "list_all2 (\<lambda>c e. \<exists>l1 l2. (l \<longrightarrow> l1) \<and>
        evaluation_match env st subj res rt ctx phase c l1 = (l2, Inr e)) caps evs"
    "decide (ce_host env) subj res rt evs ctx (\<lambda>_. []) = Inr d0"
    "cd_allowed d = cd_allowed d0" "cd_selected d = cd_selected d0" "cd_effect d = cd_effect d0"
    "cd_consume d = cd_consume d0" "cd_results d = cd_results d0"
proof -
  obtain l1 evs where m: "mapL (evaluation_match env st subj res rt ctx phase) caps l = (l1, Inr evs)"
    and r: "bindL (liftL (decide (ce_host env) subj res rt evs ctx (\<lambda>_. []))) (\<lambda>d.
       liftL (Inr (case List.find (\<lambda>c. Some (cap_id c) = cd_selected d) caps of
         None \<Rightarrow> d
       | Some c \<Rightarrow> d\<lparr>cd_issuer_chain := issuer_chain st c\<rparr>))) l1 = (l', Inr d)"
    using assms unfolding decision_from_matches_def bindL_Inr_iff by blast
  obtain d0 where d0: "decide (ce_host env) subj res rt evs ctx (\<lambda>_. []) = Inr d0"
    using r by (auto split: sum.splits)
  show thesis
    by (rule that [OF mapL_Inr [OF m keeps_latch_evaluation] d0])
      (use r d0 in \<open>auto split: option.splits\<close>)
qed

lemma decide_allowed:
  assumes "decide h subj res rt evs ctx ch = Inr d" "cd_allowed d"
  obtains e rs where "e \<in> set evs" "evaluate_constraints h e ctx = Inr rs"
    "decide_match e subj res rt (map cap_id evs) ctx rs (ch (cap_id e)) = Some d"
proof -
  obtain es where es: "evaluate_matches h subj res rt evs ctx ch = Inr es"
    using assms(1) by (auto simp: decide_def res_simps)
  obtain e where "(e, d) \<in> set (decided es)" using decide_from_decided [OF assms es] by blast
  then obtain rs where "(e, rs, Some d) \<in> set es" using set_decided by metis
  from evaluate_matches_Inr [OF es this] show thesis using that by auto
qed

lemma decide_denied:
  assumes "decide h subj res rt evs ctx ch = Inr d" "e \<in> set evs"
    and "evaluate_constraints h e ctx = Inr rs"
    and "decide_match e subj res rt (map cap_id evs) ctx rs (ch (cap_id e)) = Some d'"
    and "cd_effect d' = Some Deny"
  shows "cd_effect d = Some Deny \<and> \<not> cd_allowed d"
proof -
  obtain es where es: "evaluate_matches h subj res rt evs ctx ch = Inr es"
    using assms(1) by (auto simp: decide_def res_simps)
  have "(e, d') \<in> set (decided es)"
    using evaluate_matches_complete [OF es assms(2)] assms(3,4) by (force simp: set_decided)
  then obtain p where p: "choose_decision (decided es) = Some p" "p \<in> set (decided es)"
      "cd_effect (snd p) = Some Deny"
    using choose_decision_deny [of "(e, d')" "decided es"] assms(5) by auto
  then have "d = snd p" using assms(1) es by (simp add: decide_def)
  then show ?thesis using p decided_effect [OF es p(2)] by simp
qed

text \<open>An allowed decision rests on one of the capabilities it was given.\<close>

lemma decision_from_matches_allowed:
  assumes "decision_from_matches env st subj res rt caps ctx phase l = (l', Inr d)" "cd_allowed d"
  obtains c rs l1 l2 where "c \<in> set caps" "cd_selected d = Some (cap_id c)" "cap_effect c = Allow"
    "l \<longrightarrow> l1" "grant_error env st subj res rt ctx phase c l1 = (l2, Inr None)"
    "evaluate_constraints (ce_host env) c ctx = Inr rs" "list_all (\<lambda>p. cr_ok (snd p)) rs"
    "cd_consume d = (if cap_uses_remaining c = None then None else Some (cap_id c))"
proof -
  obtain evs d0 where ev: "list_all2 (\<lambda>c e. \<exists>l1 l2. (l \<longrightarrow> l1) \<and>
        evaluation_match env st subj res rt ctx phase c l1 = (l2, Inr e)) caps evs"
    and d0: "decide (ce_host env) subj res rt evs ctx (\<lambda>_. []) = Inr d0"
    and same: "cd_allowed d = cd_allowed d0" "cd_selected d = cd_selected d0"
      "cd_effect d = cd_effect d0" "cd_consume d = cd_consume d0" "cd_results d = cd_results d0"
    by (rule decision_from_matches_Inr [OF assms(1)])
  have "cd_allowed d0" using assms(2) same(1) by simp
  from decide_allowed [OF d0 this]
  obtain e rs where e: "e \<in> set evs" "evaluate_constraints (ce_host env) e ctx = Inr rs"
    "decide_match e subj res rt (map cap_id evs) ctx rs [] = Some d0"
    by blast
  obtain c l1 l2 where c: "c \<in> set caps" "l \<longrightarrow> l1"
    "evaluation_match env st subj res rt ctx phase c l1 = (l2, Inr e)"
    using ev e(1) unfolding list_all2_conv_all_nth in_set_conv_nth by (metis nth_mem)
  have allow: "cap_effect e = Allow \<and> list_all (\<lambda>p. cr_ok (snd p)) rs"
    using decide_match_allowed [OF e(3)] assms(2) same(1) by simp
  from c(3) show thesis
  proof (cases rule: evaluation_match_cases)
    case 1
    then have "decide_match e subj res rt (map cap_id evs) ctx rs [] = None"
      using e(2) allow by (auto simp: evaluate_invalidated decide_match_invalidated)
        (simp add: invalidated_def)
    then show thesis using e(3) by simp
  next
    case 2
    with that [OF c(1) _ _ c(2) 2(2)] e allow same decide_match_selected [OF e(3)] assms(2)
    show thesis by auto
  qed
qed

lemma set_sort_matching [simp]: "set (sort_matching xs) = set xs"
  by (simp add: sort_matching_def sort_desc_def)

lemma authorize_in_phase_Inr:
  assumes "authorize_in_phase env st subj res rt ctx phase l = (l', Inr d)"
  obtains caps where
    "set caps = {c \<in> set (st_caps st). cap_subject c = subj \<and> live_match env st res rt c}"
    "decision_from_matches env st subj res rt caps ctx phase l = (l', Inr d)"
proof -
  obtain caps where caps: "matching_capabilities env st subj res rt True = Inr caps"
    "decision_from_matches env st subj res rt caps ctx phase l = (l', Inr d)"
    using assms by (auto simp: authorize_in_phase_def split: sum.splits)
  have "set caps = {c \<in> set (st_caps st). cap_subject c = subj \<and> live_match env st res rt c}"
    using caps(1) by (auto simp: matching_capabilities_def res_simps list_caps_def)
  then show thesis using that caps(2) by blast
qed

section \<open>Ancestors\<close>

text \<open>The rows reached by parent references.\<close>

inductive ancestor :: "cap_store \<Rightarrow> capability_row \<Rightarrow> capability_row \<Rightarrow> bool" for st where
  parent: "cap_parent_cap_id c = Some p \<Longrightarrow> get_cap st p = Some a \<Longrightarrow> ancestor st c a"
| further: "ancestor st c a \<Longrightarrow> cap_parent_cap_id a = Some p \<Longrightarrow> get_cap st p = Some b \<Longrightarrow> ancestor st c b"

lemma chain_live_Some:
  "chain_live h now st seen (Some p) \<Longrightarrow> get_cap st p = Some a \<Longrightarrow>
   p \<notin> seen \<and> active a \<and> \<not> is_expired h now a \<and> chain_live h now st (insert p seen) (cap_parent_cap_id a)"
  by (auto split: if_splits)

lemma chain_live_ancestor:
  assumes "ancestor st c a" "chain_live h now st seen (cap_parent_cap_id c)"
  shows "active a \<and> \<not> is_expired h now a \<and> cap_id a \<notin> seen
    \<and> (\<exists>seen'. insert (cap_id a) seen \<subseteq> seen' \<and> chain_live h now st seen' (cap_parent_cap_id a))"
  using assms
proof (induction rule: ancestor.induct)
  case (parent c p a)
  then have "chain_live h now st seen (Some p)" by simp
  from chain_live_Some [OF this parent(2)] get_cap_ids [OF parent(2)] show ?case by auto
next
  case (further c a p b)
  then obtain s where s: "insert (cap_id a) seen \<subseteq> s" "chain_live h now st s (cap_parent_cap_id a)"
    by blast
  then have "chain_live h now st s (Some p)" using further(2) by simp
  from chain_live_Some [OF this further(3)] get_cap_ids [OF further(3)] s(1) show ?case by auto
qed

lemma parent_chain_ancestor:
  "parent_chain_active env st c \<Longrightarrow> ancestor st c a \<Longrightarrow>
   active a \<and> \<not> is_expired (ce_host env) (ce_now env) a \<and> cap_id a \<noteq> cap_id c"
  unfolding parent_chain_active_def using chain_live_ancestor by blast

lemma get_cap_revoked:
  assumes "mutation_revoke h mr i stamp st = Inr (st', r)"
  shows "get_cap st' j = (if j = i then Some r else get_cap st j)"
    and "cap_status r = Revoked" "cap_id r = i" "map_option cap_parent_cap_id (get_cap st i) = Some (cap_parent_cap_id r)"
    and "map cap_id (st_caps st') = map cap_id (st_caps st)"
proof -
  obtain c0 where c0: "get_cap st i = Some c0" and r: "r = revoked_copy c0"
    and st': "st' = invalidate_reservations i stamp (map_cap i (\<lambda>_. r) st)"
    by (rule mutation_revoke_cases [OF assms])
  show id: "cap_id r = i" "cap_status r = Revoked"
      "map_option cap_parent_cap_id (get_cap st i) = Some (cap_parent_cap_id r)"
    using get_cap_SomeD [OF c0] c0 by (simp_all add: r revoked_copy_def)
  show "get_cap st' j = (if j = i then Some r else get_cap st j)"
    using get_cap_map_cap [of i "\<lambda>_. r" st j] id c0
    by (simp add: st' invalidate_reservations_def)
  show "map cap_id (st_caps st') = map cap_id (st_caps st)"
    using map_cap_ids [of i "\<lambda>_. r" st] id by (simp add: st' invalidate_reservations_def)
qed

lemma ancestor_after_revoke:
  assumes "mutation_revoke h mr i stamp st = Inr (st', r)" "ancestor st c a"
  shows "\<exists>a'. ancestor st' c a' \<and> cap_id a' = cap_id a \<and> cap_parent_cap_id a' = cap_parent_cap_id a
    \<and> (cap_id a = i \<longrightarrow> a' = r)"
  using assms(2)
proof (induction rule: ancestor.induct)
  case (parent c p a)
  have id: "cap_id a = p" using get_cap_ids [OF parent(2)] by simp
  show ?case
  proof (cases "p = i")
    case True
    then have "ancestor st' c r"
      using parent(1) get_cap_revoked(1) [OF assms(1), of p] by (auto intro: ancestor.parent)
    then show ?thesis using True id parent(2) get_cap_revoked(3,4) [OF assms(1)] by auto
  next
    case False
    then have "ancestor st' c a"
      using parent get_cap_revoked(1) [OF assms(1), of p] by (auto intro: ancestor.parent)
    then show ?thesis using False id by auto
  qed
next
  case (further c a p b)
  obtain a' where a': "ancestor st' c a'" "cap_parent_cap_id a' = Some p"
    using further by auto
  have id: "cap_id b = p" using get_cap_ids [OF further(3)] by simp
  show ?case
  proof (cases "p = i")
    case True
    then have "ancestor st' c r"
      using a' get_cap_revoked(1) [OF assms(1), of p] by (auto intro: ancestor.further)
    then show ?thesis using True id further(3) get_cap_revoked(3,4) [OF assms(1)] by auto
  next
    case False
    then have "ancestor st' c b"
      using a' further(3) get_cap_revoked(1) [OF assms(1), of p] by (auto intro: ancestor.further)
    then show ?thesis using False id by auto
  qed
qed

lemma revoked_chain_dead:
  assumes "mutation_revoke h mr i stamp st = Inr (st', r)" "get_cap st' k = Some c"
    and "get_cap st k = Some c0" "k = i \<or> (\<exists>a. ancestor st c0 a \<and> cap_id a = i)"
  shows "\<not> (active c \<and> parent_chain_active env st' c)"
proof (cases "k = i")
  case True
  then show ?thesis using assms(2) get_cap_revoked(1,2) [OF assms(1)] by (simp add: active_def)
next
  case False
  then have "c = c0" using assms(2,3) get_cap_revoked(1) [OF assms(1), of k] by simp
  moreover obtain a where "ancestor st c0 a" "cap_id a = i" using assms(4) False by blast
  ultimately have "ancestor st' c r" using ancestor_after_revoke [OF assms(1)] by blast
  moreover have "\<not> active r" using get_cap_revoked(2) [OF assms(1)] by (simp add: active_def)
  ultimately show ?thesis using parent_chain_ancestor by blast
qed

lemma authorize_in_phase_allowed:
  assumes "authorize_in_phase env st subj res rt ctx phase l = (l', Inr d)" "cd_allowed d"
  obtains c rs l1 l2 where "c \<in> set (st_caps st)" "cap_subject c = subj" "live_match env st res rt c"
    "cd_selected d = Some (cap_id c)" "cap_effect c = Allow" "l \<longrightarrow> l1"
    "grant_error env st subj res rt ctx phase c l1 = (l2, Inr None)"
    "evaluate_constraints (ce_host env) c ctx = Inr rs" "list_all (\<lambda>p. cr_ok (snd p)) rs"
    "cd_consume d = (if cap_uses_remaining c = None then None else Some (cap_id c))"
proof -
  obtain caps where caps:
    "set caps = {c \<in> set (st_caps st). cap_subject c = subj \<and> live_match env st res rt c}"
    "decision_from_matches env st subj res rt caps ctx phase l = (l', Inr d)"
    by (rule authorize_in_phase_Inr [OF assms(1)])
  obtain c rs l1 l2 where c: "c \<in> set caps" "cd_selected d = Some (cap_id c)" "cap_effect c = Allow"
    "l \<longrightarrow> l1" "grant_error env st subj res rt ctx phase c l1 = (l2, Inr None)"
    "evaluate_constraints (ce_host env) c ctx = Inr rs" "list_all (\<lambda>p. cr_ok (snd p)) rs"
    "cd_consume d = (if cap_uses_remaining c = None then None else Some (cap_id c))"
    by (rule decision_from_matches_allowed [OF caps(2) assms(2)])
  show thesis by (rule that [OF _ _ _ c(2-8)]) (use c(1) caps(1) in auto)
qed

section \<open>Reservations of a transaction\<close>

lemma reserved_now_settle_other:
  "rid' \<noteq> rid \<Longrightarrow> reserved_now (settle rid s now st) rid' = reserved_now st rid'"
proof -
  assume ne: "rid' \<noteq> rid"
  have "List.find (\<lambda>r. ur_id r = rid' \<and> ur_status r = Reserved)
      (map (\<lambda>r. if ur_id r = rid \<and> ur_status r = Reserved
        then r\<lparr>ur_status := s, ur_updated := now\<rparr> else r) rs)
    = List.find (\<lambda>r. ur_id r = rid' \<and> ur_status r = Reserved) rs" for rs
    using ne by (induction rs) auto
  then show ?thesis by (simp add: reserved_now_def settle_def map_res_def)
qed

lemma claims_settle_committed:
  assumes "distinct (map ur_id (st_res st))" "reserved_now st rid = Some r"
  shows "claims {Committed} (settle rid Committed now st) k
    = claims {Committed} st k + (if ur_cap r = k then ur_count r else 0)"
proof -
  let ?p = "\<lambda>q. ur_id q = rid \<and> ur_status q = Reserved"
  have "sum_list (map (\<lambda>q. claim {Committed} k (if ?p q then q\<lparr>ur_status := Committed, ur_updated := now\<rparr> else q)) rs)
    = sum_list (map (claim {Committed} k) rs) + (case List.find ?p rs of None \<Rightarrow> 0
        | Some r \<Rightarrow> if ur_cap r = k then ur_count r else 0)"
    if "distinct (map ur_id rs)" for rs
    using that
  proof (induction rs)
    case (Cons q rs)
    show ?case
    proof (cases "?p q")
      case True
      have "ur_id q \<notin> ur_id ` set rs" using Cons.prems by simp
      then have "List.find ?p rs = None"
        using True unfolding find_None_iff by (metis image_eqI)
      then show ?thesis using True Cons by (simp add: claim_def)
    next
      case False
      then have "(if ?p q then q\<lparr>ur_status := Committed, ur_updated := now\<rparr> else q) = q" by (rule if_not_P)
      moreover have "List.find ?p (q # rs) = List.find ?p rs" using False by auto
      ultimately show ?thesis using Cons by simp
    qed
  qed simp
  from this [OF assms(1)] show ?thesis
    using assms(2) by (simp add: claims_def settle_def map_res_def reserved_now_def comp_def)
qed

lemma settle_ids [simp]: "map ur_id (st_res (settle rid s now st)) = map ur_id (st_res st)"
  by (simp add: settle_def map_res_def)

lemma commit_each_effect:
  assumes "commit_each opn stamp rs st = Inr st'" "distinct (map ur_id (st_res st))" "distinct (map snd rs)"
    and "\<forall>(i, rid) \<in> set rs. \<exists>r. reserved_now st rid = Some r \<and> ur_cap r = i \<and> ur_count r = 1"
  shows "remaining st' k = remaining st k
    \<and> used st' k = used st k + int (length (filter (\<lambda>p. fst p = k) rs))"
  using assms
proof (induction rs arbitrary: st)
  case (Cons p rs)
  obtain i rid where p: "p = (i, rid)" by (cases p)
  obtain r where r: "reserved_now st rid = Some r" "ur_cap r = i" "ur_count r = 1"
    using Cons.prems(4) p by auto
  let ?t = "settle rid Committed stamp st"
  have next_res: "commit_each opn stamp rs ?t = Inr st'"
    using Cons.prems(1) p r by (simp add: lease_commit_def commit_reservation_def split: if_splits)
  have rest: "\<forall>(i, rid) \<in> set rs. \<exists>r. reserved_now ?t rid = Some r \<and> ur_cap r = i \<and> ur_count r = 1"
  proof clarify
    fix i' rid' assume m: "(i', rid') \<in> set rs"
    then have "rid' \<noteq> rid" using Cons.prems(3) p by force
    then show "\<exists>r. reserved_now ?t rid' = Some r \<and> ur_cap r = i' \<and> ur_count r = 1"
      using Cons.prems(4) m p by (auto simp: reserved_now_settle_other)
  qed
  have ih: "remaining st' k = remaining ?t k
      \<and> used st' k = used ?t k + int (length (filter (\<lambda>p. fst p = k) rs))"
    by (rule Cons.IH [OF next_res _ _ rest]) (use Cons.prems(2,3) in auto)
  have "used ?t k = used st k + (if i = k then 1 else 0)"
    using claims_settle_committed [OF Cons.prems(2) r(1), of stamp k] r by (simp add: used_def)
  then show ?case using ih p by simp
qed simp

definition reserved_row :: "string \<Rightarrow> string \<Rightarrow> string \<Rightarrow> string \<times> string \<Rightarrow> use_reservation" where
  "reserved_row actor opn stamp p =
     \<lparr>ur_id = snd p, ur_cap = fst p, ur_count = 1, ur_status = Reserved, ur_by = actor,
      ur_reason = ''one-time '' @ opn @ '' authority reserved'', ur_created = stamp, ur_updated = stamp\<rparr>"

text \<open>What the reservations of a transaction add, grants named twice being reserved once.\<close>

lemma reserve_each_effect:
  assumes "reserve_each fresh actor opn stamp ds rs st = Inr (st', rs')"
  shows "\<exists>new. rs' = rs @ new \<and> distinct (map fst new) \<and> distinct (map snd new)
    \<and> fst ` set new = {i. \<exists>d \<in> set ds. cd_consume d = Some i} - fst ` set rs
    \<and> st_res st' = st_res st @ map (reserved_row actor opn stamp) new
    \<and> snd ` set new \<inter> ur_id ` set (st_res st) = {}
    \<and> (\<forall>k. remaining st' k = remaining st k - (if k \<in> fst ` set new then 1 else 0))
    \<and> (\<forall>k. get_cap st' k = map_option (if k \<in> fst ` set new then decrement 1 else id) (get_cap st k))
    \<and> (\<forall>k \<in> fst ` set new. \<exists>c. get_cap st k = Some c \<and> can_decrement 1 c)"
  using assms
proof (induction ds arbitrary: rs st)
  case Nil
  then show ?case by (auto simp: option.map_id)
next
  case (Cons d ds)
  show ?case
  proof (cases "cd_consume d")
    case None
    then show ?thesis using Cons.IH [of rs st] Cons.prems by auto
  next
    case (Some i)
    show ?thesis
    proof (cases "map_of rs i")
      case known: (Some y)
      then have "i \<in> fst ` set rs" by (metis domI dom_map_of_conv_image_fst)
      then have same: "{j. \<exists>e \<in> set (d # ds). cd_consume e = Some j} - fst ` set rs
          = {j. \<exists>e \<in> set ds. cd_consume e = Some j} - fst ` set rs"
        using Some by auto
      have "reserve_each fresh actor opn stamp ds rs st = Inr (st', rs')"
        using Cons.prems Some known by simp
      from Cons.IH [OF this] show ?thesis unfolding same .
    next
      case new: None
      then have i: "i \<notin> fst ` set rs" by (simp add: map_of_eq_None_iff)
      let ?rid = "fresh (length rs)"
      obtain s1 r1 where
        l: "lease_reserve i ?rid 1 actor (''one-time '' @ opn @ '' authority reserved'') stamp st = Inr (s1, r1)"
        and rest0: "reserve_each fresh actor opn stamp ds (rs @ [(i, r1)]) s1 = Inr (st', rs')"
        using Cons.prems Some new by (auto simp: reserve_decision_def res_simps split: prod.splits)
      obtain c where c: "get_cap st i = Some c" "can_decrement 1 c" "get_reservation st ?rid = None" "r1 = ?rid"
        and s1: "s1 = (map_cap i (decrement 1) st)\<lparr>st_res := st_res st @ [\<lparr>ur_id = ?rid, ur_cap = i,
          ur_count = 1, ur_status = Reserved, ur_by = actor,
          ur_reason = ''one-time '' @ opn @ '' authority reserved'', ur_created = stamp, ur_updated = stamp\<rparr>]\<rparr>"
        by (rule reserve_cases [OF l]) blast
      have rest: "reserve_each fresh actor opn stamp ds (rs @ [(i, ?rid)]) s1 = Inr (st', rs')"
        using rest0 c(4) by simp
      have fresh_rid: "?rid \<notin> ur_id ` set (st_res st)"
        using c(3) by (auto simp: get_reservation_def find_None_iff)
      have res1: "st_res s1 = st_res st @ [reserved_row actor opn stamp (i, ?rid)]"
        by (simp add: s1 reserved_row_def)
      have rem1: "remaining s1 k = remaining st k - (if i = k then 1 else 0)" for k
        using remaining_decrement [OF c(1,2), of k] by (simp add: s1 remaining_def get_cap_def)
      have get1: "get_cap s1 k = map_option (if i = k then decrement 1 else id) (get_cap st k)" for k
        using get_cap_map_cap [of i "decrement 1" st k] by (simp add: s1 get_cap_def option.map_id)
      obtain new where n: "rs' = (rs @ [(i, ?rid)]) @ new" "distinct (map fst new)" "distinct (map snd new)"
        "fst ` set new = {i. \<exists>d \<in> set ds. cd_consume d = Some i} - fst ` set (rs @ [(i, ?rid)])"
        "st_res st' = st_res s1 @ map (reserved_row actor opn stamp) new"
        "snd ` set new \<inter> ur_id ` set (st_res s1) = {}"
        "\<forall>k. remaining st' k = remaining s1 k - (if k \<in> fst ` set new then 1 else 0)"
        "\<forall>k. get_cap st' k = map_option (if k \<in> fst ` set new then decrement 1 else id) (get_cap s1 k)"
        "\<forall>k \<in> fst ` set new. \<exists>c. get_cap s1 k = Some c \<and> can_decrement 1 c"
        using Cons.IH [OF rest] by (elim exE conjE) (rule that)
      have i': "i \<notin> fst ` set new" "?rid \<notin> snd ` set new"
        using n(4,6) by (auto simp: res1 reserved_row_def)
      have "get_cap st' k = map_option (if k \<in> fst ` set ((i, ?rid) # new) then decrement 1 else id) (get_cap st k)" for k
        using n(8) get1 [of k] i' by (cases "k = i") (auto simp: option.map_id)
      moreover have "\<exists>c. get_cap st k = Some c \<and> can_decrement 1 c" if "k \<in> fst ` set ((i, ?rid) # new)" for k
        using that n(9) get1 [of k] i' c(1,2) by (cases "k = i") (auto simp: option.map_id)
      ultimately show ?thesis
        using n(1-7) i' Some i fresh_rid
        by (intro exI [of _ "(i, ?rid) # new"]) (auto simp: res1 rem1 reserved_row_def)
    qed
  qed
qed

lemma used_append_reserved: "used (st\<lparr>st_res := xs\<rparr>) k = sum_list (map (claim {Committed} k) xs)"
  by (simp add: used_def claims_def)

lemma reserved_now_appended:
  assumes "st_res st' = rs @ map (reserved_row actor opn stamp) new" "distinct (map snd new)"
    and "snd ` set new \<inter> ur_id ` set rs = {}" "p \<in> set new"
  shows "reserved_now st' (snd p) = Some (reserved_row actor opn stamp p)"
proof -
  let ?q = "\<lambda>r. ur_id r = snd p \<and> ur_status r = Reserved"
  have none: "List.find ?q rs = None"
    using assms(3,4) by (auto simp: find_None_iff)
  have "List.find ?q (map (reserved_row actor opn stamp) new) = Some (reserved_row actor opn stamp p)"
    using assms(2,4) by (induction new) (auto simp: reserved_row_def)
  moreover have "List.find ?q (xs @ ys) = (case List.find ?q xs of None \<Rightarrow> List.find ?q ys | Some r \<Rightarrow> Some r)"
    for xs ys by (induction xs) auto
  from this [of rs "map (reserved_row actor opn stamp) new"]
  have "List.find ?q (st_res st') = List.find ?q (map (reserved_row actor opn stamp) new)"
    using none by (simp add: assms(1))
  ultimately show ?thesis by (simp add: reserved_now_def)
qed

text \<open>What a commit needs and what it leaves alone.\<close>

lemma commit_each_rows: "commit_each opn stamp rs st = Inr st' \<Longrightarrow> get_cap st' k = get_cap st k"
proof (induction rs arbitrary: st)
  case (Cons p rs)
  then show ?case by (cases p) (auto simp: lease_commit_def commit_reservation_def split: if_splits)
qed simp

lemma commit_each_active:
  "commit_each opn stamp rs st = Inr st' \<Longrightarrow> distinct (map snd rs) \<Longrightarrow> p \<in> set rs \<Longrightarrow> reserved_now st (snd p) \<noteq> None"
proof (induction rs arbitrary: st)
  case (Cons q rs)
  obtain i rid where q: "q = (i, rid)" by (cases q)
  have r: "reserved_now st rid \<noteq> None" "commit_each opn stamp rs (settle rid Committed stamp st) = Inr st'"
    using Cons.prems(1) by (auto simp: q lease_commit_def commit_reservation_def split: if_splits)
  show ?case
  proof (cases "p = q")
    case False
    then have p: "p \<in> set rs" "snd p \<noteq> rid" using Cons.prems(2,3) by (auto simp: q)
    then have "reserved_now (settle rid Committed stamp st) (snd p) \<noteq> None"
      using Cons.IH [OF r(2) _ p(1)] Cons.prems(2) by simp
    then show ?thesis using reserved_now_settle_other [OF p(2)] by simp
  qed (use r(1) q in simp)
qed simp

text \<open>
  What a body may do to the reservations of its transaction: take, settle and add uses, but not rewrite a live row.
\<close>

definition keeps_reservations :: "(cap_store \<Rightarrow> (cap_store \<times> 'a) res) \<Rightarrow> bool" where
  "keeps_reservations f \<longleftrightarrow> (\<forall>st1 st2 y. f st1 = Inr (st2, y) \<and> distinct (map ur_id (st_res st1)) \<longrightarrow>
     distinct (map ur_id (st_res st2))
     \<and> (\<forall>rid r r'. reserved_now st1 rid = Some r \<and> reserved_now st2 rid = Some r' \<longrightarrow> r' = r))"

definition named :: "capability_decision list \<Rightarrow> string \<Rightarrow> bool" where
  "named ds k \<longleftrightarrow> (\<exists>d \<in> set ds. cd_consume d = Some k)"

lemma transaction_effect:
  assumes "authority_transaction env fresh actor opn stamp reauth ds body st l = (l', Inr (st', cur, y))"
    and "distinct (map ur_id (st_res st))" "keeps_reservations (body cur)"
  obtains st1 rs st2 where "reserve_each fresh actor opn stamp cur [] st = Inr (st1, rs)" "body cur st1 = Inr (st2, y)"
    "\<And>k. get_cap st1 k = map_option (if named cur k then decrement 1 else id) (get_cap st k)"
    "\<And>k. named cur k \<Longrightarrow> \<exists>c. get_cap st k = Some c \<and> can_decrement 1 c"
    "\<And>k. used st1 k = used st k" "\<And>k. get_cap st' k = get_cap st2 k"
    "\<And>k. used st' k = used st2 k + (if named cur k then 1 else 0)"
proof -
  obtain st1 rs st2 where r: "reserve_each fresh actor opn stamp cur [] st = Inr (st1, rs)"
    and b: "body cur st1 = Inr (st2, y)" and c: "commit_each opn stamp rs st2 = Inr st'"
    using assms(1) unfolding authority_transaction_def
    by (auto simp: bindL_Inr_iff simp del: bindL_liftL split: prod.splits) metis
  have e: "distinct (map fst rs)" "distinct (map snd rs)" "fst ` set rs = {i. named cur i}"
    "st_res st1 = st_res st @ map (reserved_row actor opn stamp) rs" "snd ` set rs \<inter> ur_id ` set (st_res st) = {}"
    "\<forall>k. get_cap st1 k = map_option (if k \<in> fst ` set rs then decrement 1 else id) (get_cap st k)"
    "\<forall>k \<in> fst ` set rs. \<exists>c. get_cap st k = Some c \<and> can_decrement 1 c"
    using reserve_each_effect [OF r] by (elim exE conjE; simp add: named_def)+
  have u1: "used st1 k = used st k" for k
    using e(4) by (simp add: used_def claims_def claim_def reserved_row_def comp_def)
  have d1: "distinct (map ur_id (st_res st1))"
    using assms(2) e(2,5) by (auto simp: e(4) reserved_row_def comp_def distinct_map)
  have d2: "distinct (map ur_id (st_res st2))"
    and same: "\<And>rid r r'. reserved_now st1 rid = Some r \<Longrightarrow> reserved_now st2 rid = Some r' \<Longrightarrow> r' = r"
    using assms(3) b d1 unfolding keeps_reservations_def by blast+
  have "\<forall>(i, rid) \<in> set rs. \<exists>r. reserved_now st2 rid = Some r \<and> ur_cap r = i \<and> ur_count r = 1"
  proof clarify
    fix i rid assume p: "(i, rid) \<in> set rs"
    then obtain r where r: "reserved_now st2 rid = Some r" using commit_each_active [OF c e(2) p] by auto
    then have "r = reserved_row actor opn stamp (i, rid)"
      using same reserved_now_appended [OF e(4,2,5) p] by simp
    then show "\<exists>r. reserved_now st2 rid = Some r \<and> ur_cap r = i \<and> ur_count r = 1" using r by (simp add: reserved_row_def)
  qed
  then have f: "used st' k = used st2 k + int (length (filter (\<lambda>p. fst p = k) rs))" for k
    using commit_each_effect [OF c d2 e(2)] by blast
  have g: "length (filter (\<lambda>p. fst p = k) rs) = (if k \<in> fst ` set rs then 1 else 0)" for k
    using e(1) by (induction rs) auto
  show thesis
  proof (rule that [OF r b _ _ u1 commit_each_rows [OF c]])
    show "get_cap st1 k = map_option (if named cur k then decrement 1 else id) (get_cap st k)" for k using e(3,6) by simp
    show "\<exists>c. get_cap st k = Some c \<and> can_decrement 1 c" if "named cur k" for k using e(3,7) that by blast
    show "used st' k = used st2 k + (if named cur k then 1 else 0)" for k using f [of k] g [of k] e(3) by simp
  qed
qed

section \<open>Examples\<close>

definition plain_env :: cap_env where
  "plain_env =
     \<lparr>ce_host = sample_host, ce_now = 0, ce_max_constraints_bytes = 512,
      ce_shell_key = ''shell_policy_level'', ce_shell_levels = [''always_deny''], ce_max_rights = 8,
      ce_default_depth = 3, ce_validator = None, ce_admission = (\<lambda>_. None)\<rparr>"

definition root_cap :: capability_row where
  "root_cap = one_shot_cap\<lparr>cap_id := ''cap_0'', cap_delegable := True, cap_uses_remaining := None\<rparr>"

definition child_cap :: capability_row where
  "child_cap = one_shot_cap\<lparr>cap_parent_cap_id := Some ''cap_0'', cap_delegation_depth := 1\<rparr>"

definition deny_cap :: capability_row where
  "deny_cap = root_cap\<lparr>cap_id := ''cap_9'', cap_effect := Deny, cap_constraints := [(''odd'', VNone)]\<rparr>"

definition chain_store :: cap_store where
  "chain_store = \<lparr>st_caps = [root_cap, child_cap], st_res = []\<rparr>"

definition family_store :: cap_store where
  "family_store = \<lparr>st_caps = [root_cap, child_cap, root_cap\<lparr>cap_id := ''cap_5''\<rparr>], st_res = []\<rparr>"

definition one_shot_decision :: capability_decision where
  "one_shot_decision =
     make_decision one_shot_cap ''pid_1'' ''object:o1'' ''read'' True (Some Allow)
       ''capability allowed operation'' [''cap_1''] [''cap_1''] [] []"

text \<open>A machine grant with its binding, and a Host that accepts it.\<close>

definition machine_host :: host where
  "machine_host = sample_host\<lparr>h_sha256 := (\<lambda>_. replicate 64 (CHR ''a'')),
     h_iso := (\<lambda>s. if s = ''t1'' then Some (1, True) else if s = ''t2'' then Some (2, True) else None)\<rparr>"

definition machine_binding :: pydict where
  "machine_binding =
     (let digest = VStr (replicate 64 (CHR ''a'')) in
      sdict [(''schema_version'', VInt 2), (''request_id'', VStr ''q''), (''request_revision'', VInt 0),
        (''pid'', VStr ''pid_1''), (''operation_id'', VNone), (''effect_id'', VStr ''eff_1''),
        (''authority_operation'', VStr ''filesystem.read''), (''resource'', VStr ''filesystem:a''),
        (''right'', VStr ''read''), (''canonical_args_hash'', digest), (''target_state_version'', VNone),
        (''manifest_id'', VStr ''m''), (''manifest_sha256'', digest), (''ceiling_sha256'', digest),
        (''policy_epoch_id'', VStr ''e''), (''policy_epoch_sha256'', digest),
        (''control_generation'', VInt 1), (''assessment_id'', VStr ''as''),
        (''assessment_sha256'', digest), (''classifier_profile_sha256'', digest),
        (''classifier_model_sha256'', digest), (''tenant_bucket_sha256'', digest),
        (''source_labels_sha256'', digest), (''source_refs_sha256'', digest),
        (''flow_snapshot_sha256'', digest), (''sink_identity_sha256'', VNone),
        (''tool_schema_sha256'', VNone), (''provider_spec_sha256'', VNone), (''nonce'', VStr ''n''),
        (''issued_at'', VStr ''t1''), (''expires_at'', VStr ''t2'')])"

definition machine_cap :: capability_row where
  "machine_cap = one_shot_cap\<lparr>cap_resource := ''filesystem:a'', cap_issued_by := ''policy:semantic:e'',
     cap_expires_at := Some ''t2'', cap_constraints := [(''approval_binding'', VDict machine_binding)],
     cap_metadata := sdict [(''semantic_auto_approval'', VDict (sdict [(''schema_version'', VInt 1),
       (''binding_sha256'', VStr (replicate 64 (CHR ''a''))), (''request_id'', VStr ''q''),
       (''assessment_id'', VStr ''as''), (''policy_epoch_id'', VStr ''e''), (''settlement_id'', VStr ''s''),
       (''budget_bucket_id'', VStr ''b''), (''matched_rule_id'', VStr ''r'')]))]\<rparr>"

definition machine_env :: cap_env where
  "machine_env = plain_env\<lparr>ce_max_constraints_bytes := 2048, ce_host := machine_host, ce_validator := Some (\<lambda>b p c x e. (False, None))\<rparr>"

definition machine_store :: cap_store where
  "machine_store = \<lparr>st_caps = [machine_cap], st_res = []\<rparr>"

definition exact_context :: pydict where
  "exact_context = sdict [(''semantic_exact_operation_context'', VBool True)]"

section \<open>Properties\<close>

text \<open>
  C9. An allowed authorization rests on one stored capability of the subject: active, not expired,
  with a live parent chain, a resource pattern that matches and the requested right, an allow grant
  whose own and inherited constraints are all well formed and whose constraints hold in the context;
  a finite-use grant is named as the one to consume. A machine grant is never used while the
  emergency latch is set, and no authorization ever clears the latch.
\<close>

theorem authorize_sound:
  assumes "authorize_in_phase env st subj res rt ctx phase l = (l', Inr d)" "cd_allowed d"
  shows "\<exists>c \<in> set (st_caps st). \<exists>rs. cd_selected d = Some (cap_id c) \<and> cap_subject c = subj
    \<and> live_match env st res rt c \<and> cap_effect c = Allow
    \<and> authority_chain_error env st c = Inr None
    \<and> evaluate_constraints (ce_host env) c ctx = Inr rs \<and> list_all (\<lambda>p. cr_ok (snd p)) rs
    \<and> cd_consume d = (if cap_uses_remaining c = None then None else Some (cap_id c))
    \<and> (l \<longrightarrow> l' \<and> \<not> is_machine_grant c)"
proof -
  obtain c rs l1 l2 where c: "c \<in> set (st_caps st)" "cap_subject c = subj" "live_match env st res rt c"
    "cd_selected d = Some (cap_id c)" "cap_effect c = Allow" "l \<longrightarrow> l1"
    "grant_error env st subj res rt ctx phase c l1 = (l2, Inr None)"
    "evaluate_constraints (ce_host env) c ctx = Inr rs" "list_all (\<lambda>p. cr_ok (snd p)) rs"
    "cd_consume d = (if cap_uses_remaining c = None then None else Some (cap_id c))"
    by (rule authorize_in_phase_allowed [OF assms])
  have "l \<longrightarrow> l'" using keeps_latchD [OF keeps_latch_authorize assms(1)] by blast
  then show ?thesis using c grant_error_ok [OF c(7)] by (intro bexI [OF _ c(1)] exI [of _ rs]) auto
qed

theorem authorize_sound_witness:
  "\<exists>d. authorize_in_phase plain_env chain_store ''pid_1'' ''object:o1'' ''read'' [] ''authorize'' True
       = (True, Inr d)
     \<and> (\<exists>c \<in> set (st_caps chain_store). cd_selected d = Some (cap_id c) \<and> \<not> is_machine_grant c)"
proof -
  let ?r = "authorize_in_phase plain_env chain_store ''pid_1'' ''object:o1'' ''read'' [] ''authorize'' True"
  have "case ?r of (l, Inl _) \<Rightarrow> False | (l, Inr d) \<Rightarrow> l \<and> cd_allowed d" by code_simp
  from latched_cases [OF this] obtain d where d: "?r = (True, Inr d)" "cd_allowed d" by auto
  from authorize_sound [OF d] show ?thesis using d(1) by blast
qed

text \<open>
  C10. Revocation cascades: once a capability has been revoked, no authorization in the resulting
  store, in whatever phase and context, selects that capability or any capability whose parent chain
  leads to it.
\<close>

theorem revocation_cascades:
  assumes "mutation_revoke h mr i stamp st = Inr (st', r)"
    and "distinct (map cap_id (st_caps st))" "get_cap st k = Some c"
    and "k = i \<or> (\<exists>a. ancestor st c a \<and> cap_id a = i)"
    and "authorize_in_phase env st' subj res rt ctx phase l = (l', Inr d)" "cd_allowed d"
  shows "cd_selected d \<noteq> Some k"
proof
  assume sel: "cd_selected d = Some k"
  obtain c' where c': "c' \<in> set (st_caps st')" "live_match env st' res rt c'" "cd_selected d = Some (cap_id c')"
    by (rule authorize_in_phase_allowed [OF assms(5,6)]) blast
  have "get_cap st' k = Some c'"
    using get_cap_in [of st' c'] c'(1,3) sel assms(2) get_cap_revoked(5) [OF assms(1)] by simp
  from revoked_chain_dead [OF assms(1) this assms(3,4), of env]
  show False using c'(2) by (simp add: live_match_def)
qed

theorem revocation_cascades_witness:
  "\<exists>st' r d. mutation_revoke sample_host 8 ''cap_0'' ''t'' family_store = Inr (st', r)
     \<and> authorize_in_phase plain_env st' ''pid_1'' ''object:o1'' ''read'' [] ''prepare'' False = (False, Inr d)
     \<and> cd_allowed d \<and> cd_selected d \<noteq> Some ''cap_1''"
proof -
  let ?m = "mutation_revoke sample_host 8 ''cap_0'' ''t'' family_store"
  let ?a = "\<lambda>st. authorize_in_phase plain_env st ''pid_1'' ''object:o1'' ''read'' [] ''prepare'' False"
  have ok: "is_ok ?m" "case ?a (fst (the_ok ?m)) of (l, Inl _) \<Rightarrow> False | (l, Inr d) \<Rightarrow> \<not> l \<and> cd_allowed d"
    by code_simp+
  obtain st' r where m: "?m = Inr (st', r)" using ok(1) by (auto simp: is_ok_iff)
  from latched_cases [OF ok(2)] obtain d where a: "?a st' = (False, Inr d)" "cd_allowed d"
    by (auto simp: m)
  have "distinct (map cap_id (st_caps family_store))" "get_cap family_store ''cap_1'' = Some child_cap"
    by code_simp+
  moreover have "ancestor family_store child_cap root_cap" "cap_id root_cap = ''cap_0''"
    by (rule ancestor.parent [of _ "''cap_0''"]; code_simp) code_simp
  ultimately have "cd_selected d \<noteq> Some ''cap_1''"
    using revocation_cascades [OF m _ _ _ a] by blast
  then show ?thesis using m a by blast
qed

text \<open>
  Restrictions fail closed: a live matching capability that denies without conditions denies the
  request whatever other grants exist, and so does a live matching capability that denies or asks and
  whose constraints, or those of a row on its parent chain, are malformed.
\<close>

theorem restriction_dominates:
  assumes "authorize_in_phase env st subj res rt ctx phase l = (l', Inr d)"
    and "c \<in> set (st_caps st)" "cap_subject c = subj" "live_match env st res rt c"
    and "(cap_effect c = Deny \<and> cap_constraints c = [])
      \<or> (cap_effect c \<noteq> Allow \<and> (\<exists>e. authority_chain_error env st c = Inr (Some e)))"
  shows "\<not> cd_allowed d \<and> cd_effect d = Some Deny"
proof -
  obtain caps where caps:
    "set caps = {c \<in> set (st_caps st). cap_subject c = subj \<and> live_match env st res rt c}"
    "decision_from_matches env st subj res rt caps ctx phase l = (l', Inr d)"
    by (rule authorize_in_phase_Inr [OF assms(1)])
  obtain evs d0 where ev: "list_all2 (\<lambda>c e. \<exists>l1 l2. (l \<longrightarrow> l1) \<and>
        evaluation_match env st subj res rt ctx phase c l1 = (l2, Inr e)) caps evs"
    and d0: "decide (ce_host env) subj res rt evs ctx (\<lambda>_. []) = Inr d0"
    and same: "cd_allowed d = cd_allowed d0" "cd_selected d = cd_selected d0"
      "cd_effect d = cd_effect d0" "cd_consume d = cd_consume d0" "cd_results d = cd_results d0"
    by (rule decision_from_matches_Inr [OF caps(2)])
  have "c \<in> set caps" using caps(1) assms(2-4) by simp
  then obtain e l1 l2 where e: "e \<in> set evs"
    "evaluation_match env st subj res rt ctx phase c l1 = (l2, Inr e)"
    using ev unfolding list_all2_conv_all_nth in_set_conv_nth by metis
  from e(2) have "\<exists>rs d'. evaluate_constraints (ce_host env) e ctx = Inr rs
      \<and> decide_match e subj res rt (map cap_id evs) ctx rs [] = Some d' \<and> cd_effect d' = Some Deny"
  proof (cases rule: evaluation_match_cases)
    case 1
    have "cap_effect c \<noteq> Allow" using assms(5) by auto
    then show ?thesis
      by (simp add: 1 evaluate_invalidated decide_match_invalidated make_decision_def)
  next
    case 2
    then have "authority_chain_error env st c = Inr None" using grant_error_ok by blast
    then have "cap_effect c = Deny" "cap_constraints c = []" using assms(5) by auto
    then show ?thesis
      by (simp add: 2(1) evaluate_constraints_def decide_match_def constraint_effect_def make_decision_def)
  qed
  then obtain rs d' where "evaluate_constraints (ce_host env) e ctx = Inr rs"
    "decide_match e subj res rt (map cap_id evs) ctx rs [] = Some d'" "cd_effect d' = Some Deny"
    by blast
  from decide_denied [OF d0 e(1) this(1) _ this(3)] this(2) same show ?thesis by simp
qed

theorem restriction_dominates_witness:
  "\<exists>l d. authorize_in_phase plain_env \<lparr>st_caps = [root_cap, deny_cap], st_res = []\<rparr>
       ''pid_1'' ''object:o1'' ''read'' [] ''authorize'' False = (l, Inr d) \<and> cd_effect d = Some Deny"
proof -
  let ?s = "\<lparr>st_caps = [root_cap, deny_cap], st_res = []\<rparr>"
  let ?r = "authorize_in_phase plain_env ?s ''pid_1'' ''object:o1'' ''read'' [] ''authorize'' False"
  have "case ?r of (l, Inl _) \<Rightarrow> False | (l, Inr d) \<Rightarrow> True" by code_simp
  from latched_cases [OF this] obtain l d where r: "?r = (l, Inr d)" by blast
  have "cap_subject deny_cap = ''pid_1''" "live_match plain_env ?s ''object:o1'' ''read'' deny_cap"
    "cap_effect deny_cap = Deny"
    "authority_chain_error plain_env ?s deny_cap
      = Inr (Some ''capability constraints contain unknown keys: odd'')"
    by code_simp+
  then have "cd_effect d = Some Deny" using restriction_dominates [OF r, of deny_cap] by simp
  then show ?thesis using r by blast
qed

lemma grant_error_machine:
  assumes "grant_error env st subj res rt ctx phase c l = (l', Inr None)" "is_machine_grant c"
  obtains b validate where
    "normalize_approval_binding (ce_host env) (constraint_value c ''approval_binding'') = Inr b"
    "binding_identity_error c b subj res = Inr None" "binding_use_error c b rt None False = None"
    "ce_validator env = Some validate" "snd (validate b phase c ctx None) = None" "\<not> l"
    "phase = ''authorize'' \<longrightarrow> dget ctx ''semantic_exact_operation_context'' = VBool True"
proof -
  have s: "semantic_error env c subj res rt ctx phase None False l = (l', Inr None)"
    and ph: "phase = ''authorize'' \<longrightarrow> dget ctx ''semantic_exact_operation_context'' = VBool True"
    using assms by (auto simp: grant_error_def bindL_Inr_iff split: if_splits)
  obtain b where b: "normalize_approval_binding (ce_host env) (constraint_value c ''approval_binding'') = Inr b"
    and ck: "checked_binding_error env c b subj res rt ctx phase None False l = (l', Inr None)"
    and l: "\<not> l"
    using s assms(2)
    by (auto simp: semantic_error_def malformed_binding_error_def bindL_Inr_iff Let_def
        split: if_splits sum.splits exn.splits)
  have cap: "binding_capability_error c b subj res rt None False = Inr None"
    using ck by (auto simp: checked_binding_error_def bindL_Inr_iff split: if_splits sum.splits)
  moreover have "host_validation_error env c b ctx phase None l = (l', Inr None)"
    using ck cap by (auto simp: checked_binding_error_def bindL_Inr_iff split: if_splits sum.splits)
  ultimately show thesis
    using that [OF b] l ph
    by (auto simp: binding_capability_error_def host_validation_error_def res_simps
        split: if_splits option.splits prod.splits exn.splits)
qed

text \<open>
  C11. A machine grant authorizes only the exact operation its binding names: when an authorization
  selects one, its binding is valid and names the subject, the resource and the only right of the
  grant, the grant is an undelegated, nondelegable grant with exactly one use left that the decision
  consumes, the Host's validator accepted it in this phase, the latch was not set, and in the first
  phase the caller supplied the exact operation context.
\<close>

theorem machine_grant_exact:
  assumes "authorize_in_phase env st subj res rt ctx phase l = (l', Inr d)" "cd_allowed d"
    and "distinct (map cap_id (st_caps st))" "get_cap st i = Some c" "cd_selected d = Some i"
    and "is_machine_grant c"
  shows "\<exists>b validate. normalize_approval_binding (ce_host env) (constraint_value c ''approval_binding'') = Inr b
    \<and> dget b ''pid'' = VStr subj \<and> dget b ''resource'' = VStr res \<and> dget b ''right'' = VStr rt
    \<and> cap_resource c = res \<and> set (cap_rights c) = {rt} \<and> cap_uses_remaining c = Some 1
    \<and> cd_consume d = Some i \<and> \<not> cap_delegable c \<and> cap_parent_cap_id c = None
    \<and> ce_validator env = Some validate \<and> snd (validate b phase c ctx None) = None \<and> \<not> l
    \<and> (phase = ''authorize'' \<longrightarrow> dget ctx ''semantic_exact_operation_context'' = VBool True)"
proof -
  obtain c' rs l1 l2 where c': "c' \<in> set (st_caps st)" "cap_subject c' = subj" "live_match env st res rt c'"
    "cd_selected d = Some (cap_id c')" "cap_effect c' = Allow" "l \<longrightarrow> l1"
    "grant_error env st subj res rt ctx phase c' l1 = (l2, Inr None)"
    "evaluate_constraints (ce_host env) c' ctx = Inr rs" "list_all (\<lambda>p. cr_ok (snd p)) rs"
    "cd_consume d = (if cap_uses_remaining c' = None then None else Some (cap_id c'))"
    by (rule authorize_in_phase_allowed [OF assms(1,2)])
  have same: "c' = c" using get_cap_in [OF assms(3) c'(1)] c'(4) assms(4,5) by simp
  obtain b validate where b:
    "normalize_approval_binding (ce_host env) (constraint_value c ''approval_binding'') = Inr b"
    "binding_identity_error c b subj res = Inr None" "binding_use_error c b rt None False = None"
    "ce_validator env = Some validate" "snd (validate b phase c ctx None) = None" "\<not> l1"
    "phase = ''authorize'' \<longrightarrow> dget ctx ''semantic_exact_operation_context'' = VBool True"
    by (rule grant_error_machine [OF c'(7) [unfolded same] assms(6)])
  have "set (cap_rights c) = {rt}" "dget b ''right'' = VStr rt" "cap_uses_remaining c = Some 1"
    using b(3) by (auto simp: binding_use_error_def split: if_splits)
  moreover have "\<not> cap_delegable c" "cap_parent_cap_id c = None" "dget b ''pid'' = VStr subj"
    "cap_resource c = res" "dget b ''resource'' = VStr res"
    using b(2) by (auto simp: binding_identity_error_def split: if_splits)
  ultimately show ?thesis
    using b c'(6,10) same assms(5) c'(4) by (intro exI [of _ b] exI [of _ validate]) auto
qed

lemma machine_cap_constraints: "cap_constraints machine_cap = [(''approval_binding'', VDict machine_binding)]"
  by (simp add: machine_cap_def)

lemma machine_binding_keys: "map fst machine_binding = map VStr binding_v2_fields"
  by (simp add: machine_binding_def binding_v2_fields_def sdict_def Let_def)

lemma machine_binding_checked: "binding_v2_check machine_host machine_binding = Inr ()"
  by code_simp

lemma machine_binding_ok: "normalize_approval_binding machine_host (VDict machine_binding) = Inr machine_binding"
proof -
  have "sdict (map (\<lambda>k. (k, dget machine_binding k)) binding_v2_fields) = machine_binding"
    by (simp add: machine_binding_def binding_v2_fields_def sdict_def dget_def Let_def)
  moreover have "set (map fst machine_binding) = VStr ` set binding_v2_fields"
    by (simp only: machine_binding_keys set_map)
  ultimately have "binding_v2_normalize machine_host machine_binding = Inr machine_binding"
    by (simp add: binding_v2_normalize_def machine_binding_checked)
  moreover have "is_semantic_binding (VDict machine_binding)"
    by (simp add: is_semantic_binding_def machine_binding_def sdict_def dget_def Let_def)
  ultimately show ?thesis by (simp add: normalize_approval_binding_def as_validation_def)
qed

lemma machine_container_ok: "container_error machine_env (cap_constraints machine_cap) = None"
  by code_simp

lemma machine_metadata_ok: "binding_metadata_error machine_host machine_cap machine_binding = Inr None"
  by code_simp

lemma machine_identity_ok:
  "binding_identity_error machine_cap machine_binding ''pid_1'' ''filesystem:a'' = Inr None"
  by code_simp

lemma machine_use_ok: "binding_use_error machine_cap machine_binding ''read'' None False = None"
  by code_simp

lemma machine_args_hash:
  "canonical_effect_hash machine_host exact_context = Inr (replicate 64 (CHR ''a''))"
  by code_simp

lemma machine_decide:
  "\<exists>d. decide machine_host ''pid_1'' ''filesystem:a'' ''read'' [machine_cap] exact_context (\<lambda>_. []) = Inr d
     \<and> cd_allowed d \<and> cd_selected d = Some ''cap_1''"
proof -
  have cap: "cap_effect machine_cap = Allow" "cap_id machine_cap = ''cap_1''"
    by (simp_all add: machine_cap_def one_shot_cap_def)
  have fields: "dget machine_binding ''canonical_args_hash'' = VStr (replicate 64 (CHR ''a''))"
    "dget machine_binding ''target_state_version'' = VNone"
    by (simp_all add: machine_binding_def Let_def sdict_def dget_def)
  have "\<exists>r. evaluate_constraints machine_host machine_cap exact_context = Inr [(''approval_binding'', r)]
      \<and> cr_ok r \<and> cr_effect r = None"
    by (simp add: evaluate_constraints_def machine_cap_constraints evaluate_constraint_def
        known_constraint_keys_def evaluate_approval_binding_def or_failed_def machine_binding_ok
        machine_args_hash fields Let_def)
  then obtain r where r: "evaluate_constraints machine_host machine_cap exact_context
      = Inr [(''approval_binding'', r)]" "cr_ok r" "cr_effect r = None" by blast
  show ?thesis
    by (simp add: decide_def evaluate_matches_def r decide_match_def constraint_effect_def cap decided_def
        choose_decision_def find_effect_def make_decision_def one_shot_approval_def Let_def)
qed

lemma machine_grant_error:
  "grant_error machine_env machine_store ''pid_1'' ''filesystem:a'' ''read'' exact_context ''authorize''
     machine_cap False = (False, Inr None)"
proof -
  note env = machine_env_def plain_env_def
  have host: "ce_host machine_env = machine_host" "ce_shell_key machine_env = ''shell_policy_level''"
    "ce_validator machine_env = Some (\<lambda>b p c x e. (False, None))"
    by (simp_all add: env)
  have parts: "container_error machine_env (cap_constraints machine_cap) = None"
    "binding_metadata_error machine_host machine_cap machine_binding = Inr None"
    "binding_identity_error machine_cap machine_binding ''pid_1'' ''filesystem:a'' = Inr None"
    "binding_use_error machine_cap machine_binding ''read'' None False = None"
    "dget exact_context ''semantic_exact_operation_context'' = VBool True"
    "is_semantic_binding (VDict machine_binding)" "cap_parent_cap_id machine_cap = None"
    by (rule machine_container_ok, rule machine_metadata_ok, rule machine_identity_ok, rule machine_use_ok,
        simp_all add: exact_context_def machine_binding_def machine_cap_def one_shot_cap_def
          is_semantic_binding_def sdict_def dget_def Let_def)
  have raw: "constraint_value machine_cap ''approval_binding'' = VDict machine_binding"
    by (simp add: constraint_value_def machine_cap_constraints)
  have "semantic_error machine_env machine_cap ''pid_1'' ''filesystem:a'' ''read'' exact_context
      ''authorize'' None False False = (False, Inr None)"
    by (simp add: semantic_error_def is_machine_grant_def raw parts host machine_binding_ok
        checked_binding_error_def binding_capability_error_def host_validation_error_def)
  moreover have "constraint_validation_error machine_env (cap_constraints machine_cap) = Inr None"
    using parts(1) by (simp add: constraint_validation_error_def rules_error_def shell_policy_error_def
        inherited_error_def approval_error_def release_error_def git_error_def git_text_keys_def
        machine_cap_constraints host machine_binding_ok)
  then have "authority_chain_error machine_env machine_store machine_cap = Inr None"
    by (simp add: authority_chain_error_def chain_error.simps parts)
  ultimately show ?thesis by (simp add: grant_error_def parts bindL_def liftL_def)
qed

theorem machine_grant_exact_witness:
  "\<exists>d b. authorize_in_phase machine_env machine_store ''pid_1'' ''filesystem:a'' ''read'' exact_context
       ''authorize'' False = (False, Inr d) \<and> cd_consume d = Some ''cap_1''
     \<and> normalize_approval_binding machine_host (VDict machine_binding) = Inr b
     \<and> dget b ''resource'' = VStr ''filesystem:a''"
proof -
  have host: "ce_host machine_env = machine_host" by (simp add: machine_env_def)
  have caps: "matching_capabilities machine_env machine_store ''pid_1'' ''filesystem:a'' ''read'' True
      = Inr [machine_cap]" by code_simp
  obtain d0 where d0: "decide machine_host ''pid_1'' ''filesystem:a'' ''read'' [machine_cap] exact_context (\<lambda>_. [])
      = Inr d0" "cd_allowed d0" "cd_selected d0 = Some ''cap_1''"
    using machine_decide by blast
  have id: "cap_id machine_cap = ''cap_1''" by code_simp
  obtain d where r: "authorize_in_phase machine_env machine_store ''pid_1'' ''filesystem:a'' ''read''
      exact_context ''authorize'' False = (False, Inr d)" "cd_allowed d" "cd_selected d = Some ''cap_1''"
    using d0 by (simp add: authorize_in_phase_def caps decision_from_matches_def evaluation_match_def
        machine_grant_error bindL_def liftL_def host id)
  have "distinct (map cap_id (st_caps machine_store))" "get_cap machine_store ''cap_1'' = Some machine_cap"
    "is_machine_grant machine_cap" by (code_simp, code_simp, code_simp)
  moreover have "constraint_value machine_cap ''approval_binding'' = VDict machine_binding"
    by (simp add: constraint_value_def machine_cap_constraints)
  ultimately show ?thesis using machine_grant_exact [OF r(1,2) _ _ r(3)] r(1) host by metis
qed

text \<open>
  A cached decision can be renewed only through the grant it named: reauthorizing a selected
  decision succeeds only if that very row is still stored, still belongs to the subject, is live and
  matches, with a well-formed chain, and both the evaluation over all grants and the one over the named
  grant alone allow the request; the result selects the same capability.
\<close>

theorem reauthorize_selected_sound:
  assumes "reauthorize_selected env st d l = (l', Inr d')"
  shows "cd_allowed d \<and> cd_allowed d' \<and> cd_selected d' = cd_selected d
    \<and> (\<exists>i c. cd_selected d = Some i \<and> get_cap st i = Some c \<and> cap_subject c = cd_subject d
        \<and> live_match env st (cd_resource d) (cd_right d) c \<and> cap_effect c = Allow
        \<and> authority_chain_error env st c = Inr None
        \<and> (\<exists>l1 g. authorize_in_phase env st (cd_subject d) (cd_resource d) (cd_right d) (cd_context d)
              ''prepare'' l = (l1, Inr g) \<and> cd_allowed g))"
proof -
  obtain i where i: "cd_selected d = Some i" "cd_allowed d"
    using assms by (auto simp: reauthorize_selected_def split: option.splits if_splits)
  obtain l1 g c l2 where g: "reauthorize_decision env st d l = (l1, Inr g)" "get_cap st i = Some c"
    "selected_still_live env st d c = Inr ()"
    "decision_from_matches env st (cd_subject d) (cd_resource d) (cd_right d) [c] (cd_context d) ''prepare'' l1
      = (l2, Inr d')" "cd_allowed d'" "cd_selected d' = Some i"
    using assms i
    by (auto simp: reauthorize_selected_def bindL_Inr_iff simp del: bindL_liftL
        split: option.splits if_splits)
  have all: "\<exists>l1 g. authorize_in_phase env st (cd_subject d) (cd_resource d) (cd_right d) (cd_context d)
      ''prepare'' l = (l1, Inr g) \<and> cd_allowed g"
    using g(1) by (auto simp: reauthorize_decision_def bindL_Inr_iff split: if_splits)
  obtain c' rs k1 k2 where c': "c' \<in> set [c]" "cd_selected d' = Some (cap_id c')" "cap_effect c' = Allow"
    "l1 \<longrightarrow> k1" "grant_error env st (cd_subject d) (cd_resource d) (cd_right d) (cd_context d) ''prepare'' c' k1
      = (k2, Inr None)"
    "evaluate_constraints (ce_host env) c' (cd_context d) = Inr rs" "list_all (\<lambda>p. cr_ok (snd p)) rs"
    "cd_consume d' = (if cap_uses_remaining c' = None then None else Some (cap_id c'))"
    by (rule decision_from_matches_allowed [OF g(4,5)])
  have "cap_subject c = cd_subject d \<and> live_match env st (cd_resource d) (cd_right d) c"
    using g(3) by (auto simp: selected_still_live_def split: if_splits)
  then show ?thesis using i g c' all grant_error_ok [OF c'(5)] by auto
qed

lemma one_shot_authorized:
  "authorize plain_env one_shot_store ''pid_1'' ''object:o1'' ''read'' [] False = (False, Inr one_shot_decision)"
  by code_simp

lemma one_shot_reauthorized:
  "reauthorize_decision plain_env one_shot_store one_shot_decision False = (False, Inr one_shot_decision)"
  by code_simp

lemma one_shot_alone:
  "decision_from_matches plain_env one_shot_store ''pid_1'' ''object:o1'' ''read'' [one_shot_cap] [] ''prepare''
     False = (False, Inr one_shot_decision)"
  by code_simp

lemma one_shot_decision_simps [simp]:
  "cd_allowed one_shot_decision" "cd_selected one_shot_decision = Some ''cap_1''"
  "cd_consume one_shot_decision = Some ''cap_1''" "cd_subject one_shot_decision = ''pid_1''"
  "cd_resource one_shot_decision = ''object:o1''" "cd_right one_shot_decision = ''read''"
  "cd_context one_shot_decision = []"
  by (simp_all add: one_shot_decision_def make_decision_def one_shot_cap_def)

theorem reauthorize_selected_sound_witness:
  "\<exists>d l' d'. authorize plain_env one_shot_store ''pid_1'' ''object:o1'' ''read'' [] False = (False, Inr d)
     \<and> reauthorize_selected plain_env one_shot_store d False = (l', Inr d') \<and> cd_selected d' = cd_selected d"
proof -
  have "selected_still_live plain_env one_shot_store one_shot_decision one_shot_cap = Inr ()"
    "get_cap one_shot_store ''cap_1'' = Some one_shot_cap" by code_simp+
  then have r: "reauthorize_selected plain_env one_shot_store one_shot_decision False
      = (False, Inr one_shot_decision)"
    by (simp add: reauthorize_selected_def bindL_def one_shot_reauthorized one_shot_alone liftL_def)
  from reauthorize_selected_sound [OF r] r one_shot_authorized show ?thesis by blast
qed

lemma authorize_matching_allowed:
  assumes "authorize_matching env st subj res rt [c] ctx l = (l', Inr d)" "cd_allowed d"
  shows "cd_selected d = Some (cap_id c) \<and> cap_effect c = Allow \<and> live_match env st res rt c
    \<and> cap_subject c = subj \<and> authority_chain_error env st c = Inr None"
proof -
  obtain c' rs k1 k2 where c': "c' \<in> set (sort_matching (filter (\<lambda>c. cap_subject c = subj \<and> live_match env st res rt c) [c]))"
    "cd_selected d = Some (cap_id c')" "cap_effect c' = Allow"
    "l \<longrightarrow> k1" "grant_error env st subj res rt ctx ''authorize'' c' k1 = (k2, Inr None)"
    "evaluate_constraints (ce_host env) c' ctx = Inr rs" "list_all (\<lambda>p. cr_ok (snd p)) rs"
    "cd_consume d = (if cap_uses_remaining c' = None then None else Some (cap_id c'))"
    by (rule decision_from_matches_allowed [OF assms(1) [unfolded authorize_matching_def] assms(2)])
  then show ?thesis using grant_error_ok [OF c'(5)] by (auto split: if_splits)
qed

text \<open>
  An object handle is authority only through the capability it names: an allowed handle
  authorization selects exactly that capability, which is stored, live, held by the subject, an allow
  grant on exactly the object of the handle, with the right among those of the row and of the handle.
\<close>

theorem handle_names_its_grant:
  assumes "authorize_handle env st subj hdl rt l = (l', Inr d)" "cd_allowed d"
  shows "\<exists>c. get_cap st (oh_cap hdl) = Some c \<and> cd_selected d = Some (oh_cap hdl)
    \<and> cap_subject c = subj \<and> cap_resource c = ''object:'' @ oh_oid hdl \<and> cap_effect c = Allow
    \<and> active c \<and> parent_chain_active env st c \<and> authority_chain_error env st c = Inr None
    \<and> rt \<in> set (cap_rights c) \<and> rt \<in> set (oh_rights hdl)"
proof -
  obtain c where c: "handle_cap env st subj hdl rt = Inr c"
    using assms(1) by (auto simp: authorize_handle_def split: sum.splits)
  obtain l1 where "authorize_matching env st subj (''object:'' @ oh_oid hdl) rt [c] [] l1 = (l', Inr d)"
    using assms by (auto simp: authorize_handle_def c bindL_Inr_iff split: if_splits)
  from authorize_matching_allowed [OF this assms(2)] show ?thesis
    using c get_cap_ids
    by (auto simp: handle_cap_def live_match_def split: option.splits if_splits)
qed

theorem handle_names_its_grant_witness:
  "\<exists>l d. authorize_handle plain_env one_shot_store ''pid_1''
       \<lparr>oh_oid = ''o1'', oh_rights = [''read''], oh_cap = ''cap_1''\<rparr> ''read'' False = (l, Inr d)
     \<and> cd_selected d = Some ''cap_1''"
proof -
  let ?h = "\<lparr>oh_oid = ''o1'', oh_rights = [''read''], oh_cap = ''cap_1''\<rparr>"
  have "handle_cap plain_env one_shot_store ''pid_1'' ?h ''read'' = Inr one_shot_cap" by code_simp
  moreover have "authorize_matching plain_env one_shot_store ''pid_1'' ''object:o1'' ''read'' [one_shot_cap] [] False
      = (False, Inr one_shot_decision)" by code_simp
  ultimately have r: "authorize_handle plain_env one_shot_store ''pid_1'' ?h ''read'' False
      = (False, Inr one_shot_decision)"
    using one_shot_authorized by (simp add: authorize_handle_def bindL_def liftL_def)
  from handle_names_its_grant [OF r] show ?thesis using r by auto
qed

text \<open>
  C12. An authority transaction that succeeds takes exactly one use of every finite grant that its renewed decisions
  name, however many of them name it, before its body runs, and commits exactly that use after it. The reservation
  leaves every other row as it was, and the commit leaves every row as the body left it. The body may do anything
  that does not rewrite a live reservation.
\<close>

theorem transaction_takes_each_use_once:
  assumes "authority_transaction env fresh actor opn stamp reauth ds body st l = (l', Inr (st', cur, y))"
    and "distinct (map ur_id (st_res st))" "keeps_reservations (body cur)"
  shows "\<exists>st1 rs st2. reserve_each fresh actor opn stamp cur [] st = Inr (st1, rs) \<and> body cur st1 = Inr (st2, y)
    \<and> (\<forall>k. (named cur k \<longrightarrow> (\<exists>c u. get_cap st k = Some c \<and> active c \<and> cap_uses_remaining c = Some u \<and> 1 \<le> u))
        \<and> get_cap st1 k = map_option (if named cur k then decrement 1 else id) (get_cap st k) \<and> used st1 k = used st k
        \<and> get_cap st' k = get_cap st2 k \<and> used st' k = used st2 k + (if named cur k then 1 else 0))"
proof -
  show ?thesis
  proof (rule transaction_effect [OF assms])
    fix st1 rs st2
    assume t: "reserve_each fresh actor opn stamp cur [] st = Inr (st1, rs)" "body cur st1 = Inr (st2, y)"
      "\<And>k. get_cap st1 k = map_option (if named cur k then decrement 1 else id) (get_cap st k)"
      "\<And>k. named cur k \<Longrightarrow> \<exists>c. get_cap st k = Some c \<and> can_decrement 1 c"
      "\<And>k. used st1 k = used st k" "\<And>k. get_cap st' k = get_cap st2 k"
      "\<And>k. used st' k = used st2 k + (if named cur k then 1 else 0)"
    have "\<exists>c u. get_cap st k = Some c \<and> active c \<and> cap_uses_remaining c = Some u \<and> 1 \<le> u" if "named cur k" for k
      using t(4) [OF that] by (auto simp: can_decrement_def active_def split: option.splits)
    then show ?thesis using t by (intro exI [of _ st1] exI [of _ rs] exI [of _ st2]) simp
  qed
qed

theorem transaction_takes_each_use_once_witness:
  "\<exists>st' cur. authority_transaction plain_env (\<lambda>n. ''r'' @ show_nat n) ''p'' ''op'' ''t1''
       (reauthorize_decision plain_env) [one_shot_decision, one_shot_decision] (\<lambda>_ st. Inr (st, ()))
       one_shot_store False = (False, Inr (st', cur, ()))
     \<and> used st' ''cap_1'' = used one_shot_store ''cap_1'' + 1"
proof -
  let ?fresh = "\<lambda>n. ''r'' @ show_nat n" and ?ds = "[one_shot_decision, one_shot_decision]"
  have "case reserve_each ?fresh ''p'' ''op'' ''t1'' ?ds [] one_shot_store of
      Inl _ \<Rightarrow> False | Inr (st1, rs) \<Rightarrow> is_ok (commit_each ''op'' ''t1'' rs st1)"
    by code_simp
  then obtain st1 rs st2 where r: "reserve_each ?fresh ''p'' ''op'' ''t1'' ?ds [] one_shot_store = Inr (st1, rs)"
    "commit_each ''op'' ''t1'' rs st1 = Inr st2"
    by (auto simp: is_ok_iff split: sum.splits)
  have t: "authority_transaction plain_env ?fresh ''p'' ''op'' ''t1'' (reauthorize_decision plain_env) ?ds
      (\<lambda>_ st. Inr (st, ())) one_shot_store False = (False, Inr (st2, ?ds, ()))"
    using r by (simp add: authority_transaction_def admission_check_def plain_env_def [THEN arg_cong, of ce_admission]
        bindL_def liftL_def one_shot_reauthorized del: reserve_each.simps commit_each.simps)
  have "distinct (map ur_id (st_res one_shot_store))" by code_simp
  moreover have "keeps_reservations (\<lambda>st. Inr (st, ()))" by (auto simp: keeps_reservations_def)
  ultimately obtain u1 rs' u2 where u: "Inr (u1, ()) = Inr (u2, ())" "used u1 ''cap_1'' = used one_shot_store ''cap_1''"
    "used st2 ''cap_1'' = used u2 ''cap_1'' + (if named ?ds ''cap_1'' then 1 else 0)"
    using transaction_takes_each_use_once [OF t] by blast
  have "named ?ds ''cap_1''" by (simp add: named_def)
  with u have "used st2 ''cap_1'' = used one_shot_store ''cap_1'' + 1" by simp
  then show ?thesis using t by blast
qed

end
