(* ===== verification/CapSpec.thy ===== *)
theory CapSpec
  imports CapDecide
begin

text \<open>
  Capability specifications of \<open>agent_libos/capability/manager.py\<close>: the coercion of a declared
  specification, either a mapping from outside or a typed \<open>CapabilitySpec\<close>, into the checked form that
  issuing and delegation work on, and the comparison of two specifications for coverage. A typed
  object (spec, lease, delegation policy, rule) is given by the dictionary of its fields.
\<close>

section \<open>The checked form\<close>

record cap_spec =
  sp_resource :: string
  sp_rights :: "string list"
  sp_effect :: capability_effect
  sp_constraints :: constraints
  sp_metadata :: constraints
  sp_expires :: "string option"
  sp_uses :: "int option"
  sp_delegable :: bool
  sp_revocable :: bool
  sp_max_depth :: "int option"

section \<open>Fields\<close>

definition policy_key :: string where
  "policy_key = ''permission_policy''"

definition effect_from_policy :: "string \<Rightarrow> (capability_effect \<times> int option) res" where
  "effect_from_policy p =
     (if p = ''always_allow'' then Inr (Allow, None)
      else if p = ''always_deny'' then Inr (Deny, None)
      else if p = ''ask_each_time'' then Inr (Ask, None)
      else if p = ''allow_once'' then Inr (Allow, Some 1)
      else Inl (ValueError (''unknown permission policy: '' @ p)))"

definition spec_mapping :: "pydict \<Rightarrow> string \<Rightarrow> constraints res" where
  "spec_mapping d field =
     (if \<not> dhas d field then Inr []
      else case dget d field of
             VDict e \<Rightarrow>
               if list_all (\<lambda>p. is_str (fst p)) e then Inr (map (\<lambda>(k, v). (the_str k, v)) e)
               else Inl (ValidationError (''capability '' @ field @ '' keys must be strings''))
           | _ \<Rightarrow> Inl (ValidationError (''capability '' @ field @ '' must be an object'')))"

definition positive_uses :: "pyval \<Rightarrow> string \<Rightarrow> int option res" where
  "positive_uses v label =
     (case v of
        VNone \<Rightarrow> Inr None
      | VInt n \<Rightarrow> if n < 1 then Inl (ValidationError (label @ '' must be a positive integer'')) else Inr (Some n)
      | _ \<Rightarrow> Inl (ValidationError (label @ '' must be a positive integer'')))"

definition delegation_boolean :: "pyval \<Rightarrow> string \<Rightarrow> bool res" where
  "delegation_boolean v field =
     (case v of
        VBool b \<Rightarrow> Inr b
      | _ \<Rightarrow> Inl (ValidationError (''capability delegation '' @ field @ '' must be a boolean'')))"

definition max_depth :: "pyval \<Rightarrow> int option res" where
  "max_depth v =
     (case v of
        VNone \<Rightarrow> Inr None
      | VInt n \<Rightarrow> if n < 0 then Inl (ValidationError ''max_delegation_depth must be a non-negative integer'')
          else Inr (Some n)
      | _ \<Rightarrow> Inl (ValidationError ''max_delegation_depth must be a non-negative integer''))"

definition normalize_expires :: "host \<Rightarrow> pyval \<Rightarrow> string option res" where
  "normalize_expires h v =
     (case v of
        VNone \<Rightarrow> Inr None
      | VStr s \<Rightarrow> bindR (expires_at_datetime h s) (\<lambda>t. Inr (Some (h_isoformat h t)))
      | _ \<Rightarrow> Inl (ValidationError ''capability expires_at must be an ISO timestamp''))"

text \<open>\<open>_normalize_rights\<close>; the set is kept as the sorted list of its members.\<close>

definition collection_items :: "pyval \<Rightarrow> pyval list option" where
  "collection_items v = (case v of VList xs \<Rightarrow> Some xs | VTuple xs \<Rightarrow> Some xs | VSet xs \<Rightarrow> Some xs | _ \<Rightarrow> None)"

definition normalize_rights :: "nat \<Rightarrow> pyval \<Rightarrow> string list res" where
  "normalize_rights limit v =
     (case collection_items v of
        None \<Rightarrow> Inl (ValidationError ''capability rights must be a declared rights collection'')
      | Some xs \<Rightarrow>
          if \<not> list_all is_str xs then Inl (ValidationError ''capability rights entries must be strings'')
          else if \<not> list_all (\<lambda>x. the_str x \<in> right_value ` set all_rights) xs then
            Inl (ValidationError ''unknown capability right'')
          else if xs = [] then Inl (ValidationError ''capability must include at least one right'')
          else if limit < length (sorted_set (map the_str xs)) then
            Inl (ValidationError ''capability rights exceed configured limit'')
          else Inr (sorted_set (map the_str xs)))"

definition lease_fields :: "string list" where
  "lease_fields = [''expires_at'', ''uses_remaining'']"

definition delegation_fields :: "string list" where
  "delegation_fields = [''delegable'', ''revocable'', ''max_delegation_depth'']"

definition coerce_lease :: "host \<Rightarrow> pyval \<Rightarrow> (string option \<times> int option) res" where
  "coerce_lease h v =
     (case v of
        VDict d \<Rightarrow>
          if \<not> set (map fst d) \<subseteq> VStr ` set lease_fields then
            Inl (ValidationError ''capability lease contains unknown fields'')
          else bindR (positive_uses (dget d ''uses_remaining'') ''capability lease uses_remaining'') (\<lambda>u.
               bindR (normalize_expires h (dget d ''expires_at'')) (\<lambda>e. Inr (e, u)))
      | _ \<Rightarrow> Inl (ValidationError ''capability lease must be a mapping''))"

text \<open>\<open>_coerce_delegation\<close>: delegable, revocable and the depth limit.\<close>

definition coerce_delegation :: "pyval \<Rightarrow> (bool \<times> bool \<times> int option) option res" where
  "coerce_delegation v =
     (case v of
        VNone \<Rightarrow> Inr None
      | VDict d \<Rightarrow>
          if \<not> set (map fst d) \<subseteq> VStr ` set delegation_fields then
            Inl (ValidationError ''capability delegation policy contains unknown fields'')
          else bindR (delegation_boolean (dget_or d ''delegable'' (VBool False)) ''delegable'') (\<lambda>g.
               bindR (delegation_boolean (dget_or d ''revocable'' (VBool True)) ''revocable'') (\<lambda>r.
               bindR (max_depth (dget d ''max_delegation_depth'')) (\<lambda>m. Inr (Some (g, r, m)))))
      | _ \<Rightarrow> Inl (ValidationError ''capability delegation policy must be a mapping''))"

section \<open>Consistency of the declared fields\<close>

text \<open>\<open>_validate_typed_spec_conflicts\<close>\<close>

definition typed_lease_conflict :: "host \<Rightarrow> pydict \<Rightarrow> unit res" where
  "typed_lease_conflict h d =
     (if dget d ''lease'' = VNone then Inr ()
      else bindR (coerce_lease h (dget d ''lease'')) (\<lambda>(le, lu).
        bindR (if dget d ''expires_at'' = VNone then Inr ()
               else bindR (normalize_expires h (dget d ''expires_at'')) (\<lambda>e.
                 check (e = le) (ValidationError ''capability spec contains conflicting lease fields'')))
          (\<lambda>_. if dget d ''uses_remaining'' = VNone then Inr ()
               else bindR (positive_uses (dget d ''uses_remaining'') ''capability uses_remaining'') (\<lambda>u.
                 check (u = lu) (ValidationError ''capability spec contains conflicting lease fields'')))))"

definition typed_delegation_conflict :: "pydict \<Rightarrow> unit res" where
  "typed_delegation_conflict d =
     bindR (coerce_delegation (dget d ''delegation'')) (\<lambda>dg.
       case dg of
         None \<Rightarrow> Inr ()
       | Some (g, r, m) \<Rightarrow>
           check (\<not> ((dget d ''delegable'' \<noteq> VBool False \<and> \<not> py_eq (dget d ''delegable'') (VBool g))
                   \<or> (dget d ''revocable'' \<noteq> VBool True \<and> \<not> py_eq (dget d ''revocable'') (VBool r))
                   \<or> (dget d ''max_delegation_depth'' \<noteq> VNone
                      \<and> (case m of None \<Rightarrow> True | Some n \<Rightarrow> \<not> py_eq (dget d ''max_delegation_depth'') (VInt n)))))
             (ValidationError ''capability spec contains conflicting delegation fields''))"

text \<open>\<open>_validate_mapping_spec_fields\<close>\<close>

definition spec_fields :: "string list" where
  "spec_fields =
     [''resource'', ''rights'', ''effect'', ''rules'', ''lease'', ''delegation'', ''constraints'',
      ''metadata'', ''expires_at'', ''uses_remaining'', ''delegable'', ''revocable'',
      ''max_delegation_depth'', ''policy'', policy_key]"

definition mapping_fields_ok :: "pydict \<Rightarrow> unit res" where
  "mapping_fields_ok d =
     (if \<not> set (map fst d) \<subseteq> VStr ` set spec_fields then
        Inl (ValidationError ''capability spec contains unknown fields'')
      else if dhas d ''lease'' \<and> list_ex (dhas d) lease_fields then
        Inl (ValidationError ''capability spec contains conflicting lease fields'')
      else if dhas d ''delegation'' \<and> list_ex (dhas d) delegation_fields then
        Inl (ValidationError ''capability spec contains conflicting delegation fields'')
      else if dhas d ''policy'' \<and> dhas d policy_key then
        Inl (ValidationError ''capability spec contains conflicting policy fields'')
      else Inr ())"

text \<open>\<open>_capability_spec_data\<close>; the flag says that the specification is a typed object.\<close>

definition spec_data :: "host \<Rightarrow> bool \<Rightarrow> pyval \<Rightarrow> pydict res" where
  "spec_data h structured v =
     (case v of
        VDict d \<Rightarrow>
          if structured then
            bindR (typed_lease_conflict h d) (\<lambda>_. bindR (typed_delegation_conflict d) (\<lambda>_. Inr d))
          else bindR (mapping_fields_ok d) (\<lambda>_. Inr d)
      | _ \<Rightarrow> Inl (ValidationError ''capability spec must be a mapping''))"

definition spec_raw_rights :: "bool \<Rightarrow> pydict \<Rightarrow> pyval res" where
  "spec_raw_rights structured d =
     (let raw = dget_or d ''rights'' (VList [VStr ''read'']) in
      if structured \<and> collection_items raw = None then
        Inl (ValidationError ''CapabilitySpec rights must be a declared rights collection'')
      else if \<not> structured \<and> \<not> is_list raw then
        Inl (ValidationError ''capability mapping rights must be a list'')
      else Inr raw)"

text \<open>\<open>_pop_spec_policy\<close>: the policy, and the constraints without the policy key.\<close>

definition pop_spec_policy :: "pydict \<Rightarrow> constraints \<Rightarrow> pyval \<times> constraints" where
  "pop_spec_policy d cs =
     (let p = (if dget d ''policy'' = VNone then dget d policy_key else dget d ''policy'') in
      (if p = VNone then (case map_of cs policy_key of None \<Rightarrow> VNone | Some v \<Rightarrow> v) else p,
       dpop cs policy_key))"

definition require_valid_constraints :: "cap_env \<Rightarrow> constraints \<Rightarrow> unit res" where
  "require_valid_constraints env cs =
     bindR (constraint_validation_error env cs) (\<lambda>e.
       case e of None \<Rightarrow> Inr () | Some m \<Rightarrow> Inl (ValidationError m))"

section \<open>Coercion\<close>

text \<open>What the policy and the lease make of the effect, the expiry and the uses.\<close>

definition spec_effect ::
  "cap_env \<Rightarrow> pydict \<Rightarrow> pyval \<Rightarrow> (capability_effect \<times> string option \<times> int option) res" where
  "spec_effect env d pol =
     (let h = ce_host env in
      bindR (positive_uses (dget d ''uses_remaining'') ''capability uses_remaining'') (\<lambda>u0.
      bindR (normalize_expires h (dget d ''expires_at'')) (\<lambda>e0.
      bindR (if pol = VNone then Inr (dget_or d ''effect'' (VStr ''allow''), u0)
             else bindR (effect_from_policy (py_str (h_repr h) pol)) (\<lambda>(eff, u).
               Inr (VStr (effect_value eff), u))) (\<lambda>(raw_effect, u1).
      bindR (if dget d ''lease'' = VNone then Inr (e0, u1) else coerce_lease h (dget d ''lease'')) (\<lambda>(e, u).
      bindR (case raw_effect of VStr s \<Rightarrow> effect_of s | _ \<Rightarrow> Inl (ValueError ''not a valid CapabilityEffect''))
        (\<lambda>eff.
        if eff \<in> {Ask, Deny} \<and> u \<noteq> None then
          Inl (ValidationError ''uses_remaining is supported only for allow capabilities'')
        else Inr (eff, e, u)))))))"

text \<open>The delegation scalars: the structured policy wins over the top-level fields.\<close>

definition spec_delegation :: "pydict \<Rightarrow> (bool \<times> bool \<times> int option) res" where
  "spec_delegation d =
     bindR (delegation_boolean (dget_or d ''delegable'' (VBool False)) ''delegable'') (\<lambda>g.
     bindR (delegation_boolean (dget_or d ''revocable'' (VBool True)) ''revocable'') (\<lambda>r.
     bindR (max_depth (dget d ''max_delegation_depth'')) (\<lambda>m.
     bindR (coerce_delegation (dget d ''delegation'')) (\<lambda>dg.
       Inr (case dg of None \<Rightarrow> (g, r, m) | Some x \<Rightarrow> x)))))"

definition spec_rules :: "host \<Rightarrow> pydict \<Rightarrow> constraints \<Rightarrow> constraints res" where
  "spec_rules h d cs =
     (let rules = (case dget_or d ''rules'' (VList []) of VList xs \<Rightarrow> xs | VTuple xs \<Rightarrow> xs | _ \<Rightarrow> []) in
      if rules = [] then Inr cs
      else bindR (mapR (coerce_rule h) rules) (\<lambda>rs.
        Inr (dset cs ''authority_rules'' (VList (map (\<lambda>r. VDict (rule_to_json r)) rs)))))"

definition coerce_spec :: "cap_env \<Rightarrow> bool \<Rightarrow> pyval \<Rightarrow> cap_spec res" where
  "coerce_spec env structured v =
     bindR (spec_data (ce_host env) structured v) (\<lambda>d.
     bindR (check (non_empty_str (dget d ''resource''))
       (ValidationError ''capability resource must be a non-empty string'')) (\<lambda>_.
     bindR (spec_raw_rights structured d) (\<lambda>raw_rights.
     bindR (spec_mapping d ''constraints'') (\<lambda>cs0.
     bindR (spec_mapping d ''metadata'') (\<lambda>md.
     bindR (check (\<not> (map_of cs0 policy_key \<noteq> None \<and> (dhas d ''policy'' \<or> dhas d policy_key)))
       (ValidationError ''capability spec contains conflicting policy fields'')) (\<lambda>_.
     bindR (check (case dget_or d ''rules'' (VList []) of VList _ \<Rightarrow> True | VTuple _ \<Rightarrow> True | _ \<Rightarrow> False)
       (ValidationError ''capability rules must be a list'')) (\<lambda>_.
     case pop_spec_policy d cs0 of (pol, cs1) \<Rightarrow>
     bindR (spec_effect env d pol) (\<lambda>(eff, expires, uses).
     bindR (spec_delegation d) (\<lambda>(g, r, m).
     bindR (spec_rules (ce_host env) d cs1) (\<lambda>cs.
     bindR (require_valid_constraints env cs) (\<lambda>_.
     bindR (normalize_rights (ce_max_rights env) raw_rights) (\<lambda>rights.
       Inr \<lparr>sp_resource = the_str (dget d ''resource''), sp_rights = rights, sp_effect = eff,
            sp_constraints = cs, sp_metadata = md, sp_expires = expires, sp_uses = uses,
            sp_delegable = g, sp_revocable = r, sp_max_depth = m\<rparr>))))))))))))"

end
