(* ===== verification/CapDelegate.thy ===== *)
theory CapDelegate
  imports CapSpec
begin

text \<open>
  The issuing half of \<open>agent_libos/capability/manager.py\<close> with the publishing operations of
  \<open>agent_libos/capability/mutation.py\<close>: attenuation of constraints, time and depth, the search for
  a delegation or transfer parent, drafts and their publication, issue, delegate, derive, revoke, and
  the policy for authority that crosses a transition.
\<close>

section \<open>Attenuation\<close>

text \<open>\<open>_constraint_attenuation_error\<close>\<close>

fun dropped_or_changed :: "constraints \<Rightarrow> constraints \<Rightarrow> string option" where
  "dropped_or_changed [] delegated = None"
| "dropped_or_changed ((k, v) # cs) delegated =
     (case map_of delegated k of
        None \<Rightarrow> Some (''delegated capability cannot drop parent constraint: '' @ k)
      | Some w \<Rightarrow>
          if k = ''git_allowed_refs'' then
            if set (the_list w) \<subseteq> set (the_list v) then dropped_or_changed cs delegated
            else Some ''delegated capability cannot widen parent constraint: git_allowed_refs''
          else if \<not> py_eq w v then Some (''delegated capability cannot change parent constraint: '' @ k)
          else dropped_or_changed cs delegated)"

definition added_authority :: "cap_env \<Rightarrow> constraints \<Rightarrow> constraints \<Rightarrow> string option" where
  "added_authority env parent delegated =
     map_option (\<lambda>k. ''delegated constraint is not covered by parent: '' @ k)
       (List.find (\<lambda>k. map_of parent k = None \<and> k \<in> {''authority_rules'', ce_shell_key env})
         (map fst delegated))"

definition attenuation_error :: "cap_env \<Rightarrow> constraints \<Rightarrow> constraints \<Rightarrow> string option res" where
  "attenuation_error env parent delegated =
     bindR (constraint_validation_error env parent) (\<lambda>pe.
       if pe \<noteq> None then
         Inr (Some (''delegated capability has invalid parent constraint: '' @ the pe))
       else bindR (constraint_validation_error env delegated) (\<lambda>de.
         if de \<noteq> None then Inr (Some (''delegated capability has invalid constraint: '' @ the de))
         else Inr (case dropped_or_changed parent delegated of
                     Some e \<Rightarrow> Some e
                   | None \<Rightarrow> added_authority env parent delegated)))"

definition require_attenuation :: "cap_env \<Rightarrow> capability_row \<Rightarrow> cap_spec \<Rightarrow> unit res" where
  "require_attenuation env p sp =
     bindR (attenuation_error env (cap_constraints p) (sp_constraints sp)) (\<lambda>e.
       case e of None \<Rightarrow> Inr () | Some m \<Rightarrow> Inl (CapabilityDenied m))"

definition row_max_depth :: "cap_env \<Rightarrow> capability_row \<Rightarrow> int" where
  "row_max_depth env c = (case cap_max_delegation_depth c of Some n \<Rightarrow> n | None \<Rightarrow> ce_default_depth env)"

definition initial_max_depth :: "cap_env \<Rightarrow> cap_spec \<Rightarrow> int option" where
  "initial_max_depth env sp =
     (case sp_max_depth sp of
        Some n \<Rightarrow> Some n
      | None \<Rightarrow> if sp_delegable sp then Some (ce_default_depth env) else None)"

definition delegated_max_depth :: "cap_env \<Rightarrow> capability_row \<Rightarrow> cap_spec \<Rightarrow> int" where
  "delegated_max_depth env p sp = (case sp_max_depth sp of Some n \<Rightarrow> n | None \<Rightarrow> row_max_depth env p)"

text \<open>\<open>_require_temporal_attenuation\<close>; expiries are compared as their ISO texts.\<close>

definition require_temporal :: "cap_env \<Rightarrow> capability_row \<Rightarrow> cap_spec \<Rightarrow> unit res" where
  "require_temporal env p sp =
     (case sp_expires sp of
        None \<Rightarrow> Inr ()
      | Some e \<Rightarrow>
          bindR (expires_at_datetime (ce_host env) e) (\<lambda>t.
            if t \<le> ce_now env then Inl (ValidationError ''capability expiry must be in the future'')
            else (case cap_expires_at p of
                    None \<Rightarrow> Inr ()
                  | Some pe \<Rightarrow>
                      check (\<not> pe < e) (CapabilityDenied ''capability cannot outlive parent capability''))))"

definition require_valid_chain :: "cap_env \<Rightarrow> cap_store \<Rightarrow> capability_row \<Rightarrow> unit res" where
  "require_valid_chain env st p =
     bindR (authority_chain_error env st p) (\<lambda>e.
       check (e = None) (CapabilityDenied ''capability has invalid parent constraint chain''))"

text \<open>\<open>_validate_delegation_parent\<close> and \<open>_validate_transfer_parent\<close>\<close>

definition validate_delegation_parent ::
  "cap_env \<Rightarrow> cap_store \<Rightarrow> cap_spec \<Rightarrow> capability_row \<Rightarrow> unit res" where
  "validate_delegation_parent env st sp p =
     bindR (require_valid_chain env st p) (\<lambda>_.
     bindR (check (cap_uses_remaining p = None)
       (CapabilityDenied ''finite-use capabilities cannot be delegated'')) (\<lambda>_.
     bindR (check (sp_delegable sp \<longrightarrow> cap_delegable p)
       (CapabilityDenied ''parent capability is not delegable'')) (\<lambda>_.
     bindR (require_temporal env p sp) (\<lambda>_.
     bindR (check (cap_delegation_depth p < row_max_depth env p)
       (CapabilityDenied ''delegation depth exhausted'')) (\<lambda>_.
     bindR (check (case sp_max_depth sp of None \<Rightarrow> True | Some n \<Rightarrow> n \<le> row_max_depth env p)
       (CapabilityDenied ''delegated capability cannot increase parent delegation depth'')) (\<lambda>_.
     bindR (check (sp_delegable sp \<longrightarrow> cap_delegation_depth p + 1 < delegated_max_depth env p sp)
       (CapabilityDenied ''delegated capability cannot be delegable after depth exhaustion'')) (\<lambda>_.
       require_attenuation env p sp)))))))"

definition validate_transfer_parent ::
  "cap_env \<Rightarrow> cap_store \<Rightarrow> cap_spec \<Rightarrow> capability_row \<Rightarrow> unit res" where
  "validate_transfer_parent env st sp p =
     bindR (require_valid_chain env st p) (\<lambda>_.
     bindR (check (sp_effect sp = Allow)
       (CapabilityDenied ''grant authority can only transfer allow capabilities'')) (\<lambda>_.
     bindR (check (cap_uses_remaining p = None)
       (CapabilityDenied ''finite-use capabilities cannot be granted onward'')) (\<lambda>_.
     bindR (check (sp_delegable sp \<longrightarrow> cap_delegable p)
       (CapabilityDenied ''transferred capability cannot be delegable from non-delegable parent'')) (\<lambda>_.
     bindR (require_temporal env p sp) (\<lambda>_.
     bindR (check (case sp_max_depth sp of None \<Rightarrow> True | Some n \<Rightarrow> n \<le> row_max_depth env p)
       (CapabilityDenied ''transferred capability cannot increase parent delegation depth'')) (\<lambda>_.
     bindR (check (sp_delegable sp \<longrightarrow> cap_delegation_depth p + 1 < row_max_depth env p)
       (CapabilityDenied ''transferred capability cannot be delegable after depth exhaustion'')) (\<lambda>_.
       require_attenuation env p sp)))))))"

section \<open>The parent of a new grant\<close>

text \<open>\<open>_require_parent_authority_rules_well_formed\<close>\<close>

definition parent_rules_ok :: "host \<Rightarrow> capability_row \<Rightarrow> unit res" where
  "parent_rules_ok h c =
     (case constraint_value c ''authority_rules'' of
        VNone \<Rightarrow> Inr ()
      | v \<Rightarrow>
          (case coerce_rules h v of
             Inl _ \<Rightarrow> Inl (CapabilityDenied ''capability has malformed authority rules'')
           | Inr rules \<Rightarrow>
               bindR (first_rule_error h rules) (\<lambda>e.
                 check (e = None)
                   (CapabilityDenied ''capability has unknown or malformed authority rule conditions''))))"

definition patterns_intersect :: "string \<Rightarrow> string \<Rightarrow> bool" where
  "patterns_intersect left right \<longleftrightarrow> covers left right \<or> covers right left"

text \<open>\<open>_require_no_restrictive_parent_boundary\<close>: the loop over the rows of the subject.\<close>

fun no_boundary :: "cap_env \<Rightarrow> cap_store \<Rightarrow> cap_spec \<Rightarrow> capability_row list \<Rightarrow> unit res" where
  "no_boundary env st sp [] = Inr ()"
| "no_boundary env st sp (c # cs) =
     (if \<not> active c \<or> is_expired (ce_host env) (ce_now env) c \<or> \<not> parent_chain_active env st c
         \<or> set (sp_rights sp) \<inter> set (cap_rights c) = {}
         \<or> \<not> patterns_intersect (cap_resource c) (sp_resource sp) then no_boundary env st sp cs
      else bindR (parent_rules_ok (ce_host env) c) (\<lambda>_.
        if cap_effect c \<in> {Deny, Ask} then
          Inl (CapabilityDenied ''restrictive capability also covers that authority'')
        else no_boundary env st sp cs))"

definition could_parent :: "cap_env \<Rightarrow> cap_store \<Rightarrow> cap_spec \<Rightarrow> capability_row \<Rightarrow> bool" where
  "could_parent env st sp c \<longleftrightarrow>
     active c \<and> \<not> is_expired (ce_host env) (ce_now env) c \<and> parent_chain_active env st c
     \<and> cap_effect c = Allow \<and> covers (cap_resource c) (sp_resource sp)
     \<and> set (sp_rights sp) \<subseteq> set (cap_rights c)"

text \<open>The first candidate that validates; otherwise the first denial.\<close>

fun first_validated ::
  "(capability_row \<Rightarrow> unit res) \<Rightarrow> exn option \<Rightarrow> capability_row list \<Rightarrow> capability_row res" where
  "first_validated f err [] =
     Inl (case err of Some e \<Rightarrow> e | None \<Rightarrow> CapabilityDenied ''no candidate'')"
| "first_validated f err (c # cs) =
     (case f c of
        Inr _ \<Rightarrow> Inr c
      | Inl (CapabilityDenied m) \<Rightarrow>
          first_validated f (if err = None then Some (CapabilityDenied m) else err) cs
      | Inl e \<Rightarrow> Inl e)"

definition by_specificity :: "capability_row list \<Rightarrow> capability_row list" where
  "by_specificity cs = sort_desc (\<lambda>c. (length (cap_resource c), cap_issued_at c, cap_id c)) cs"

text \<open>\<open>_find_delegation_parent\<close> and \<open>_find_transfer_parent\<close>\<close>

definition find_delegation_parent ::
  "cap_env \<Rightarrow> cap_store \<Rightarrow> string \<Rightarrow> cap_spec \<Rightarrow> capability_row res" where
  "find_delegation_parent env st parent sp =
     bindR (no_boundary env st sp (list_caps st (Some parent))) (\<lambda>_.
       let cands = filter (\<lambda>c. could_parent env st sp c \<and> cap_delegable c) (list_caps st (Some parent)) in
       if cands = [] then Inl (CapabilityDenied ''subject cannot delegate these rights'')
       else first_validated (validate_delegation_parent env st sp) None (by_specificity cands))"

definition find_transfer_parent ::
  "cap_env \<Rightarrow> cap_store \<Rightarrow> string \<Rightarrow> cap_spec \<Rightarrow> capability_row res" where
  "find_transfer_parent env st actor sp =
     bindR (no_boundary env st sp (list_caps st (Some actor))) (\<lambda>_.
       let cands = filter (could_parent env st sp) (list_caps st (Some actor)) in
       if cands = [] then
         Inl (CapabilityDenied ''subject cannot grant rights without already holding them'')
       else first_validated (validate_transfer_parent env st sp) None (by_specificity cands))"

section \<open>Drafts and publication\<close>

text \<open>
  \<open>_capability_draft\<close>: a draft is a row whose identifier and issue time are not set yet; the checked
  draft has its resource, rights and expiry in canonical form.
\<close>

definition opt_int :: "int option \<Rightarrow> pyval" where
  "opt_int o' = (case o' of None \<Rightarrow> VNone | Some n \<Rightarrow> VInt n)"

definition capability_draft :: "cap_env \<Rightarrow> capability_row \<Rightarrow> capability_row res" where
  "capability_draft env r =
     bindR (check (cap_subject r \<noteq> []) (ValidationError ''capability subject must be non-empty'')) (\<lambda>_.
     bindR (parse (cap_resource r) False) (\<lambda>_.
     bindR (normalize_rights (ce_max_rights env) (VSet (map VStr (cap_rights r)))) (\<lambda>rights.
     bindR (require_valid_constraints env (cap_constraints r)) (\<lambda>_.
     bindR (positive_uses (opt_int (cap_uses_remaining r)) ''uses_remaining'') (\<lambda>uses.
     bindR (max_depth (opt_int (cap_max_delegation_depth r))) (\<lambda>depth.
     bindR (check (case depth of None \<Rightarrow> True | Some n \<Rightarrow> cap_delegation_depth r \<le> n)
       (ValidationError ''max_delegation_depth cannot be less than delegation_depth'')) (\<lambda>_.
     bindR (normalize_expires (ce_host env) (opt_str (cap_expires_at r))) (\<lambda>expires.
       Inr (r\<lparr>cap_resource := canonical (cap_resource r), cap_rights := rights, cap_expires_at := expires,
              cap_uses_remaining := uses, cap_max_delegation_depth := depth\<rparr>)))))))))"

text \<open>\<open>CapabilityMutationService.publish\<close>: the identifier and the time are arguments.\<close>

definition publish ::
  "cap_env \<Rightarrow> string \<Rightarrow> string \<Rightarrow> capability_row \<Rightarrow> cap_store \<Rightarrow> (cap_store \<times> capability_row) res" where
  "publish env cid stamp draft st =
     bindR (admission_check env 0) (\<lambda>_.
       let c = draft\<lparr>cap_id := cid, cap_issued_at := stamp, cap_status := Active\<rparr> in
       bindR (insert_capability (ce_host env) (ce_max_rights env) c st) (\<lambda>st'.
       bindR (admission_check env 1) (\<lambda>_. Inr (st', c))))"

definition draft_row ::
  "string \<Rightarrow> cap_spec \<Rightarrow> constraints \<Rightarrow> string \<Rightarrow> string option \<Rightarrow> string option \<Rightarrow> int \<Rightarrow> int option \<Rightarrow>
   string option \<Rightarrow> capability_row" where
  "draft_row subj sp md issuer issuer_cap parent depth limit expires =
     \<lparr>cap_id = [], cap_subject = subj, cap_resource = sp_resource sp, cap_rights = sp_rights sp,
      cap_constraints = sp_constraints sp, cap_issued_by = issuer, cap_issued_at = [],
      cap_expires_at = expires, cap_delegable = sp_delegable sp, cap_revocable = sp_revocable sp,
      cap_effect = sp_effect sp, cap_issuer_cap_id = issuer_cap, cap_parent_cap_id = parent,
      cap_delegation_depth = depth, cap_max_delegation_depth = limit, cap_uses_remaining = sp_uses sp,
      cap_status = Active, cap_metadata = sdict md\<rparr>"

section \<open>Delegation\<close>

definition text_or :: "string option \<Rightarrow> string option \<Rightarrow> string option" where
  "text_or a b = (case a of Some s \<Rightarrow> if s = [] then b else Some s | None \<Rightarrow> b)"

text \<open>\<open>_delegate_selected\<close>\<close>

definition delegate_selected ::
  "cap_env \<Rightarrow> string \<Rightarrow> string \<Rightarrow> string \<Rightarrow> string \<Rightarrow> string option \<Rightarrow> cap_spec \<Rightarrow> cap_store \<Rightarrow>
   (cap_store \<times> capability_row) res" where
  "delegate_selected env cid stamp parent child actor sp st =
     bindR (find_delegation_parent env st parent sp) (\<lambda>p.
     bindR (capability_draft env (draft_row child sp
         (dset (sp_metadata sp) ''delegated_from'' (VStr parent))
         (case text_or actor None of Some a \<Rightarrow> a | None \<Rightarrow> parent) (Some (cap_id p)) (Some (cap_id p))
         (cap_delegation_depth p + 1) (Some (delegated_max_depth env p sp))
         (text_or (sp_expires sp) (cap_expires_at p)))) (\<lambda>draft.
       publish env cid stamp draft st))"

definition delegate ::
  "cap_env \<Rightarrow> string \<Rightarrow> string \<Rightarrow> string \<Rightarrow> string \<Rightarrow> string option \<Rightarrow> bool \<Rightarrow> pyval \<Rightarrow> cap_store \<Rightarrow>
   (cap_store \<times> capability_row) res" where
  "delegate env cid stamp parent child actor structured v st =
     bindR (coerce_spec env structured v) (\<lambda>sp. delegate_selected env cid stamp parent child actor sp st)"

text \<open>\<open>validate_delegation\<close>\<close>

definition validate_delegation ::
  "cap_env \<Rightarrow> cap_store \<Rightarrow> string \<Rightarrow> bool \<Rightarrow> pyval \<Rightarrow> capability_row res" where
  "validate_delegation env st parent structured v =
     bindR (coerce_spec env structured v) (\<lambda>sp. find_delegation_parent env st parent sp)"

text \<open>\<open>inherit\<close>\<close>

definition inherit ::
  "cap_env \<Rightarrow> string \<Rightarrow> string \<Rightarrow> string \<Rightarrow> string \<Rightarrow> string \<Rightarrow> pyval \<Rightarrow> string \<Rightarrow> pyval \<Rightarrow> cap_store \<Rightarrow>
   (cap_store \<times> capability_row) res" where
  "inherit env cid stamp parent child res rights issued_by cs st =
     bindR (normalize_rights (ce_max_rights env) rights) (\<lambda>rs.
     bindR (if cs = VNone then Inr [] else spec_mapping (sdict [(''constraints'', cs)]) ''constraints'') (\<lambda>cs'.
       delegate env cid stamp parent child (Some issued_by) True
         (VDict (sdict [(''resource'', VStr res), (''rights'', VSet (map VStr rs)), (''effect'', VStr ''allow''),
           (''rules'', VList []), (''lease'', VNone), (''delegation'', VNone),
           (''constraints'', VDict (sdict cs')), (''metadata'', VDict (sdict [(''issued_by'', VStr issued_by)])),
           (''expires_at'', VNone), (''uses_remaining'', VNone), (''delegable'', VBool False),
           (''revocable'', VBool True), (''max_delegation_depth'', VNone)])) st))"

section \<open>Coverage of specifications\<close>

text \<open>\<open>spec_covers\<close>: the fields that limit, read from a row or from a specification.\<close>

record spec_limit =
  lm_resource :: string
  lm_rights :: "string list"
  lm_effect :: capability_effect
  lm_constraints :: constraints
  lm_expires :: "string option"
  lm_uses :: "int option"
  lm_delegable :: bool
  lm_max_depth :: "int option"

definition limit_of_row :: "cap_env \<Rightarrow> capability_row \<Rightarrow> spec_limit" where
  "limit_of_row env c =
     \<lparr>lm_resource = cap_resource c, lm_rights = cap_rights c, lm_effect = cap_effect c,
      lm_constraints = cap_constraints c, lm_expires = cap_expires_at c, lm_uses = cap_uses_remaining c,
      lm_delegable = cap_delegable c,
      lm_max_depth = (if cap_delegable c \<or> cap_max_delegation_depth c \<noteq> None
        then Some (row_max_depth env c) else None)\<rparr>"

definition limit_of_spec :: "cap_env \<Rightarrow> cap_spec \<Rightarrow> spec_limit" where
  "limit_of_spec env sp =
     \<lparr>lm_resource = sp_resource sp, lm_rights = sp_rights sp, lm_effect = sp_effect sp,
      lm_constraints = sp_constraints sp, lm_expires = sp_expires sp, lm_uses = sp_uses sp,
      lm_delegable = sp_delegable sp, lm_max_depth = initial_max_depth env sp\<rparr>"

definition spec_covers :: "cap_env \<Rightarrow> spec_limit \<Rightarrow> cap_spec \<Rightarrow> bool res" where
  "spec_covers env lm sp =
     (if \<not> (lm_effect lm = Allow \<and> covers (lm_resource lm) (sp_resource sp)) then Inr False
      else if \<not> set (sp_rights sp) \<subseteq> set (lm_rights lm) then Inr False
      else bindR (attenuation_error env (lm_constraints lm) (sp_constraints sp)) (\<lambda>e.
        Inr (e = None
          \<and> (case lm_expires lm of
               None \<Rightarrow> True
             | Some pe \<Rightarrow> (case sp_expires sp of None \<Rightarrow> False | Some e \<Rightarrow> \<not> pe < e))
          \<and> (lm_uses lm = None \<or> sp_uses sp = lm_uses lm)
          \<and> (sp_delegable sp \<longrightarrow> lm_delegable lm)
          \<and> (case (lm_max_depth lm, sp_max_depth sp) of
               (Some n, Some m) \<Rightarrow> m \<le> n
             | _ \<Rightarrow> True))))"

text \<open>\<open>any(self.spec_covers(limit, selected) for limit in ceiling)\<close>\<close>

fun any_covers :: "cap_env \<Rightarrow> (spec_limit res) list \<Rightarrow> cap_spec \<Rightarrow> bool res" where
  "any_covers env [] sp = Inr False"
| "any_covers env (lm # lms) sp =
     bindR lm (\<lambda>l. bindR (spec_covers env l sp) (\<lambda>b. if b then Inr True else any_covers env lms sp))"

section \<open>Derived authority\<close>

fun check_transition ::
  "cap_env \<Rightarrow> cap_store \<Rightarrow> string \<Rightarrow> (spec_limit res) list \<Rightarrow> cap_spec list \<Rightarrow> unit res" where
  "check_transition env st source lims [] = Inr ()"
| "check_transition env st source lims (sp # sps) =
     bindR (if lims = [] then Inr True else any_covers env lims sp) (\<lambda>ok.
       if \<not> ok then Inl (CapabilityDenied ''authority exceeds transition ceiling'')
       else bindR (find_delegation_parent env st source sp) (\<lambda>_.
         check_transition env st source lims sps))"

fun delegate_all ::
  "cap_env \<Rightarrow> (nat \<Rightarrow> string) \<Rightarrow> string \<Rightarrow> string \<Rightarrow> string \<Rightarrow> string \<Rightarrow> nat \<Rightarrow> cap_spec list \<Rightarrow> cap_store \<Rightarrow>
   (cap_store \<times> capability_row list) res" where
  "delegate_all env fresh stamp source target actor n [] st = Inr (st, [])"
| "delegate_all env fresh stamp source target actor n (sp # sps) st =
     bindR (delegate_selected env (fresh n) stamp source target (Some actor) sp st) (\<lambda>(st1, c).
     bindR (delegate_all env fresh stamp source target actor (Suc n) sps st1) (\<lambda>(st2, cs).
       Inr (st2, c # cs)))"

text \<open>
  \<open>derive_authority\<close>; a ceiling entry is a row or a declared specification. The code coerces an
  already checked specification once more inside \<open>spec_covers\<close>, which gives the same specification.
\<close>

definition ceiling_limit :: "cap_env \<Rightarrow> capability_row + (bool \<times> pyval) \<Rightarrow> spec_limit res" where
  "ceiling_limit env x =
     (case x of
        Inl c \<Rightarrow> Inr (limit_of_row env c)
      | Inr (structured, v) \<Rightarrow> bindR (coerce_spec env structured v) (\<lambda>sp. Inr (limit_of_spec env sp)))"

definition derive_authority ::
  "cap_env \<Rightarrow> (nat \<Rightarrow> string) \<Rightarrow> string \<Rightarrow> string \<Rightarrow> string \<Rightarrow> (bool \<times> pyval) list \<Rightarrow> string \<Rightarrow>
   (capability_row + (bool \<times> pyval)) list \<Rightarrow> string option \<Rightarrow> cap_store \<Rightarrow>
   (cap_store \<times> capability_row list) res" where
  "derive_authority env fresh stamp source target requested kind ceil_specs actor st =
     bindR (mapR (\<lambda>(structured, v). coerce_spec env structured v) requested) (\<lambda>sps.
     bindR (check_transition env st source (map (ceiling_limit env) ceil_specs) sps) (\<lambda>_.
       delegate_all env fresh stamp source target
         (case text_or actor None of Some a \<Rightarrow> a | None \<Rightarrow> ''authority_transition:'' @ kind) 0 sps st))"

section \<open>Issue\<close>

text \<open>\<open>_prepare_issue_draft\<close>\<close>

definition issue_draft ::
  "cap_env \<Rightarrow> string \<Rightarrow> string \<Rightarrow> cap_spec \<Rightarrow> capability_row option \<Rightarrow> string option \<Rightarrow> capability_row res" where
  "issue_draft env actor subj sp tp issuer_cap =
     capability_draft env (draft_row subj sp (sp_metadata sp) actor issuer_cap (map_option cap_id tp)
       (case tp of None \<Rightarrow> 0 | Some p \<Rightarrow> cap_delegation_depth p + 1)
       (case tp of
          Some p \<Rightarrow> if sp_delegable sp then Some (delegated_max_depth env p sp) else initial_max_depth env sp
        | None \<Rightarrow> initial_max_depth env sp)
       (case tp of
          Some p \<Rightarrow> if sp_expires sp = None then cap_expires_at p else sp_expires sp
        | None \<Rightarrow> sp_expires sp))"

text \<open>\<open>issue(..., require_authority=False)\<close>, the path of \<open>issue_trusted\<close> and its callers.\<close>

definition issue_unchecked ::
  "cap_env \<Rightarrow> string \<Rightarrow> string \<Rightarrow> string \<Rightarrow> string \<Rightarrow> string option \<Rightarrow> bool \<Rightarrow> pyval \<Rightarrow> cap_store \<Rightarrow>
   (cap_store \<times> capability_row) res" where
  "issue_unchecked env cid stamp actor subj issuer_cap structured v st =
     bindR (coerce_spec env structured v) (\<lambda>sp.
     bindR (issue_draft env actor subj sp None issuer_cap) (\<lambda>draft.
       publish env cid stamp draft st))"

definition issue_trusted ::
  "cap_env \<Rightarrow> string \<Rightarrow> string \<Rightarrow> string \<Rightarrow> string \<Rightarrow> pyval \<Rightarrow> string \<Rightarrow> string \<Rightarrow> pyval \<Rightarrow> pyval \<Rightarrow> pyval \<Rightarrow> pyval \<Rightarrow>
   pyval \<Rightarrow> pyval \<Rightarrow> pyval \<Rightarrow> cap_store \<Rightarrow> (cap_store \<times> capability_row) res" where
  "issue_trusted env cid stamp subj res rights issued_by eff cs md expires uses g r limit st =
     bindR (if cs = VNone then Inr [] else spec_mapping (sdict [(''constraints'', cs)]) ''constraints'') (\<lambda>cs'.
     bindR (if md = VNone then Inr [] else spec_mapping (sdict [(''metadata'', md)]) ''metadata'') (\<lambda>md'.
     bindR (normalize_rights (ce_max_rights env) rights) (\<lambda>rs.
     bindR (effect_of eff) (\<lambda>eff'.
       issue_unchecked env cid stamp issued_by subj None True
         (VDict (sdict [(''resource'', VStr res), (''rights'', VSet (map VStr rs)),
           (''effect'', VStr (effect_value eff')), (''rules'', VList []), (''lease'', VNone),
           (''delegation'', VNone), (''constraints'', VDict (sdict cs')), (''metadata'', VDict (sdict md')),
           (''expires_at'', expires), (''uses_remaining'', uses), (''delegable'', g),
           (''revocable'', r), (''max_delegation_depth'', limit)])) st))))"

text \<open>\<open>grant\<close>: the policy key of the constraints selects the effect.\<close>

definition grant ::
  "cap_env \<Rightarrow> string \<Rightarrow> string \<Rightarrow> string \<Rightarrow> string \<Rightarrow> pyval \<Rightarrow> string \<Rightarrow> pyval \<Rightarrow> pyval \<Rightarrow> pyval \<Rightarrow> pyval \<Rightarrow> pyval \<Rightarrow>
   cap_store \<Rightarrow> (cap_store \<times> capability_row) res" where
  "grant env cid stamp subj res rights issued_by cs expires g r md st =
     bindR (if cs = VNone then Inr [] else spec_mapping (sdict [(''constraints'', cs)]) ''constraints'') (\<lambda>cs'.
     bindR (effect_from_policy (case map_of cs' policy_key of
         None \<Rightarrow> ''always_allow'' | Some v \<Rightarrow> py_str (h_repr (ce_host env)) v)) (\<lambda>(eff, uses).
       issue_trusted env cid stamp subj res rights issued_by (effect_value eff)
         (VDict (sdict (dpop cs' policy_key))) md expires (opt_int uses) g r VNone st))"

definition grant_once ::
  "cap_env \<Rightarrow> string \<Rightarrow> string \<Rightarrow> string \<Rightarrow> string \<Rightarrow> pyval \<Rightarrow> string \<Rightarrow> pyval \<Rightarrow> pyval \<Rightarrow> pyval \<Rightarrow> cap_store \<Rightarrow>
   (cap_store \<times> capability_row) res" where
  "grant_once env cid stamp subj res rights issued_by cs expires md st =
     issue_trusted env cid stamp subj res rights issued_by ''allow'' cs md expires (VInt 1)
       (VBool False) (VBool True) VNone st"

definition set_permission_policy ::
  "cap_env \<Rightarrow> string \<Rightarrow> string \<Rightarrow> string \<Rightarrow> string \<Rightarrow> pyval \<Rightarrow> string \<Rightarrow> string \<Rightarrow> pyval \<Rightarrow> pyval \<Rightarrow> cap_store \<Rightarrow>
   (cap_store \<times> capability_row) res" where
  "set_permission_policy env cid stamp subj res rights pol issued_by cs expires st =
     bindR (effect_from_policy pol) (\<lambda>(eff, uses).
       issue_trusted env cid stamp subj res rights issued_by (effect_value eff) cs VNone expires
         (opt_int uses) (VBool False) (VBool True) VNone st)"

text \<open>\<open>_require_issue_authority\<close>: an administrator, or a grantor with a parent that transfers.\<close>

definition require_issue_authority ::
  "cap_env \<Rightarrow> cap_store \<Rightarrow> string \<Rightarrow> cap_spec \<Rightarrow> (capability_decision \<times> capability_row option) latched" where
  "require_issue_authority env st actor sp =
     bindL (authorize env st actor (sp_resource sp) ''admin'' []) (\<lambda>admin.
       if cd_allowed admin then liftL (Inr (admin, None))
       else bindL (authorize env st actor (sp_resource sp) ''grant'' []) (\<lambda>g.
         if cd_allowed g then
           bindL (liftL (find_transfer_parent env st actor sp)) (\<lambda>p.
           bindL (liftL (validate_transfer_parent env st sp p)) (\<lambda>_. liftL (Inr (g, Some p))))
         else liftL (Inl (CapabilityDenied ''actor lacks grant/admin authority''))))"

text \<open>The mutation inside the transaction: the transfer parent is found again there.\<close>

definition issue_body ::
  "cap_env \<Rightarrow> string \<Rightarrow> string \<Rightarrow> string \<Rightarrow> string \<Rightarrow> cap_spec \<Rightarrow> bool \<Rightarrow> capability_decision list \<Rightarrow> cap_store \<Rightarrow>
   (cap_store \<times> capability_row) res" where
  "issue_body env cid stamp actor subj sp transfers cur st =
     bindR (if transfers then
              bindR (find_transfer_parent env st actor sp) (\<lambda>p.
              bindR (validate_transfer_parent env st sp p) (\<lambda>_. Inr (Some p)))
            else Inr None) (\<lambda>tp.
     bindR (issue_draft env actor subj sp tp (cd_selected (hd cur))) (\<lambda>draft.
       publish env cid stamp draft st))"

definition issue ::
  "cap_env \<Rightarrow> (nat \<Rightarrow> string) \<Rightarrow> string \<Rightarrow> string \<Rightarrow> string \<Rightarrow> string \<Rightarrow> bool \<Rightarrow> pyval \<Rightarrow> cap_store \<Rightarrow>
   (cap_store \<times> capability_row) latched" where
  "issue env fresh cid stamp actor subj structured v st =
     bindL (liftL (coerce_spec env structured v)) (\<lambda>sp.
     bindL (require_issue_authority env st actor sp) (\<lambda>(d, tp).
     bindL (authority_transaction env fresh actor ''capability issue'' stamp (reauthorize_decision env) [d]
         (issue_body env cid stamp actor subj sp (tp \<noteq> None)) st) (\<lambda>(st', cur, c).
       liftL (Inr (st', c)))))"

section \<open>Revocation by an actor\<close>

definition require_revoke_authority ::
  "cap_env \<Rightarrow> cap_store \<Rightarrow> string \<Rightarrow> capability_row \<Rightarrow> capability_decision option latched" where
  "require_revoke_authority env st actor c =
     (if actor = cap_issued_by c then liftL (Inr None)
      else if actor = cap_subject c then
        liftL (if cap_effect c = Allow then Inr None
          else Inl (CapabilityDenied ''actor cannot self-revoke restrictive capability''))
      else bindL (authorize env st actor (cap_resource c) ''revoke'' []) (\<lambda>r.
        if cd_allowed r then liftL (Inr (Some r))
        else bindL (authorize env st actor (cap_resource c) ''admin'' []) (\<lambda>a.
          if cd_allowed a then liftL (Inr (Some a))
          else liftL (Inl (CapabilityDenied ''actor lacks revoke/admin authority for capability'')))))"

definition revoke ::
  "cap_env \<Rightarrow> (nat \<Rightarrow> string) \<Rightarrow> string \<Rightarrow> string \<Rightarrow> string \<Rightarrow> bool \<Rightarrow> cap_store \<Rightarrow>
   (cap_store \<times> capability_row) latched" where
  "revoke env fresh stamp cid actor require_authority st =
     bindL (liftL (require_revocable st cid)) (\<lambda>c.
     bindL (if require_authority then require_revoke_authority env st actor c else liftL (Inr None)) (\<lambda>d.
       case d of
         None \<Rightarrow> liftL (mutation_revoke (ce_host env) (ce_max_rights env) cid stamp st)
       | Some dec \<Rightarrow>
           bindL (authority_transaction env fresh actor ''capability revoke'' stamp (reauthorize_decision env)
               [dec] (\<lambda>_ st. mutation_revoke (ce_host env) (ce_max_rights env) cid stamp st) st)
             (\<lambda>(st', cur, c'). liftL (Inr (st', c')))))"

section \<open>Authority across a transition\<close>

definition resources_overlap :: "string \<Rightarrow> string \<Rightarrow> bool" where
  "resources_overlap left right =
     (case (parse left False, parse right False) of
        (Inr lp, Inr rp) \<Rightarrow>
          if rp_kind lp \<noteq> rp_kind rp then False
          else if matches left right \<or> matches right left then True
          else if endswith left '':*'' \<or> endswith left ''/*'' \<or> endswith right '':*'' \<or> endswith right ''/*'' then
            startswith (rp_body lp) (rp_body rp) \<or> startswith (rp_body rp) (rp_body lp)
          else False
      | _ \<Rightarrow> left = right)"

text \<open>\<open>transition_allowed_rights\<close>: the rights of a row that may cross, one authorization each.\<close>

definition restricts :: "cap_env \<Rightarrow> capability_row \<Rightarrow> string \<Rightarrow> capability_row \<Rightarrow> bool" where
  "restricts env c rt r \<longleftrightarrow>
     active r \<and> \<not> is_expired (ce_host env) (ce_now env) r \<and> cap_effect r \<in> {Deny, Ask}
     \<and> rt \<in> set (cap_rights r) \<and> resources_overlap (cap_resource c) (cap_resource r)"

fun allowed_rights ::
  "cap_env \<Rightarrow> cap_store \<Rightarrow> capability_row \<Rightarrow> string \<Rightarrow> string list \<Rightarrow> string list latched" where
  "allowed_rights env st c kind [] = liftL (Inr [])"
| "allowed_rights env st c kind (rt # rts) =
     (if list_ex (restricts env c rt) (list_caps st (Some (cap_subject c)))
      then allowed_rights env st c kind rts
      else bindL (authorize env st (cap_subject c) (cap_resource c) rt
          (sdict [(''primitive'', VStr ''authority_transition''), (''operation'', VStr kind)])) (\<lambda>d.
        bindL (allowed_rights env st c kind rts) (\<lambda>rest.
          liftL (Inr (if cd_allowed d \<and> cd_selected d = Some (cap_id c) then rt # rest else rest)))))"

definition transition_allowed_rights ::
  "cap_env \<Rightarrow> cap_store \<Rightarrow> capability_row \<Rightarrow> string \<Rightarrow> bool \<Rightarrow> string list latched" where
  "transition_allowed_rights env st c kind duplicates =
     (if \<not> active c \<or> is_expired (ce_host env) (ce_now env) c then liftL (Inr [])
      else if duplicates \<and> cap_uses_remaining c \<noteq> None then liftL (Inr [])
      else if cap_effect c \<noteq> Allow then liftL (Inr (sorted_set (cap_rights c)))
      else allowed_rights env st c kind (sorted_set (cap_rights c)))"

section \<open>Lemmas\<close>

lemma first_validated_Inr: "first_validated f e cs = Inr c \<Longrightarrow> c \<in> set cs \<and> f c = Inr ()"
  by (induction f e cs rule: first_validated.induct) (auto split: sum.splits exn.splits)

lemma set_sort_desc [simp]: "set (sort_desc f xs) = set xs"
  by (simp add: sort_desc_def)

lemma no_boundary_Inr:
  "no_boundary env st sp cs = Inr () \<Longrightarrow> c \<in> set cs \<Longrightarrow> active c \<Longrightarrow>
   \<not> is_expired (ce_host env) (ce_now env) c \<Longrightarrow> parent_chain_active env st c \<Longrightarrow>
   set (sp_rights sp) \<inter> set (cap_rights c) \<noteq> {} \<Longrightarrow> patterns_intersect (cap_resource c) (sp_resource sp) \<Longrightarrow>
   cap_effect c = Allow"
proof (induction cs)
  case (Cons d ds)
  show ?case
  proof (cases "d = c")
    case True
    with Cons.prems have "cap_effect c \<notin> {Deny, Ask}"
      by (auto simp del: insert_iff simp: bindR_Inr_iff split: if_splits)
    then show ?thesis by (cases "cap_effect c") auto
  next
    case False
    then have "no_boundary env st sp ds = Inr ()"
      using Cons.prems(1) by (auto simp del: insert_iff simp: bindR_Inr_iff split: if_splits)
    then show ?thesis using Cons False by simp
  qed
qed simp

lemma find_delegation_parent_Inr:
  assumes "find_delegation_parent env st parent sp = Inr p"
  shows "p \<in> set (st_caps st)" "cap_subject p = parent" "could_parent env st sp p" "cap_delegable p"
    "validate_delegation_parent env st sp p = Inr ()"
    "no_boundary env st sp (list_caps st (Some parent)) = Inr ()"
  using assms
  by (auto simp: find_delegation_parent_def res_simps Let_def by_specificity_def list_caps_def
      split: if_splits dest!: first_validated_Inr)

lemma find_transfer_parent_Inr:
  assumes "find_transfer_parent env st actor sp = Inr p"
  shows "p \<in> set (st_caps st)" "cap_subject p = actor" "could_parent env st sp p"
    "validate_transfer_parent env st sp p = Inr ()"
    "no_boundary env st sp (list_caps st (Some actor)) = Inr ()"
  using assms
  by (auto simp: find_transfer_parent_def res_simps Let_def by_specificity_def list_caps_def
      split: if_splits dest!: first_validated_Inr)

lemma publish_Inr:
  assumes "publish env cid stamp draft st = Inr (st', c)"
  shows "st' = st\<lparr>st_caps := st_caps st @ [c]\<rparr>" "get_cap st cid = None"
    "c = draft\<lparr>cap_id := cid, cap_issued_at := stamp, cap_status := Active\<rparr>"
  using assms by (auto simp: publish_def res_simps insert_capability_def Let_def split: if_splits)

lemma normalize_rights_set:
  "normalize_rights n (VSet (map VStr rs)) = Inr xs \<Longrightarrow> set xs = set rs"
  by (auto simp: normalize_rights_def collection_items_def comp_def split: if_splits)

lemma capability_draft_Inr:
  assumes "capability_draft env r = Inr d"
  shows "cap_resource d = canonical (cap_resource r)" "set (cap_rights d) = set (cap_rights r)"
    "cap_constraints d = cap_constraints r" "cap_parent_cap_id d = cap_parent_cap_id r"
    "cap_delegation_depth d = cap_delegation_depth r" "cap_max_delegation_depth d = cap_max_delegation_depth r"
    "cap_delegable d = cap_delegable r" "cap_effect d = cap_effect r" "cap_subject d = cap_subject r"
    "normalize_expires (ce_host env) (opt_str (cap_expires_at r)) = Inr (cap_expires_at d)"
    "case cap_max_delegation_depth r of None \<Rightarrow> True | Some n \<Rightarrow> cap_delegation_depth r \<le> n"
    "constraint_validation_error env (cap_constraints r) = Inr None"
proof -
  obtain rights uses depth expires w where
    n: "normalize_rights (ce_max_rights env) (VSet (map VStr (cap_rights r))) = Inr rights"
    and v: "require_valid_constraints env (cap_constraints r) = Inr w"
    and m: "max_depth (opt_int (cap_max_delegation_depth r)) = Inr depth"
    and le: "case depth of None \<Rightarrow> True | Some n \<Rightarrow> cap_delegation_depth r \<le> n"
    and u: "positive_uses (opt_int (cap_uses_remaining r)) ''uses_remaining'' = Inr uses"
    and e: "normalize_expires (ce_host env) (opt_str (cap_expires_at r)) = Inr expires"
    and d: "r\<lparr>cap_resource := canonical (cap_resource r), cap_rights := rights, cap_expires_at := expires,
              cap_uses_remaining := uses, cap_max_delegation_depth := depth\<rparr> = d"
    using assms unfolding capability_draft_def bindR_Inr_iff check_Inr_iff sum.inject
    by - (elim exE conjE, rule that; assumption)
  have depth: "depth = cap_max_delegation_depth r"
    using m by (auto simp: max_depth_def opt_int_def split: option.splits if_splits)
  have "constraint_validation_error env (cap_constraints r) = Inr None"
    using v by (auto simp: require_valid_constraints_def res_simps split: option.splits)
  then show "cap_resource d = canonical (cap_resource r)" "set (cap_rights d) = set (cap_rights r)"
    "cap_constraints d = cap_constraints r" "cap_parent_cap_id d = cap_parent_cap_id r"
    "cap_delegation_depth d = cap_delegation_depth r" "cap_max_delegation_depth d = cap_max_delegation_depth r"
    "cap_delegable d = cap_delegable r" "cap_effect d = cap_effect r" "cap_subject d = cap_subject r"
    "normalize_expires (ce_host env) (opt_str (cap_expires_at r)) = Inr (cap_expires_at d)"
    "case cap_max_delegation_depth r of None \<Rightarrow> True | Some n \<Rightarrow> cap_delegation_depth r \<le> n"
    "constraint_validation_error env (cap_constraints r) = Inr None"
    using normalize_rights_set [OF n] e le by (simp_all add: d [symmetric] depth)
qed

end
