(* ===== verification/CapAuthority.thy ===== *)
theory CapAuthority
  imports CapDelegate
begin

text \<open>
  What the issuing operations guarantee: a delegated grant stays inside its parent, an issue needs
  authority, and over every sequence of operations the parent links of the store form a forest along
  which authority only shrinks.
\<close>

section \<open>What the checks say\<close>

text \<open>
  The contract of \<open>attenuation_error\<close>: every constraint of the parent is kept, the list of allowed
  git references may shrink, and the two constraints that add authority are not added.
\<close>

definition attenuates :: "cap_env \<Rightarrow> constraints \<Rightarrow> constraints \<Rightarrow> bool" where
  "attenuates env parent delegated \<longleftrightarrow>
     (\<forall>k v. map_of parent k = Some v \<longrightarrow>
        (\<exists>w. map_of delegated k = Some w
           \<and> (if k = ''git_allowed_refs'' then set (the_list w) \<subseteq> set (the_list v) else py_eq w v)))
     \<and> (\<forall>k \<in> {''authority_rules'', ce_shell_key env}. map_of parent k = None \<longrightarrow> map_of delegated k = None)"

lemma dropped_or_changed_None:
  "dropped_or_changed parent delegated = None \<Longrightarrow> (k, v) \<in> set parent \<Longrightarrow>
   \<exists>w. map_of delegated k = Some w
     \<and> (if k = ''git_allowed_refs'' then set (the_list w) \<subseteq> set (the_list v) else py_eq w v)"
  by (induction parent) (auto split: option.splits if_splits)

lemma added_authority_None:
  assumes "added_authority env parent delegated = None" "k \<in> {''authority_rules'', ce_shell_key env}"
    "map_of parent k = None"
  shows "map_of delegated k = None"
  using assms unfolding added_authority_def map_option_is_None find_None_iff
  by (auto simp: map_of_eq_None_iff simp del: insert_iff)

lemma attenuation_error_None:
  assumes "attenuation_error env parent delegated = Inr None"
  shows "attenuates env parent delegated"
proof -
  have d: "dropped_or_changed parent delegated = None" and a: "added_authority env parent delegated = None"
    using assms by (auto simp: attenuation_error_def res_simps split: if_splits option.splits)
  show ?thesis
    unfolding attenuates_def
  proof (intro conjI allI impI ballI)
    fix k v assume "map_of parent k = Some v"
    from dropped_or_changed_None [OF d map_of_SomeD [OF this]] show "\<exists>w. map_of delegated k = Some w
      \<and> (if k = ''git_allowed_refs'' then set (the_list w) \<subseteq> set (the_list v) else py_eq w v)" .
  next
    fix k assume "k \<in> {''authority_rules'', ce_shell_key env}" "map_of parent k = None"
    from added_authority_None [OF a this] show "map_of delegated k = None" .
  qed
qed

lemma require_attenuation_Inr:
  "require_attenuation env p sp = Inr u \<Longrightarrow> attenuates env (cap_constraints p) (sp_constraints sp)"
  by (auto simp: require_attenuation_def res_simps split: option.splits intro: attenuation_error_None)

lemma delegation_parent_ok:
  assumes "validate_delegation_parent env st sp p = Inr ()"
  shows "authority_chain_error env st p = Inr None" "cap_uses_remaining p = None"
    "sp_delegable sp \<longrightarrow> cap_delegable p" "require_temporal env p sp = Inr ()"
    "cap_delegation_depth p < row_max_depth env p"
    "delegated_max_depth env p sp \<le> row_max_depth env p"
    "sp_delegable sp \<longrightarrow> cap_delegation_depth p + 1 < delegated_max_depth env p sp"
    "attenuates env (cap_constraints p) (sp_constraints sp)"
  using assms require_attenuation_Inr [of env p sp]
  unfolding validate_delegation_parent_def require_valid_chain_def bindR_Inr_iff check_Inr_iff
  by (auto simp: delegated_max_depth_def split: option.splits)

lemma transfer_parent_ok:
  assumes "validate_transfer_parent env st sp p = Inr ()"
  shows "authority_chain_error env st p = Inr None" "sp_effect sp = Allow" "cap_uses_remaining p = None"
    "sp_delegable sp \<longrightarrow> cap_delegable p" "require_temporal env p sp = Inr ()"
    "delegated_max_depth env p sp \<le> row_max_depth env p"
    "sp_delegable sp \<longrightarrow> cap_delegation_depth p + 1 < row_max_depth env p"
    "attenuates env (cap_constraints p) (sp_constraints sp)"
  using assms require_attenuation_Inr [of env p sp]
  unfolding validate_transfer_parent_def require_valid_chain_def bindR_Inr_iff check_Inr_iff
  by (auto simp: delegated_max_depth_def split: option.splits)

lemma could_parentD:
  assumes "could_parent env st sp p"
  shows "active p" "\<not> is_expired (ce_host env) (ce_now env) p" "parent_chain_active env st p"
    "cap_effect p = Allow" "matches (cap_resource p) (canonical (sp_resource sp))"
    "set (sp_rights sp) \<subseteq> set (cap_rights p)"
  using assms by (auto simp: could_parent_def covers_def dest: parse_raw split: sum.splits)

lemma no_boundary_restriction:
  assumes "no_boundary env st sp (list_caps st (Some s)) = Inr ()" "q \<in> set (st_caps st)"
    "cap_subject q = s" "active q" "\<not> is_expired (ce_host env) (ce_now env) q" "parent_chain_active env st q"
    "cap_effect q \<noteq> Allow" "set (sp_rights sp) \<inter> set (cap_rights q) \<noteq> {}"
    "parse (sp_resource sp) False = Inr x"
  shows "\<not> matches (cap_resource q) (canonical (sp_resource sp))"
proof
  assume "matches (cap_resource q) (canonical (sp_resource sp))"
  then have "patterns_intersect (cap_resource q) (sp_resource sp)"
    using assms(9) parse_raw [OF assms(9)] by (simp add: patterns_intersect_def covers_def)
  then show False using no_boundary_Inr [OF assms(1)] assms by (simp add: list_caps_def)
qed

lemma delegate_selected_Inr:
  assumes "delegate_selected env cid stamp parent child actor sp st = Inr (st', c)"
  obtains p draft where "find_delegation_parent env st parent sp = Inr p"
    "capability_draft env (draft_row child sp
         (dset (sp_metadata sp) ''delegated_from'' (VStr parent))
         (case text_or actor None of Some a \<Rightarrow> a | None \<Rightarrow> parent) (Some (cap_id p)) (Some (cap_id p))
         (cap_delegation_depth p + 1) (Some (delegated_max_depth env p sp))
         (text_or (sp_expires sp) (cap_expires_at p))) = Inr draft"
    "publish env cid stamp draft st = Inr (st', c)"
  using assms by (auto simp: delegate_selected_def res_simps)

lemma could_parent_parse: "could_parent env st sp p \<Longrightarrow> \<exists>x. parse (sp_resource sp) False = Inr x"
  by (auto simp: could_parent_def covers_def split: sum.splits)

section \<open>Delegation\<close>

section \<open>Operations that keep every grant\<close>

text \<open>
  The row with its uses, status and metadata masked: what no operation on existing rows changes. A use
  count that is absent stays absent.
\<close>

definition skel :: "capability_row \<Rightarrow> capability_row" where
  "skel c = c\<lparr>cap_uses_remaining := map_option (\<lambda>_. 0) (cap_uses_remaining c), cap_status := Active,
              cap_metadata := []\<rparr>"

definition same_skel :: "cap_store \<Rightarrow> cap_store \<Rightarrow> bool" where
  "same_skel st st' \<longleftrightarrow> map skel (st_caps st') = map skel (st_caps st)"

lemma skel_fields:
  assumes "skel c = skel d"
  shows "cap_id c = cap_id d" "cap_subject c = cap_subject d" "cap_resource c = cap_resource d"
    "cap_rights c = cap_rights d" "cap_constraints c = cap_constraints d" "cap_effect c = cap_effect d"
    "cap_expires_at c = cap_expires_at d" "cap_parent_cap_id c = cap_parent_cap_id d"
    "cap_delegation_depth c = cap_delegation_depth d"
    "cap_uses_remaining c = None \<longleftrightarrow> cap_uses_remaining d = None"
  using assms unfolding skel_def by (cases c; cases d; auto split: option.splits)+

lemma same_skel_refl [simp]: "same_skel st st"
  by (simp add: same_skel_def)

lemma same_skel_trans: "same_skel st st' \<Longrightarrow> same_skel st' st'' \<Longrightarrow> same_skel st st''"
  by (simp add: same_skel_def)

lemma same_skel_row:
  assumes "same_skel st st'" "c' \<in> set (st_caps st')"
  shows "\<exists>c \<in> set (st_caps st). skel c' = skel c"
proof -
  have "skel c' \<in> set (map skel (st_caps st))"
    using assms unfolding same_skel_def by (metis image_eqI list.set_map)
  then show ?thesis by auto
qed

lemma same_skel_sym: "same_skel st st' \<Longrightarrow> same_skel st' st"
  by (simp add: same_skel_def)

lemma same_skel_ids:
  assumes "same_skel st st'"
  shows "map cap_id (st_caps st') = map cap_id (st_caps st)"
proof -
  have "map cap_id (map skel (st_caps st')) = map cap_id (map skel (st_caps st))"
    using assms by (simp add: same_skel_def)
  then show ?thesis by (simp add: comp_def skel_def)
qed

lemma same_skel_map_res [simp]: "same_skel st (map_res p f st)"
  by (simp add: same_skel_def)

lemma same_skel_settle [simp]: "same_skel st (settle rid s now st)"
  by (simp add: settle_def)

lemma same_skel_map_cap:
  "(\<And>c. c \<in> set (st_caps st) \<Longrightarrow> cap_id c = i \<Longrightarrow> skel (f c) = skel c) \<Longrightarrow> same_skel st (map_cap i f st)"
  by (auto simp: same_skel_def map_cap_def)

lemma skel_decrement [simp]: "skel (decrement n c) = skel c"
  by (auto simp: skel_def decrement_def split: option.split)

lemma skel_give_back [simp]: "skel (give_back n c) = skel c"
  by (auto simp: skel_def give_back_def split: option.split)

lemma skel_revoked_copy [simp]: "skel (revoked_copy c) = skel c"
  by (simp add: skel_def revoked_copy_def)

lemma skel_status [simp]: "skel (c\<lparr>cap_status := s, cap_metadata := md\<rparr>) = skel c"
  by (simp add: skel_def)

lemma update_skel:
  assumes "distinct (map cap_id (st_caps st))" "c0 \<in> set (st_caps st)" "skel c = skel c0"
    "update_capability h mr c now st = Inr st'"
  shows "same_skel st st'"
proof -
  have "same_skel st (map_cap (cap_id c) (\<lambda>_. c) st)"
  proof (rule same_skel_map_cap)
    fix d assume "d \<in> set (st_caps st)" "cap_id d = cap_id c"
    then have "d = c0"
      using assms(1,2) skel_fields(1) [OF assms(3)] by (auto simp: distinct_map inj_on_def)
    then show "skel c = skel d" using assms(3) by simp
  qed
  then show ?thesis
    using assms(4) by (auto simp: update_capability_def res_simps Let_def invalidate_reservations_def
        intro: same_skel_trans split: if_splits)
qed

lemma update_all_skel:
  "distinct (map cap_id (st_caps st)) \<Longrightarrow> \<forall>c \<in> set cs. \<exists>c0 \<in> set (st_caps st). skel c = skel c0 \<Longrightarrow>
   update_all h mr now cs st = Inr st' \<Longrightarrow> same_skel st st'"
proof (induction cs arbitrary: st)
  case (Cons c cs)
  then obtain st1 c0 where u: "update_capability h mr c now st = Inr st1" "update_all h mr now cs st1 = Inr st'"
    and c0: "c0 \<in> set (st_caps st)" "skel c = skel c0"
    by (auto simp: res_simps)
  have s1: "same_skel st st1" by (rule update_skel [OF Cons.prems(1) c0 u(1)])
  have "\<forall>c \<in> set cs. \<exists>c0 \<in> set (st_caps st1). skel c = skel c0"
    using Cons.prems(2) same_skel_row [OF same_skel_sym [OF s1]] by fastforce
  from Cons.IH [OF _ this u(2)] Cons.prems(1) same_skel_ids [OF s1] same_skel_trans [OF s1]
  show ?case by simp
qed simp

lemma keep_skel: "(\<And>st' x. r = Inr (st', x) \<Longrightarrow> same_skel st st') \<Longrightarrow> same_skel st (keep st r)"
  by (auto simp: keep_def split: sum.split)

lemma consume_skel: "lease_consume i n st = Inr (st', x) \<Longrightarrow> same_skel st st'"
  by (auto simp: lease_consume_def consume_uses_def res_simps intro!: same_skel_map_cap
      split: option.splits if_splits)

lemma reserve_skel: "lease_reserve i rid n by reason now st = Inr (st', x) \<Longrightarrow> same_skel st st'"
  using same_skel_map_cap [of st i "decrement n"]
  by (auto simp: lease_reserve_def reserve_uses_def lease_count_def positive_use_count_def res_simps same_skel_def
      split: option.splits if_splits)

lemma restore_skel: "lease_restore rid now st = Inr (st', x) \<Longrightarrow> same_skel st st'"
  by (auto simp: lease_restore_def restore_reservation_def
      intro!: same_skel_trans [OF same_skel_map_cap same_skel_settle] split: option.splits if_splits)

lemma commit_skel [simp]: "same_skel st (fst (lease_commit rid now st))"
  by (simp add: lease_commit_def commit_reservation_def split: option.split)

lemma abandon_pages_skel:
  "abandon_pages fuel n now after k sample st = Some (st', x) \<Longrightarrow> same_skel st st'"
proof (induction fuel arbitrary: after k sample st)
  case (Suc fuel)
  have f: "same_skel st (fold (abandon_row now) rs st)" for rs
    by (induction rs arbitrary: st) (auto simp: abandon_row_def intro: same_skel_trans [OF same_skel_settle])
  show ?case
  proof (cases "stale_page n after st = []")
    case False
    with Suc.prems have "abandon_pages fuel n now (Some (stale_key (last (stale_page n after st))))
        (k + int (length (stale_page n after st))) (take n (sample @ map ur_id (stale_page n after st)))
        (fold (abandon_row now) (stale_page n after st) st) = Some (st', x)"
      by (simp add: Let_def)
    from same_skel_trans [OF f Suc.IH [OF this]] show ?thesis .
  qed (use Suc.prems in simp)
qed simp

lemma transition_skel:
  assumes "distinct (map cap_id (st_caps st))" "transition_status i expected s md now st = (st', x)"
  shows "same_skel st st'"
proof (cases "get_cap st i")
  case None
  then show ?thesis using assms(2) by (simp add: transition_status_def)
next
  case (Some c)
  have "same_skel st (map_cap i (\<lambda>_. c\<lparr>cap_status := s, cap_metadata := md\<rparr>) st)"
  proof (rule same_skel_map_cap)
    fix d assume "d \<in> set (st_caps st)" "cap_id d = i"
    then have "d = c" using assms(1) get_cap_SomeD [OF Some] by (auto simp: distinct_map inj_on_def)
    then show "skel (c\<lparr>cap_status := s, cap_metadata := md\<rparr>) = skel d" by simp
  qed
  then show ?thesis using assms(2) Some
    by (auto simp: transition_status_def Let_def invalidate_reservations_def intro: same_skel_trans
        split: if_splits)
qed

lemma require_cap_row: "require_cap st i = Inr c \<Longrightarrow> c \<in> set (st_caps st)"
  by (auto simp: require_cap_def dest: get_cap_SomeD split: option.splits)

lemma listed_skel:
  "\<forall>c \<in> set (map revoked_copy (filter P (list_caps st subj))). \<exists>c0 \<in> set (st_caps st). skel c = skel c0"
  using set_list_caps by fastforce

lemma status_update_skel:
  assumes "distinct (map cap_id (st_caps st))" "require_cap st i = Inr c"
    "update_capability h mr (c\<lparr>cap_status := s, cap_metadata := md\<rparr>) now st = Inr st'"
  shows "same_skel st st'"
  by (rule update_skel [OF assms(1) require_cap_row [OF assms(2)] skel_status assms(3)])

lemma revoke_skel:
  "distinct (map cap_id (st_caps st)) \<Longrightarrow> mutation_revoke h mr i now st = Inr (st', x) \<Longrightarrow> same_skel st st'"
  by (auto simp: mutation_revoke_def require_revocable_def res_simps Let_def split: if_splits
      intro: status_update_skel)

lemma lease_skel:
  assumes d: "distinct (map cap_id (st_caps st))"
  shows "same_skel st (lease_apply h mr now op st)"
proof (cases op)
  case (AbandonStale n)
  then show ?thesis
    by (auto simp: abandon_stale_def simp del: abandon_pages.simps dest: abandon_pages_skel split: option.splits)
next
  case (StageExec i tok)
  have "same_skel st st'" if "stage_exec_revocation i tok now st = Inr (st', x)" for st' x
    using that transition_skel [OF d]
    by (auto simp: stage_exec_revocation_def res_simps Let_def split: if_splits option.splits prod.splits)
  then show ?thesis unfolding StageExec lease_apply.simps by (rule keep_skel)
next
  case (Disable i)
  have "same_skel st st'" if "disable_capability h mr i now st = Inr (st', x)" for st' x
    using that status_update_skel [OF d] by (auto simp: disable_capability_def res_simps Let_def)
  then show ?thesis unfolding Disable lease_apply.simps by (rule keep_skel)
next
  case (FinalizeExec subj tok)
  have "same_skel st st'" if "finalize_exec_revocations h mr subj tok now st = Inr (st', x)" for st' x
    using that update_all_skel [OF d listed_skel] by (auto simp: finalize_exec_revocations_def res_simps Let_def)
  then show ?thesis unfolding FinalizeExec lease_apply.simps by (rule keep_skel)
next
  case (RevokeResource res)
  have "same_skel st st'" if "revoke_resource h mr res now st = Inr (st', x)" for st' x
    using that update_all_skel [OF d listed_skel] by (auto simp: revoke_resource_def res_simps Let_def)
  then show ?thesis unfolding RevokeResource lease_apply.simps by (rule keep_skel)
qed (simp_all add: keep_skel consume_skel reserve_skel restore_skel revoke_skel [OF d])

section \<open>Expiry\<close>

text \<open>
  The clock texts: an instant that the reader returns is read back from its text, and the texts of two
  such instants are ordered as the instants. Python's ISO format of UTC instants has both properties.
\<close>

definition readable :: "host \<Rightarrow> int \<Rightarrow> bool" where
  "readable h t \<longleftrightarrow> (\<exists>s. expires_at_datetime h s = Inr t)"

definition iso_clock :: "host \<Rightarrow> bool" where
  "iso_clock h \<longleftrightarrow>
     (\<forall>t. readable h t \<longrightarrow> expires_at_datetime h (h_isoformat h t) = Inr t)
     \<and> (\<forall>s t. readable h s \<longrightarrow> readable h t \<longrightarrow> s < t \<longrightarrow> h_isoformat h s < h_isoformat h t)"

definition expiry_text :: "host \<Rightarrow> string option \<Rightarrow> bool" where
  "expiry_text h o' \<longleftrightarrow> (case o' of None \<Rightarrow> True | Some e \<Rightarrow> \<exists>t. readable h t \<and> e = h_isoformat h t)"

definition expires_within :: "host \<Rightarrow> capability_row \<Rightarrow> capability_row \<Rightarrow> bool" where
  "expires_within h p c \<longleftrightarrow> (\<forall>t. is_expired h t p \<longrightarrow> is_expired h t c)"

lemma normalize_expires_text: "normalize_expires h v = Inr o' \<Longrightarrow> expiry_text h o'"
  unfolding normalize_expires_def expiry_text_def readable_def
  by (cases v) (auto simp: res_simps, blast)

lemma coerce_lease_text: "coerce_lease h v = Inr x \<Longrightarrow> expiry_text h (fst x)"
  by (auto simp: coerce_lease_def res_simps split: pyval.splits if_splits dest: normalize_expires_text)

lemma spec_effect_text:
  assumes "spec_effect env d pol = Inr x"
  shows "expiry_text (ce_host env) (fst (snd x))"
proof -
  have "\<exists>e0. normalize_expires (ce_host env) (dget d ''expires_at'') = Inr e0
      \<and> (fst (snd x) = e0 \<or> coerce_lease (ce_host env) (dget d ''lease'') = Inr (snd x))"
    using assms unfolding spec_effect_def Let_def bindR_Inr_iff case_prod_beta
    by (elim exE conjE) (auto split: if_split_asm)
  then show ?thesis using normalize_expires_text coerce_lease_text by blast
qed

lemma coerce_spec_text:
  assumes "coerce_spec env s v = Inr sp"
  shows "expiry_text (ce_host env) (sp_expires sp)"
proof -
  obtain d pol x where "spec_effect env d pol = Inr x" "sp_expires sp = fst (snd x)"
    using assms unfolding coerce_spec_def bindR_Inr_iff case_prod_beta by auto
  then show ?thesis using spec_effect_text by simp
qed

lemma draft_expires_within:
  assumes clock: "iso_clock (ce_host env)" and temporal: "require_temporal env p sp = Inr ()"
    and texts: "expiry_text (ce_host env) (sp_expires sp)" "expiry_text (ce_host env) (cap_expires_at p)"
    and x: "x = cap_expires_at p \<or> x = sp_expires sp \<and> sp_expires sp \<noteq> None"
    and n: "normalize_expires (ce_host env) (opt_str x) = Inr (cap_expires_at c)"
  shows "expires_within (ce_host env) p c"
proof (cases "cap_expires_at p")
  case None
  then show ?thesis by (simp add: expires_within_def is_expired_def)
next
  case (Some pe)
  then obtain s where s: "readable (ce_host env) s" "pe = h_isoformat (ce_host env) s"
    using texts(2) by (auto simp: expiry_text_def)
  from x Some obtain e where e: "x = Some e" by auto
  then have "\<exists>t \<le> s. readable (ce_host env) t \<and> e = h_isoformat (ce_host env) t"
  proof (cases "x = cap_expires_at p")
    case False
    then have se: "sp_expires sp = Some e" using x e by simp
    then obtain t where t: "readable (ce_host env) t" "e = h_isoformat (ce_host env) t"
      using texts(1) by (auto simp: expiry_text_def)
    have "\<not> pe < e" using temporal se Some by (auto simp: require_temporal_def res_simps split: if_splits)
    then have "t \<le> s" using clock s t by (force simp: iso_clock_def)
    then show ?thesis using t by blast
  qed (use s e Some in auto)
  then obtain t where t: "t \<le> s" "readable (ce_host env) t" "e = h_isoformat (ce_host env) t" by blast
  have "cap_expires_at c = Some e"
    using n e t clock by (auto simp: opt_str_def normalize_expires_def iso_clock_def)
  then show ?thesis using Some s t clock by (auto simp: expires_within_def is_expired_def iso_clock_def)
qed

section \<open>The family of a grant\<close>

definition under :: "cap_env \<Rightarrow> capability_row \<Rightarrow> capability_row \<Rightarrow> bool" where
  "under env p c \<longleftrightarrow>
     cap_parent_cap_id c = Some (cap_id p) \<and> cap_effect p = Allow \<and> cap_uses_remaining p = None
     \<and> matches (cap_resource p) (cap_resource c) \<and> set (cap_rights c) \<subseteq> set (cap_rights p)
     \<and> attenuates env (cap_constraints p) (cap_constraints c)
     \<and> cap_delegation_depth c = cap_delegation_depth p + 1
     \<and> (iso_clock (ce_host env) \<longrightarrow> expires_within (ce_host env) p c)"

definition family_ok :: "cap_env \<Rightarrow> cap_store \<Rightarrow> bool" where
  "family_ok env st \<longleftrightarrow>
     distinct (map cap_id (st_caps st))
     \<and> (\<forall>c \<in> set (st_caps st). expiry_text (ce_host env) (cap_expires_at c)
          \<and> (cap_parent_cap_id c \<noteq> None \<longrightarrow> (\<exists>p \<in> set (st_caps st). under env p c)))"

lemma under_skel:
  assumes "under env p c" "skel p' = skel p" "skel c' = skel c"
  shows "under env p' c'"
  using assms skel_fields [OF assms(2)] skel_fields [OF assms(3)]
  by (simp add: under_def expires_within_def is_expired_def)

lemma family_ok_skel:
  assumes ok: "family_ok env st" and sk: "same_skel st st'"
  shows "family_ok env st'"
  unfolding family_ok_def
proof (intro conjI ballI impI)
  show "distinct (map cap_id (st_caps st'))"
    using ok same_skel_ids [OF sk] by (simp add: family_ok_def)
  fix c' assume "c' \<in> set (st_caps st')"
  from same_skel_row [OF sk this] obtain c where c: "c \<in> set (st_caps st)" "skel c' = skel c" by blast
  show "expiry_text (ce_host env) (cap_expires_at c')"
    using ok c skel_fields(7) [OF c(2)] by (simp add: family_ok_def)
  assume "cap_parent_cap_id c' \<noteq> None"
  then obtain p where p: "p \<in> set (st_caps st)" "under env p c"
    using ok c skel_fields(8) [OF c(2)] by (auto simp: family_ok_def)
  from same_skel_row [OF same_skel_sym [OF sk] p(1)] obtain p' where
    p': "p' \<in> set (st_caps st')" "skel p = skel p'" by blast
  show "\<exists>p \<in> set (st_caps st'). under env p c'"
    using under_skel [OF p(2) p'(2) [symmetric] c(2)] p'(1) by blast
qed

lemma publish_family:
  assumes "family_ok env st" "publish env cid stamp draft st = Inr (st', c)"
    and "expiry_text (ce_host env) (cap_expires_at draft)"
    and "cap_parent_cap_id draft \<noteq> None \<longrightarrow> (\<exists>p \<in> set (st_caps st). under env p c)"
  shows "family_ok env st'"
proof -
  note pub = publish_Inr [OF assms(2)]
  have "cid \<notin> cap_id ` set (st_caps st)"
    using pub(2) find_NoneD by (fastforce simp: get_cap_def)
  then show ?thesis using assms(1,3,4) pub(3) by (auto simp: family_ok_def pub(1))
qed

lemma delegate_selected_family:
  assumes ok: "family_ok env st" and exp: "expiry_text (ce_host env) (sp_expires sp)"
    and d: "delegate_selected env cid stamp parent child actor sp st = Inr (st', c)"
  shows "family_ok env st'"
proof -
  obtain p draft where fp: "find_delegation_parent env st parent sp = Inr p"
    and dr: "capability_draft env (draft_row child sp
         (dset (sp_metadata sp) ''delegated_from'' (VStr parent))
         (case text_or actor None of Some a \<Rightarrow> a | None \<Rightarrow> parent) (Some (cap_id p)) (Some (cap_id p))
         (cap_delegation_depth p + 1) (Some (delegated_max_depth env p sp))
         (text_or (sp_expires sp) (cap_expires_at p))) = Inr draft"
    and pub: "publish env cid stamp draft st = Inr (st', c)"
    by (rule delegate_selected_Inr [OF d])
  note P = find_delegation_parent_Inr [OF fp]
  note V = delegation_parent_ok [OF P(5)]
  note D = capability_draft_Inr [OF dr, unfolded draft_row_def, simplified]
  note c = publish_Inr(3) [OF pub]
  have "text_or (sp_expires sp) (cap_expires_at p) = cap_expires_at p
      \<or> text_or (sp_expires sp) (cap_expires_at p) = sp_expires sp \<and> sp_expires sp \<noteq> None"
    by (auto simp: text_or_def split: option.split)
  note W = draft_expires_within [OF _ V(4) exp _ this, of c]
  have "under env p c"
    using could_parentD [OF P(3)] V D W ok P(1) by (simp add: under_def c family_ok_def)
  then show ?thesis using publish_family [OF ok pub] normalize_expires_text [OF D(10)] P(1) by blast
qed

lemma issue_draft_family:
  assumes ok: "family_ok env st" and exp: "expiry_text (ce_host env) (sp_expires sp)"
    and tp: "\<forall>p. tp = Some p \<longrightarrow> find_transfer_parent env st actor sp = Inr p"
    and dr: "issue_draft env actor subj sp tp i = Inr draft" and pub: "publish env cid stamp draft st = Inr (st', c)"
  shows "family_ok env st'"
proof (cases tp)
  case None
  note D = capability_draft_Inr [OF dr [unfolded issue_draft_def draft_row_def None], simplified]
  show ?thesis using publish_family [OF ok pub normalize_expires_text [OF D(10)]] D by simp
next
  case (Some p)
  then have fp: "find_transfer_parent env st actor sp = Inr p" using tp by simp
  note P = find_transfer_parent_Inr [OF fp]
  note V = transfer_parent_ok [OF P(4)]
  note D = capability_draft_Inr [OF dr [unfolded issue_draft_def draft_row_def Some], simplified]
  note c = publish_Inr(3) [OF pub]
  have "(if sp_expires sp = None then cap_expires_at p else sp_expires sp) = cap_expires_at p
      \<or> (if sp_expires sp = None then cap_expires_at p else sp_expires sp) = sp_expires sp \<and> sp_expires sp \<noteq> None"
    by auto
  note W = draft_expires_within [OF _ V(5) exp _ this, of c]
  have "under env p c"
    using could_parentD [OF P(3)] V D W ok P(1) by (simp add: under_def c family_ok_def)
  then show ?thesis using publish_family [OF ok pub] normalize_expires_text [OF D(10)] P(1) by blast
qed

section \<open>Authority transactions and issue\<close>

lemma reserve_each_skel:
  "reserve_each fresh actor opn stamp ds rs st = Inr (st', rs') \<Longrightarrow> same_skel st st'"
proof (induction ds arbitrary: rs st)
  case (Cons d ds)
  show ?case
  proof (cases "\<exists>i. cd_consume d = Some i \<and> map_of rs i = None")
    case True
    then obtain i st1 rid where "lease_reserve i (fresh (length rs)) 1 actor
        (''one-time '' @ opn @ '' authority reserved'') stamp st = Inr (st1, rid)"
      "reserve_each fresh actor opn stamp ds (rs @ [(i, rid)]) st1 = Inr (st', rs')"
      using Cons.prems by (auto simp: reserve_decision_def res_simps)
    then show ?thesis using reserve_skel Cons.IH same_skel_trans by blast
  next
    case False
    then show ?thesis using Cons by (auto split: option.splits if_splits)
  qed
qed simp

lemma commit_each_skel: "commit_each opn stamp rs st = Inr st' \<Longrightarrow> same_skel st st'"
proof (induction rs arbitrary: st)
  case (Cons r rs)
  then obtain i rid where r: "r = (i, rid)" by (cases r)
  then have "commit_each opn stamp rs (fst (lease_commit (Some rid) stamp st)) = Inr st'"
    using Cons.prems by (auto split: prod.splits if_splits)
  then show ?case using Cons.IH same_skel_trans [OF commit_skel] by blast
qed simp

lemma reserve_unlimited:
  "lease_reserve i rid n by reason now st = Inr (st', x) \<Longrightarrow> c \<in> set (st_caps st') \<Longrightarrow>
   cap_uses_remaining c = None \<Longrightarrow> c \<in> set (st_caps st)"
  by (auto simp: lease_reserve_def reserve_uses_def lease_count_def positive_use_count_def res_simps
      map_cap_def decrement_def split: option.splits if_splits)

lemma reserve_each_unlimited:
  "reserve_each fresh actor opn stamp ds rs st = Inr (st', rs') \<Longrightarrow> c \<in> set (st_caps st') \<Longrightarrow>
   cap_uses_remaining c = None \<Longrightarrow> c \<in> set (st_caps st)"
proof (induction ds arbitrary: rs st)
  case (Cons d ds)
  show ?case
  proof (cases "\<exists>i. cd_consume d = Some i \<and> map_of rs i = None")
    case True
    then obtain i st1 rid where "lease_reserve i (fresh (length rs)) 1 actor
        (''one-time '' @ opn @ '' authority reserved'') stamp st = Inr (st1, rid)"
      "reserve_each fresh actor opn stamp ds (rs @ [(i, rid)]) st1 = Inr (st', rs')"
      using Cons.prems(1) by (auto simp: reserve_decision_def res_simps)
    then show ?thesis using reserve_unlimited Cons by blast
  next
    case False
    then show ?thesis using Cons by (auto split: option.splits if_splits)
  qed
qed simp

lemma authority_transaction_Inr:
  assumes "authority_transaction env fresh actor opn stamp reauth ds body st l = (l', Inr (st', cur, x))"
  obtains st1 st2 where "same_skel st st1" "body cur st1 = Inr (st2, x)" "same_skel st2 st'"
    "\<forall>c \<in> set (st_caps st1). cap_uses_remaining c = None \<longrightarrow> c \<in> set (st_caps st)"
proof -
  obtain rs st1 st2 where r: "reserve_each fresh actor opn stamp cur [] st = Inr (st1, rs)"
    and b: "body cur st1 = Inr (st2, x)" and c: "commit_each opn stamp rs st2 = Inr st'"
    using assms unfolding authority_transaction_def
    by (auto simp: bindL_Inr_iff simp del: bindL_liftL split: prod.splits) metis
  show thesis
    by (rule that [OF reserve_each_skel [OF r] b commit_each_skel [OF c]])
      (use reserve_each_unlimited [OF r] in blast)
qed

lemma issue_Inr:
  assumes "issue env fresh cid stamp actor subj structured v st l = (l', Inr (st', c))"
  obtains sp d tp l1 cur st1 st2 where "coerce_spec env structured v = Inr sp"
    "require_issue_authority env st actor sp l = (l1, Inr (d, tp))" "same_skel st st1"
    "issue_body env cid stamp actor subj sp (tp \<noteq> None) cur st1 = Inr (st2, c)" "same_skel st2 st'"
    "\<forall>c \<in> set (st_caps st1). cap_uses_remaining c = None \<longrightarrow> c \<in> set (st_caps st)"
proof -
  obtain sp d tp l1 l2 cur where "coerce_spec env structured v = Inr sp"
    "require_issue_authority env st actor sp l = (l1, Inr (d, tp))"
    "authority_transaction env fresh actor ''capability issue'' stamp (reauthorize_decision env) [d]
       (issue_body env cid stamp actor subj sp (tp \<noteq> None)) st l1 = (l2, Inr (st', cur, c))"
    using assms unfolding issue_def
    by (auto simp: bindL_Inr_iff simp del: bindL_liftL not_None_eq split: prod.splits) (metis (no_types))
  then show thesis using that by (metis authority_transaction_Inr)
qed

lemma issue_body_Inr:
  assumes "issue_body env cid stamp actor subj sp transfers cur st = Inr (st', c)"
  obtains tp draft where "issue_draft env actor subj sp tp (cd_selected (hd cur)) = Inr draft"
    "publish env cid stamp draft st = Inr (st', c)" "transfers \<longleftrightarrow> tp \<noteq> None"
    "\<forall>p. tp = Some p \<longrightarrow> find_transfer_parent env st actor sp = Inr p"
  using assms by (auto simp: issue_body_def res_simps split: if_splits)

text \<open>The two bodies that this theory runs in a transaction leave the live reservations of the transaction as they are.\<close>

lemma issue_body_keeps: "keeps_reservations (issue_body env cid stamp actor subj sp transfers cur)"
proof -
  have "st_res st2 = st_res st1" if "issue_body env cid stamp actor subj sp transfers cur st1 = Inr (st2, c)" for st1 st2 c
    using that by (rule issue_body_Inr) (drule publish_Inr(1), simp)
  then show ?thesis by (auto simp: keeps_reservations_def reserved_now_def)
qed

lemma revoke_body_keeps: "keeps_reservations (mutation_revoke h mr cid stamp)"
  unfolding keeps_reservations_def
proof (intro allI impI conjI)
  fix st1 st2 y assume b: "mutation_revoke h mr cid stamp st1 = Inr (st2, y) \<and> distinct (map ur_id (st_res st1))"
  then obtain c where st2: "st2 = invalidate_reservations cid stamp (map_cap cid (\<lambda>_. c) st1)"
    by (auto elim: mutation_revoke_cases)
  have ids: "map ur_id (st_res st2) = map ur_id (st_res st1)"
    by (simp add: st2 invalidate_reservations_def map_res_def map_cap_def comp_def if_distrib cong: if_cong)
  then show "distinct (map ur_id (st_res st2))" using b by simp
  fix rid r r' assume r: "reserved_now st1 rid = Some r \<and> reserved_now st2 rid = Some r'"
  have "r' \<in> set (st_res st1)"
    using reserved_nowD [OF conjunct2 [OF r]] by (auto simp: st2 invalidate_reservations_def map_res_def map_cap_def split: if_splits)
  then show "r' = r" using b r reserved_nowD by (auto simp: distinct_map dest!: reserved_nowD dest: inj_onD)
qed

lemma revoke_Inr_skel:
  assumes "distinct (map cap_id (st_caps st))"
    "revoke env fresh stamp cid actor require_authority st l = (l', Inr (st', c))"
  shows "same_skel st st'"
proof -
  have m: "same_skel s s'" if "mutation_revoke h mr cid stamp s = Inr (s', x)" "same_skel st s" for s s' h mr x
    using revoke_skel [OF _ that(1)] same_skel_ids [OF that(2)] assms(1) by simp
  consider "mutation_revoke (ce_host env) (ce_max_rights env) cid stamp st = Inr (st', c)"
    | dec cur l1 l2 where "authority_transaction env fresh actor ''capability revoke'' stamp (reauthorize_decision env)
       [dec] (\<lambda>_ st. mutation_revoke (ce_host env) (ce_max_rights env) cid stamp st) st l1 = (l2, Inr (st', cur, c))"
    using assms(2) unfolding revoke_def
    by (auto simp: bindL_Inr_iff simp del: bindL_liftL split: prod.splits option.splits)
  then show ?thesis
  proof cases
    case 1
    then show ?thesis using m by simp
  next
    case 2
    from this obtain st1 st2 where "same_skel st st1"
      "mutation_revoke (ce_host env) (ce_max_rights env) cid stamp st1 = Inr (st2, c)" "same_skel st2 st'"
      by (rule authority_transaction_Inr)
    then show ?thesis using m same_skel_trans by blast
  qed
qed

section \<open>Reachable stores\<close>

datatype cap_op =
    Delegate string string "string option" bool pyval
  | Derive string string "(bool \<times> pyval) list" string "(capability_row + (bool \<times> pyval)) list" "string option"
  | Issue string string bool pyval
  | IssueTrusted string string "string option" bool pyval
  | RevokeBy string string bool
  | Lease lease_op

fun cap_apply ::
  "cap_env \<Rightarrow> (nat \<Rightarrow> string) \<Rightarrow> string \<Rightarrow> string \<Rightarrow> bool \<Rightarrow> cap_op \<Rightarrow> cap_store \<Rightarrow> cap_store" where
  "cap_apply env fresh cid stamp l (Delegate parent child actor structured v) st =
     keep st (delegate env cid stamp parent child actor structured v st)"
| "cap_apply env fresh cid stamp l (Derive source target requested kind ceil_specs actor) st =
     keep st (derive_authority env fresh stamp source target requested kind ceil_specs actor st)"
| "cap_apply env fresh cid stamp l (Issue actor subj structured v) st =
     keep st (snd (issue env fresh cid stamp actor subj structured v st l))"
| "cap_apply env fresh cid stamp l (IssueTrusted actor subj issuer_cap structured v) st =
     keep st (issue_unchecked env cid stamp actor subj issuer_cap structured v st)"
| "cap_apply env fresh cid stamp l (RevokeBy i actor require_authority) st =
     keep st (snd (revoke env fresh stamp i actor require_authority st l))"
| "cap_apply env fresh cid stamp l (Lease op) st = lease_apply (ce_host env) (ce_max_rights env) stamp op st"

text \<open>
  The stores that a sequence of operations reaches from the empty one; each operation has its own clock,
  validator, admission gate and latch, over one Host and one key of shell rules.
\<close>

inductive reach :: "cap_env \<Rightarrow> cap_store \<Rightarrow> bool" for env where
  empty: "reach env \<lparr>st_caps = [], st_res = []\<rparr>"
| step: "reach env st \<Longrightarrow> ce_host env' = ce_host env \<Longrightarrow> ce_shell_key env' = ce_shell_key env \<Longrightarrow>
    reach env (cap_apply env' fresh cid stamp l op st)"

lemma family_ok_env:
  "ce_host env' = ce_host env \<Longrightarrow> ce_shell_key env' = ce_shell_key env \<Longrightarrow> family_ok env' st = family_ok env st"
  by (simp add: family_ok_def under_def attenuates_def)

lemma delegate_all_family:
  "family_ok env st \<Longrightarrow> \<forall>sp \<in> set sps. expiry_text (ce_host env) (sp_expires sp) \<Longrightarrow>
   delegate_all env fresh stamp source target actor n sps st = Inr (st', cs) \<Longrightarrow> family_ok env st'"
proof (induction sps arbitrary: n st cs)
  case (Cons sp sps)
  then obtain st1 c cs1 where "delegate_selected env (fresh n) stamp source target (Some actor) sp st = Inr (st1, c)"
    "delegate_all env fresh stamp source target actor (Suc n) sps st1 = Inr (st', cs1)"
    by (auto simp: res_simps split: prod.splits)
  then show ?case using delegate_selected_family Cons by (metis list.set_intros)
qed simp

lemma keep_family:
  "family_ok env st \<Longrightarrow> (\<And>st' x. r = Inr (st', x) \<Longrightarrow> family_ok env st') \<Longrightarrow> family_ok env (keep st r)"
  by (auto simp: keep_def split: sum.split)

lemma cap_apply_family:
  assumes ok: "family_ok env st"
  shows "family_ok env (cap_apply env fresh cid stamp l op st)"
proof (cases op)
  case (Delegate parent child actor structured v)
  have "family_ok env st'" if "delegate env cid stamp parent child actor structured v st = Inr (st', c)" for st' c
    using that delegate_selected_family [OF ok coerce_spec_text] by (auto simp: delegate_def res_simps)
  then show ?thesis unfolding Delegate cap_apply.simps by (rule keep_family [OF ok])
next
  case (Derive source target requested kind ceil_specs actor)
  have "family_ok env st'"
    if d: "derive_authority env fresh stamp source target requested kind ceil_specs actor st = Inr (st', cs)" for st' cs
  proof -
    obtain sps a where sps: "mapR (\<lambda>(structured, v). coerce_spec env structured v) requested = Inr sps"
      "delegate_all env fresh stamp source target a 0 sps st = Inr (st', cs)"
      using d by (auto simp: derive_authority_def res_simps)
    have "\<forall>sp \<in> set sps. expiry_text (ce_host env) (sp_expires sp)"
      using mapR_Inr_set [OF sps(1)] coerce_spec_text by fastforce
    from delegate_all_family [OF ok this sps(2)] show ?thesis .
  qed
  then show ?thesis unfolding Derive cap_apply.simps by (rule keep_family [OF ok])
next
  case (Issue actor subj structured v)
  have "family_ok env st'"
    if d: "snd (issue env fresh cid stamp actor subj structured v st l) = Inr (st', c)" for st' c
  proof -
    obtain l' where "issue env fresh cid stamp actor subj structured v st l = (l', Inr (st', c))"
      using d by (metis prod.collapse)
    then obtain sp tp0 cur st1 st2 where sp: "coerce_spec env structured v = Inr sp" and s1: "same_skel st st1"
      and b: "issue_body env cid stamp actor subj sp (tp0 \<noteq> (None :: capability_row option)) cur st1 = Inr (st2, c)"
      and s2: "same_skel st2 st'"
      by (rule issue_Inr)
    obtain tp draft where tp: "issue_draft env actor subj sp tp (cd_selected (hd cur)) = Inr draft"
      "publish env cid stamp draft st1 = Inr (st2, c)"
      "\<forall>p. tp = Some p \<longrightarrow> find_transfer_parent env st1 actor sp = Inr p"
      by (rule issue_body_Inr [OF b])
    from issue_draft_family [OF family_ok_skel [OF ok s1] coerce_spec_text [OF sp] tp(3,1,2)]
    show ?thesis using family_ok_skel s2 by blast
  qed
  then show ?thesis unfolding Issue cap_apply.simps by (rule keep_family [OF ok])
next
  case (IssueTrusted actor subj issuer_cap structured v)
  have "family_ok env st'"
    if "issue_unchecked env cid stamp actor subj issuer_cap structured v st = Inr (st', c)" for st' c
    using that issue_draft_family [OF ok coerce_spec_text] by (fastforce simp: issue_unchecked_def res_simps)
  then show ?thesis unfolding IssueTrusted cap_apply.simps by (rule keep_family [OF ok])
next
  case (RevokeBy i actor require_authority)
  have "family_ok env st'"
    if "snd (revoke env fresh stamp i actor require_authority st l) = Inr (st', c)" for st' c
    using that revoke_Inr_skel family_ok_skel [OF ok] ok by (metis family_ok_def prod.collapse)
  then show ?thesis unfolding RevokeBy cap_apply.simps by (rule keep_family [OF ok])
next
  case (Lease op')
  then show ?thesis using family_ok_skel [OF ok lease_skel] ok by (simp add: family_ok_def)
qed

lemma reach_family: "reach env st \<Longrightarrow> family_ok env st"
proof (induction rule: reach.induct)
  case empty
  then show ?case by (simp add: family_ok_def)
next
  case (step st env' fresh cid stamp l op)
  then show ?case using cap_apply_family [of env' st] family_ok_env [of env' env] by simp
qed

lemma draft_uses: "capability_draft env r = Inr d \<Longrightarrow> cap_uses_remaining d = cap_uses_remaining r"
  unfolding capability_draft_def bindR_Inr_iff
  by (auto simp: positive_uses_def opt_int_def split: option.splits if_splits)

lemma reach_parent:
  assumes "reach env st" "c \<in> set (st_caps st)" "cap_parent_cap_id c = Some i"
  shows "\<exists>p. get_cap st i = Some p \<and> p \<in> set (st_caps st) \<and> under env p c"
proof -
  have ok: "family_ok env st" by (rule reach_family [OF assms(1)])
  then obtain p where p: "p \<in> set (st_caps st)" "under env p c"
    using assms(2,3) by (auto simp: family_ok_def)
  moreover have "get_cap st i = Some p"
    using get_cap_in [of st p] ok p assms(3) by (simp add: family_ok_def under_def)
  ultimately show ?thesis by blast
qed

lemma reach_ancestor:
  assumes "reach env st" "ancestor st c a" "c \<in> set (st_caps st)"
  shows "a \<in> set (st_caps st) \<and> cap_effect a = Allow \<and> cap_uses_remaining a = None
    \<and> set (cap_rights c) \<subseteq> set (cap_rights a) \<and> cap_delegation_depth a < cap_delegation_depth c
    \<and> (iso_clock (ce_host env) \<longrightarrow> expires_within (ce_host env) a c)"
  using assms(2,3)
proof (induction rule: ancestor.induct)
  case (parent c i p)
  then show ?case using reach_parent [OF assms(1)] by (fastforce simp: under_def)
next
  case (further c a i b)
  then have a: "a \<in> set (st_caps st)" by blast
  from reach_parent [OF assms(1) a further(2)] further(3) have "b \<in> set (st_caps st)" "under env b a" by auto
  then show ?case using further.IH further.prems by (auto simp: under_def expires_within_def)
qed

definition deleg_spec :: pyval where
  "deleg_spec = VDict (sdict [(''resource'', VStr ''object:o1''), (''rights'', VList [VStr ''read'']), (''delegable'', VBool True),
     (''uses_remaining'', VInt 2)])"

text \<open>
  C13. A delegation adds exactly one active capability for the child, under a live delegable allow grant of
  the parent with no use limit, which matches the text of the new grant: the new grant is accepted for no concrete
  resource that its parent is not accepted for, unless its pattern is one that escapes the parent's (a prefix
  pattern over the body of a subtree grant, or a wildcard pattern that spells the name of a prefix grant). The new
  grant has no right its parent lacks, keeps every constraint of its parent, is one level deeper and stays within
  its parent's depth limit, and no live deny or ask grant of the parent for one of its rights matches its text.
\<close>

theorem delegation_attenuates:
  assumes "delegate env cid stamp parent child actor structured v st = Inr (st', c)"
  shows "st' = st\<lparr>st_caps := st_caps st @ [c]\<rparr> \<and> cap_subject c = child \<and> active c \<and>
    (\<exists>p \<in> set (st_caps st).
       cap_parent_cap_id c = Some (cap_id p) \<and> cap_subject p = parent \<and> active p
       \<and> \<not> is_expired (ce_host env) (ce_now env) p \<and> parent_chain_active env st p
       \<and> cap_effect p = Allow \<and> cap_delegable p \<and> cap_uses_remaining p = None
       \<and> matches (cap_resource p) (cap_resource c)
       \<and> (escaping (cap_resource p) (cap_resource c) \<or> contains_reach (cap_resource p) (cap_resource c))
       \<and> set (cap_rights c) \<subseteq> set (cap_rights p)
       \<and> attenuates env (cap_constraints p) (cap_constraints c)
       \<and> cap_delegation_depth c = cap_delegation_depth p + 1
       \<and> (\<exists>m. cap_max_delegation_depth c = Some m \<and> cap_delegation_depth c \<le> m \<and> m \<le> row_max_depth env p
            \<and> (cap_delegable c \<longrightarrow> cap_delegation_depth c < m)))
    \<and> (\<forall>q \<in> set (st_caps st).
         cap_subject q = parent \<and> active q \<and> \<not> is_expired (ce_host env) (ce_now env) q
         \<and> parent_chain_active env st q \<and> cap_effect q \<noteq> Allow \<and> set (cap_rights c) \<inter> set (cap_rights q) \<noteq> {}
         \<longrightarrow> \<not> matches (cap_resource q) (cap_resource c))"
proof -
  obtain sp where "delegate_selected env cid stamp parent child actor sp st = Inr (st', c)"
    using assms by (auto simp: delegate_def res_simps)
  then obtain p draft where fp: "find_delegation_parent env st parent sp = Inr p"
    and dr: "capability_draft env (draft_row child sp
         (dset (sp_metadata sp) ''delegated_from'' (VStr parent))
         (case text_or actor None of Some a \<Rightarrow> a | None \<Rightarrow> parent) (Some (cap_id p)) (Some (cap_id p))
         (cap_delegation_depth p + 1) (Some (delegated_max_depth env p sp))
         (text_or (sp_expires sp) (cap_expires_at p))) = Inr draft"
    and pub: "publish env cid stamp draft st = Inr (st', c)"
    by (rule delegate_selected_Inr)
  note P = find_delegation_parent_Inr [OF fp]
  note V = delegation_parent_ok [OF P(5)]
  note D = capability_draft_Inr [OF dr, unfolded draft_row_def, simplified]
  note C = could_parentD [OF P(3)]
  obtain x where x: "parse (sp_resource sp) False = Inr x" using could_parent_parse [OF P(3)] by blast
  have c: "c = draft\<lparr>cap_id := cid, cap_issued_at := stamp, cap_status := Active\<rparr>"
    and st': "st' = st\<lparr>st_caps := st_caps st @ [c]\<rparr>"
    using publish_Inr [OF pub] by auto
  have parent: "\<exists>p \<in> set (st_caps st). cap_parent_cap_id c = Some (cap_id p) \<and> cap_subject p = parent
     \<and> active p \<and> \<not> is_expired (ce_host env) (ce_now env) p \<and> parent_chain_active env st p
     \<and> cap_effect p = Allow \<and> cap_delegable p \<and> cap_uses_remaining p = None
     \<and> matches (cap_resource p) (cap_resource c)
     \<and> (escaping (cap_resource p) (cap_resource c) \<or> contains_reach (cap_resource p) (cap_resource c))
     \<and> set (cap_rights c) \<subseteq> set (cap_rights p)
     \<and> attenuates env (cap_constraints p) (cap_constraints c)
     \<and> cap_delegation_depth c = cap_delegation_depth p + 1
     \<and> (\<exists>m. cap_max_delegation_depth c = Some m \<and> cap_delegation_depth c \<le> m \<and> m \<le> row_max_depth env p
          \<and> (cap_delegable c \<longrightarrow> cap_delegation_depth c < m))"
    using P(1,2,4) V C D matches_contains [of "cap_resource p" "canonical (sp_resource sp)"]
    by (intro bexI [of _ p]) (auto simp: c)
  moreover have "\<forall>q \<in> set (st_caps st). cap_subject q = parent \<and> active q
      \<and> \<not> is_expired (ce_host env) (ce_now env) q \<and> parent_chain_active env st q \<and> cap_effect q \<noteq> Allow
      \<and> set (cap_rights c) \<inter> set (cap_rights q) \<noteq> {} \<longrightarrow> \<not> matches (cap_resource q) (cap_resource c)"
    using no_boundary_restriction [OF P(6) _ _ _ _ _ _ _ x] D by (auto simp: c)
  ultimately show ?thesis using st' D by (simp add: c active_def)
qed

theorem delegation_attenuates_witness:
  "\<exists>st' c. delegate plain_env ''cap_9'' ''t'' ''pid_1'' ''pid_2'' None False deleg_spec chain_store = Inr (st', c)
     \<and> st' = chain_store\<lparr>st_caps := st_caps chain_store @ [c]\<rparr> \<and> cap_subject c = ''pid_2''"
proof -
  have "is_ok (delegate plain_env ''cap_9'' ''t'' ''pid_1'' ''pid_2'' None False deleg_spec chain_store)" by code_simp
  then obtain st' c where "delegate plain_env ''cap_9'' ''t'' ''pid_1'' ''pid_2'' None False deleg_spec chain_store = Inr (st', c)"
    by (auto simp: is_ok_iff)
  from this delegation_attenuates [OF this] show ?thesis by blast
qed


definition clock_host :: host where
  "clock_host = sample_host
     \<lparr>h_iso := (\<lambda>s. if s = ''t1'' then Some (1, True) else if s = ''t2'' then Some (2, True) else None),
      h_isoformat := (\<lambda>t. if t = 1 then ''t1'' else ''t2'')\<rparr>"

definition clock_env :: cap_env where
  "clock_env = plain_env\<lparr>ce_host := clock_host\<rparr>"

definition timed_spec :: "string \<Rightarrow> string \<Rightarrow> string list \<Rightarrow> bool \<Rightarrow> pyval" where
  "timed_spec res e rights g = VDict (sdict [(''resource'', VStr res), (''rights'', VList (map VStr rights)),
     (''expires_at'', VStr e), (''delegable'', VBool g)])"

definition timed_store :: cap_store where
  "timed_store =
     cap_apply clock_env (\<lambda>_. []) ''cap_2'' ''t'' False (Delegate ''p1'' ''p2'' None False (timed_spec ''object:a'' ''t1'' [''read''] False))
    (cap_apply clock_env (\<lambda>_. []) ''cap_1'' ''t'' False (Delegate ''p0'' ''p1'' None False (timed_spec ''object:a'' ''t2'' [''read''] True))
    (cap_apply clock_env (\<lambda>_. []) ''cap_0'' ''t'' False (IssueTrusted ''sys'' ''p0'' None False (timed_spec ''object:*'' ''t2'' [''read'', ''write''] True))
       \<lparr>st_caps = [], st_res = []\<rparr>))"

lemma clock_host_clock: "iso_clock clock_host"
proof -
  have r: "t \<in> {1, 2}" if "readable clock_host t" for t
    using that by (auto simp: readable_def expires_at_datetime_def clock_host_def Let_def split: if_splits)
  have v: "expires_at_datetime clock_host (h_isoformat clock_host 1) = Inr 1"
    "expires_at_datetime clock_host (h_isoformat clock_host 2) = Inr 2"
    "h_isoformat clock_host 1 < h_isoformat clock_host 2"
    by code_simp+
  have "expires_at_datetime clock_host (h_isoformat clock_host t) = Inr t" if "readable clock_host t" for t
    using r [OF that] v by auto
  moreover have "h_isoformat clock_host s < h_isoformat clock_host t"
    if "readable clock_host s" "readable clock_host t" "s < t" for s t
    using r [OF that(1)] r [OF that(2)] that(3) v by auto
  ultimately show ?thesis by (simp add: iso_clock_def)
qed


text \<open>
  An issue succeeds only with authority: the actor is allowed to administer the resource, and the grant
  has no parent, or is allowed to grant it, and the grant is an allow grant placed under a live unlimited
  allow grant of the actor that matches its resource, has all its rights and hands down its constraints.
\<close>

theorem issue_requires_authority:
  assumes "issue env fresh cid stamp actor subj structured v st l = (l', Inr (st', c))"
  shows "\<exists>res d l0 l1. cap_resource c = canonical res \<and> cap_subject c = subj \<and> cap_id c = cid \<and> active c
    \<and> cd_allowed d
    \<and> (authorize env st actor res ''admin'' [] l0 = (l1, Inr d) \<and> cap_parent_cap_id c = None
       \<or> authorize env st actor res ''grant'' [] l0 = (l1, Inr d) \<and> cap_effect c = Allow
         \<and> (\<exists>p \<in> set (st_caps st). cap_parent_cap_id c = Some (cap_id p) \<and> cap_subject p = actor \<and> active p
              \<and> \<not> is_expired (ce_host env) (ce_now env) p \<and> cap_effect p = Allow \<and> cap_uses_remaining p = None
              \<and> matches (cap_resource p) (cap_resource c) \<and> set (cap_rights c) \<subseteq> set (cap_rights p)
              \<and> attenuates env (cap_constraints p) (cap_constraints c) \<and> (cap_delegable c \<longrightarrow> cap_delegable p)))"
proof -
  obtain sp d tp0 l1 cur st1 st2 where sp: "coerce_spec env structured v = Inr sp"
    and auth: "require_issue_authority env st actor sp l = (l1, Inr (d, tp0))"
    and b: "issue_body env cid stamp actor subj sp (tp0 \<noteq> None) cur st1 = Inr (st2, c)"
    and sk: "same_skel st st1" "same_skel st2 st'"
    and unlimited: "\<forall>c \<in> set (st_caps st1). cap_uses_remaining c = None \<longrightarrow> c \<in> set (st_caps st)"
    using issue_Inr [OF assms] by metis
  obtain tp draft where dr: "issue_draft env actor subj sp tp (cd_selected (hd cur)) = Inr draft"
    and pub: "publish env cid stamp draft st1 = Inr (st2, c)" and some: "tp0 \<noteq> None \<longleftrightarrow> tp \<noteq> None"
    and tp: "\<forall>p. tp = Some p \<longrightarrow> find_transfer_parent env st1 actor sp = Inr p"
    by (rule issue_body_Inr [OF b])
  note D = capability_draft_Inr [OF dr [unfolded issue_draft_def draft_row_def], simplified]
  note c = publish_Inr(3) [OF pub]
  have "(\<exists>l0. authorize env st actor (sp_resource sp) ''admin'' [] l0 = (l1, Inr d) \<and> tp0 = None)
      \<or> (\<exists>l0. authorize env st actor (sp_resource sp) ''grant'' [] l0 = (l1, Inr d) \<and> tp0 \<noteq> None)"
    and allowed: "cd_allowed d"
    using auth unfolding require_issue_authority_def
    by (auto simp: bindL_Inr_iff simp del: bindL_liftL split: if_splits)
  then obtain l0 where a: "tp = None \<and> authorize env st actor (sp_resource sp) ''admin'' [] l0 = (l1, Inr d)
      \<or> tp \<noteq> None \<and> authorize env st actor (sp_resource sp) ''grant'' [] l0 = (l1, Inr d)"
    using some by auto
  show ?thesis
  proof (cases tp)
    case None
    then show ?thesis using a D allowed by (intro exI [of _ "sp_resource sp"] exI [of _ d]) (auto simp: c active_def)
  next
    case (Some p)
    note P = find_transfer_parent_Inr [OF tp [rule_format, OF Some]]
    note V = transfer_parent_ok [OF P(4)]
    have "p \<in> set (st_caps st)" using unlimited P(1) V(3) by blast
    then show ?thesis
      using a D allowed Some V P(2) could_parentD [OF P(3)]
      by (intro exI [of _ "sp_resource sp"] exI [of _ d] exI [of _ l0] exI [of _ l1] conjI disjI2 bexI [of _ p])
        (auto simp: c active_def)
  qed
qed

definition granter_cap :: capability_row where
  "granter_cap = root_cap\<lparr>cap_id := ''cap_g'', cap_resource := ''object:*'', cap_rights := [''read'', ''grant'']\<rparr>"

definition granter_store :: cap_store where
  "granter_store = \<lparr>st_caps = [granter_cap], st_res = []\<rparr>"

definition grant_decision :: capability_decision where
  "grant_decision =
     make_decision granter_cap ''pid_1'' ''object:o1'' ''grant'' True (Some Allow)
       ''capability allowed operation'' [''cap_g''] [''cap_g''] [] []"

definition no_admin :: capability_decision where
  "no_admin = no_match_decision ''pid_1'' ''object:o1'' ''admin'' [] []"

definition checked_spec :: cap_spec where
  "checked_spec =
     \<lparr>sp_resource = ''object:o1'', sp_rights = [''read''], sp_effect = Allow, sp_constraints = [],
      sp_metadata = [], sp_expires = None, sp_uses = Some 2, sp_delegable = True, sp_revocable = True,
      sp_max_depth = None\<rparr>"

lemma granter_steps:
  "coerce_spec plain_env False deleg_spec = Inr checked_spec"
  "authorize plain_env granter_store ''pid_1'' ''object:o1'' ''admin'' [] False = (False, Inr no_admin)"
  "authorize plain_env granter_store ''pid_1'' ''object:o1'' ''grant'' [] False = (False, Inr grant_decision)"
  "reauthorize_decision plain_env granter_store grant_decision False = (False, Inr grant_decision)"
  "find_transfer_parent plain_env granter_store ''pid_1'' checked_spec = Inr granter_cap"
  "validate_transfer_parent plain_env granter_store checked_spec granter_cap = Inr ()"
  "is_ok (issue_body plain_env ''cap_9'' ''t'' ''pid_1'' ''pid_2'' checked_spec True [grant_decision] granter_store)"
  by code_simp+

lemma grant_decision_simps [simp]:
  "\<not> cd_allowed no_admin" "cd_allowed grant_decision" "cd_consume grant_decision = None"
  "sp_resource checked_spec = ''object:o1''"
  by (simp_all add: no_admin_def no_match_decision_def grant_decision_def make_decision_def granter_cap_def root_cap_def
      checked_spec_def)

theorem issue_requires_authority_witness:
  "\<exists>st' c. issue plain_env (\<lambda>_. []) ''cap_9'' ''t'' ''pid_1'' ''pid_2'' False deleg_spec granter_store False
       = (False, Inr (st', c)) \<and> cap_subject c = ''pid_2'' \<and> active c"
proof -
  obtain st' c where b:
    "issue_body plain_env ''cap_9'' ''t'' ''pid_1'' ''pid_2'' checked_spec True [grant_decision] granter_store = Inr (st', c)"
    using granter_steps(7) by (auto simp: is_ok_iff)
  have "require_issue_authority plain_env granter_store ''pid_1'' checked_spec False
      = (False, Inr (grant_decision, Some granter_cap))"
    by (simp add: require_issue_authority_def granter_steps bindL_def liftL_def)
  moreover have "authority_transaction plain_env (\<lambda>_. []) ''pid_1'' ''capability issue'' ''t'' (reauthorize_decision plain_env)
      [grant_decision] (issue_body plain_env ''cap_9'' ''t'' ''pid_1'' ''pid_2'' checked_spec True) granter_store False
      = (False, Inr (st', [grant_decision], c))"
    using b by (simp add: authority_transaction_def admission_check_def plain_env_def [THEN arg_cong, of ce_admission]
        bindL_def liftL_def granter_steps)
  ultimately have r: "issue plain_env (\<lambda>_. []) ''cap_9'' ''t'' ''pid_1'' ''pid_2'' False deleg_spec granter_store False
       = (False, Inr (st', c))"
    by (simp add: issue_def granter_steps bindL_def liftL_def)
  from issue_requires_authority [OF r] r show ?thesis by blast
qed

section \<open>Derived authority\<close>

text \<open>The clock prints no instant as the empty text.\<close>

definition prints_instants :: "host \<Rightarrow> bool" where
  "prints_instants h \<longleftrightarrow> iso_clock h \<and> (\<forall>t. h_isoformat h t \<noteq> [])"

text \<open>
  What an entry of the ceiling bounds of a grant that was made for a request: everything the grant is accepted for,
  its rights, constraints, uses and delegability, its expiry, and its depth limit when the request names one.
\<close>

definition within_limit :: "cap_env \<Rightarrow> spec_limit \<Rightarrow> cap_spec \<Rightarrow> capability_row \<Rightarrow> bool" where
  "within_limit env lm sp c \<longleftrightarrow>
     lm_effect lm = Allow \<and> matches (lm_resource lm) (cap_resource c)
     \<and> (escaping (lm_resource lm) (cap_resource c) \<or> contains_reach (lm_resource lm) (cap_resource c))
     \<and> set (cap_rights c) \<subseteq> set (lm_rights lm) \<and> attenuates env (lm_constraints lm) (cap_constraints c)
     \<and> (lm_uses lm = None \<or> cap_uses_remaining c = lm_uses lm) \<and> (cap_delegable c \<longrightarrow> lm_delegable lm)
     \<and> (prints_instants (ce_host env) \<longrightarrow>
          (\<forall>pe. lm_expires lm = Some pe \<longrightarrow> (\<exists>e. cap_expires_at c = Some e \<and> \<not> pe < e)))
     \<and> (\<forall>n m. lm_max_depth lm = Some n \<and> sp_max_depth sp = Some m \<longrightarrow>
          (\<exists>k. cap_max_delegation_depth c = Some k \<and> k \<le> n))"

definition row_of_spec :: "cap_env \<Rightarrow> cap_spec \<Rightarrow> capability_row \<Rightarrow> bool" where
  "row_of_spec env sp c \<longleftrightarrow>
     cap_resource c = canonical (sp_resource sp) \<and> set (cap_rights c) = set (sp_rights sp)
     \<and> cap_constraints c = sp_constraints sp \<and> cap_uses_remaining c = sp_uses sp
     \<and> cap_delegable c = sp_delegable sp \<and> cap_effect c = sp_effect sp \<and> active c
     \<and> (prints_instants (ce_host env) \<and> sp_expires sp \<noteq> None \<longrightarrow> cap_expires_at c = sp_expires sp)
     \<and> (sp_max_depth sp \<noteq> None \<longrightarrow> cap_max_delegation_depth c = sp_max_depth sp)"

text \<open>The grant of the source that a derived grant stands under.\<close>

definition handed_down :: "cap_env \<Rightarrow> cap_store \<Rightarrow> string \<Rightarrow> string \<Rightarrow> cap_spec \<Rightarrow> capability_row \<Rightarrow> bool" where
  "handed_down env st source target sp c \<longleftrightarrow>
     cap_subject c = target
     \<and> (\<exists>p \<in> set (st_caps st). cap_parent_cap_id c = Some (cap_id p) \<and> cap_subject p = source
          \<and> active p \<and> \<not> is_expired (ce_host env) (ce_now env) p \<and> cap_effect p = Allow \<and> cap_delegable p
          \<and> cap_uses_remaining p = None
          \<and> matches (cap_resource p) (cap_resource c)
          \<and> (escaping (cap_resource p) (cap_resource c) \<or> contains_reach (cap_resource p) (cap_resource c))
          \<and> set (cap_rights c) \<subseteq> set (cap_rights p) \<and> attenuates env (cap_constraints p) (cap_constraints c)
          \<and> cap_max_delegation_depth c = Some (delegated_max_depth env p sp))"

lemma handed_down_mono:
  "handed_down env st source target sp c \<Longrightarrow> set (st_caps st) \<subseteq> set (st_caps st') \<Longrightarrow>
   handed_down env st' source target sp c"
  by (auto simp: handed_down_def)

lemma any_covers_True:
  "any_covers env lims sp = Inr True \<Longrightarrow> \<exists>lm. Inr lm \<in> set lims \<and> spec_covers env lm sp = Inr True"
proof (induction lims)
  case (Cons l lims)
  then obtain lm b where "l = Inr lm" "spec_covers env lm sp = Inr b" "\<not> b \<longrightarrow> any_covers env lims sp = Inr True"
    by (auto simp: res_simps split: if_splits)
  then show ?case using Cons.IH by (cases b) auto
qed simp

lemma spec_covers_True:
  assumes "spec_covers env lm sp = Inr True"
  shows "lm_effect lm = Allow" "matches (lm_resource lm) (canonical (sp_resource sp))" "set (sp_rights sp) \<subseteq> set (lm_rights lm)"
    "attenuates env (lm_constraints lm) (sp_constraints sp)" "lm_uses lm = None \<or> sp_uses sp = lm_uses lm"
    "sp_delegable sp \<longrightarrow> lm_delegable lm" "lm_expires lm = Some pe \<Longrightarrow> \<exists>e. sp_expires sp = Some e \<and> \<not> pe < e"
    "lm_max_depth lm = Some n \<Longrightarrow> sp_max_depth sp = Some m \<Longrightarrow> m \<le> n"
  using assms attenuation_error_None [of env "lm_constraints lm" "sp_constraints sp"]
  by (auto simp: spec_covers_def covers_def res_simps dest: parse_raw split: if_splits sum.splits option.splits)

lemma spec_covers_within:
  assumes "spec_covers env lm sp = Inr True" "row_of_spec env sp c"
  shows "within_limit env lm sp c"
proof -
  note S = spec_covers_True [OF assms(1)]
  have e: "\<exists>e. cap_expires_at c = Some e \<and> \<not> pe < e" if "prints_instants (ce_host env)" "lm_expires lm = Some pe" for pe
    using S(7) [OF that(2)] that(1) assms(2) by (auto simp: row_of_spec_def)
  have d: "\<exists>k. cap_max_delegation_depth c = Some k \<and> k \<le> n" if "lm_max_depth lm = Some n \<and> sp_max_depth sp = Some m" for n m
    using S(8) [of n m] that assms(2) by (auto simp: row_of_spec_def)
  show ?thesis
    unfolding within_limit_def using S(1-6) e d assms(2) matches_contains [OF S(2)] by (auto simp: row_of_spec_def)
qed

lemma check_transition_Inr:
  "check_transition env st source lims sps = Inr u \<Longrightarrow> sp \<in> set sps \<Longrightarrow> lims \<noteq> [] \<Longrightarrow>
   any_covers env lims sp = Inr True"
  by (induction sps) (auto simp: res_simps split: if_splits)

text \<open>The expiry that a request names is the expiry of its grant.\<close>

lemma named_expiry:
  assumes "prints_instants h" "expiry_text h (Some e)" "normalize_expires h (opt_str (text_or (Some e) pe)) = Inr x"
  shows "x = Some e"
  using assms by (auto simp: prints_instants_def expiry_text_def text_or_def opt_str_def normalize_expires_def iso_clock_def
      res_simps)

lemma delegate_selected_row:
  assumes d: "delegate_selected env cid stamp parent child actor sp st = Inr (st', c)"
    and exp: "expiry_text (ce_host env) (sp_expires sp)"
  shows "st' = st\<lparr>st_caps := st_caps st @ [c]\<rparr>" "row_of_spec env sp c" "handed_down env st parent child sp c"
proof -
  obtain p draft where fp: "find_delegation_parent env st parent sp = Inr p"
    and dr: "capability_draft env (draft_row child sp
         (dset (sp_metadata sp) ''delegated_from'' (VStr parent))
         (case text_or actor None of Some a \<Rightarrow> a | None \<Rightarrow> parent) (Some (cap_id p)) (Some (cap_id p))
         (cap_delegation_depth p + 1) (Some (delegated_max_depth env p sp))
         (text_or (sp_expires sp) (cap_expires_at p))) = Inr draft"
    and pub: "publish env cid stamp draft st = Inr (st', c)"
    by (rule delegate_selected_Inr [OF d])
  note P = find_delegation_parent_Inr [OF fp]
  note V = delegation_parent_ok [OF P(5)]
  note D = capability_draft_Inr [OF dr, unfolded draft_row_def, simplified]
  note c = publish_Inr [OF pub]
  show "st' = st\<lparr>st_caps := st_caps st @ [c]\<rparr>" by (rule c(1))
  have e: "cap_expires_at draft = Some e" if "prints_instants (ce_host env)" "sp_expires sp = Some e" for e
    using named_expiry [OF that(1)] exp D(10) by (simp add: that(2))
  have m: "cap_max_delegation_depth draft = Some n" if "sp_max_depth sp = Some n" for n
    using D(6) by (simp add: that delegated_max_depth_def)
  show "row_of_spec env sp c"
    using D(1,2,3,7,8) draft_uses [OF dr] e m by (auto simp: row_of_spec_def c(3) draft_row_def active_def)
  show "handed_down env st parent child sp c"
    unfolding handed_down_def
    using P(1,2,4) V(2,8) could_parentD [OF P(3)] D matches_contains [of "cap_resource p" "canonical (sp_resource sp)"]
    by (intro conjI bexI [of _ p]) (auto simp: c(3))
qed

lemma delegate_all_rows:
  "delegate_all env fresh stamp source target actor n sps st = Inr (st', cs) \<Longrightarrow>
   \<forall>sp \<in> set sps. expiry_text (ce_host env) (sp_expires sp) \<Longrightarrow>
   st' = st\<lparr>st_caps := st_caps st @ cs\<rparr>
   \<and> list_all2 (\<lambda>sp c. row_of_spec env sp c \<and> handed_down env st' source target sp c) sps cs"
proof (induction sps arbitrary: n st cs)
  case (Cons sp sps)
  then obtain st1 c cs1 where d: "delegate_selected env (fresh n) stamp source target (Some actor) sp st = Inr (st1, c)"
    and r: "delegate_all env fresh stamp source target actor (Suc n) sps st1 = Inr (st', cs1)" "cs = c # cs1"
    by (auto simp: res_simps split: prod.splits)
  have t: "expiry_text (ce_host env) (sp_expires sp)" "\<forall>sp \<in> set sps. expiry_text (ce_host env) (sp_expires sp)"
    using Cons.prems(2) by auto
  note D = delegate_selected_row [OF d t(1)]
  note IH = Cons.IH [OF r(1) t(2)]
  have "set (st_caps st) \<subseteq> set (st_caps st')" using IH by (auto simp: D(1))
  from handed_down_mono [OF D(3) this]
  have "list_all2 (\<lambda>sp c. row_of_spec env sp c \<and> handed_down env st' source target sp c) (sp # sps) cs"
    using IH D(2) unfolding r(2) list.rel_inject(2) by (intro conjI) blast+
  moreover have "st' = st\<lparr>st_caps := st_caps st @ cs\<rparr>" using IH by (simp add: r(2) D(1))
  ultimately show ?case by (rule conjI [rotated])
qed simp

lemma mapR_list_all2: "mapR f xs = Inr ys \<Longrightarrow> list_all2 (\<lambda>x y. f x = Inr y) xs ys"
  by (induction xs arbitrary: ys) (auto simp: res_simps)

text \<open>
  C15. A transition derives all requested grants or none. The store gains one grant per request, in their order,
  which has the resource, rights, constraints, uses, delegability and effect of the request as coerced, and its
  expiry and depth limit where the request names them; each is for the target and under an active, unexpired,
  delegable allow grant of the source without use limit, inside it in accepted resources (escaping patterns apart),
  rights and constraints. When the ceiling is not empty, each grant lies within an allow entry of the ceiling: it is
  accepted for nothing the entry is not accepted for (escaping patterns apart), has no right beyond the entry's and
  exactly its uses if those are limited, keeps its constraints, is delegable only if the entry is, expires no later
  than it, and has a depth limit within the entry's if the request names one. An empty ceiling bounds nothing, and a
  request that names no depth limit is not bounded in depth by the ceiling. What is said of the expiry holds for a
  clock whose printed instants are not empty, read back and are ordered as the instants.
\<close>

theorem derive_within_ceiling:
  assumes "derive_authority env fresh stamp source target requested kind ceil_specs actor st = Inr (st', cs)"
  shows "st' = st\<lparr>st_caps := st_caps st @ cs\<rparr>
    \<and> list_all2 (\<lambda>(structured, v) c. \<exists>sp. coerce_spec env structured v = Inr sp \<and> row_of_spec env sp c
         \<and> handed_down env st' source target sp c
         \<and> (ceil_specs \<noteq> [] \<longrightarrow>
              (\<exists>x \<in> set ceil_specs. \<exists>lm. ceiling_limit env x = Inr lm \<and> within_limit env lm sp c))) requested cs"
proof -
  obtain sps a where sps: "mapR (\<lambda>(structured, v). coerce_spec env structured v) requested = Inr sps"
    and ch: "check_transition env st source (map (ceiling_limit env) ceil_specs) sps = Inr ()"
    and d: "delegate_all env fresh stamp source target a 0 sps st = Inr (st', cs)"
    using assms by (auto simp: derive_authority_def res_simps)
  have "\<forall>sp \<in> set sps. expiry_text (ce_host env) (sp_expires sp)"
    using mapR_Inr_set [OF sps] coerce_spec_text by fastforce
  note rows = delegate_all_rows [OF d this]
  have lim: "\<exists>x \<in> set ceil_specs. \<exists>lm. ceiling_limit env x = Inr lm \<and> within_limit env lm sp c"
    if "sp \<in> set sps" "row_of_spec env sp c" "ceil_specs \<noteq> []" for sp c
  proof -
    from check_transition_Inr [OF ch that(1)] that(3)
    have "any_covers env (map (ceiling_limit env) ceil_specs) sp = Inr True" by simp
    from any_covers_True [OF this] obtain lm where
      lm: "Inr lm \<in> set (map (ceiling_limit env) ceil_specs)" "spec_covers env lm sp = Inr True" by blast
    from lm(1) obtain x where "x \<in> set ceil_specs" "ceiling_limit env x = Inr lm" by auto
    then show ?thesis using spec_covers_within [OF lm(2) that(2)] by blast
  qed
  let ?ok = "\<lambda>(structured, v) c. \<exists>sp. coerce_spec env structured v = Inr sp \<and> row_of_spec env sp c
    \<and> handed_down env st' source target sp c
    \<and> (ceil_specs \<noteq> [] \<longrightarrow> (\<exists>x \<in> set ceil_specs. \<exists>lm. ceiling_limit env x = Inr lm \<and> within_limit env lm sp c))"
  have two: "list_all2 (\<lambda>x sp. (case x of (s, v) \<Rightarrow> coerce_spec env s v) = Inr sp) requested sps"
    by (rule mapR_list_all2 [OF sps])
  have own: "list_all2 (\<lambda>sp c. row_of_spec env sp c \<and> handed_down env st' source target sp c) sps cs" using rows by blast
  have "list_all2 ?ok requested cs"
  proof (rule list_all2_all_nthI)
    show "length requested = length cs" using list_all2_lengthD [OF two] list_all2_lengthD [OF own] by simp
    fix i assume i: "i < length requested"
    then have j: "i < length sps" using list_all2_lengthD [OF two] by simp
    have sp: "sps ! i \<in> set sps" "row_of_spec env (sps ! i) (cs ! i)" "handed_down env st' source target (sps ! i) (cs ! i)"
      using list_all2_nthD [OF own j] j by simp_all
    obtain s v where v: "requested ! i = (s, v)" by fastforce
    have "coerce_spec env s v = Inr (sps ! i)" using list_all2_nthD [OF two i] by (simp add: v)
    then show "?ok (requested ! i) (cs ! i)"
      unfolding v prod.case using lim [OF sp(1,2)] sp(2,3) by (intro exI [of _ "sps ! i"] conjI impI)
  qed
  then show ?thesis using rows by simp
qed

definition ceiling_spec :: pyval where
  "ceiling_spec = VDict (sdict [(''resource'', VStr ''object:o1''), (''rights'', VList [VStr ''read'']),
     (''delegable'', VBool True), (''max_delegation_depth'', VInt 1)])"

definition open_request :: pyval where
  "open_request = VDict (sdict [(''resource'', VStr ''object:o1''), (''rights'', VList [VStr ''read'']),
     (''delegable'', VBool True)])"

theorem derive_within_ceiling_witness:
  "\<exists>st' c. derive_authority clock_env (\<lambda>_. ''cap_9'') ''t'' ''p0'' ''p9'' [(False, timed_spec ''object:a'' ''t1'' [''read''] False)]
       ''spawn'' [Inr (False, timed_spec ''object:*'' ''t2'' [''read''] False)] None timed_store = Inr (st', [c])
     \<and> cap_subject c = ''p9'' \<and> \<not> contains_reach (cap_resource c) ''object:*''
     \<and> (\<exists>e. cap_expires_at c = Some e \<and> \<not> ''t2'' < e)"
proof -
  let ?req = "timed_spec ''object:a'' ''t1'' [''read''] False" and ?top = "timed_spec ''object:*'' ''t2'' [''read''] False"
  let ?r = "derive_authority clock_env (\<lambda>_. ''cap_9'') ''t'' ''p0'' ''p9'' [(False, ?req)] ''spawn'' [Inr (False, ?top)] None timed_store"
  have "is_ok ?r" by code_simp
  then obtain st' cs where r: "?r = Inr (st', cs)" by (auto simp: is_ok_iff)
  have "case coerce_spec clock_env False ?req of Inr sp \<Rightarrow> canonical (sp_resource sp) = ''object:a'' | Inl _ \<Rightarrow> False"
    "case ceiling_limit clock_env (Inr (False, ?top)) of Inr lm \<Rightarrow> lm_expires lm = Some ''t2'' | Inl _ \<Rightarrow> False"
    by code_simp+
  moreover obtain c sp lm where c: "cs = [c]" "coerce_spec clock_env False ?req = Inr sp" "row_of_spec clock_env sp c"
    "handed_down clock_env st' ''p0'' ''p9'' sp c" "ceiling_limit clock_env (Inr (False, ?top)) = Inr lm" "within_limit clock_env lm sp c"
    using derive_within_ceiling [OF r] by (auto simp: list_all2_Cons1)
  ultimately have "cap_resource c = ''object:a''" "lm_expires lm = Some ''t2''" by (simp_all add: row_of_spec_def)
  moreover have "concrete ''object:b'' \<and> matches ''object:*'' ''object:b'' \<and> \<not> matches ''object:a'' ''object:b''" by code_simp
  moreover have "prints_instants clock_host" using clock_host_clock by (simp add: prints_instants_def clock_host_def)
  ultimately show ?thesis using r c
    by (intro exI [of _ st'] exI [of _ c]) (auto simp: handed_down_def within_limit_def contains_reach_def clock_env_def)
qed

text \<open>
  The ceiling does not bound the depth of a request that leaves its own limit open: a ceiling that allows
  depth 1 admits a grant whose limit is the one of the parent, here 3.
\<close>

lemma derive_depth_exceeds_ceiling:
  "(case derive_authority plain_env (\<lambda>_. ''cap_9'') ''t'' ''pid_1'' ''pid_2'' [(False, open_request)] ''spawn''
       [Inr (False, ceiling_spec)] None chain_store of
      Inr (st', [c]) \<Rightarrow> cap_max_delegation_depth c = Some 3 | _ \<Rightarrow> False)"
  by code_simp

end
