(* ===== verification/FlowRegistry.thy ===== *)
theory FlowRegistry
  imports CapDecide
begin

text \<open>
  The Host-owned records of \<open>agent_libos/runtime/data_flow_manager.py\<close> with their statements in
  \<open>agent_libos/storage/sql.py\<close>: the registry of trusted sinks, the file label bindings, and the
  provenance that source references carry. A label follows its data: rewriting a file never lowers
  its labels, and the provenance of a context is exactly what its references reach.
\<close>

section \<open>The sink registry\<close>

record sink_registry =
  rg_specs :: "sink_spec list"
  rg_generation :: int

definition spec_pattern :: "sink_spec \<Rightarrow> string" where
  "spec_pattern s = su_pattern (ss_rule s)"

text \<open>\<open>list_sink_trust\<close>, \<open>inspect_sink_trust\<close>\<close>

definition list_sinks :: "sink_registry \<Rightarrow> bool \<Rightarrow> sink_spec list" where
  "list_sinks reg active_only =
     sort_key (\<lambda>s. (- ss_generation s, spec_pattern s, ss_id s))
       (filter (\<lambda>s. active_only \<longrightarrow> ss_active s) (rg_specs reg))"

definition inspect_sink :: "sink_registry \<Rightarrow> string \<Rightarrow> sink_spec option" where
  "inspect_sink reg p = List.find (\<lambda>s. spec_pattern s = p \<and> ss_active s) (rg_specs reg)"

definition deactivate :: "string \<Rightarrow> string \<Rightarrow> sink_registry \<Rightarrow> sink_registry" where
  "deactivate p now reg = reg\<lparr>rg_specs := map (\<lambda>s. if spec_pattern s = p \<and> ss_active s
     then s\<lparr>ss_active := False, ss_deactivated := Some now\<rparr> else s) (rg_specs reg)\<rparr>"

text \<open>\<open>register_sink_trust\<close> and \<open>unregister_sink_trust\<close> of the store\<close>

definition store_register :: "sink_spec \<Rightarrow> bool \<Rightarrow> sink_registry \<Rightarrow> sink_registry res" where
  "store_register s replace_it reg =
     bindR (check (ss_active s) (ValidationError ''new sink trust record must be active'')) (\<lambda>_.
     bindR (check (ss_generation s = rg_generation reg + 1)
       (ValidationError ''sink trust generation conflict'')) (\<lambda>_.
     bindR (check (inspect_sink reg (spec_pattern s) = None \<or> replace_it)
       (ValidationError (''active sink trust rule already exists: '' @ spec_pattern s))) (\<lambda>_.
     bindR (check (list_all (\<lambda>t. ss_id t \<noteq> ss_id s) (rg_specs reg))
       (PyRuntimeError ''UNIQUE constraint failed: sink_trust_records.trust_id'')) (\<lambda>_.
       Inr \<lparr>rg_specs = rg_specs (deactivate (spec_pattern s) (ss_created_at s) reg) @ [s],
            rg_generation = ss_generation s\<rparr>))))"

definition store_unregister :: "string \<Rightarrow> int \<Rightarrow> string \<Rightarrow> sink_registry \<Rightarrow> (sink_registry \<times> bool) res" where
  "store_unregister p generation now reg =
     (case make_sink_rule (VStr p) (VStr ''untrusted'') (VStr ''normal'') (VTuple []) (VTuple []) VNone of
        Inl _ \<Rightarrow> Inl (ValidationError ''invalid sink trust pattern'')
      | Inr _ \<Rightarrow>
          if strip now = [] then Inl (ValidationError ''sink trust deactivated_at must be a non-empty string'')
          else if generation \<noteq> rg_generation reg + 1 then
            Inl (ValidationError ''sink trust generation conflict'')
          else if inspect_sink reg p = None then Inr (reg, False)
          else Inr ((deactivate p now reg)\<lparr>rg_generation := generation\<rparr>, True))"

text \<open>\<open>_coerce_rule\<close>: a checked rule, or a mapping of its fields.\<close>

definition sink_rule_fields :: "string list" where
  "sink_rule_fields =
     [''pattern'', ''trust_level'', ''max_sensitivity'', ''tenants'', ''principals'', ''identity_sha256'']"

definition coerce_sink_rule :: "sink_rule + pyval \<Rightarrow> sink_rule res" where
  "coerce_sink_rule x =
     (case x of
        Inl r \<Rightarrow> Inr r
      | Inr (VDict d) \<Rightarrow>
          if \<not> set (map fst d) \<subseteq> VStr ` set sink_rule_fields \<or> \<not> dhas d ''pattern'' then
            Inl (ValidationError ''unexpected or missing keyword argument'')
          else (case make_sink_rule (dget d ''pattern'') (dget_or d ''trust_level'' (VStr ''untrusted''))
                  (dget_or d ''max_sensitivity'' (VStr ''normal'')) (dget_or d ''tenants'' (VTuple []))
                  (dget_or d ''principals'' (VTuple [])) (dget d ''identity_sha256'') of
                Inl (ValueError m) \<Rightarrow> Inl (ValidationError m)
              | Inl (PyTypeError m) \<Rightarrow> Inl (ValidationError m)
              | r \<Rightarrow> r)
      | Inr _ \<Rightarrow> Inl (ValidationError ''Sink trust spec must be a SinkTrustRule or object''))"

text \<open>\<open>pattern[:-1] if pattern.endswith("*") else pattern\<close>\<close>

definition pattern_base :: "string \<Rightarrow> string" where
  "pattern_base p = (if endswith p ''*'' then butlast p else p)"

text \<open>The registration inside the transaction.\<close>

definition register_body ::
  "host \<Rightarrow> nat \<Rightarrow> sink_rule \<Rightarrow> bool \<Rightarrow> string \<Rightarrow> string \<Rightarrow> string \<Rightarrow> sink_registry \<Rightarrow>
   (sink_registry \<times> sink_spec) res" where
  "register_body h limit rl replace_it by stamp tid reg =
     (let act = list_sinks reg True; p = su_pattern rl in
      if \<not> list_ex (\<lambda>s. spec_pattern s = p) act \<and> limit \<le> length act then
        Inl (ValidationError ''active Sink trust registry reached configured limit'')
      else if list_ex (\<lambda>s. \<not> (replace_it \<and> spec_pattern s = p) \<and> pattern_base (spec_pattern s) = pattern_base p)
          act then
        Inl (ValidationError ''equal-priority overlapping Sink trust patterns are forbidden'')
      else
        bindR (make_sink_spec h (VStr tid) rl (VInt (rg_generation reg + 1)) (VStr by) (VStr stamp) (VStr [])
            (VBool True) VNone (VInt 1)) (\<lambda>s.
        bindR (store_register s replace_it reg) (\<lambda>reg'. Inr (reg', s))))"

definition unregister_body :: "string \<Rightarrow> string \<Rightarrow> sink_registry \<Rightarrow> (sink_registry \<times> sink_spec) res" where
  "unregister_body p stamp reg =
     (case inspect_sink reg p of
        None \<Rightarrow> Inl (ValidationError (''active Sink trust record not found: '' @ p))
      | Some s \<Rightarrow>
          bindR (store_unregister p (rg_generation reg + 1) stamp reg) (\<lambda>(reg', removed).
            if removed then Inr (reg', s)
            else Inl (ValidationError (''active Sink trust record changed concurrently: '' @ p))))"

text \<open>
  The administrative authority of both operations: an admin right on the registry resource, renewed and
  claimed in the transaction, unless the Host calls without one.
\<close>

definition registry_transaction ::
  "cap_env \<Rightarrow> (nat \<Rightarrow> string) \<Rightarrow> string \<Rightarrow> string \<Rightarrow> string \<Rightarrow> pydict \<Rightarrow> string \<Rightarrow> bool \<Rightarrow>
   (sink_registry \<times> sink_spec) res \<Rightarrow> cap_store \<Rightarrow> (cap_store \<times> sink_registry \<times> sink_spec) latched" where
  "registry_transaction env fresh stamp actor res ctx opn require_capability body st =
     bindL (if require_capability
            then bindL (require env fresh actor res ''admin'' ctx False actor [] stamp st) (\<lambda>(_, d). liftL (Inr [d]))
            else liftL (Inr [])) (\<lambda>ds.
     bindL (authority_transaction env fresh actor opn stamp (reauthorize_decision env) ds
         (\<lambda>_ st. bindR body (\<lambda>x. Inr (st, x))) st) (\<lambda>(st', cur, x).
       liftL (Inr (st', x))))"

definition register_sink_trust ::
  "cap_env \<Rightarrow> (nat \<Rightarrow> string) \<Rightarrow> string \<Rightarrow> nat \<Rightarrow> string \<Rightarrow> string \<Rightarrow> string \<Rightarrow> bool \<Rightarrow> bool \<Rightarrow> sink_rule + pyval \<Rightarrow>
   sink_registry \<Rightarrow> cap_store \<Rightarrow> (cap_store \<times> sink_registry \<times> sink_spec) latched" where
  "register_sink_trust env fresh stamp limit res tid actor replace_it require_capability v reg st =
     bindL (liftL (coerce_sink_rule v)) (\<lambda>rl.
     bindL (liftL (rule_hash (ce_host env) rl)) (\<lambda>hash.
       registry_transaction env fresh stamp actor res
         (sdict [(''operation'', VStr ''register_sink_trust''), (''pattern'', VStr (su_pattern rl)),
            (''replace'', VBool replace_it), (''spec_hash'', VStr hash)])
         ''Sink trust register'' require_capability
         (register_body (ce_host env) limit rl replace_it actor stamp tid reg) st))"

definition unregister_sink_trust ::
  "cap_env \<Rightarrow> (nat \<Rightarrow> string) \<Rightarrow> string \<Rightarrow> string \<Rightarrow> string \<Rightarrow> bool \<Rightarrow> string \<Rightarrow> sink_registry \<Rightarrow> cap_store \<Rightarrow>
   (cap_store \<times> sink_registry \<times> sink_spec) latched" where
  "unregister_sink_trust env fresh stamp res actor require_capability p reg st =
     registry_transaction env fresh stamp actor res
       (sdict [(''operation'', VStr ''unregister_sink_trust''), (''pattern'', VStr (strip p))])
       ''Sink trust unregister'' require_capability (unregister_body (strip p) stamp reg) st"

text \<open>\<open>bootstrap_configured_rules\<close>: configured rules replace the records of an earlier bootstrap.\<close>

fun unregister_each ::
  "cap_env \<Rightarrow> (nat \<Rightarrow> string) \<Rightarrow> string \<Rightarrow> string \<Rightarrow> string list \<Rightarrow> sink_registry \<Rightarrow> cap_store \<Rightarrow>
   (cap_store \<times> sink_registry) latched" where
  "unregister_each env fresh stamp res [] reg st = liftL (Inr (st, reg))"
| "unregister_each env fresh stamp res (p # ps) reg st =
     bindL (unregister_sink_trust env fresh stamp res ''runtime.bootstrap'' False p reg st) (\<lambda>(st', reg', _).
       unregister_each env fresh stamp res ps reg' st')"

fun register_each ::
  "cap_env \<Rightarrow> (nat \<Rightarrow> string) \<Rightarrow> string \<Rightarrow> nat \<Rightarrow> string \<Rightarrow> (string \<times> sink_rule) list \<Rightarrow> sink_registry \<Rightarrow> cap_store \<Rightarrow>
   (cap_store \<times> sink_registry) latched" where
  "register_each env fresh stamp limit res [] reg st = liftL (Inr (st, reg))"
| "register_each env fresh stamp limit res ((tid, rl) # rls) reg st =
     bindL (liftL (rule_hash (ce_host env) rl)) (\<lambda>hash.
       if (case inspect_sink reg (su_pattern rl) of Some s \<Rightarrow> ss_hash s = hash | None \<Rightarrow> False)
       then register_each env fresh stamp limit res rls reg st
       else bindL (register_sink_trust env fresh stamp limit res tid ''runtime.bootstrap''
           (inspect_sink reg (su_pattern rl) \<noteq> None) False (Inl rl) reg st) (\<lambda>(st', reg', _).
         register_each env fresh stamp limit res rls reg' st'))"

definition bootstrap_rules ::
  "cap_env \<Rightarrow> (nat \<Rightarrow> string) \<Rightarrow> string \<Rightarrow> nat \<Rightarrow> string \<Rightarrow> (string \<times> (sink_rule + pyval)) list \<Rightarrow> sink_registry \<Rightarrow>
   cap_store \<Rightarrow> (cap_store \<times> sink_registry) latched" where
  "bootstrap_rules env fresh stamp limit res conf reg st =
     bindL (liftL (mapR (\<lambda>(tid, v). bindR (coerce_sink_rule v) (\<lambda>r. Inr (tid, r))) conf)) (\<lambda>rls.
     bindL (unregister_each env fresh stamp res
         (map spec_pattern (filter (\<lambda>s. ss_created_by s = ''runtime.bootstrap''
            \<and> spec_pattern s \<notin> (\<lambda>r. su_pattern (snd r)) ` set rls) (list_sinks reg True))) reg st) (\<lambda>(st', reg').
       register_each env fresh stamp limit res rls reg' st'))"

section \<open>Resolution of a sink\<close>

definition pattern_length :: "sink_spec \<Rightarrow> nat" where
  "pattern_length s = length (rstrip_by (\<lambda>c. c = CHR ''*'') (spec_pattern s))"

definition resolve_sink_trust :: "sink_registry \<Rightarrow> data_sink \<Rightarrow> sink_spec option res" where
  "resolve_sink_trust reg sink =
     bindR (filterR (\<lambda>s. sink_pattern_matches (spec_pattern s) (registry_identity sink)) (list_sinks reg True))
       (\<lambda>found.
       case sort_desc (\<lambda>s. (pattern_length s, ss_generation s)) found of
         [] \<Rightarrow> Inr None
       | s # ss \<Rightarrow>
           if 1 < length (filter (\<lambda>t. pattern_length t = pattern_length s) (s # ss)) then
             Inl (ValidationError ''conflicting equal-priority Sink trust records'')
           else Inr (Some s))"

section \<open>File label bindings\<close>

text \<open>A watch on a directory while it is listed.\<close>

record dir_watch =
  dw_path :: string
  dw_changed :: bool
  dw_context :: flow_context

record file_state =
  ff_rows :: "file_label list"
  ff_watches :: "dir_watch list"

definition file_binding :: "file_state \<Rightarrow> string \<Rightarrow> file_label option" where
  "file_binding fs path =
     List.find (\<lambda>b. fl_path b = path \<and> fl_active b \<and> \<not> fl_tombstoned b) (ff_rows fs)"

definition file_binding_by_id :: "file_state \<Rightarrow> string \<Rightarrow> file_label option" where
  "file_binding_by_id fs i = List.find (\<lambda>b. fl_id b = i) (ff_rows fs)"

definition file_generation :: "file_state \<Rightarrow> string \<Rightarrow> int" where
  "file_generation fs path = fold max (map fl_generation (filter (\<lambda>b. fl_path b = path) (ff_rows fs))) 0"

definition supersede :: "(file_label \<Rightarrow> bool) \<Rightarrow> string \<Rightarrow> file_state \<Rightarrow> file_state" where
  "supersede P now fs = fs\<lparr>ff_rows := map (\<lambda>b. if P b \<and> fl_active b
     then b\<lparr>fl_active := False, fl_superseded := Some now\<rparr> else b) (ff_rows fs)\<rparr>"

definition insert_file :: "file_label \<Rightarrow> file_state \<Rightarrow> file_state res" where
  "insert_file b fs =
     (if list_ex (\<lambda>c. fl_id c = fl_id b) (ff_rows fs) then
        Inl (PyRuntimeError ''UNIQUE constraint failed: file_label_bindings.binding_id'')
      else if list_ex (\<lambda>c. fl_path c = fl_path b \<and> fl_generation c = fl_generation b) (ff_rows fs) then
        Inl (PyRuntimeError ''UNIQUE constraint failed: file_label_bindings.generation'')
      else Inr (fs\<lparr>ff_rows := ff_rows fs @ [b]\<rparr>))"

definition upsert_file :: "file_label \<Rightarrow> file_state \<Rightarrow> file_state res" where
  "upsert_file b fs =
     bindR (check (\<not> fl_tombstoned b \<and> fl_active b)
       (ValidationError ''file label upsert requires an active, non-tombstoned binding'')) (\<lambda>_.
     bindR (check (fl_generation b = file_generation fs (fl_path b) + 1)
       (ValidationError ''file label generation conflict'')) (\<lambda>_.
       insert_file b (supersede (\<lambda>c. fl_path c = fl_path b) (fl_created_at b) fs)))"

text \<open>The tombstone of a path; the expected binding makes it a compare-and-set.\<close>

definition store_tombstone ::
  "string \<Rightarrow> string \<Rightarrow> string \<Rightarrow> string \<Rightarrow> string option \<Rightarrow> int option \<Rightarrow> file_state \<Rightarrow>
   (file_state \<times> file_label option) res" where
  "store_tombstone path bid by stamp exp_id exp_gen fs =
     (if (exp_id = None) \<noteq> (exp_gen = None) then
        Inl (ValidationError ''file label tombstone CAS requires both binding ID and generation'')
      else case file_binding fs path of
        None \<Rightarrow> Inr (fs, None)
      | Some b \<Rightarrow>
          if exp_id \<noteq> None \<and> (exp_id \<noteq> Some (fl_id b) \<or> exp_gen \<noteq> Some (fl_generation b)) then Inr (fs, None)
          else bindR (make_file_label \<lparr>fl_id = bid, fl_path = path, fl_sha = None, fl_labels = fl_labels b,
              fl_refs = fl_refs b, fl_generation = fl_generation b + 1, fl_tombstoned = True, fl_active = True,
              fl_created_by = by, fl_created_at = stamp, fl_superseded = None\<rparr>) (\<lambda>t.
            bindR (insert_file t (supersede (\<lambda>c. fl_id c = fl_id b) stamp fs)) (\<lambda>fs'. Inr (fs', Some t))))"

section \<open>Labels that follow files\<close>

definition file_ref_prefix :: string where
  "file_ref_prefix = ''file_binding:''"

definition file_binding_context :: "file_label \<Rightarrow> flow_context res" where
  "file_binding_context b =
     (case fl_sha b of
        Some sha \<Rightarrow>
          if fl_tombstoned b \<or> \<not> fl_active b then Inl (ValidationError ''active file label binding is invalid'')
          else bindR (make_source_ref (VStr (file_ref_prefix @ fl_id b)) (VInt (fl_generation b)) (VStr sha))
            (\<lambda>r. make_context (fl_labels b) [r] VNone)
      | None \<Rightarrow> Inl (ValidationError ''active file label binding is invalid''))"

definition untrusted_context :: "string \<Rightarrow> flow_context res" where
  "untrusted_context origin =
     bindR (make_labels (VStr ''normal'') (VStr ''untrusted'') (VStr ''untrusted'') (VStr origin) VNone VNone VNone)
       (\<lambda>l. make_context l [] VNone)"

definition unclassified_ingress_context :: "flow_context \<Rightarrow> string \<Rightarrow> flow_context res" where
  "unclassified_ingress_context ctx origin =
     bindR (untrusted_context origin) (\<lambda>e. aggregate_contexts [ctx, e])"

definition external_file_context :: "flow_context res" where
  "external_file_context = untrusted_context ''external-filesystem''"

text \<open>\<open>_record_file_label_mutation\<close>: every overlapping watch takes over the labels of the mutation.\<close>

definition watch_overlaps :: "string \<Rightarrow> dir_watch \<Rightarrow> bool" where
  "watch_overlaps path w \<longleftrightarrow>
     dw_path w = [] \<or> path = dw_path w \<or> startswith path (dw_path w @ ''/'')"

definition taint_watch :: "data_labels \<Rightarrow> dir_watch \<Rightarrow> dir_watch res" where
  "taint_watch l w =
     bindR (make_context l [] VNone) (\<lambda>m.
     bindR (aggregate_contexts [dw_context w, m]) (\<lambda>c.
     bindR (make_context (fc_labels c) [] VNone) (\<lambda>c'.
       Inr (w\<lparr>dw_context := c', dw_changed := True\<rparr>))))"

definition record_label_mutation ::
  "string \<Rightarrow> file_label option \<Rightarrow> file_label option \<Rightarrow> file_state \<Rightarrow> file_state res" where
  "record_label_mutation path prev cur fs =
     (let live = filter (\<lambda>b. \<not> fl_tombstoned b \<and> fl_active b) (map the (filter (\<lambda>x. x \<noteq> None) [prev, cur]));
          sel = rstrip_by (\<lambda>c. c = CHR ''/'') path in
      bindR (mapR file_binding_context live) (\<lambda>cs.
      bindR (if cs = [] then bindR external_file_context (\<lambda>e. Inr [e]) else Inr cs) (\<lambda>cs'.
      bindR (aggregate_contexts cs') (\<lambda>m.
      bindR (mapR (\<lambda>w. if watch_overlaps sel w then taint_watch (fc_labels m) w else Inr w) (ff_watches fs))
        (\<lambda>ws. Inr (fs\<lparr>ff_watches := ws\<rparr>))))))"

text \<open>\<open>bind_written_file_digest\<close> and \<open>bind_written_file\<close>\<close>

definition bind_digest ::
  "string \<Rightarrow> string \<Rightarrow> string \<Rightarrow> string \<Rightarrow> flow_context \<Rightarrow> string \<Rightarrow> file_state \<Rightarrow> (file_state \<times> file_label) res" where
  "bind_digest bid stamp pid path ctx sha fs =
     (let prev = file_binding fs path in
      bindR (case prev of
          None \<Rightarrow> Inr ctx
        | Some b \<Rightarrow> bindR (make_context (fl_labels b) (fl_refs b) VNone) (\<lambda>c. aggregate_contexts [c, ctx])) (\<lambda>sel.
      bindR (make_file_label \<lparr>fl_id = bid, fl_path = path, fl_sha = Some sha, fl_labels = fc_labels sel,
          fl_refs = fc_refs sel, fl_generation = file_generation fs path + 1, fl_tombstoned = False,
          fl_active = True, fl_created_by = pid, fl_created_at = stamp, fl_superseded = None\<rparr>) (\<lambda>b.
      bindR (upsert_file b fs) (\<lambda>fs'.
      bindR (record_label_mutation path prev (Some b) fs') (\<lambda>fs''. Inr (fs'', b))))))"

definition bind_written_file_digest ::
  "string \<Rightarrow> string \<Rightarrow> string \<Rightarrow> string \<Rightarrow> flow_context \<Rightarrow> pyval \<Rightarrow> file_state \<Rightarrow> (file_state \<times> file_label) res" where
  "bind_written_file_digest bid stamp pid path ctx sha fs =
     (case sha of
        VStr s \<Rightarrow>
          if is_sha256_hex s then bind_digest bid stamp pid path ctx s fs
          else Inl (ValidationError ''file content digest must be a lowercase SHA-256'')
      | _ \<Rightarrow> Inl (ValidationError ''file content digest must be a lowercase SHA-256''))"

definition bind_written_file ::
  "host \<Rightarrow> string \<Rightarrow> string \<Rightarrow> string \<Rightarrow> string \<Rightarrow> flow_context \<Rightarrow> string \<Rightarrow> file_state \<Rightarrow>
   (file_state \<times> file_label) res" where
  "bind_written_file h bid stamp pid path ctx content fs =
     bind_digest bid stamp pid path ctx (h_sha256 h content) fs"

definition tombstone_file ::
  "string \<Rightarrow> string \<Rightarrow> string \<Rightarrow> string \<Rightarrow> string option \<Rightarrow> int option \<Rightarrow> file_state \<Rightarrow> file_state res" where
  "tombstone_file bid stamp pid path exp_id exp_gen fs =
     bindR (store_tombstone path bid pid stamp exp_id exp_gen fs) (\<lambda>(fs', t).
       record_label_mutation path (file_binding fs path) None fs')"

text \<open>\<open>tombstone_path_tree\<close>: the expected bindings in the order of their paths.\<close>

fun tombstone_each ::
  "(nat \<Rightarrow> string) \<Rightarrow> nat \<Rightarrow> string \<Rightarrow> string \<Rightarrow> (string \<times> string \<times> int) list \<Rightarrow> file_state \<Rightarrow> file_state res" where
  "tombstone_each fresh n stamp pid [] fs = Inr fs"
| "tombstone_each fresh n stamp pid ((path, i, g) # es) fs =
     bindR (tombstone_file (fresh n) stamp pid path (Some i) (Some g) fs)
       (tombstone_each fresh (Suc n) stamp pid es)"

definition tombstone_path_tree ::
  "(nat \<Rightarrow> string) \<Rightarrow> string \<Rightarrow> string \<Rightarrow> (string \<times> string \<times> int) list \<Rightarrow> file_state \<Rightarrow> file_state res" where
  "tombstone_path_tree fresh stamp pid expected fs =
     tombstone_each fresh 0 stamp pid (sort_key fst expected) fs"

section \<open>Snapshots\<close>

definition binding_state_version :: "host \<Rightarrow> string \<Rightarrow> file_label option \<Rightarrow> string res" where
  "binding_state_version h path b =
     bindR (dumps h (VDict (sdict
       [(''path'', VStr path), (''binding_id'', opt_str (map_option fl_id b)),
        (''generation'', (case b of None \<Rightarrow> VNone | Some x \<Rightarrow> VInt (fl_generation x))),
        (''content_sha256'', (case b of None \<Rightarrow> VNone | Some x \<Rightarrow> opt_str (fl_sha x)))])))
       (\<lambda>t. Inr (h_sha256 h t))"

definition file_deletion_snapshot ::
  "host \<Rightarrow> file_state \<Rightarrow> string \<Rightarrow> (flow_context \<times> string \<times> (string \<times> string \<times> int) list) res" where
  "file_deletion_snapshot h fs path =
     (let b = file_binding fs path in
      bindR (case b of None \<Rightarrow> external_file_context
             | Some x \<Rightarrow> if fl_tombstoned x then external_file_context else file_binding_context x) (\<lambda>ctx.
      bindR (binding_state_version h path b) (\<lambda>v.
        Inr (ctx, v, case b of None \<Rightarrow> []
             | Some x \<Rightarrow> if fl_tombstoned x then [] else [(path, fl_id x, fl_generation x)]))))"

definition file_snapshot :: "host \<Rightarrow> file_state \<Rightarrow> string \<Rightarrow> (flow_context \<times> string) res" where
  "file_snapshot h fs path = bindR (file_deletion_snapshot h fs path) (\<lambda>(c, v, _). Inr (c, v))"

definition tree_state_version :: "host \<Rightarrow> file_label list \<Rightarrow> string res" where
  "tree_state_version h bs =
     bindR (dumps h (VList (map (\<lambda>b. VDict (sdict
       [(''path'', VStr (fl_path b)), (''binding_id'', VStr (fl_id b)),
        (''generation'', VInt (fl_generation b)), (''content_sha256'', opt_str (fl_sha b))])) bs)))
       (\<lambda>t. Inr (h_sha256 h t))"

text \<open>\<open>dict.fromkeys\<close>: the first occurrences, in order.\<close>

definition first_seen :: "'a list \<Rightarrow> 'a list" where
  "first_seen xs = rev (remdups (rev xs))"

definition directory_label_snapshot ::
  "host \<Rightarrow> file_state \<Rightarrow> string \<Rightarrow> string list \<Rightarrow> ((string \<times> flow_context) list \<times> string) res" where
  "directory_label_snapshot h fs path children =
     (let bs = filter (\<lambda>b. \<not> fl_tombstoned b)
            (map the (filter (\<lambda>x. x \<noteq> None) (map (file_binding fs) (first_seen (path # children))))) in
      bindR (mapR (\<lambda>b. bindR (file_binding_context b) (\<lambda>c. Inr (fl_path b, c))) bs) (\<lambda>cs.
      bindR (tree_state_version h bs) (\<lambda>v. Inr (fold (\<lambda>(k, c) d. dset d k c) cs [], v))))"

section \<open>Provenance\<close>

text \<open>
  \<open>provenance_sources\<close>: the references of a context, split into Object parents and durable file
  bindings; a file binding that still is the referenced one is followed into its own sources. The nested
  recursion of the code is a loop over the pending references; each round visits a new one or drops one.
\<close>

definition is_file_ref :: "source_ref \<Rightarrow> bool" where
  "is_file_ref r \<longleftrightarrow> startswith (sr_oid r) file_ref_prefix"

definition ref_binding :: "file_state \<Rightarrow> source_ref \<Rightarrow> file_label option" where
  "ref_binding fs r =
     (let i = drop (length file_ref_prefix) (sr_oid r) in
      if i = [] then None else file_binding_by_id fs i)"

definition ref_current :: "source_ref \<Rightarrow> file_label \<Rightarrow> bool" where
  "ref_current r b \<longleftrightarrow> \<not> fl_tombstoned b \<and> fl_generation b = sr_version r \<and> fl_sha b = Some (sr_sha r)"

definition ref_parents :: "file_state \<Rightarrow> source_ref \<Rightarrow> source_ref list" where
  "ref_parents fs r =
     (if is_file_ref r then
        (case ref_binding fs r of
           Some b \<Rightarrow> if ref_current r b then fl_refs b else []
         | None \<Rightarrow> [])
      else [])"

definition ref_universe :: "file_state \<Rightarrow> source_ref list \<Rightarrow> source_ref set" where
  "ref_universe fs rs = set rs \<union> (\<Union>b \<in> set (ff_rows fs). set (fl_refs b))"

lemma finite_ref_universe [simp]: "finite (ref_universe fs rs)"
  by (simp add: ref_universe_def)

lemma ref_parents_universe: "set (ref_parents fs r) \<subseteq> (\<Union>b \<in> set (ff_rows fs). set (fl_refs b))"
proof (cases "ref_binding fs r")
  case (Some b)
  then obtain i where "file_binding_by_id fs i = Some b" unfolding ref_binding_def Let_def by (metis option.distinct(1))
  then have "b \<in> set (ff_rows fs)" unfolding file_binding_by_id_def by (rule find_SomeD [THEN conjunct1])
  then have "set (fl_refs b) \<subseteq> (\<Union>b \<in> set (ff_rows fs). set (fl_refs b))" by blast
  moreover have "ref_parents fs r = fl_refs b \<or> ref_parents fs r = []"
    unfolding ref_parents_def Some by simp
  ultimately show ?thesis by fastforce
next
  case None
  have "ref_parents fs r = []" unfolding ref_parents_def None by simp
  then show ?thesis by simp
qed

definition add_new :: "'a list \<Rightarrow> 'a \<Rightarrow> 'a list" where
  "add_new xs x = (if x \<in> set xs then xs else xs @ [x])"

function collect_refs ::
  "file_state \<Rightarrow> string list \<Rightarrow> source_ref list \<Rightarrow> source_ref set \<Rightarrow> string list \<Rightarrow> string list \<Rightarrow>
   string list \<times> string list" where
  "collect_refs fs excl [] seen ps ds = (ps, ds)"
| "collect_refs fs excl (r # rs) seen ps ds =
     (if r \<in> seen then collect_refs fs excl rs seen ps ds
      else collect_refs fs excl (ref_parents fs r @ rs) (insert r seen)
        (if is_file_ref r \<or> sr_oid r \<in> set excl then ps else add_new ps (sr_oid r))
        (if is_file_ref r then add_new ds (sr_oid r) else ds))"
  by pat_completeness auto
termination
proof (relation "measures [\<lambda>(fs, excl, rs, seen, ps, ds). card (ref_universe fs rs - seen),
    \<lambda>(fs, excl, rs, seen, ps, ds). length rs]", goal_cases)
  case 1
  then show ?case by simp
next
  case (2 fs excl r rs seen ps ds)
  have "ref_universe fs rs - seen \<subseteq> ref_universe fs (r # rs) - seen" by (auto simp: ref_universe_def)
  then have "card (ref_universe fs rs - seen) \<le> card (ref_universe fs (r # rs) - seen)" by (simp add: card_mono)
  then show ?case by auto
next
  case (3 fs excl r rs seen ps ds)
  have "ref_universe fs (ref_parents fs r @ rs) - insert r seen \<subset> ref_universe fs (r # rs) - seen"
    using 3 ref_parents_universe [of fs r] by (auto simp: ref_universe_def)
  then show ?case by (simp add: psubset_card_mono)
qed

declare collect_refs.simps [simp del]

definition provenance_sources :: "file_state \<Rightarrow> flow_context \<Rightarrow> string list \<Rightarrow> string list \<times> string list" where
  "provenance_sources fs ctx exclude =
     collect_refs fs (filter (\<lambda>s. s \<noteq> []) (map strip exclude)) (fc_refs ctx) {} [] []"

text \<open>The specification: the references that a list of references reaches.\<close>

inductive reaches :: "file_state \<Rightarrow> source_ref list \<Rightarrow> source_ref \<Rightarrow> bool" for fs rs where
  given: "r \<in> set rs \<Longrightarrow> reaches fs rs r"
| followed: "reaches fs rs q \<Longrightarrow> r \<in> set (ref_parents fs q) \<Longrightarrow> reaches fs rs r"

section \<open>Lemmas on provenance\<close>

lemma add_new_simps [simp]: "set (add_new xs x) = insert x (set xs)" "distinct (add_new xs x) = distinct xs"
  by (auto simp: add_new_def)

definition parent_names :: "string list \<Rightarrow> source_ref set \<Rightarrow> string set" where
  "parent_names excl seen = {sr_oid r | r. r \<in> seen \<and> \<not> is_file_ref r \<and> sr_oid r \<notin> set excl}"

definition durable_names :: "source_ref set \<Rightarrow> string set" where
  "durable_names seen = {sr_oid r | r. r \<in> seen \<and> is_file_ref r}"

lemma names_simps [simp]:
  "parent_names excl {} = {}" "durable_names {} = {}"
  "parent_names excl (insert r seen) =
     (if is_file_ref r \<or> sr_oid r \<in> set excl then parent_names excl seen
      else insert (sr_oid r) (parent_names excl seen))"
  "durable_names (insert r seen) = (if is_file_ref r then insert (sr_oid r) (durable_names seen) else durable_names seen)"
  by (auto simp: parent_names_def durable_names_def)

lemma collect_refs_reaches:
  assumes "set rs0 \<subseteq> seen \<union> set rs" "\<forall>q \<in> seen. set (ref_parents fs q) \<subseteq> seen \<union> set rs"
    "\<forall>q \<in> seen \<union> set rs. reaches fs rs0 q"
    "set ps = parent_names excl seen" "set ds = durable_names seen" "distinct ps" "distinct ds"
  shows "case collect_refs fs excl rs seen ps ds of (P, D) \<Rightarrow> distinct P \<and> distinct D
    \<and> set P = parent_names excl {r. reaches fs rs0 r} \<and> set D = durable_names {r. reaches fs rs0 r}"
  using assms
proof (induction fs excl rs seen ps ds rule: collect_refs.induct)
  case (1 fs excl seen ps ds)
  have "r \<in> seen" if "reaches fs rs0 r" for r
    using that by (induction rule: reaches.induct) (use 1 in auto)
  then have "{r. reaches fs rs0 r} = seen" using 1(3) by auto
  then show ?case using 1 by (simp add: collect_refs.simps)
next
  case (2 fs excl r rs seen ps ds)
  show ?case
  proof (cases "r \<in> seen")
    case True
    have "set rs0 \<subseteq> seen \<union> set rs" "\<forall>q \<in> seen. set (ref_parents fs q) \<subseteq> seen \<union> set rs"
      "\<forall>q \<in> seen \<union> set rs. reaches fs rs0 q"
      using 2(3-5) True by auto
    from 2(1) [OF True this 2(6-9)] True show ?thesis by (simp add: collect_refs.simps)
  next
    case False
    have a: "set rs0 \<subseteq> insert r seen \<union> set (ref_parents fs r @ rs)" using 2(3) by auto
    have b: "\<forall>q \<in> insert r seen. set (ref_parents fs q) \<subseteq> insert r seen \<union> set (ref_parents fs r @ rs)"
      using 2(4) by auto
    have "reaches fs rs0 r" using 2(5) by simp
    then have c: "\<forall>q \<in> insert r seen \<union> set (ref_parents fs r @ rs). reaches fs rs0 q"
      using 2(5) reaches.followed by auto
    from 2(2) [OF False a b c] 2(6-9) False show ?thesis by (simp add: collect_refs.simps)
  qed
qed

section \<open>Lemmas on resolution\<close>

text \<open>No two active records have equal bases, and every pattern is valid.\<close>

definition registry_ok :: "sink_registry \<Rightarrow> bool" where
  "registry_ok reg \<longleftrightarrow>
     distinct (map (\<lambda>s. pattern_base (spec_pattern s)) (filter ss_active (rg_specs reg)))
     \<and> (\<forall>s \<in> set (rg_specs reg). validate_sink_pattern (VStr (spec_pattern s)) = Inr (spec_pattern s))"

lemma deactivate_active:
  "filter ss_active (rg_specs (deactivate p now reg)) = filter (\<lambda>s. spec_pattern s \<noteq> p) (filter ss_active (rg_specs reg))"
proof -
  have "filter ss_active (map (\<lambda>s. if spec_pattern s = p \<and> ss_active s
      then s\<lparr>ss_active := False, ss_deactivated := Some now\<rparr> else s) xs)
    = filter (\<lambda>s. spec_pattern s \<noteq> p) (filter ss_active xs)" for xs
    by (induction xs) auto
  then show ?thesis by (simp add: deactivate_def)
qed

lemma deactivate_patterns: "spec_pattern ` set (rg_specs (deactivate p now reg)) = spec_pattern ` set (rg_specs reg)"
proof -
  have "map spec_pattern (rg_specs (deactivate p now reg)) = map spec_pattern (rg_specs reg)"
    by (simp add: deactivate_def spec_pattern_def)
  then show ?thesis by (metis list.set_map)
qed

lemma set_list_sinks [simp]: "set (list_sinks reg True) = {s \<in> set (rg_specs reg). ss_active s}"
  by (auto simp: list_sinks_def)

lemma make_sink_spec_Inr:
  assumes "make_sink_spec h tid rl gen by created hash act deact ver = Inr s"
  shows "spec_pattern s = su_pattern rl" "ss_active s \<longleftrightarrow> act = VBool True"
    "validate_sink_pattern (VStr (spec_pattern s)) = Inr (spec_pattern s)" "VInt (ss_generation s) = gen"
    "VStr (ss_created_by s) = by"
proof -
  obtain r where r: "make_sink_rule (VStr (su_pattern rl)) (VStr (sink_trust_value (su_trust rl)))
         (VStr (sensitivity_value (su_max rl))) (VTuple (map VStr (su_tenants rl)))
         (VTuple (map VStr (su_principals rl))) (opt_str (su_sha rl)) = Inr r" "ss_rule s = r"
    and s: "ss_active s = (act = VBool True)" "VInt (ss_generation s) = gen" "VStr (ss_created_by s) = by"
    using assms unfolding make_sink_spec_def bindR_Inr_iff by (auto simp: res_simps)
  obtain p where p: "validate_sink_pattern (VStr (su_pattern rl)) = Inr p" "su_pattern r = p"
    using r(1) by (auto simp: make_sink_rule_def res_simps split: if_splits)
  have "p = su_pattern rl" using p(1) by (auto simp: validate_sink_pattern_def res_simps split: if_splits)
  then show "spec_pattern s = su_pattern rl" "ss_active s \<longleftrightarrow> act = VBool True"
    "validate_sink_pattern (VStr (spec_pattern s)) = Inr (spec_pattern s)" "VInt (ss_generation s) = gen"
    "VStr (ss_created_by s) = by"
    using p r(2) s by (simp_all add: spec_pattern_def)
qed

lemma register_body_ok:
  assumes ok: "registry_ok reg" and r: "register_body h limit rl rep by stamp tid reg = Inr (reg', s)"
  shows "registry_ok reg'"
proof -
  have new: "make_sink_spec h (VStr tid) rl (VInt (rg_generation reg + 1)) (VStr by) (VStr stamp) (VStr [])
            (VBool True) VNone (VInt 1) = Inr s"
    and st: "store_register s rep reg = Inr reg'"
    and base: "\<forall>t \<in> set (rg_specs reg). ss_active t \<longrightarrow>
        rep \<and> spec_pattern t = su_pattern rl \<or> pattern_base (spec_pattern t) \<noteq> pattern_base (su_pattern rl)"
    using r by (auto simp: register_body_def Let_def res_simps list_ex_iff split: if_splits)
  note n = make_sink_spec_Inr [OF new]
  have reg': "rg_specs reg' = rg_specs (deactivate (spec_pattern s) (ss_created_at s) reg) @ [s]"
    using st by (auto simp: store_register_def res_simps split: if_splits)
  have act: "filter ss_active (rg_specs reg')
      = filter (\<lambda>t. spec_pattern t \<noteq> spec_pattern s) (filter ss_active (rg_specs reg)) @ [s]"
    using n(2) by (simp add: reg' deactivate_active)
  have "distinct (map (\<lambda>s. pattern_base (spec_pattern s)) (filter (\<lambda>t. spec_pattern t \<noteq> spec_pattern s)
      (filter ss_active (rg_specs reg))))"
    using ok distinct_map_filter unfolding registry_ok_def by blast
  then have "distinct (map (\<lambda>s. pattern_base (spec_pattern s)) (filter ss_active (rg_specs reg')))"
    unfolding act using base n(1) by auto
  moreover have "\<forall>t \<in> set (rg_specs reg'). validate_sink_pattern (VStr (spec_pattern t)) = Inr (spec_pattern t)"
  proof
    fix t assume "t \<in> set (rg_specs reg')"
    then have "t = s \<or> spec_pattern t \<in> spec_pattern ` set (rg_specs reg)"
      using deactivate_patterns [of "spec_pattern s" "ss_created_at s" reg] by (auto simp: reg')
    then show "validate_sink_pattern (VStr (spec_pattern t)) = Inr (spec_pattern t)"
      using ok n(3) by (auto simp: registry_ok_def)
  qed
  ultimately show ?thesis by (simp add: registry_ok_def)
qed

lemma unregister_body_ok:
  assumes ok: "registry_ok reg" and r: "unregister_body p stamp reg = Inr (reg', s)"
  shows "registry_ok reg'"
proof -
  have reg': "rg_specs reg' = rg_specs (deactivate p stamp reg)"
    using r by (auto simp: unregister_body_def store_unregister_def res_simps split: option.splits if_splits sum.splits)
  have "\<forall>t \<in> set (rg_specs reg'). spec_pattern t \<in> spec_pattern ` set (rg_specs reg)"
    using deactivate_patterns [of p stamp reg] by (auto simp: reg')
  then show ?thesis
    using ok distinct_map_filter unfolding registry_ok_def reg' deactivate_active by fastforce
qed

lemma registry_transaction_Inr:
  "registry_transaction env fresh stamp actor res ctx opn rc body st l = (l', Inr (st', x)) \<Longrightarrow> body = Inr x"
proof -
  assume "registry_transaction env fresh stamp actor res ctx opn rc body st l = (l', Inr (st', x))"
  then obtain ds cur l1 l2 where "authority_transaction env fresh actor opn stamp (reauthorize_decision env) ds
      (\<lambda>_ st. bindR body (\<lambda>x. Inr (st, x))) st l1 = (l2, Inr (st', cur, x))"
    unfolding registry_transaction_def
    by (auto simp: bindL_Inr_iff simp del: bindL_liftL split: prod.splits)
  then have "is_ok body \<and> the_ok body = x"
    unfolding authority_transaction_def
    by (cases body) (auto simp: bindL_Inr_iff simp del: bindL_liftL split: prod.splits)
  then show ?thesis by (cases body) auto
qed

text \<open>The registries that the administration of sinks reaches.\<close>

inductive sink_reach :: "sink_registry \<Rightarrow> bool" where
  empty: "sink_reach \<lparr>rg_specs = [], rg_generation = 0\<rparr>"
| registered: "sink_reach reg \<Longrightarrow>
    register_sink_trust env fresh stamp limit res tid actor rep rc v reg st l = (l', Inr (st', reg', s)) \<Longrightarrow>
    sink_reach reg'"
| unregistered: "sink_reach reg \<Longrightarrow>
    unregister_sink_trust env fresh stamp res actor rc p reg st l = (l', Inr (st', reg', s)) \<Longrightarrow> sink_reach reg'"

lemma sink_reach_ok: "sink_reach reg \<Longrightarrow> registry_ok reg"
proof (induction rule: sink_reach.induct)
  case empty
  then show ?case by (simp add: registry_ok_def)
next
  case (registered reg env fresh stamp limit res tid actor rep rc v st l l' st' reg' s)
  from registered(2) obtain rl where "register_body (ce_host env) limit rl rep actor stamp tid reg = Inr (reg', s)"
    unfolding register_sink_trust_def
    by (auto simp: bindL_Inr_iff simp del: bindL_liftL dest: registry_transaction_Inr)
  then show ?case using register_body_ok registered.IH by blast
next
  case (unregistered reg env fresh stamp res actor rc p st l l' st' reg' s)
  from unregistered(2) have "unregister_body (strip p) stamp reg = Inr (reg', s)"
    unfolding unregister_sink_trust_def by (rule registry_transaction_Inr)
  then show ?case using unregister_body_ok unregistered.IH by blast
qed

lemma star_free_rstrip: "CHR ''*'' \<notin> set b \<Longrightarrow> dropWhile (\<lambda>c. c = CHR ''*'') (rev b) = rev b"
  by (cases b rule: rev_cases) auto

lemma pattern_base_length:
  assumes "validate_sink_pattern (VStr (spec_pattern s)) = Inr (spec_pattern s)"
  shows "pattern_length s = length (pattern_base (spec_pattern s))"
proof (cases "endswith (spec_pattern s) ''*''")
  case True
  then obtain b where b: "spec_pattern s = b @ ''*''" by (auto simp: endswith_iff_suffix suffix_def)
  have "count_list (spec_pattern s) (CHR ''*'') \<le> 1"
    using assms by (auto simp: validate_sink_pattern_def res_simps split: if_splits)
  then have "CHR ''*'' \<notin> set b" by (auto simp: b count_list_0_iff)
  from star_free_rstrip [OF this] True show ?thesis by (simp add: pattern_length_def pattern_base_def b rstrip_by_def)
next
  case False
  have "CHR ''*'' \<notin> set (spec_pattern s)"
    using assms False by (auto simp: validate_sink_pattern_def res_simps split: if_splits)
  note star_free_rstrip [OF this]
  then show ?thesis using False by (simp add: pattern_length_def pattern_base_def rstrip_by_def)
qed

lemma accepts_base: "pattern_accepts p k \<Longrightarrow> prefix (pattern_base p) k"
  by (auto simp: pattern_accepts_def pattern_base_def startswith_iff_prefix split: if_splits)

lemma sort_desc_first:
  assumes "sort_desc f xs = y # ys"
  shows "y \<in> set xs" "\<forall>x \<in> set xs. f x \<le> f y"
proof -
  have r: "sort_key f (rev xs) = rev ys @ [y]" using assms unfolding sort_desc_def by (metis rev.simps(2) rev_rev_ident)
  then have set: "set xs = insert y (set ys)" by (metis set_append set_rev set_sort Un_insert_right list.simps(15) sup_bot_right empty_set)
  then show "y \<in> set xs" by simp
  have "sorted (map f (rev ys @ [y]))" using sorted_sort_key [of f "rev xs"] r by simp
  then show "\<forall>x \<in> set xs. f x \<le> f y" using set by (auto simp: sorted_append)
qed

lemma sort_desc_mset: "mset (sort_desc f xs) = mset xs"
  by (simp add: sort_desc_def)

section \<open>Lemmas on labels that follow files\<close>

text \<open>\<open>a\<close> is at least as restrictive as \<open>l\<close>.\<close>

definition label_le :: "data_labels \<Rightarrow> data_labels \<Rightarrow> bool" where
  "label_le l a \<longleftrightarrow>
     dl_sensitivity l \<le> dl_sensitivity a \<and> dl_trust a \<le> dl_trust l \<and> dl_integrity a \<le> dl_integrity l
     \<and> (dl_tenant l = None \<or> dl_tenant a \<in> {dl_tenant l, Some ''mixed''})
     \<and> (dl_principal l = None \<or> dl_principal a \<in> {dl_principal l, Some ''mixed''})
     \<and> dl_declass a \<in> {dl_declass l, None}"

lemma label_le_refl [simp]: "label_le l l"
  by (auto simp: label_le_def)

lemma label_le_merged:
  assumes "list_all labels_wf ls" "l \<in> set ls"
  shows "label_le l (merged ls)"
proof -
  have wf: "dl_tenant l \<noteq> Some []" "dl_principal l \<noteq> Some []"
    using assms by (auto simp: list_all_iff labels_wf_def opt_ok_def text_ok_def)
  have "dl_sensitivity l \<le> dl_sensitivity (merged ls)" "dl_trust (merged ls) \<le> dl_trust l"
    "dl_integrity (merged ls) \<le> dl_integrity l"
    using assms(2) by (simp_all add: merged_def)
  moreover have "dl_tenant l = None \<or> dl_tenant (merged ls) \<in> {dl_tenant l, Some ''mixed''}"
    using merge_identity_member [of "dl_tenant l" "map dl_tenant ls" "''mixed''"] wf assms(2)
    by (auto simp: merged_def)
  moreover have "dl_principal l = None \<or> dl_principal (merged ls) \<in> {dl_principal l, Some ''mixed''}"
    using merge_identity_member [of "dl_principal l" "map dl_principal ls" "''mixed''"] wf assms(2)
    by (auto simp: merged_def)
  moreover have "dl_declass (merged ls) \<in> {dl_declass l, None}"
    using merge_declassification_member [of "dl_declass l" "map dl_declass ls"] assms(2) by (auto simp: merged_def)
  ultimately show ?thesis by (simp add: label_le_def)
qed

lemma aggregate_contexts_Inr:
  assumes "aggregate_contexts cs = Inr c" "list_all (\<lambda>c. labels_wf (fc_labels c)) cs" "d \<in> set cs"
  shows "label_le (fc_labels d) (fc_labels c)" "set (fc_refs d) \<subseteq> set (fc_refs c)" "labels_wf (fc_labels c)"
proof -
  have wf: "list_all labels_wf (map fc_labels cs)" using assms(2) by (simp add: list_all_iff)
  have ne: "map fc_labels cs \<noteq> []" using assms(3) by auto
  have c: "fc_labels c = merged (map fc_labels cs)" "fc_refs c = sort_refs (sort_refs (concat (map fc_refs cs)))"
    using assms(1) aggregate_merged [OF ne wf] by (auto simp: aggregate_contexts_def make_context_def res_simps)
  show "label_le (fc_labels d) (fc_labels c)" using label_le_merged [OF wf] assms(3) by (simp add: c(1))
  show "set (fc_refs d) \<subseteq> set (fc_refs c)" using assms(3) sort_refs_spec by (fastforce simp: c(2))
  show "labels_wf (fc_labels c)" using merged_wf [OF wf] by (simp add: c(1))
qed

lemma fold_max_ge: "(x :: int) \<in> set xs \<or> x \<le> m \<Longrightarrow> x \<le> fold max xs m"
  by (induction xs arbitrary: m) (force simp: le_max_iff_disj)+

lemma file_bindingD:
  "file_binding fs path = Some b \<Longrightarrow> b \<in> set (ff_rows fs) \<and> fl_path b = path \<and> fl_active b \<and> \<not> fl_tombstoned b"
  unfolding file_binding_def by (blast dest: find_SomeD)

lemma upsert_file_Inr:
  assumes "upsert_file b fs = Inr fs'"
  shows "file_binding fs' (fl_path b) = Some b"
    "q \<noteq> fl_path b \<Longrightarrow> file_binding fs' q = file_binding fs q"
    "fl_labels ` set (ff_rows fs') = insert (fl_labels b) (fl_labels ` set (ff_rows fs))"
    "length (filter (\<lambda>c. fl_path c = fl_path b \<and> fl_active c) (ff_rows fs')) = 1"
proof -
  define retire where "retire = (\<lambda>c :: file_label. if fl_path c = fl_path b \<and> fl_active c
     then c\<lparr>fl_active := False, fl_superseded := Some (fl_created_at b)\<rparr> else c)"
  have fs': "ff_rows fs' = map retire (ff_rows fs) @ [b]" and b: "fl_active b" "\<not> fl_tombstoned b"
    using assms by (auto simp: upsert_file_def insert_file_def supersede_def retire_def res_simps split: if_splits)
  have none: "List.find (\<lambda>c. fl_path c = fl_path b \<and> fl_active c \<and> \<not> fl_tombstoned c) (map retire xs) = None" for xs
    by (induction xs) (auto simp: retire_def)
  have find_app: "List.find P (xs @ ys) = (case List.find P xs of None \<Rightarrow> List.find P ys | Some x \<Rightarrow> Some x)"
    for P :: "file_label \<Rightarrow> bool" and xs ys
    by (induction xs) auto
  show "file_binding fs' (fl_path b) = Some b" using b by (simp add: file_binding_def fs' find_app none)
  have other: "List.find (\<lambda>c. fl_path c = q \<and> fl_active c \<and> \<not> fl_tombstoned c) (map retire xs)
      = List.find (\<lambda>c. fl_path c = q \<and> fl_active c \<and> \<not> fl_tombstoned c) xs" if "q \<noteq> fl_path b" for xs
    by (induction xs) (use that in \<open>auto simp: retire_def\<close>)
  show "file_binding fs' q = file_binding fs q" if "q \<noteq> fl_path b"
    using that by (auto simp: file_binding_def fs' find_app other [OF that] split: option.split)
  have "fl_labels (retire c) = fl_labels c" for c by (simp add: retire_def)
  then show "fl_labels ` set (ff_rows fs') = insert (fl_labels b) (fl_labels ` set (ff_rows fs))"
    by (simp add: fs' image_image)
  have "filter (\<lambda>c. fl_path c = fl_path b \<and> fl_active c) (map retire xs) = []" for xs
    by (induction xs) (auto simp: retire_def)
  then show "length (filter (\<lambda>c. fl_path c = fl_path b \<and> fl_active c) (ff_rows fs')) = 1" using b by (simp add: fs')
qed

lemma record_label_mutation_rows: "record_label_mutation path prev cur fs = Inr fs' \<Longrightarrow> ff_rows fs' = ff_rows fs"
  by (auto simp: record_label_mutation_def Let_def res_simps split: if_splits)

lemma make_file_label_Inr: "make_file_label c = Inr b \<Longrightarrow> b = c\<lparr>fl_refs := sort_refs (fl_refs c)\<rparr>"
  unfolding make_file_label_def bindR_Inr_iff by auto

lemma host_register:
  assumes "rule_hash (ce_host env) rl = Inr hash"
    "register_body (ce_host env) limit rl rep actor stamp tid reg = Inr (reg', s)" "ce_admission env = (\<lambda>_. None)"
  shows "register_sink_trust env fresh stamp limit res tid actor rep False (Inl rl) reg st l
    = (l, Inr (st, reg', s))"
  using assms
  by (simp add: register_sink_trust_def coerce_sink_rule_def registry_transaction_def authority_transaction_def
      admission_check_def bindL_def liftL_def)

section \<open>Properties\<close>

text \<open>
  C20. Whatever registrations, replacements and removals the administration of sinks performs, the
  resolution of a valid sink never finds conflicting records: it returns the active record whose pattern
  accepts the sink and is longer than every other that does, or none when no active pattern accepts it.
\<close>

theorem sink_resolution_unique:
  assumes "sink_reach reg" "make_sink (VStr (registry_identity sink)) VNone VNone VNone = Inr k"
  shows "\<exists>r. resolve_sink_trust reg sink = Inr r \<and>
    (case r of
       None \<Rightarrow> \<forall>s \<in> set (rg_specs reg). ss_active s \<longrightarrow> \<not> pattern_accepts (spec_pattern s) (registry_identity sink)
     | Some s \<Rightarrow> s \<in> set (rg_specs reg) \<and> ss_active s \<and> pattern_accepts (spec_pattern s) (registry_identity sink)
         \<and> (\<forall>t \<in> set (rg_specs reg). ss_active t \<and> pattern_accepts (spec_pattern t) (registry_identity sink) \<and> t \<noteq> s
              \<longrightarrow> length (pattern_base (spec_pattern t)) < length (pattern_base (spec_pattern s))))"
proof -
  note ok = sink_reach_ok [OF assms(1)]
  define P where "P = (\<lambda>s. pattern_accepts (spec_pattern s) (registry_identity sink))"
  define found where "found = filter P (list_sinks reg True)"
  have valid: "validate_sink_pattern (VStr (spec_pattern s)) = Inr (spec_pattern s)" if "s \<in> set (rg_specs reg)" for s
    using ok that by (simp add: registry_ok_def)
  have "filterR (\<lambda>s. sink_pattern_matches (spec_pattern s) (registry_identity sink)) (list_sinks reg True) = Inr found"
    unfolding found_def by (rule filterR_ok) (simp add: sink_pattern_matches_def valid assms(2) P_def)
  then have res: "resolve_sink_trust reg sink = (case sort_desc (\<lambda>s. (pattern_length s, ss_generation s)) found of
         [] \<Rightarrow> Inr None
       | s # ss \<Rightarrow> if 1 < length (filter (\<lambda>t. pattern_length t = pattern_length s) (s # ss)) then
             Inl (ValidationError ''conflicting equal-priority Sink trust records'') else Inr (Some s))"
    by (simp add: resolve_sink_trust_def)
  have mem: "t \<in> set found \<longleftrightarrow> t \<in> set (rg_specs reg) \<and> ss_active t \<and> P t" for t by (auto simp: found_def)
  have inj: "inj_on (\<lambda>s. pattern_base (spec_pattern s)) {s \<in> set (rg_specs reg). ss_active s}"
    using ok unfolding registry_ok_def distinct_map by simp
  have same: "s = t" if "s \<in> set found" "t \<in> set found" "pattern_length s = pattern_length t" for s t
  proof -
    have "prefix (pattern_base (spec_pattern s)) (registry_identity sink)"
      "prefix (pattern_base (spec_pattern t)) (registry_identity sink)"
      "length (pattern_base (spec_pattern s)) = length (pattern_base (spec_pattern t))"
      using that accepts_base pattern_base_length valid mem unfolding P_def by auto
    then have "pattern_base (spec_pattern s) = pattern_base (spec_pattern t)"
      by (metis append_eq_append_conv prefix_def)
    then show ?thesis using inj that(1,2) mem unfolding inj_on_def by blast
  qed
  have dist: "distinct found"
    using ok unfolding registry_ok_def found_def list_sinks_def distinct_map by simp
  show ?thesis
  proof (cases "sort_desc (\<lambda>s. (pattern_length s, ss_generation s)) found")
    case Nil
    then have "found = []" using sort_desc_mset [of _ found] by (metis mset.simps(1) mset_zero_iff)
    then show ?thesis using res mem by (simp add: P_def sort_desc_def)
  next
    case (Cons s ss)
    note first = sort_desc_first [OF Cons]
    have d: "distinct (s # ss)" using dist sort_desc_mset [of _ found] Cons by (metis mset_eq_imp_distinct_iff)
    have set: "set (s # ss) = set found" using sort_desc_mset [of _ found] Cons by (metis mset_eq_setD)
    have "filter (\<lambda>t. pattern_length t = pattern_length s) ss = []"
      using same set d unfolding filter_empty_conv by (metis distinct.simps(2) list.set_intros)
    then have "resolve_sink_trust reg sink = Inr (Some s)" using res Cons by simp
    moreover have "length (pattern_base (spec_pattern t)) < length (pattern_base (spec_pattern s))"
      if "t \<in> set found" "t \<noteq> s" for t
    proof -
      have "pattern_length t \<le> pattern_length s" using first(2) that(1) by (auto simp: less_eq_prod_def)
      then show ?thesis using same [OF that(1) first(1)] that pattern_base_length valid mem first(1)
        by (metis le_neq_implies_less)
    qed
    ultimately show ?thesis using first(1) mem by (auto simp: P_def)
  qed
qed

text \<open>
  C21. The provenance of a context is complete and nothing else: the Object parents are exactly the
  Objects that its references reach through current file bindings, less the excluded ones, and the
  durable sources exactly the file bindings reached, each once, also when bindings refer to each other.
\<close>

theorem provenance_complete:
  "distinct (fst (provenance_sources fs ctx exclude)) \<and> distinct (snd (provenance_sources fs ctx exclude))
   \<and> set (fst (provenance_sources fs ctx exclude))
     = {sr_oid r | r. reaches fs (fc_refs ctx) r \<and> \<not> is_file_ref r
          \<and> sr_oid r \<notin> {strip s | s. s \<in> set exclude \<and> strip s \<noteq> []}}
   \<and> set (snd (provenance_sources fs ctx exclude)) = {sr_oid r | r. reaches fs (fc_refs ctx) r \<and> is_file_ref r}"
proof -
  let ?e = "filter (\<lambda>s. s \<noteq> []) (map strip exclude)"
  have e: "set ?e = {strip s | s. s \<in> set exclude \<and> strip s \<noteq> []}" by auto
  have "case provenance_sources fs ctx exclude of (P, D) \<Rightarrow> distinct P \<and> distinct D
      \<and> set P = parent_names ?e {r. reaches fs (fc_refs ctx) r} \<and> set D = durable_names {r. reaches fs (fc_refs ctx) r}"
    unfolding provenance_sources_def
    by (rule collect_refs_reaches [where ?rs0.0 = "fc_refs ctx"]) (auto intro: reaches.given)
  then show ?thesis unfolding parent_names_def durable_names_def e by (auto split: prod.splits)
qed

text \<open>
  C22. Labels follow a file through its rewrites: binding a new content keeps one active binding for the
  path, at a higher generation, whose labels are at least as restrictive as those of the written data and
  of the previous content and whose sources include both; no other path changes.
\<close>

theorem rewrite_keeps_labels:
  assumes "bind_digest bid stamp pid path ctx sha fs = Inr (fs', b)"
    and "\<forall>c \<in> set (ff_rows fs). labels_wf (fl_labels c)" "labels_wf (fc_labels ctx)"
  shows "file_binding fs' path = Some b \<and> fl_sha b = Some sha
    \<and> label_le (fc_labels ctx) (fl_labels b) \<and> set (fc_refs ctx) \<subseteq> set (fl_refs b)
    \<and> (\<forall>p. file_binding fs path = Some p \<longrightarrow> label_le (fl_labels p) (fl_labels b)
         \<and> set (fl_refs p) \<subseteq> set (fl_refs b) \<and> fl_generation p < fl_generation b)
    \<and> (\<forall>q. q \<noteq> path \<longrightarrow> file_binding fs' q = file_binding fs q)
    \<and> length (filter (\<lambda>c. fl_path c = path \<and> fl_active c) (ff_rows fs')) = 1
    \<and> (\<forall>c \<in> set (ff_rows fs'). labels_wf (fl_labels c))"
proof -
  obtain sel fs1 where sel: "(case file_binding fs path of
          None \<Rightarrow> Inr ctx
        | Some b \<Rightarrow> bindR (make_context (fl_labels b) (fl_refs b) VNone) (\<lambda>c. aggregate_contexts [c, ctx])) = Inr sel"
    and b: "make_file_label \<lparr>fl_id = bid, fl_path = path, fl_sha = Some sha, fl_labels = fc_labels sel,
          fl_refs = fc_refs sel, fl_generation = file_generation fs path + 1, fl_tombstoned = False,
          fl_active = True, fl_created_by = pid, fl_created_at = stamp, fl_superseded = None\<rparr> = Inr b"
    and up: "upsert_file b fs = Inr fs1"
    and rec: "record_label_mutation path (file_binding fs path) (Some b) fs1 = Inr fs'"
    using assms(1) unfolding bind_digest_def Let_def bindR_Inr_iff by auto
  note bf = make_file_label_Inr [OF b]
  have f: "fl_path b = path" "fl_labels b = fc_labels sel" "set (fl_refs b) = set (fc_refs sel)"
    "fl_generation b = file_generation fs path + 1" "fl_sha b = Some sha"
    using sort_refs_spec by (auto simp: bf)
  note u = upsert_file_Inr [OF up, unfolded f(1)]
  have same: "file_binding fs' q = file_binding fs1 q" for q
    using record_label_mutation_rows [OF rec] by (simp add: file_binding_def)
  have s: "label_le (fc_labels ctx) (fc_labels sel) \<and> set (fc_refs ctx) \<subseteq> set (fc_refs sel) \<and> labels_wf (fc_labels sel)
    \<and> (\<forall>p. file_binding fs path = Some p \<longrightarrow> label_le (fl_labels p) (fc_labels sel) \<and> set (fl_refs p) \<subseteq> set (fc_refs sel))"
  proof (cases "file_binding fs path")
    case None
    then show ?thesis using sel assms(3) by simp
  next
    case (Some p)
    then have wf: "labels_wf (fl_labels p)" using assms(2) file_bindingD by blast
    obtain c where c: "make_context (fl_labels p) (fl_refs p) VNone = Inr c" "aggregate_contexts [c, ctx] = Inr sel"
      using sel Some by (auto simp: res_simps)
    have cf: "fc_labels c = fl_labels p" "set (fc_refs c) = set (fl_refs p)"
      using c(1) sort_refs_spec by (auto simp: make_context_def res_simps)
    have wfs: "list_all (\<lambda>c. labels_wf (fc_labels c)) [c, ctx]" using wf assms(3) cf by simp
    show ?thesis
      using aggregate_contexts_Inr [OF c(2) wfs, of c] aggregate_contexts_Inr [OF c(2) wfs, of ctx] Some cf by simp
  qed
  have gen: "fl_generation p < fl_generation b" if "file_binding fs path = Some p" for p
    using file_bindingD [OF that] fold_max_ge [of "fl_generation p" "map fl_generation (filter (\<lambda>b. fl_path b = path) (ff_rows fs))" 0]
    by (auto simp: f(4) file_generation_def)
  have "\<forall>l \<in> fl_labels ` set (ff_rows fs1). labels_wf l" using u(3) s assms(2) f(2) by auto
  then have "\<forall>c \<in> set (ff_rows fs'). labels_wf (fl_labels c)"
    using record_label_mutation_rows [OF rec] by simp
  then show ?thesis using u(1,2,4) s f gen same record_label_mutation_rows [OF rec] by simp
qed

section \<open>Examples\<close>

definition wide_rule :: sink_rule where
  "wide_rule = \<lparr>su_pattern = ''net:*'', su_trust = SinkUntrusted, su_max = SNormal, su_tenants = [],
     su_principals = [], su_sha = None\<rparr>"

definition narrow_rule :: sink_rule where
  "narrow_rule = \<lparr>su_pattern = ''net:a/*'', su_trust = SinkConditional, su_max = SSecret, su_tenants = [''acme''],
     su_principals = [], su_sha = None\<rparr>"

definition example_sink :: data_sink where
  "example_sink = \<lparr>ds_identity = ''net:a/b'', ds_identity_sha = None, ds_trust_identity = None, ds_trust_sha = None\<rparr>"

definition wide_spec :: sink_spec where
  "wide_spec = \<lparr>ss_id = ''s1'', ss_rule = wide_rule, ss_generation = 1, ss_created_by = ''host'',
     ss_created_at = ''t'', ss_hash = [], ss_active = True, ss_deactivated = None\<rparr>"

definition narrow_spec :: sink_spec where
  "narrow_spec = wide_spec\<lparr>ss_id := ''s2'', ss_rule := narrow_rule, ss_generation := 2\<rparr>"

definition example_registry :: sink_registry where
  "example_registry = \<lparr>rg_specs = [wide_spec, narrow_spec], rg_generation = 2\<rparr>"

lemma example_steps:
  "rule_hash sample_host wide_rule = Inr []" "rule_hash sample_host narrow_rule = Inr []"
  "register_body sample_host 8 wide_rule False ''host'' ''t'' ''s1'' \<lparr>rg_specs = [], rg_generation = 0\<rparr>
     = Inr (\<lparr>rg_specs = [wide_spec], rg_generation = 1\<rparr>, wide_spec)"
  "register_body sample_host 8 narrow_rule False ''host'' ''t'' ''s2'' \<lparr>rg_specs = [wide_spec], rg_generation = 1\<rparr>
     = Inr (example_registry, narrow_spec)"
  by code_simp+

lemma example_reach: "sink_reach example_registry"
proof -
  have env: "ce_host plain_env = sample_host" "ce_admission plain_env = (\<lambda>_. None)" by (simp_all add: plain_env_def)
  note reg = host_register [where env = plain_env, unfolded env(1)]
  have "sink_reach \<lparr>rg_specs = [wide_spec], rg_generation = 1\<rparr>"
    by (rule sink_reach.registered [OF sink_reach.empty reg [OF example_steps(1) example_steps(3) env(2)]])
  then show ?thesis
    by (rule sink_reach.registered [OF _ reg [OF example_steps(2) example_steps(4) env(2)]])
qed

theorem sink_resolution_unique_witness:
  "\<exists>r. resolve_sink_trust example_registry example_sink = Inr r \<and> r = Some narrow_spec"
proof -
  have k: "make_sink (VStr (registry_identity example_sink)) VNone VNone VNone = Inr example_sink"
    and acc: "pattern_accepts (spec_pattern wide_spec) (registry_identity example_sink)"
      "pattern_accepts (spec_pattern narrow_spec) (registry_identity example_sink)"
      "length (pattern_base (spec_pattern wide_spec)) < length (pattern_base (spec_pattern narrow_spec))"
      "ss_active wide_spec" "ss_active narrow_spec" "set (rg_specs example_registry) = {wide_spec, narrow_spec}"
    by code_simp+
  from sink_resolution_unique [OF example_reach k] obtain r where
    r: "resolve_sink_trust example_registry example_sink = Inr r" and
    c: "case r of
       None \<Rightarrow> \<forall>s \<in> set (rg_specs example_registry). ss_active s \<longrightarrow> \<not> pattern_accepts (spec_pattern s) (registry_identity example_sink)
     | Some s \<Rightarrow> s \<in> set (rg_specs example_registry) \<and> ss_active s \<and> pattern_accepts (spec_pattern s) (registry_identity example_sink)
         \<and> (\<forall>t \<in> set (rg_specs example_registry). ss_active t \<and> pattern_accepts (spec_pattern t) (registry_identity example_sink) \<and> t \<noteq> s
              \<longrightarrow> length (pattern_base (spec_pattern t)) < length (pattern_base (spec_pattern s)))"
    by blast
  have "r \<noteq> None"
  proof
    assume "r = None"
    then have "\<not> pattern_accepts (spec_pattern wide_spec) (registry_identity example_sink)"
      using c acc(4,6) by simp
    then show False using acc(1) by simp
  qed
  then obtain s where s: "r = Some s" by blast
  have "s = wide_spec \<or> s = narrow_spec" using c acc(6) s by auto
  moreover have "s \<noteq> wide_spec"
  proof
    assume w: "s = wide_spec"
    then have "narrow_spec \<noteq> s" using acc(3) by auto
    then have "length (pattern_base (spec_pattern narrow_spec)) < length (pattern_base (spec_pattern s))"
      using c s acc(2,5,6) by auto
    then show False using acc(3) w by simp
  qed
  ultimately show ?thesis using r s by simp
qed

definition written_context :: flow_context where
  "written_context = \<lparr>fc_labels = default_labels\<lparr>dl_sensitivity := SConfidential\<rparr>, fc_refs = [], fc_mat = None\<rparr>"

definition secret_file :: file_state where
  "secret_file = \<lparr>ff_rows = [\<lparr>fl_id = ''f1'', fl_path = ''a.txt'', fl_sha = Some (replicate 64 (CHR ''a'')),
     fl_labels = default_labels\<lparr>dl_sensitivity := SSecret\<rparr>, fl_refs = [], fl_generation = 1, fl_tombstoned = False,
     fl_active = True, fl_created_by = ''pid_1'', fl_created_at = ''t0'', fl_superseded = None\<rparr>],
     ff_watches = []\<rparr>"

theorem rewrite_keeps_labels_witness:
  "\<exists>fs' b. bind_digest ''f2'' ''t1'' ''pid_1'' ''a.txt'' written_context (replicate 64 (CHR ''b'')) secret_file = Inr (fs', b)
     \<and> SSecret \<le> dl_sensitivity (fl_labels b)"
proof -
  have "is_ok (bind_digest ''f2'' ''t1'' ''pid_1'' ''a.txt'' written_context (replicate 64 (CHR ''b'')) secret_file)"
    by code_simp
  then obtain fs' b where r:
    "bind_digest ''f2'' ''t1'' ''pid_1'' ''a.txt'' written_context (replicate 64 (CHR ''b'')) secret_file = Inr (fs', b)"
    by (auto simp: is_ok_iff)
  have "\<forall>c \<in> set (ff_rows secret_file). labels_wf (fl_labels c)" "labels_wf (fc_labels written_context)"
    "map_option (\<lambda>b. dl_sensitivity (fl_labels b)) (file_binding secret_file ''a.txt'') = Some SSecret"
    by code_simp+
  then show ?thesis using rewrite_keeps_labels [OF r] r by (auto simp: label_le_def)
qed

end
