(* ===== verification/Egress.thy ===== *)
theory Egress
  imports FlowRegistry
begin

text \<open>
  The egress gate of \<open>agent_libos/runtime/data_flow_manager.py\<close>: source references and their current
  state, the clearance of a sink for labels, exact one-shot releases, the recorded decision, and the
  read-only classification that must agree with the gate. The evidence of the event and audit records is
  not part of the state.
\<close>

section \<open>State\<close>

text \<open>What \<open>get_object\<close> and \<open>get_persisted_object_state\<close> return of an Object.\<close>

record live_object =
  lo_oid :: string
  lo_version :: int
  lo_payload :: pyval
  lo_metadata :: pydict

record object_state =
  os_released :: bool
  os_version :: int
  os_payload :: bool
  os_recovered :: bool

record flow_state =
  fw_caps :: cap_store
  fw_registry :: sink_registry
  fw_files :: file_state
  fw_objects :: "live_object list"
  fw_rows :: "(string \<times> object_state) list"
  fw_decisions :: "flow_decision list"
  fw_context :: flow_context
  fw_latch :: bool

text \<open>
  \<open>fe_manifest pid\<close> is the hash of the manifest of a process, \<open>fe_recovered\<close> the context variable of
  recovered sources, \<open>fe_human\<close> the Human service, if bound, that files a release request.
\<close>

record flow_env =
  fe_cap :: cap_env
  fe_default_max :: data_sensitivity
  fe_manifest :: "string \<Rightarrow> string option"
  fe_recovered :: bool
  fe_human :: "(string \<Rightarrow> release_binding \<Rightarrow> string res) option"
  fe_stamp :: string

text \<open>An operation returns its result and the state, which a raise does not undo.\<close>

type_synonym 'a flow = "flow_state \<Rightarrow> flow_state \<times> 'a res"

definition liftF :: "'a res \<Rightarrow> 'a flow" where
  "liftF r s = (s, r)"

definition bindF :: "'a flow \<Rightarrow> ('a \<Rightarrow> 'b flow) \<Rightarrow> 'b flow" where
  "bindF m f s = (case m s of (s', Inl e) \<Rightarrow> (s', Inl e) | (s', Inr x) \<Rightarrow> f x s')"

definition fe_host :: "flow_env \<Rightarrow> host" where
  "fe_host env = ce_host (fe_cap env)"

section \<open>Digests\<close>

text \<open>\<open>agent_libos/utils/object_payload.py\<close>\<close>

fun finite_json_projection :: "pyval \<Rightarrow> pyval" where
  "finite_json_projection (VFloat x) =
     (case x of
        Fin q \<Rightarrow> VFloat (Fin q)
      | NaN \<Rightarrow> VDict (sdict [(''_non_finite_number'', VStr ''NaN'')])
      | PosInf \<Rightarrow> VDict (sdict [(''_non_finite_number'', VStr ''Infinity'')])
      | NegInf \<Rightarrow> VDict (sdict [(''_non_finite_number'', VStr ''-Infinity'')]))"
| "finite_json_projection (VDict d) = VDict (map (\<lambda>p. (fst p, finite_json_projection (snd p))) d)"
| "finite_json_projection (VList xs) = VList (map finite_json_projection xs)"
| "finite_json_projection v = v"

definition object_payload_sha256 :: "host \<Rightarrow> pyval \<Rightarrow> string res" where
  "object_payload_sha256 h v =
     bindR (to_jsonable h v) (\<lambda>j. bindR (dumps h (finite_json_projection j)) (\<lambda>t. Inr (h_sha256 h t)))"

definition payload_digest :: "host \<Rightarrow> pyval \<Rightarrow> (string \<times> nat) res" where
  "payload_digest h v =
     (case v of
        VBytes b \<Rightarrow> Inr (h_sha256 h b, length b)
      | _ \<Rightarrow> bindR (to_jsonable h v) (\<lambda>j. bindR (dumps h j) (\<lambda>t. Inr (h_sha256 h t, length t))))"

definition manifest_hash :: "flow_env \<Rightarrow> string \<Rightarrow> string" where
  "manifest_hash env pid =
     (case fe_manifest env pid of
        Some m \<Rightarrow> if m = [] then h_sha256 (fe_host env) (''no-authority-manifest:'' @ pid) else m
      | None \<Rightarrow> h_sha256 (fe_host env) (''no-authority-manifest:'' @ pid))"

section \<open>Sources\<close>

definition get_object :: "flow_state \<Rightarrow> string \<Rightarrow> live_object option" where
  "get_object s oid = List.find (\<lambda>o'. lo_oid o' = oid) (fw_objects s)"

text \<open>\<open>context_from_object_snapshot\<close>, \<open>_context_for_object\<close> and the contexts of several Objects\<close>

definition object_context :: "host \<Rightarrow> live_object \<Rightarrow> flow_context res" where
  "object_context h o' =
     (let m = lo_metadata o' in
      bindR (make_labels (dget_or m ''sensitivity'' (VStr ''normal'')) (dget_or m ''trust_level'' (VStr ''unknown''))
          (dget_or m ''integrity'' (VStr ''unknown'')) (dget_or m ''origin'' (VStr ''local''))
          (dget m ''tenant'') (dget m ''principal'') (dget m ''declassification_authority'')) (\<lambda>l.
      bindR (object_payload_sha256 h (lo_payload o')) (\<lambda>sha.
      bindR (make_source_ref (VStr (lo_oid o')) (VInt (lo_version o')) (VStr sha)) (\<lambda>r.
        make_context l [r] VNone))))"

definition context_for_object ::
  "flow_env \<Rightarrow> (nat \<Rightarrow> string) \<Rightarrow> string \<Rightarrow> string \<Rightarrow> bool \<Rightarrow> flow_context flow" where
  "context_for_object env fresh pid oid require_read = (\<lambda>s.
     if oid = [] then (s, Inl (ValidationError ''data-flow source Objects require a non-empty Object id''))
     else bindF (if require_read
           then (\<lambda>s. case require (fe_cap env) fresh pid (''object:'' @ oid) ''read''
               (sdict [(''operation'', VStr ''data_flow_source''), (''oid'', VStr oid)]) False pid [] (fe_stamp env)
               (fw_caps s) (fw_latch s) of (l, r) \<Rightarrow> (s\<lparr>fw_latch := l\<rparr>, bindR r (\<lambda>_. Inr ())))
           else liftF (Inr ())) (\<lambda>_ s.
        case get_object s oid of
          None \<Rightarrow> (s, Inl (ValidationError (''data-flow source Object not found: '' @ oid)))
        | Some o' \<Rightarrow> (s, object_context (fe_host env) o')) s)"

fun contexts_for ::
  "flow_env \<Rightarrow> (nat \<Rightarrow> string) \<Rightarrow> string \<Rightarrow> bool \<Rightarrow> string list \<Rightarrow> flow_context list flow" where
  "contexts_for env fresh pid rr [] = liftF (Inr [])"
| "contexts_for env fresh pid rr (oid # oids) =
     bindF (context_for_object env fresh pid oid rr) (\<lambda>c.
     bindF (contexts_for env fresh pid rr oids) (\<lambda>cs. liftF (Inr (c # cs))))"

definition context_from_source_oids ::
  "flow_env \<Rightarrow> (nat \<Rightarrow> string) \<Rightarrow> string \<Rightarrow> string list \<Rightarrow> bool \<Rightarrow> flow_context flow" where
  "context_from_source_oids env fresh pid oids include_current = (\<lambda>s.
     bindF (contexts_for env fresh pid True (first_seen oids)) (\<lambda>cs.
       liftF (aggregate_contexts ((if include_current then [fw_context s] else []) @ cs))) s)"

definition context_from_trusted_source_oids ::
  "flow_env \<Rightarrow> (nat \<Rightarrow> string) \<Rightarrow> string list \<Rightarrow> flow_context flow" where
  "context_from_trusted_source_oids env fresh oids = (\<lambda>s.
     let sel = first_seen (map strip oids) in
     if [] \<in> set sel then
       (s, Inl (ValidationError ''trusted data-flow source_oids cannot contain empty Object ids''))
     else bindF (contexts_for env fresh ''runtime'' False sel) (\<lambda>cs. liftF (aggregate_contexts cs)) s)"

definition observe_ingress :: "flow_context \<Rightarrow> flow_context flow" where
  "observe_ingress ctx = (\<lambda>s.
     bindF (liftF (aggregate_contexts [fw_context s, ctx])) (\<lambda>c s. (s\<lparr>fw_context := c\<rparr>, Inr c)) s)"

text \<open>\<open>_validate_source_refs\<close>: the first reference that is no longer what it names.\<close>

fun validate_source_refs ::
  "host \<Rightarrow> flow_state \<Rightarrow> bool \<Rightarrow> source_ref list \<Rightarrow> string option res" where
  "validate_source_refs h s recovered [] = Inr None"
| "validate_source_refs h s recovered (r # rs) =
     (if is_file_ref r then
        (if drop (length file_ref_prefix) (sr_oid r) = [] then
           Inr (Some ''data-flow source file binding reference is malformed'')
         else case ref_binding (fw_files s) r of
           None \<Rightarrow> Inr (Some (''data-flow source file binding is unavailable: '' @ drop (length file_ref_prefix) (sr_oid r)))
         | Some b \<Rightarrow>
             if ref_current r b then validate_source_refs h s recovered rs
             else Inr (Some (''data-flow source file binding changed before dispatch: ''
               @ drop (length file_ref_prefix) (sr_oid r))))
      else case get_object s (sr_oid r) of
        Some o' \<Rightarrow>
          bindR (object_payload_sha256 h (lo_payload o')) (\<lambda>sha.
            if lo_version o' = sr_version r \<and> sha = sr_sha r then validate_source_refs h s recovered rs
            else Inr (Some (''data-flow source Object changed before dispatch: '' @ sr_oid r)))
      | None \<Rightarrow>
          (case map_of (fw_rows s) (sr_oid r) of
             None \<Rightarrow> Inr (Some (''data-flow source Object disappeared: '' @ sr_oid r))
           | Some st \<Rightarrow>
               if \<not> os_released st \<or> \<not> recovered \<or> \<not> os_recovered st then
                 Inr (Some (''data-flow source Object is no longer live: '' @ sr_oid r))
               else if os_version st \<noteq> sr_version r then
                 Inr (Some (''data-flow source Object changed before dispatch: '' @ sr_oid r))
               else if os_payload st then
                 Inr (Some (''data-flow source Object payload is unavailable: '' @ sr_oid r))
               else validate_source_refs h s recovered rs))"

section \<open>Clearance\<close>

definition trust_level :: "sink_spec option \<Rightarrow> sink_trust" where
  "trust_level t = (case t of Some s \<Rightarrow> su_trust (ss_rule s) | None \<Rightarrow> SinkUntrusted)"

definition sink_max :: "flow_env \<Rightarrow> sink_spec option \<Rightarrow> data_sensitivity" where
  "sink_max env t =
     (let m = (case t of Some s \<Rightarrow> su_max (ss_rule s) | None \<Rightarrow> fe_default_max env) in
      if trust_level t = SinkUntrusted \<and> sensitivity_rank SNormal < sensitivity_rank m then SNormal else m)"

definition clearance_error ::
  "flow_env \<Rightarrow> data_sink \<Rightarrow> data_labels \<Rightarrow> sink_spec option \<Rightarrow> pyval \<Rightarrow> string option res" where
  "clearance_error env sink l t mi =
     bindR (integrity_of mi) (\<lambda>low.
       Inr (if integrity_rank (dl_integrity l) < integrity_rank low then
           Some (''data integrity '' @ integrity_value (dl_integrity l) @ '' is below operation minimum '' @ integrity_value low)
         else if is_mixed_identity l then
           Some ''mixed tenant/principal data must be reclassified by the Host''
         else if sensitivity_rank (sink_max env t) < sensitivity_rank (dl_sensitivity l) then
           Some (''data sensitivity '' @ sensitivity_value (dl_sensitivity l) @ '' exceeds Sink maximum ''
             @ sensitivity_value (sink_max env t))
         else if (case t of Some s \<Rightarrow> su_sha (ss_rule s) \<noteq> None \<and> registry_identity_sha sink \<noteq> su_sha (ss_rule s)
                  | None \<Rightarrow> False) then
           Some ''Sink configuration identity hash does not match Host trust record''
         else if (case dl_tenant l of None \<Rightarrow> False
                  | Some x \<Rightarrow> (case t of None \<Rightarrow> True | Some s \<Rightarrow> x \<notin> set (su_tenants (ss_rule s)))) then
           Some (''tenant '' @ h_repr (fe_host env) (opt_str (dl_tenant l)) @ '' is outside Sink clearance'')
         else if (case dl_principal l of None \<Rightarrow> False
                  | Some x \<Rightarrow> (case t of None \<Rightarrow> True | Some s \<Rightarrow> x \<notin> set (su_principals (ss_rule s)))) then
           Some (''principal '' @ h_repr (fe_host env) (opt_str (dl_principal l)) @ '' is outside Sink clearance'')
         else None))"

definition needs_release :: "sink_spec option \<Rightarrow> data_labels \<Rightarrow> bool" where
  "needs_release t l \<longleftrightarrow>
     trust_level t = SinkConditional \<and> sensitivity_rank SNormal < sensitivity_rank (dl_sensitivity l)"

section \<open>Releases\<close>

definition release_key :: string where
  "release_key = ''data_release_binding''"

definition release_resource :: "release_binding \<Rightarrow> string" where
  "release_resource b = ''data_release:'' @ rb_sink b"

definition make_release ::
  "flow_env \<Rightarrow> flow_state \<Rightarrow> string \<Rightarrow> data_sink \<Rightarrow> sink_spec \<Rightarrow> flow_context \<Rightarrow> string \<Rightarrow> string \<Rightarrow> pyval \<Rightarrow>
   release_binding res" where
  "make_release env s pid sink t ctx ph opn ver =
     bindR (labels_hash (fe_host env) (fc_labels ctx)) (\<lambda>lh.
     bindR (source_refs_hash (fe_host env) ctx) (\<lambda>sh.
       make_release_binding (dget (sdict
         [(''schema_version'', VInt 1), (''sink'', VStr (ds_identity sink)),
          (''sink_identity_sha256'', opt_str (registry_identity_sha sink)), (''trust_id'', VStr (ss_id t)),
          (''trust_hash'', VStr (ss_hash t)), (''registry_generation'', VInt (rg_generation (fw_registry s))),
          (''manifest_hash'', VStr (manifest_hash env pid)), (''labels_hash'', VStr lh),
          (''source_refs_hash'', VStr sh), (''payload_hash'', VStr ph), (''operation'', VStr opn),
          (''target_state_version'', ver)]))))"

text \<open>The comparison of a stored binding with the planned one; a malformed one is no match.\<close>

definition same_release :: "host \<Rightarrow> pyval \<Rightarrow> release_binding \<Rightarrow> bool res" where
  "same_release h v b =
     (case release_normalize v of
        Inl (ValueError _) \<Rightarrow> Inr False
      | Inl (PyTypeError _) \<Rightarrow> Inr False
      | Inl e \<Rightarrow> Inl e
      | Inr d \<Rightarrow> bindR (dumps h (VDict d)) (\<lambda>x. bindR (dumps h (VDict (release_to_dict b))) (\<lambda>y. Inr (x = y))))"

definition authorizeF :: "flow_env \<Rightarrow> string \<Rightarrow> string \<Rightarrow> string \<Rightarrow> pydict \<Rightarrow> capability_decision flow" where
  "authorizeF env subj res rt ctx = (\<lambda>s.
     case authorize (fe_cap env) (fw_caps s) subj res rt ctx (fw_latch s) of (l, r) \<Rightarrow> (s\<lparr>fw_latch := l\<rparr>, r))"

definition matching_release ::
  "flow_env \<Rightarrow> string \<Rightarrow> release_binding \<Rightarrow> capability_decision option flow" where
  "matching_release env pid b =
     bindF (authorizeF env pid (release_resource b) ''approve''
         (sdict [(release_key, VDict (release_to_dict b))])) (\<lambda>d s.
       case (if cd_allowed d then cd_selected d else None) of
         None \<Rightarrow> (s, Inr None)
       | Some i \<Rightarrow>
           (case get_cap (fw_caps s) i of
              None \<Rightarrow> (s, Inr None)
            | Some c \<Rightarrow>
                if cap_uses_remaining c \<noteq> Some 1 then (s, Inr None)
                else (s, bindR (same_release (fe_host env) (constraint_value c release_key) b) (\<lambda>same.
                  Inr (if same \<and> cd_consume d \<noteq> None then Some d else None)))))"

definition matching_reserved ::
  "flow_env \<Rightarrow> flow_state \<Rightarrow> string \<Rightarrow> release_binding \<Rightarrow> capability_decision \<Rightarrow> string \<Rightarrow>
   capability_decision option res" where
  "matching_reserved env s pid b d rid =
     (if \<not> cd_allowed d \<or> cd_subject d \<noteq> pid \<or> cd_resource d \<noteq> release_resource b \<or> cd_right d \<noteq> ''approve''
         \<or> cd_consume d = None \<or> cd_selected d \<noteq> cd_consume d then Inr None
      else case get_reservation (fw_caps s) rid of
        None \<Rightarrow> Inr None
      | Some r \<Rightarrow>
          if ur_status r \<notin> {Reserved, Committed} \<or> Some (ur_cap r) \<noteq> cd_consume d \<or> ur_count r \<noteq> 1 then Inr None
          else bindR (same_release (fe_host env) (dget (cd_context d) release_key) b) (\<lambda>same.
            Inr (if same then Some d else None)))"

section \<open>Decisions\<close>

definition redacted_reason :: "flow_outcome \<Rightarrow> string" where
  "redacted_reason out =
     (case out of
        OutAllow \<Rightarrow> ''Host DataFlow policy allowed redacted egress evidence''
      | OutDeny \<Rightarrow> ''Host DataFlow policy denied redacted egress evidence''
      | OutReleaseRequired \<Rightarrow> ''Host DataFlow policy requires data release for redacted egress evidence'')"

definition retained_context :: "bool \<Rightarrow> flow_context \<Rightarrow> flow_context" where
  "retained_context redact ctx =
     (if redact then ctx\<lparr>fc_labels := (fc_labels ctx)\<lparr>dl_origin := None, dl_tenant := None, dl_principal := None,
        dl_declass := None\<rparr>, fc_refs := [], fc_mat := None\<rparr> else ctx)"

text \<open>
  The hashes that the evidence of a decision needs can fail, before anything is stored. A redacted decision
  was given the hashes of the context it hides.
\<close>

definition persist_decision :: "flow_env \<Rightarrow> bool \<Rightarrow> data_sink \<Rightarrow> flow_decision \<Rightarrow> flow_decision flow" where
  "persist_decision env redacted sink d = (\<lambda>s.
     if fd_sink d \<noteq> ds_identity sink then
       (s, Inl (ValidationError ''data-flow decision Sink does not match evidence Sink''))
     else case List.find (\<lambda>x. fd_id x = fd_id d) (fw_decisions s) of
       Some x \<Rightarrow> if x \<noteq> d then (s, Inl (ValidationError (''data-flow decision id conflict: '' @ fd_id d)))
         else (s, Inr x)
     | None \<Rightarrow>
         bindF (liftF (make_context (fd_labels d) (fd_refs d) VNone)) (\<lambda>ctx.
         bindF (liftF (if redacted then Inr []
           else bindR (labels_hash (fe_host env) (fd_labels d)) (\<lambda>_. source_refs_hash (fe_host env) ctx))) (\<lambda>_ s.
           (s\<lparr>fw_decisions := fw_decisions s @ [d]\<rparr>, Inr d))) s)"

definition persist_denied_decision ::
  "flow_env \<Rightarrow> bool \<Rightarrow> data_sink \<Rightarrow> flow_decision \<Rightarrow> flow_decision flow" where
  "persist_denied_decision env redacted sink d =
     (if fd_outcome d \<noteq> OutDeny then liftF (Inl (ValidationError ''only data-flow denials may be re-persisted''))
      else persist_decision env redacted sink d)"

definition record_decision ::
  "flow_env \<Rightarrow> string \<Rightarrow> bool \<Rightarrow> string \<Rightarrow> data_sink \<Rightarrow> flow_context \<Rightarrow> string \<Rightarrow> int \<Rightarrow> flow_outcome \<Rightarrow> string \<Rightarrow>
   sink_spec option \<Rightarrow> string option \<Rightarrow> flow_decision flow" where
  "record_decision env did redact pid sink ctx ph gen out reason t release =
     bindF (liftF (if redact then bindR (source_refs_hash (fe_host env) ctx) (\<lambda>_. Inr ()) else Inr ())) (\<lambda>_.
     bindF (liftF (make_flow_decision
       \<lparr>fd_id = did, fd_pid = pid, fd_sink = ds_identity sink, fd_direction = DirEgress, fd_outcome = out,
        fd_reason = (if redact then redacted_reason out else reason),
        fd_labels = fc_labels (retained_context redact ctx), fd_refs = fc_refs (retained_context redact ctx),
        fd_payload = ph, fd_generation = gen, fd_created_at = fe_stamp env, fd_trust_id = map_option ss_id t,
        fd_trust_hash = map_option ss_hash t, fd_release = release\<rparr>)) (persist_decision env redact sink))"

text \<open>\<open>_deny\<close>: the denial is recorded, then raised.\<close>

definition deny ::
  "flow_env \<Rightarrow> string \<Rightarrow> bool \<Rightarrow> string \<Rightarrow> data_sink \<Rightarrow> flow_context \<Rightarrow> string \<Rightarrow> int \<Rightarrow> string \<Rightarrow> sink_spec option \<Rightarrow>
   'a flow" where
  "deny env did redact pid sink ctx ph gen reason t =
     bindF (record_decision env did redact pid sink ctx ph gen OutDeny reason t None) (\<lambda>d.
       liftF (Inl (CapabilityDenied (''data-flow denied egress to '' @ ds_identity sink @ '': '' @ fd_reason d
         @ '' (decision_id='' @ fd_id d @ '')''))))"

section \<open>The gate\<close>

record egress_request =
  eg_pid :: string
  eg_sink :: data_sink
  eg_context :: "flow_context option"
  eg_payload :: pyval
  eg_operation :: string
  eg_version :: pyval
  eg_release :: bool
  eg_generation :: "int option"
  eg_current :: "pyval option"
  eg_recovered :: bool
  eg_reserved :: "capability_decision option"
  eg_reserved_id :: "string option"
  eg_min :: pyval
  eg_redact :: bool

definition selected_context :: "flow_state \<Rightarrow> flow_context option \<Rightarrow> flow_context" where
  "selected_context s c = (case c of Some x \<Rightarrow> x | None \<Rightarrow> fw_context s)"

definition request_release :: "flow_env \<Rightarrow> string \<Rightarrow> data_sink \<Rightarrow> release_binding \<Rightarrow> 'a res" where
  "request_release env pid sink b =
     (case fe_human env of
        None \<Rightarrow> Inl (CapabilityDenied (pid @ '' requires a one-shot release for '' @ ds_identity sink
          @ '', but no Human manager is bound''))
      | Some ask \<Rightarrow> bindR (ask pid b) (\<lambda>rid. Inl (HumanApprovalRequired rid)))"

text \<open>The release step: the exact grant, or the reservation of it that the caller holds.\<close>

definition find_release ::
  "flow_env \<Rightarrow> egress_request \<Rightarrow> release_binding \<Rightarrow> capability_decision option flow" where
  "find_release env rq b =
     bindF (matching_release env (eg_pid rq) b) (\<lambda>d s.
       case (d, eg_reserved rq, eg_reserved_id rq) of
         (None, Some r, Some i) \<Rightarrow> (s, matching_reserved env s (eg_pid rq) b r i)
       | _ \<Rightarrow> (s, Inr d))"

text \<open>The allowing end of the gate.\<close>

definition allow_egress ::
  "flow_env \<Rightarrow> string \<Rightarrow> egress_request \<Rightarrow> flow_context \<Rightarrow> string \<Rightarrow> int \<Rightarrow> sink_spec option \<Rightarrow>
   capability_decision option \<Rightarrow> (flow_decision \<times> capability_decision option) flow" where
  "allow_egress env did rq ctx ph gen t rel =
     bindF (record_decision env did (eg_redact rq) (eg_pid rq) (eg_sink rq) ctx ph gen OutAllow
         (if rel \<noteq> None then ''exact one-shot release matched conditional Sink''
          else ''Sink clearance allows data sensitivity and identity'') t
         (case rel of None \<Rightarrow> None | Some d \<Rightarrow> cd_selected d)) (\<lambda>d. liftF (Inr (d, rel)))"

text \<open>The end of the gate, once the sink is clear for the labels.\<close>

definition release_or_allow ::
  "flow_env \<Rightarrow> string \<Rightarrow> egress_request \<Rightarrow> flow_context \<Rightarrow> string \<Rightarrow> sink_spec option \<Rightarrow>
   (flow_decision \<times> capability_decision option) flow" where
  "release_or_allow env did rq ctx ph t = (\<lambda>s.
     let gen = rg_generation (fw_registry s) in
     if needs_release t (fc_labels ctx) then
       bindF (liftF (make_release env s (eg_pid rq) (eg_sink rq) (the t) ctx ph (eg_operation rq) (eg_version rq))) (\<lambda>b.
       bindF (find_release env rq b) (\<lambda>rel.
         if rel \<noteq> None then allow_egress env did rq ctx ph gen t rel
         else bindF (record_decision env did (eg_redact rq) (eg_pid rq) (eg_sink rq) ctx ph gen OutReleaseRequired
             ''conditional Sink requires an exact one-shot data release'' t None) (\<lambda>d.
           if eg_release rq then liftF (request_release env (eg_pid rq) (eg_sink rq) b)
           else liftF (Inl (CapabilityDenied (fd_reason d)))))) s
     else allow_egress env did rq ctx ph gen t None s)"

definition authorize_egress ::
  "flow_env \<Rightarrow> string \<Rightarrow> egress_request \<Rightarrow> (flow_decision \<times> capability_decision option) flow" where
  "authorize_egress env did rq = (\<lambda>s.
     let h = fe_host env; ctx = selected_context s (eg_context rq); gen = rg_generation (fw_registry s);
         no = (\<lambda>ph reason t. deny env did (eg_redact rq) (eg_pid rq) (eg_sink rq) ctx ph gen reason t) in
     bindF (liftF (check ((eg_reserved rq = None) = (eg_reserved_id rq = None))
       (ValidationError ''reserved data release revalidation requires both the decision and reservation id''))) (\<lambda>_.
     bindF (liftF (payload_digest h (eg_payload rq))) (\<lambda>(ph, bytes).
     if eg_generation rq \<noteq> None \<and> eg_generation rq \<noteq> Some gen then
       no ph ''Sink trust registry generation changed before dispatch'' None
     else bindF (liftF (validate_source_refs h s (eg_recovered rq \<or> fe_recovered env) (fc_refs ctx))) (\<lambda>se.
     case se of Some e \<Rightarrow> no ph e None
     | None \<Rightarrow>
     bindF (liftF (resolve_sink_trust (fw_registry s) (eg_sink rq))) (\<lambda>t.
     bindF (liftF (clearance_error env (eg_sink rq) (fc_labels ctx) t (eg_min rq))) (\<lambda>ce.
     case ce of Some e \<Rightarrow> no ph e t
     | None \<Rightarrow>
     if eg_current rq \<noteq> None \<and> eg_current rq \<noteq> Some (eg_version rq) then
       no ph ''data-flow target state version changed before dispatch'' t
     else release_or_allow env did rq ctx ph t))))) s)"

text \<open>\<open>precheck_egress_clearance\<close>\<close>

definition precheck_egress ::
  "flow_env \<Rightarrow> string \<Rightarrow> string \<Rightarrow> data_sink \<Rightarrow> flow_context option \<Rightarrow> pyval \<Rightarrow> pyval \<Rightarrow> bool \<Rightarrow> flow_decision flow" where
  "precheck_egress env did pid sink c payload mi recovered = (\<lambda>s.
     let h = fe_host env; ctx = selected_context s c; gen = rg_generation (fw_registry s) in
     bindF (liftF (payload_digest h payload)) (\<lambda>(ph, bytes).
     bindF (liftF (validate_source_refs h s (recovered \<or> fe_recovered env) (fc_refs ctx))) (\<lambda>se.
     case se of Some e \<Rightarrow> deny env did False pid sink ctx ph gen e None
     | None \<Rightarrow>
     bindF (liftF (resolve_sink_trust (fw_registry s) sink)) (\<lambda>t.
     bindF (liftF (clearance_error env sink (fc_labels ctx) t mi)) (\<lambda>ce.
     case ce of Some e \<Rightarrow> deny env did False pid sink ctx ph gen e t
     | None \<Rightarrow>
     record_decision env did False pid sink ctx ph gen
       (if needs_release t (fc_labels ctx) then OutReleaseRequired else OutAllow)
       (if needs_release t (fc_labels ctx) then ''conditional Sink requires exact final-payload release''
        else ''Sink clearance precheck passed'') t None)))) s)"

text \<open>\<open>classify_egress_snapshot\<close>\<close>

definition classify_egress ::
  "flow_env \<Rightarrow> flow_state \<Rightarrow> data_sink \<Rightarrow> flow_context \<Rightarrow> bool \<Rightarrow> pyval \<Rightarrow> flow_outcome res" where
  "classify_egress env s sink ctx recovered mi =
     bindR (validate_source_refs (fe_host env) s (recovered \<or> fe_recovered env) (fc_refs ctx)) (\<lambda>se.
     if se \<noteq> None then Inr OutDeny
     else case resolve_sink_trust (fw_registry s) sink of
       Inl _ \<Rightarrow> Inr OutDeny
     | Inr t \<Rightarrow>
         bindR (clearance_error env sink (fc_labels ctx) t mi) (\<lambda>ce.
           Inr (if ce \<noteq> None then OutDeny
             else if needs_release t (fc_labels ctx) then OutReleaseRequired else OutAllow)))"

text \<open>\<open>is_release_binding_current\<close>\<close>

definition is_release_current ::
  "flow_env \<Rightarrow> flow_state \<Rightarrow> string \<Rightarrow> data_sink \<Rightarrow> flow_context \<Rightarrow> string \<Rightarrow> string \<Rightarrow> pyval \<Rightarrow> pyval \<Rightarrow> bool \<Rightarrow>
   bool res" where
  "is_release_current env s pid sink ctx ph opn ver v recovered =
     (case release_normalize v of
        Inl (ValueError _) \<Rightarrow> Inr False
      | Inl (PyTypeError _) \<Rightarrow> Inr False
      | Inl e \<Rightarrow> Inl e
      | Inr expected \<Rightarrow>
          bindR (validate_source_refs (fe_host env) s (recovered \<or> fe_recovered env) (fc_refs ctx)) (\<lambda>se.
          if se \<noteq> None then Inr False
          else case resolve_sink_trust (fw_registry s) sink of
            Inl _ \<Rightarrow> Inr False
          | Inr None \<Rightarrow> Inr False
          | Inr (Some t) \<Rightarrow>
              bindR (clearance_error env sink (fc_labels ctx) (Some t) (VStr ''untrusted'')) (\<lambda>ce.
              if ce \<noteq> None then Inr False
              else (case make_release env s pid sink t ctx ph opn ver of
                  Inl (ValueError _) \<Rightarrow> Inr False
                | Inl (PyTypeError _) \<Rightarrow> Inr False
                | Inl e \<Rightarrow> Inl e
                | Inr b \<Rightarrow> bindR (dumps (fe_host env) (VDict expected)) (\<lambda>x.
                    bindR (dumps (fe_host env) (VDict (release_to_dict b))) (\<lambda>y. Inr (x = y)))))))"

text \<open>\<open>reject_sink_identity_change\<close>\<close>

definition reject_sink_identity_change ::
  "flow_env \<Rightarrow> string \<Rightarrow> string \<Rightarrow> data_sink \<Rightarrow> flow_context \<Rightarrow> pyval \<Rightarrow> string \<Rightarrow> bool \<Rightarrow> unit flow" where
  "reject_sink_identity_change env did pid sink ctx payload reason redact = (\<lambda>s.
     bindF (liftF (payload_digest (fe_host env) payload)) (\<lambda>(ph, bytes).
     bindF (liftF (case resolve_sink_trust (fw_registry s) sink of
         Inl (ValidationError _) \<Rightarrow> Inr None | r \<Rightarrow> r)) (\<lambda>t.
       deny env did redact pid sink ctx ph (rg_generation (fw_registry s)) reason t)) s)"

section \<open>Lemmas on the operations\<close>

lemma bindF_Inr_iff: "bindF m f s = (s', Inr y) \<longleftrightarrow> (\<exists>s1 x. m s = (s1, Inr x) \<and> f x s1 = (s', Inr y))"
  by (auto simp: bindF_def split: prod.splits sum.splits)

lemma bindF_Inl_iff:
  "bindF m f s = (s', Inl e) \<longleftrightarrow> m s = (s', Inl e) \<or> (\<exists>s1 x. m s = (s1, Inr x) \<and> f x s1 = (s', Inl e))"
  by (auto simp: bindF_def split: prod.splits sum.splits)

lemma liftF_iff [simp]: "liftF r s = (s', q) \<longleftrightarrow> s' = s \<and> r = q"
  by (auto simp: liftF_def)

lemma bindF_lift [simp]: "bindF (liftF (Inr x)) f s = f x s" "bindF (liftF (Inl e)) f s = (s, Inl e)"
  by (simp_all add: bindF_def liftF_def)

text \<open>What a step of the gate may change: the decision ledger and the latch of the capability manager.\<close>

definition recorded :: "flow_state \<Rightarrow> flow_decision list \<Rightarrow> flow_state \<Rightarrow> bool" where
  "recorded s ds s' \<longleftrightarrow> s' = s\<lparr>fw_decisions := fw_decisions s @ ds, fw_latch := fw_latch s'\<rparr>"

lemma recorded_refl [simp]: "recorded s [] s"
  by (simp add: recorded_def)

lemma recorded_trans: "recorded s ds s1 \<Longrightarrow> recorded s1 es s2 \<Longrightarrow> recorded s (ds @ es) s2"
  unfolding recorded_def by (cases s; cases s1; cases s2) simp

lemma recorded_fields:
  assumes "recorded s ds s'"
  shows "fw_caps s' = fw_caps s" "fw_registry s' = fw_registry s" "fw_files s' = fw_files s"
    "fw_objects s' = fw_objects s" "fw_decisions s' = fw_decisions s @ ds"
  using assms unfolding recorded_def by (cases s; cases s'; simp)+

lemma find_id_some: "List.find (\<lambda>x. fd_id x = i) ds = Some x \<Longrightarrow> x \<in> set ds"
  by (auto simp: find_Some_iff)

lemma make_flow_decision_Inr: "make_flow_decision c = Inr d \<Longrightarrow> d = c\<lparr>fd_refs := sort_refs (fd_refs c)\<rparr>"
  unfolding make_flow_decision_def bindR_Inr_iff by auto

lemma persist_decision_Inr:
  assumes "persist_decision env red sink d s = (s', Inr d')"
  shows "d' = d \<and> d \<in> set (fw_decisions s') \<and> (\<exists>ds. recorded s ds s' \<and> set ds \<subseteq> {d} \<and> fd_sink d = ds_identity sink)"
  using assms unfolding persist_decision_def
  by (auto simp: bindF_Inr_iff recorded_def split: if_splits option.splits dest: find_id_some
      intro: exI [of _ "[]"] exI [of _ "[d]"])

lemma persist_decision_Inl: "persist_decision env red sink d s = (s', Inl e) \<Longrightarrow> s' = s"
  unfolding persist_decision_def by (auto simp: bindF_Inl_iff split: if_splits option.splits)

lemma record_decision_Inr:
  assumes "record_decision env did redact pid sink ctx ph gen out reason t release s = (s', Inr d)"
  shows "d \<in> set (fw_decisions s')" "fd_outcome d = out" "fd_payload d = ph" "fd_generation d = gen"
    "fd_pid d = pid" "fd_sink d = ds_identity sink" "fd_release d = release" "fd_trust_id d = map_option ss_id t"
    "\<exists>ds. recorded s ds s' \<and> set ds \<subseteq> {d}"
  using assms unfolding record_decision_def bindF_Inr_iff
  by (auto dest!: persist_decision_Inr make_flow_decision_Inr)

lemma record_decision_Inl: "record_decision env did redact pid sink ctx ph gen out reason t release s = (s', Inl e) \<Longrightarrow> s' = s"
  unfolding record_decision_def bindF_Inl_iff by (auto dest: persist_decision_Inl)

lemma deny_never [simp]: "deny env did redact pid sink ctx ph gen reason t s \<noteq> (s', Inr x)"
  by (simp add: deny_def bindF_Inr_iff)

lemma deny_Inl:
  assumes "deny env did redact pid sink ctx ph gen reason t s = (s', Inl e)"
  shows "\<exists>ds. recorded s ds s' \<and> (\<forall>d \<in> set ds. fd_outcome d = OutDeny)"
proof -
  have "record_decision env did redact pid sink ctx ph gen OutDeny reason t None s = (s', Inl e)
      \<or> (\<exists>d. record_decision env did redact pid sink ctx ph gen OutDeny reason t None s = (s', Inr d))"
    using assms unfolding deny_def bindF_Inl_iff by auto
  then show ?thesis
  proof (elim disjE exE)
    assume "record_decision env did redact pid sink ctx ph gen OutDeny reason t None s = (s', Inl e)"
    from record_decision_Inl [OF this] show ?thesis by (intro exI [of _ "[]"]) simp
  next
    fix d
    assume "record_decision env did redact pid sink ctx ph gen OutDeny reason t None s = (s', Inr d)"
    from record_decision_Inr [OF this] show ?thesis by auto
  qed
qed

lemma authorizeF_state: "authorizeF env subj res rt ctx s = (s', r) \<Longrightarrow> recorded s [] s'"
  by (auto simp: authorizeF_def recorded_def split: prod.splits)

lemma matching_release_state: "matching_release env pid b s = (s', r) \<Longrightarrow> recorded s [] s'"
  by (cases "authorizeF env pid (release_resource b) ''approve''
      (sdict [(release_key, VDict (release_to_dict b))]) s")
    (auto simp: matching_release_def bindF_def dest: authorizeF_state split: sum.splits option.splits if_splits)

lemma find_release_state: "find_release env rq b s = (s', r) \<Longrightarrow> recorded s [] s'"
  by (cases "matching_release env (eg_pid rq) b s")
    (auto simp: find_release_def bindF_def dest: matching_release_state split: sum.splits option.splits)

text \<open>The exact one-shot grant, held or reserved.\<close>

definition exact_grant :: "flow_env \<Rightarrow> flow_state \<Rightarrow> release_binding \<Rightarrow> capability_decision \<Rightarrow> bool" where
  "exact_grant env s b r \<longleftrightarrow> cd_allowed r \<and> cd_consume r \<noteq> None \<and>
     (\<exists>i c. cd_selected r = Some i \<and> get_cap (fw_caps s) i = Some c \<and> cap_uses_remaining c = Some 1
        \<and> same_release (fe_host env) (constraint_value c release_key) b = Inr True)"

definition exact_reservation ::
  "flow_env \<Rightarrow> flow_state \<Rightarrow> egress_request \<Rightarrow> release_binding \<Rightarrow> capability_decision \<Rightarrow> bool" where
  "exact_reservation env s rq b r \<longleftrightarrow> eg_reserved rq = Some r \<and> cd_allowed r \<and> cd_subject r = eg_pid rq
     \<and> cd_resource r = release_resource b \<and> cd_selected r = cd_consume r
     \<and> (\<exists>rid u. eg_reserved_id rq = Some rid \<and> get_reservation (fw_caps s) rid = Some u
          \<and> ur_status u \<in> {Reserved, Committed} \<and> Some (ur_cap u) = cd_consume r \<and> ur_count u = 1)
     \<and> same_release (fe_host env) (dget (cd_context r) release_key) b = Inr True"

lemma matching_release_Inr:
  assumes "matching_release env pid b s = (s', Inr (Some r))"
  shows "exact_grant env s b r"
proof -
  obtain s1 d where a: "authorizeF env pid (release_resource b) ''approve''
      (sdict [(release_key, VDict (release_to_dict b))]) s = (s1, Inr d)"
    and k: "(case (if cd_allowed d then cd_selected d else None) of
         None \<Rightarrow> (s1, Inr None)
       | Some i \<Rightarrow>
           (case get_cap (fw_caps s1) i of
              None \<Rightarrow> (s1, Inr None)
            | Some c \<Rightarrow>
                if cap_uses_remaining c \<noteq> Some 1 then (s1, Inr None)
                else (s1, bindR (same_release (fe_host env) (constraint_value c release_key) b) (\<lambda>same.
                  Inr (if same \<and> cd_consume d \<noteq> None then Some d else None))))) = (s', Inr (Some r))"
    using assms unfolding matching_release_def bindF_Inr_iff by blast
  note caps = recorded_fields(1) [OF authorizeF_state [OF a]]
  show ?thesis
    using k unfolding caps exact_grant_def
    by (auto simp: bindR_Inr_iff split: option.split_asm if_split_asm)
qed

lemma find_release_Inr:
  assumes "find_release env rq b s = (s', Inr (Some r))"
  shows "exact_grant env s b r \<or> exact_reservation env s rq b r"
proof -
  obtain s1 q where m: "matching_release env (eg_pid rq) b s = (s1, Inr q)"
    and q: "(case (q, eg_reserved rq, eg_reserved_id rq) of
         (None, Some r, Some i) \<Rightarrow> (s1, matching_reserved env s1 (eg_pid rq) b r i)
       | _ \<Rightarrow> (s1, Inr q)) = (s', Inr (Some r))"
    using assms unfolding find_release_def bindF_Inr_iff by auto
  note caps = recorded_fields(1) [OF matching_release_state [OF m]]
  show ?thesis
  proof (cases q)
    case (Some x)
    then show ?thesis using m q matching_release_Inr by auto
  next
    case None
    then show ?thesis using q caps
      unfolding exact_reservation_def matching_reserved_def
      by (auto simp: bindR_Inr_iff split: option.splits if_splits)
  qed
qed

text \<open>The stages of the gate.\<close>

lemma allow_egress_Inr:
  assumes "allow_egress env did rq ctx ph gen t rel s = (s', Inr (d, rel'))"
  shows "rel' = rel" "d \<in> set (fw_decisions s')" "fd_outcome d = OutAllow" "fd_payload d = ph" "fd_generation d = gen"
    "fd_pid d = eg_pid rq" "fd_sink d = ds_identity (eg_sink rq)" "fd_trust_id d = map_option ss_id t"
    "\<exists>ds. recorded s ds s' \<and> set ds \<subseteq> {d}"
  using assms unfolding allow_egress_def bindF_Inr_iff by (auto dest: record_decision_Inr)

lemma allow_egress_Inl: "allow_egress env did rq ctx ph gen t rel s = (s', Inl e) \<Longrightarrow> s' = s"
  unfolding allow_egress_def bindF_Inl_iff by (auto dest: record_decision_Inl)

lemma request_release_never [simp]: "request_release env pid sink b \<noteq> Inr x"
  by (simp add: request_release_def bindR_Inr_iff split: option.splits)

lemma release_or_allow_Inr:
  assumes "release_or_allow env did rq ctx ph t s = (s', Inr (d, rel))"
  shows "\<exists>s1. allow_egress env did rq ctx ph (rg_generation (fw_registry s)) t rel s1 = (s', Inr (d, rel))
      \<and> recorded s [] s1
      \<and> (if needs_release t (fc_labels ctx) then
          \<exists>b r. make_release env s (eg_pid rq) (eg_sink rq) (the t) ctx ph (eg_operation rq) (eg_version rq) = Inr b
            \<and> rel = Some r \<and> (exact_grant env s b r \<or> exact_reservation env s rq b r)
        else rel = None)"
proof (cases "needs_release t (fc_labels ctx)")
  case True
  then obtain b s1 q where b: "make_release env s (eg_pid rq) (eg_sink rq) (the t) ctx ph (eg_operation rq) (eg_version rq) = Inr b"
    and q: "find_release env rq b s = (s1, Inr q)"
    and a: "(if q \<noteq> None then allow_egress env did rq ctx ph (rg_generation (fw_registry s)) t q
         else bindF (record_decision env did (eg_redact rq) (eg_pid rq) (eg_sink rq) ctx ph
             (rg_generation (fw_registry s)) OutReleaseRequired
             ''conditional Sink requires an exact one-shot data release'' t None) (\<lambda>d.
           if eg_release rq then liftF (request_release env (eg_pid rq) (eg_sink rq) b)
           else liftF (Inl (CapabilityDenied (fd_reason d))))) s1 = (s', Inr (d, rel))"
    using assms unfolding release_or_allow_def Let_def if_P [OF True] bindF_Inr_iff liftF_iff by blast
  have "q \<noteq> None"
  proof
    assume "q = None"
    then show False using a by (auto simp: bindF_Inr_iff split: if_splits)
  qed
  then have al: "allow_egress env did rq ctx ph (rg_generation (fw_registry s)) t q s1 = (s', Inr (d, rel))" using a by simp
  obtain r where r: "q = Some r" using \<open>q \<noteq> None\<close> by blast
  have "rel = Some r" using allow_egress_Inr(1) [OF al] r by simp
  then show ?thesis using True b al find_release_Inr [OF q [unfolded r]] find_release_state [OF q] r by auto
next
  case False
  then have al: "allow_egress env did rq ctx ph (rg_generation (fw_registry s)) t None s = (s', Inr (d, rel))"
    using assms unfolding release_or_allow_def Let_def by simp
  then show ?thesis using False allow_egress_Inr(1) [OF al] by (intro exI [of _ s]) simp
qed

text \<open>A refusal: what it leaves is no permission.\<close>

definition refused :: "flow_state \<Rightarrow> flow_state \<Rightarrow> bool" where
  "refused s s' \<longleftrightarrow> (\<exists>ds. recorded s ds s' \<and> (\<forall>d \<in> set ds. fd_outcome d \<noteq> OutAllow))"

lemma refused_refl [simp]: "refused s s"
  unfolding refused_def by (rule exI [of _ "[]"]) simp

lemma refused_after: "recorded s [] s1 \<Longrightarrow> refused s1 s' \<Longrightarrow> refused s s'"
  unfolding refused_def using recorded_trans [of s "[]" s1] by force

lemma deny_refused: "deny env did redact pid sink ctx ph gen reason t s = (s', Inl e) \<Longrightarrow> refused s s'"
  unfolding refused_def using deny_Inl by fastforce

lemma record_refused:
  assumes "record_decision env did redact pid sink ctx ph gen out reason t release s = (s', r)" "out \<noteq> OutAllow"
  shows "refused s s'"
proof (cases r)
  case (Inl e)
  then show ?thesis using record_decision_Inl assms(1) by fastforce
next
  case (Inr d)
  then obtain ds where "recorded s ds s'" "set ds \<subseteq> {d}" "fd_outcome d = out"
    using record_decision_Inr(2,9) [OF assms(1) [unfolded Inr]] by blast
  then show ?thesis unfolding refused_def using assms(2) by blast
qed

lemma release_or_allow_Inl:
  assumes "release_or_allow env did rq ctx ph t s = (s', Inl e)"
  shows "refused s s'"
proof (cases "needs_release t (fc_labels ctx)")
  case False
  then show ?thesis using assms allow_egress_Inl unfolding release_or_allow_def Let_def by fastforce
next
  case True
  let ?g = "rg_generation (fw_registry s)"
  from True assms consider "s' = s" | b s1 q where "find_release env rq b s = (s1, q)" "s' = s1"
    | b s1 q where "find_release env rq b s = (s1, Inr q)" "allow_egress env did rq ctx ph ?g t q s1 = (s', Inl e)"
    | b s1 q where "find_release env rq b s = (s1, Inr None)"
        "record_decision env did (eg_redact rq) (eg_pid rq) (eg_sink rq) ctx ph ?g OutReleaseRequired
             ''conditional Sink requires an exact one-shot data release'' t None s1 = (s', q)"
    unfolding release_or_allow_def Let_def by (auto simp: bindF_Inl_iff split: if_splits)
  then show ?thesis
  proof cases
    case 1
    then show ?thesis by simp
  next
    case 2
    then show ?thesis using refused_after [OF find_release_state] by simp
  next
    case 3
    then show ?thesis using refused_after [OF find_release_state] allow_egress_Inl [OF 3(2)] by simp
  next
    case 4
    show ?thesis using refused_after [OF find_release_state [OF 4(1)]] record_refused [OF 4(2)] by simp
  qed
qed

text \<open>The guards before the end of the gate.\<close>

lemma authorize_egress_Inr:
  assumes "authorize_egress env did rq s = (s', Inr x)"
  shows "\<exists>ph n t. payload_digest (fe_host env) (eg_payload rq) = Inr (ph, n)
    \<and> eg_generation rq \<in> {None, Some (rg_generation (fw_registry s))}
    \<and> validate_source_refs (fe_host env) s (eg_recovered rq \<or> fe_recovered env)
       (fc_refs (selected_context s (eg_context rq))) = Inr None
    \<and> resolve_sink_trust (fw_registry s) (eg_sink rq) = Inr t
    \<and> clearance_error env (eg_sink rq) (fc_labels (selected_context s (eg_context rq))) t (eg_min rq) = Inr None
    \<and> eg_current rq \<in> {None, Some (eg_version rq)}
    \<and> release_or_allow env did rq (selected_context s (eg_context rq)) ph t s = (s', Inr x)"
  using assms unfolding authorize_egress_def Let_def
  by (auto simp: bindF_Inr_iff split: if_splits option.splits)

lemma authorize_egress_Inl:
  assumes "authorize_egress env did rq s = (s', Inl e)"
  shows "refused s s'"
  using assms unfolding authorize_egress_def Let_def
  by (auto simp: bindF_Inl_iff dest: deny_refused release_or_allow_Inl split: if_splits option.splits)

text \<open>Less restrictive labels pass wherever more restrictive ones do.\<close>

lemma clearance_mono:
  assumes "clearance_error env sink a t mi = Inr None" "label_le l a"
  shows "clearance_error env sink l t mi = Inr None"
proof -
  obtain low where low: "integrity_of mi = Inr low" using assms(1) by (auto simp: clearance_error_def bindR_Inr_iff)
  have ranks: "integrity_rank (dl_integrity a) \<le> integrity_rank (dl_integrity l)"
    "sensitivity_rank (dl_sensitivity l) \<le> sensitivity_rank (dl_sensitivity a)"
    using assms(2) by (simp_all add: label_le_def less_eq_data_integrity_def less_eq_data_sensitivity_def)
  have a: "integrity_rank low \<le> integrity_rank (dl_integrity a)" "\<not> is_mixed_identity a"
    "sensitivity_rank (dl_sensitivity a) \<le> sensitivity_rank (sink_max env t)"
    "\<not> (case t of Some s \<Rightarrow> su_sha (ss_rule s) \<noteq> None \<and> registry_identity_sha sink \<noteq> su_sha (ss_rule s) | None \<Rightarrow> False)"
    "\<not> (case dl_tenant a of None \<Rightarrow> False
        | Some x \<Rightarrow> (case t of None \<Rightarrow> True | Some s \<Rightarrow> x \<notin> set (su_tenants (ss_rule s))))"
    "\<not> (case dl_principal a of None \<Rightarrow> False
        | Some x \<Rightarrow> (case t of None \<Rightarrow> True | Some s \<Rightarrow> x \<notin> set (su_principals (ss_rule s))))"
    using assms(1) low unfolding clearance_error_def by (simp_all split: if_splits)
  have "dl_tenant l = None \<or> dl_tenant l = dl_tenant a" "dl_principal l = None \<or> dl_principal l = dl_principal a"
    using assms(2) a(2) unfolding label_le_def is_mixed_identity_def by auto
  then have "\<not> is_mixed_identity l"
    "\<not> (case dl_tenant l of None \<Rightarrow> False
        | Some x \<Rightarrow> (case t of None \<Rightarrow> True | Some s \<Rightarrow> x \<notin> set (su_tenants (ss_rule s))))"
    "\<not> (case dl_principal l of None \<Rightarrow> False
        | Some x \<Rightarrow> (case t of None \<Rightarrow> True | Some s \<Rightarrow> x \<notin> set (su_principals (ss_rule s))))"
    using a(2,5,6) by (auto simp: is_mixed_identity_def)
  then show ?thesis using a(1,3,4) ranks low unfolding clearance_error_def by simp
qed

lemma classify_computed:
  assumes "validate_source_refs (fe_host env) s (recovered \<or> fe_recovered env) (fc_refs ctx) = Inr None"
    "resolve_sink_trust (fw_registry s) sink = Inr t" "clearance_error env sink (fc_labels ctx) t mi = Inr None"
  shows "classify_egress env s sink ctx recovered mi
    = Inr (if needs_release t (fc_labels ctx) then OutReleaseRequired else OutAllow)"
  using assms by (simp add: classify_egress_def)

lemma classify_allows:
  assumes "classify_egress env s sink ctx recovered mi = Inr OutAllow"
  shows "\<exists>t. validate_source_refs (fe_host env) s (recovered \<or> fe_recovered env) (fc_refs ctx) = Inr None
    \<and> resolve_sink_trust (fw_registry s) sink = Inr t
    \<and> clearance_error env sink (fc_labels ctx) t mi = Inr None \<and> \<not> needs_release t (fc_labels ctx)"
  using assms unfolding classify_egress_def bindR_Inr_iff
  by (auto simp: bindR_Inr_iff split: if_splits sum.splits)

lemma precheck_Inr:
  assumes "precheck_egress env did pid sink (Some ctx) payload mi recovered s = (s', Inr d)"
  shows "classify_egress env s sink ctx recovered mi = Inr (fd_outcome d)"
proof -
  obtain t ph where g: "validate_source_refs (fe_host env) s (recovered \<or> fe_recovered env) (fc_refs ctx) = Inr None"
    "resolve_sink_trust (fw_registry s) sink = Inr t" "clearance_error env sink (fc_labels ctx) t mi = Inr None"
    "record_decision env did False pid sink ctx ph (rg_generation (fw_registry s))
       (if needs_release t (fc_labels ctx) then OutReleaseRequired else OutAllow)
       (if needs_release t (fc_labels ctx) then ''conditional Sink requires exact final-payload release''
        else ''Sink clearance precheck passed'') t None s = (s', Inr d)"
    using assms unfolding precheck_egress_def Let_def selected_context_def
    by (auto simp: bindF_Inr_iff split: if_splits option.splits)
  then show ?thesis using classify_computed [OF g(1-3)] record_decision_Inr(2) [OF g(4)] by simp
qed

section \<open>Properties\<close>

text \<open>
  C23. The egress gate. When it lets a payload pass, the registry generation and the target version are the
  expected ones, every source is still what its reference names, the sink is clear for the labels, and the
  ledger holds the permission for exactly this payload; to a conditional sink data above normal sensitivity
  passes only with an exact one-shot release, held or reserved. When it raises, the only trace in the
  ledger is a denial or a required release. Nothing else changes but the latch of machine grants.
\<close>

theorem egress_gate_sound:
  assumes "authorize_egress env did rq s = (s', r)"
  shows "(\<exists>ds. recorded s ds s') \<and> (case r of
      Inl e \<Rightarrow> \<forall>d \<in> set (fw_decisions s') - set (fw_decisions s). fd_outcome d \<noteq> OutAllow
    | Inr (d, rel) \<Rightarrow> \<exists>ph n t. let ctx = selected_context s (eg_context rq) in
        payload_digest (fe_host env) (eg_payload rq) = Inr (ph, n)
        \<and> eg_generation rq \<in> {None, Some (rg_generation (fw_registry s))}
        \<and> eg_current rq \<in> {None, Some (eg_version rq)}
        \<and> validate_source_refs (fe_host env) s (eg_recovered rq \<or> fe_recovered env) (fc_refs ctx) = Inr None
        \<and> resolve_sink_trust (fw_registry s) (eg_sink rq) = Inr t
        \<and> clearance_error env (eg_sink rq) (fc_labels ctx) t (eg_min rq) = Inr None
        \<and> d \<in> set (fw_decisions s') \<and> fd_outcome d = OutAllow \<and> fd_payload d = ph
        \<and> fd_pid d = eg_pid rq \<and> fd_sink d = ds_identity (eg_sink rq)
        \<and> (if needs_release t (fc_labels ctx) then
             \<exists>b g. make_release env s (eg_pid rq) (eg_sink rq) (the t) ctx ph (eg_operation rq) (eg_version rq) = Inr b
               \<and> rel = Some g \<and> (exact_grant env s b g \<or> exact_reservation env s rq b g)
           else rel = None))"
proof (cases r)
  case (Inl e)
  then have "refused s s'" using authorize_egress_Inl assms by blast
  then show ?thesis unfolding refused_def Inl by (auto simp: recorded_fields)
next
  case (Inr x)
  obtain d rel where x: "x = (d, rel)" by (cases x)
  obtain ph n t where g: "payload_digest (fe_host env) (eg_payload rq) = Inr (ph, n)"
    "eg_generation rq \<in> {None, Some (rg_generation (fw_registry s))}"
    "validate_source_refs (fe_host env) s (eg_recovered rq \<or> fe_recovered env)
       (fc_refs (selected_context s (eg_context rq))) = Inr None"
    "resolve_sink_trust (fw_registry s) (eg_sink rq) = Inr t"
    "clearance_error env (eg_sink rq) (fc_labels (selected_context s (eg_context rq))) t (eg_min rq) = Inr None"
    "eg_current rq \<in> {None, Some (eg_version rq)}"
    "release_or_allow env did rq (selected_context s (eg_context rq)) ph t s = (s', Inr (d, rel))"
    using authorize_egress_Inr [OF assms [unfolded Inr x]] by blast
  obtain s1 where a: "allow_egress env did rq (selected_context s (eg_context rq)) ph (rg_generation (fw_registry s)) t rel s1
      = (s', Inr (d, rel))" "recorded s [] s1"
    and n: "if needs_release t (fc_labels (selected_context s (eg_context rq))) then
          \<exists>b r. make_release env s (eg_pid rq) (eg_sink rq) (the t) (selected_context s (eg_context rq)) ph
              (eg_operation rq) (eg_version rq) = Inr b
            \<and> rel = Some r \<and> (exact_grant env s b r \<or> exact_reservation env s rq b r)
        else rel = None"
    using release_or_allow_Inr [OF g(7)] by blast
  note al = allow_egress_Inr [OF a(1)]
  obtain ds where "recorded s1 ds s'" using al(9) by blast
  then have "\<exists>ds. recorded s ds s'" using recorded_trans [OF a(2)] by blast
  then show ?thesis using g(1-6) n al(2-4,6,7) unfolding Inr x Let_def prod.case sum.case by blast
qed

text \<open>
  What may leave as a whole may leave in parts: when a sink is clear for the aggregate of several
  contexts, it is clear for each of them, and a part needs a release only when the whole does.
\<close>

theorem clearance_of_parts:
  assumes "aggregate_contexts cs = Inr c" "list_all (\<lambda>c. labels_wf (fc_labels c)) cs" "d \<in> set cs"
    and "clearance_error env sink (fc_labels c) t mi = Inr None"
  shows "clearance_error env sink (fc_labels d) t mi = Inr None
    \<and> (needs_release t (fc_labels d) \<longrightarrow> needs_release t (fc_labels c)) \<and> set (fc_refs d) \<subseteq> set (fc_refs c)"
proof -
  note ag = aggregate_contexts_Inr [OF assms(1-3)]
  have "sensitivity_rank (dl_sensitivity (fc_labels d)) \<le> sensitivity_rank (dl_sensitivity (fc_labels c))"
    using ag(1) by (simp add: label_le_def less_eq_data_sensitivity_def)
  then have "needs_release t (fc_labels d) \<longrightarrow> needs_release t (fc_labels c)" by (auto simp: needs_release_def)
  then show ?thesis using clearance_mono [OF assms(4) ag(1)] ag(2) by simp
qed

text \<open>
  C24. The read-only classification and the precheck agree with the gate: what is classified as denied never
  passes, what is classified as needing a release passes only with one, what is classified as allowed passes
  without one as soon as the payload has a digest and the caller's expectations hold, and a precheck
  records the classification.
\<close>

theorem classification_agrees:
  assumes "classify_egress env s (eg_sink rq) ctx (eg_recovered rq) (eg_min rq) = Inr out" "eg_context rq = Some ctx"
  shows "(\<forall>s' d rel. authorize_egress env did rq s = (s', Inr (d, rel)) \<longrightarrow>
        out \<noteq> OutDeny \<and> (rel \<noteq> None \<longleftrightarrow> out = OutReleaseRequired))
    \<and> (\<forall>ph n. out = OutAllow \<and> payload_digest (fe_host env) (eg_payload rq) = Inr (ph, n)
        \<and> (eg_reserved rq = None) = (eg_reserved_id rq = None)
        \<and> eg_generation rq \<in> {None, Some (rg_generation (fw_registry s))} \<and> eg_current rq \<in> {None, Some (eg_version rq)}
        \<longrightarrow> (\<exists>t. authorize_egress env did rq s
              = allow_egress env did rq ctx ph (rg_generation (fw_registry s)) t None s))
    \<and> (\<forall>s' d payload. precheck_egress env did pid (eg_sink rq) (Some ctx) payload (eg_min rq) (eg_recovered rq) s
        = (s', Inr d) \<longrightarrow> fd_outcome d = out)"
proof (intro conjI allI impI)
  have ctx: "selected_context s (eg_context rq) = ctx" using assms(2) by (simp add: selected_context_def)
  {
    fix s' d rel
    assume "authorize_egress env did rq s = (s', Inr (d, rel))"
    from authorize_egress_Inr [OF this, unfolded ctx] obtain ph t where
      g: "validate_source_refs (fe_host env) s (eg_recovered rq \<or> fe_recovered env) (fc_refs ctx) = Inr None"
        "resolve_sink_trust (fw_registry s) (eg_sink rq) = Inr t"
        "clearance_error env (eg_sink rq) (fc_labels ctx) t (eg_min rq) = Inr None"
      and r: "release_or_allow env did rq ctx ph t s = (s', Inr (d, rel))" by blast
    have out: "out = (if needs_release t (fc_labels ctx) then OutReleaseRequired else OutAllow)"
      using classify_computed [OF g] assms(1) by simp
    have "rel \<noteq> None \<longleftrightarrow> needs_release t (fc_labels ctx)" using release_or_allow_Inr [OF r] by (auto split: if_splits)
    then show "out \<noteq> OutDeny" "rel \<noteq> None \<longleftrightarrow> out = OutReleaseRequired" using out by (auto split: if_splits)
  next
    fix ph n
    assume a: "out = OutAllow \<and> payload_digest (fe_host env) (eg_payload rq) = Inr (ph, n)
        \<and> (eg_reserved rq = None) = (eg_reserved_id rq = None)
        \<and> eg_generation rq \<in> {None, Some (rg_generation (fw_registry s))} \<and> eg_current rq \<in> {None, Some (eg_version rq)}"
    from classify_allows [of env s "eg_sink rq" ctx] assms(1) a obtain t where
      g: "validate_source_refs (fe_host env) s (eg_recovered rq \<or> fe_recovered env) (fc_refs ctx) = Inr None"
        "resolve_sink_trust (fw_registry s) (eg_sink rq) = Inr t"
        "clearance_error env (eg_sink rq) (fc_labels ctx) t (eg_min rq) = Inr None"
        "\<not> needs_release t (fc_labels ctx)" by blast
    have "authorize_egress env did rq s = release_or_allow env did rq ctx ph t s"
      using a g(1-3) unfolding authorize_egress_def Let_def ctx check_def by auto
    then show "\<exists>t. authorize_egress env did rq s = allow_egress env did rq ctx ph (rg_generation (fw_registry s)) t None s"
      using g(4) by (auto simp: release_or_allow_def)
  next
    fix s' d payload
    assume "precheck_egress env did pid (eg_sink rq) (Some ctx) payload (eg_min rq) (eg_recovered rq) s = (s', Inr d)"
    from precheck_Inr [OF this] show "fd_outcome d = out" using assms(1) by simp
  }
qed

section \<open>Examples\<close>

definition digest_text :: string where
  "digest_text = replicate 64 (CHR ''a'')"

definition gate_spec :: sink_spec where
  "gate_spec = narrow_spec\<lparr>ss_hash := digest_text\<rparr>"

definition gate_registry :: sink_registry where
  "gate_registry = \<lparr>rg_specs = [wide_spec, gate_spec], rg_generation = 2\<rparr>"

definition gate_env :: flow_env where
  "gate_env = \<lparr>fe_cap = machine_env, fe_default_max = SNormal, fe_manifest = (\<lambda>_. Some digest_text),
     fe_recovered = False, fe_human = None, fe_stamp = ''t''\<rparr>"

definition release_args :: release_binding where
  "release_args = \<lparr>rb_sink = ''net:a/b'', rb_sink_sha = None, rb_trust_id = ''s2'', rb_trust_hash = digest_text,
     rb_generation = 2, rb_manifest = digest_text, rb_labels = digest_text, rb_refs = digest_text,
     rb_payload = digest_text, rb_operation = ''send'', rb_version = VNone\<rparr>"

definition release_cap :: capability_row where
  "release_cap = one_shot_cap\<lparr>cap_resource := ''data_release:net:a/b'', cap_rights := [''approve''],
     cap_constraints := [(''data_release_binding'', VDict (release_to_dict release_args))]\<rparr>"

definition gate_state :: flow_state where
  "gate_state = \<lparr>fw_caps = \<lparr>st_caps = [release_cap], st_res = []\<rparr>, fw_registry = gate_registry,
     fw_files = \<lparr>ff_rows = [], ff_watches = []\<rparr>, fw_objects = [], fw_rows = [], fw_decisions = [],
     fw_context = written_context, fw_latch = False\<rparr>"

definition gate_request :: egress_request where
  "gate_request = \<lparr>eg_pid = ''pid_1'', eg_sink = example_sink, eg_context = None, eg_payload = VBytes ''hello'',
     eg_operation = ''send'', eg_version = VNone, eg_release = True, eg_generation = Some 2, eg_current = None,
     eg_recovered = False, eg_reserved = None, eg_reserved_id = None, eg_min = VStr ''untrusted'',
     eg_redact = False\<rparr>"

definition gate_decision :: capability_decision where
  "gate_decision =
     make_decision release_cap ''pid_1'' ''data_release:net:a/b'' ''approve'' True (Some Allow)
       ''capability allowed operation'' [''cap_1''] [''cap_1'']
       [(''data_release_binding'', \<lparr>cr_ok = True, cr_effect = None, cr_reason = Some ''data release binding matched'',
          cr_info = [(''sink'', VStr ''net:a/b''), (''registry_generation'', VInt 2), (''payload_hash'', VStr digest_text)]\<rparr>)]
       (sdict [(release_key, VDict (release_to_dict release_args))])"

lemma gate_authorized:
  "authorize (fe_cap gate_env) (fw_caps gate_state) ''pid_1'' (release_resource release_args) ''approve''
     (sdict [(release_key, VDict (release_to_dict release_args))]) (fw_latch gate_state) = (False, Inr gate_decision)"
  by code_simp

lemma gate_steps:
  "payload_digest (fe_host gate_env) (VBytes ''hello'') = Inr (digest_text, 5)"
  "resolve_sink_trust gate_registry example_sink = Inr (Some gate_spec)"
  "clearance_error gate_env example_sink (fc_labels written_context) (Some gate_spec) (VStr ''untrusted'') = Inr None"
  "make_release gate_env gate_state ''pid_1'' example_sink gate_spec written_context digest_text ''send'' VNone = Inr release_args"
  "needs_release (Some gate_spec) (fc_labels written_context)"
  "get_cap (fw_caps gate_state) ''cap_1'' = Some release_cap"
  "same_release (fe_host gate_env) (constraint_value release_cap release_key) release_args = Inr True"
  "is_ok (snd (record_decision gate_env ''d1'' False ''pid_1'' example_sink written_context digest_text 2 OutAllow
     ''exact one-shot release matched conditional Sink'' (Some gate_spec) (Some ''cap_1'') gate_state))"
  by code_simp+

lemma gate_matching: "matching_release gate_env ''pid_1'' release_args gate_state = (gate_state, Inr (Some gate_decision))"
proof -
  have "gate_state\<lparr>fw_latch := False\<rparr> = gate_state" by (simp add: gate_state_def)
  moreover have "cap_uses_remaining release_cap = Some 1" by code_simp
  ultimately show ?thesis
    using gate_steps(6,7)
    by (simp add: matching_release_def bindF_def authorizeF_def gate_authorized gate_decision_def make_decision_def
        release_cap_def one_shot_cap_def)
qed

lemma gate_fields [simp]:
  "eg_pid gate_request = ''pid_1''" "eg_sink gate_request = example_sink" "eg_context gate_request = None"
  "eg_payload gate_request = VBytes ''hello''" "eg_operation gate_request = ''send''" "eg_version gate_request = VNone"
  "eg_generation gate_request = Some 2" "eg_current gate_request = None" "eg_reserved gate_request = None"
  "eg_reserved_id gate_request = None" "eg_min gate_request = VStr ''untrusted''" "\<not> eg_redact gate_request"
  "fw_context gate_state = written_context" "fw_registry gate_state = gate_registry" "rg_generation gate_registry = 2"
  "fc_refs written_context = []" "cd_selected gate_decision = Some ''cap_1''"
  by (simp_all add: gate_request_def gate_state_def gate_registry_def written_context_def gate_decision_def
      make_decision_def release_cap_def one_shot_cap_def)

lemma gate_passes: "\<exists>s' d. authorize_egress gate_env ''d1'' gate_request gate_state = (s', Inr (d, Some gate_decision))"
proof -
  obtain s' d where r: "record_decision gate_env ''d1'' False ''pid_1'' example_sink written_context digest_text 2 OutAllow
     ''exact one-shot release matched conditional Sink'' (Some gate_spec) (Some ''cap_1'') gate_state = (s', Inr d)"
    using gate_steps(8) by (metis is_ok_iff prod.collapse)
  have a: "allow_egress gate_env ''d1'' gate_request written_context digest_text 2 (Some gate_spec) (Some gate_decision)
      gate_state = (s', Inr (d, Some gate_decision))"
    using r by (simp add: allow_egress_def bindF_def)
  have "find_release gate_env gate_request release_args gate_state = (gate_state, Inr (Some gate_decision))"
    by (simp add: find_release_def bindF_def gate_matching)
  then have "release_or_allow gate_env ''d1'' gate_request written_context digest_text (Some gate_spec) gate_state
      = (s', Inr (d, Some gate_decision))"
    using gate_steps(4,5) a by (simp add: release_or_allow_def bindF_def liftF_def)
  then have "authorize_egress gate_env ''d1'' gate_request gate_state = (s', Inr (d, Some gate_decision))"
    using gate_steps(1-3) by (simp add: authorize_egress_def check_def selected_context_def)
  then show ?thesis by blast
qed

theorem egress_gate_sound_witness:
  "\<exists>s' d. authorize_egress gate_env ''d1'' gate_request gate_state = (s', Inr (d, Some gate_decision))
     \<and> fd_outcome d = OutAllow \<and> d \<in> set (fw_decisions s')"
proof -
  obtain s' d where r: "authorize_egress gate_env ''d1'' gate_request gate_state = (s', Inr (d, Some gate_decision))"
    using gate_passes by blast
  from egress_gate_sound [OF r] show ?thesis using r by (auto simp: Let_def)
qed

definition normal_context :: flow_context where
  "normal_context = \<lparr>fc_labels = default_labels, fc_refs = [], fc_mat = None\<rparr>"

theorem clearance_of_parts_witness:
  "clearance_error gate_env example_sink (fc_labels normal_context) (Some gate_spec) (VStr ''untrusted'') = Inr None"
proof -
  have "aggregate_contexts [written_context, normal_context] = Inr written_context"
    "list_all (\<lambda>c. labels_wf (fc_labels c)) [written_context, normal_context]"
    by code_simp+
  from clearance_of_parts [OF this, of normal_context gate_env example_sink "Some gate_spec" "VStr ''untrusted''"]
  show ?thesis using gate_steps(3) by simp
qed

theorem classification_agrees_witness:
  "\<exists>t. authorize_egress gate_env ''d1'' (gate_request\<lparr>eg_context := Some normal_context\<rparr>) gate_state
     = allow_egress gate_env ''d1'' (gate_request\<lparr>eg_context := Some normal_context\<rparr>) normal_context digest_text 2 t None
         gate_state"
proof -
  let ?rq = "gate_request\<lparr>eg_context := Some normal_context\<rparr>"
  have "classify_egress gate_env gate_state (eg_sink ?rq) normal_context (eg_recovered ?rq) (eg_min ?rq) = Inr OutAllow"
    by code_simp
  from classification_agrees [OF this, THEN conjunct2, THEN conjunct1, rule_format, of digest_text 5 "''d1''"]
  show ?thesis using gate_steps(1) by simp
qed

end
