(* ===== verification/ProcState.thy ===== *)
theory ProcState
  imports Host DataFlow
begin

text \<open>
  The typed state of a process: \<open>agent_libos/models/process_state.py\<close> and the status enumeration of
  \<open>agent_libos/models/process.py\<close>. A process that waits says what it waits for, a terminal process
  says how it ended, and both are stored as canonical mappings that read back unchanged.
\<close>

section \<open>Status, wait states and outcomes\<close>

datatype process_status =
    StCreated | StRunnable | StRunning | StWaitingEvent | StWaitingTool | StWaitingHuman
  | StPaused | StSuspended | StExited | StFailed | StKilled

fun status_value :: "process_status \<Rightarrow> string" where
  "status_value StCreated = ''created''"
| "status_value StRunnable = ''runnable''"
| "status_value StRunning = ''running''"
| "status_value StWaitingEvent = ''waiting_event''"
| "status_value StWaitingTool = ''waiting_tool''"
| "status_value StWaitingHuman = ''waiting_human''"
| "status_value StPaused = ''paused''"
| "status_value StSuspended = ''suspended''"
| "status_value StExited = ''exited''"
| "status_value StFailed = ''failed''"
| "status_value StKilled = ''killed''"

definition terminal :: "process_status \<Rightarrow> bool" where
  "terminal st \<longleftrightarrow> st \<in> {StExited, StFailed, StKilled}"

record stale_receipt =
  sw_pid :: string
  sw_by :: string
  sw_prior_owner :: "string option"
  sw_prior_lease :: "string option"
  sw_prior_execution :: int
  sw_execution :: int
  sw_state :: int

datatype proc_wait =
    ChildWait string
  | MessageWait pydict
  | HumanWait "string list"
  | ToolWait string
  | PausedWait "string option"
  | HostResumeWait string
  | StaleWait stale_receipt

datatype proc_outcome =
    ExitedOutcome "string option"
  | FailedOutcome "string option" "string option"
  | KilledOutcome "string option" "string option"

fun wait_kind :: "proc_wait \<Rightarrow> string" where
  "wait_kind (ChildWait _) = ''child''"
| "wait_kind (MessageWait _) = ''message''"
| "wait_kind (HumanWait _) = ''human''"
| "wait_kind (ToolWait _) = ''tool''"
| "wait_kind (PausedWait _) = ''paused''"
| "wait_kind (HostResumeWait _) = ''host_resume''"
| "wait_kind (StaleWait _) = ''stale_execution''"

fun outcome_kind :: "proc_outcome \<Rightarrow> string" where
  "outcome_kind (ExitedOutcome _) = ''exited''"
| "outcome_kind (FailedOutcome _ _) = ''failed''"
| "outcome_kind (KilledOutcome _ _) = ''killed''"

section \<open>Validators\<close>

definition state_error :: "string \<Rightarrow> string \<Rightarrow> 'a res" where
  "state_error n msg = Inl (ValidationError (''process state '' @ n @ msg))"

definition non_empty_string :: "string \<Rightarrow> pyval \<Rightarrow> string res" where
  "non_empty_string n v =
     (case v of
        VStr s \<Rightarrow> if strip s = [] then state_error n '' must be a non-empty string'' else Inr (strip s)
      | _ \<Rightarrow> state_error n '' must be a non-empty string'')"

definition optional_string :: "string \<Rightarrow> pyval \<Rightarrow> string option res" where
  "optional_string n v = (if v = VNone then Inr None else bindR (non_empty_string n v) (\<lambda>s. Inr (Some s)))"

definition nonnegative_integer :: "string \<Rightarrow> pyval \<Rightarrow> int res" where
  "nonnegative_integer n v =
     (case v of
        VInt i \<Rightarrow> if i < 0 then state_error n '' must be a non-negative integer'' else Inr i
      | _ \<Rightarrow> state_error n '' must be a non-negative integer'')"

definition positive_integer :: "string \<Rightarrow> pyval \<Rightarrow> int res" where
  "positive_integer n v =
     bindR (nonnegative_integer n v) (\<lambda>i. if i = 0 then state_error n '' must be positive'' else Inr i)"

definition state_sha256 :: "string \<Rightarrow> pyval \<Rightarrow> string res" where
  "state_sha256 n v =
     bindR (non_empty_string n v) (\<lambda>s.
       if is_sha256_hex s then Inr s else state_error n '' must be a canonical SHA-256'')"

definition optional_state_sha256 :: "string \<Rightarrow> pyval \<Rightarrow> string option res" where
  "optional_state_sha256 n v = (if v = VNone then Inr None else bindR (state_sha256 n v) (\<lambda>s. Inr (Some s)))"

text \<open>
  \<open>_strict_json_value\<close>: an exact JSON tree. Values are finite trees here, so the search for cycles has
  nothing to find.
\<close>

fun strict_json :: "pyval \<Rightarrow> pyval res" where
  "strict_json (VFloat x) =
     (case x of
        Fin q \<Rightarrow> Inr (VFloat x)
      | _ \<Rightarrow> state_error ''message filters'' '' contain a non-finite number'')"
| "strict_json (VDict d) =
     bindR (mapR (\<lambda>p. if is_str (fst p) then bindR (strict_json (snd p)) (\<lambda>v. Inr (fst p, v))
         else state_error ''message filters'' '' contain a non-string JSON object key'') d) (\<lambda>e. Inr (VDict e))"
| "strict_json (VList xs) = bindR (mapR strict_json xs) (\<lambda>ys. Inr (VList ys))"
| "strict_json VNone = Inr VNone"
| "strict_json (VStr s) = Inr (VStr s)"
| "strict_json (VBool b) = Inr (VBool b)"
| "strict_json (VInt i) = Inr (VInt i)"
| "strict_json _ = state_error ''message filters'' '' contain non-JSON value''"

text \<open>The constructors, with the checks of their \<open>__post_init__\<close>.\<close>

definition make_child :: "pyval \<Rightarrow> proc_wait res" where
  "make_child v = bindR (non_empty_string ''child_pid'' v) (\<lambda>s. Inr (ChildWait s))"

definition make_message :: "pyval \<Rightarrow> proc_wait res" where
  "make_message v =
     (case v of
        VDict d \<Rightarrow> bindR (strict_json (VDict d)) (\<lambda>w. case w of VDict e \<Rightarrow> Inr (MessageWait e)
          | _ \<Rightarrow> state_error ''message filters'' '' must be an object'')
      | _ \<Rightarrow> state_error ''message filters'' '' must be an object'')"

definition make_human :: "pyval list \<Rightarrow> proc_wait res" where
  "make_human vs =
     bindR (mapR (non_empty_string ''request_ids[]'') vs) (\<lambda>ids.
     bindR (check (ids \<noteq> []) (ValidationError ''process state human request_ids must not be empty'')) (\<lambda>_.
     bindR (check (distinct ids)
       (ValidationError ''process state human request_ids must not contain duplicates'')) (\<lambda>_. Inr (HumanWait ids))))"

definition make_tool :: "pyval \<Rightarrow> proc_wait res" where
  "make_tool v = bindR (non_empty_string ''operation_id'' v) (\<lambda>s. Inr (ToolWait s))"

definition make_paused :: "pyval \<Rightarrow> proc_wait res" where
  "make_paused v = bindR (optional_string ''reason_oid'' v) (\<lambda>s. Inr (PausedWait s))"

definition make_host_resume :: "pyval \<Rightarrow> proc_wait res" where
  "make_host_resume v = bindR (non_empty_string ''reason_oid'' v) (\<lambda>s. Inr (HostResumeWait s))"

definition make_stale :: "(string \<Rightarrow> pyval) \<Rightarrow> proc_wait res" where
  "make_stale f =
     bindR (non_empty_string ''pid'' (f ''pid'')) (\<lambda>pid.
     bindR (state_sha256 ''recovered_by_owner_sha256'' (f ''recovered_by_owner_sha256'')) (\<lambda>own.
     bindR (optional_state_sha256 ''prior_owner_sha256'' (f ''prior_owner_sha256'')) (\<lambda>po.
     bindR (optional_state_sha256 ''prior_lease_sha256'' (f ''prior_lease_sha256'')) (\<lambda>pl.
     bindR (nonnegative_integer ''prior_execution_generation'' (f ''prior_execution_generation'')) (\<lambda>pe.
     bindR (positive_integer ''recovered_execution_generation'' (f ''recovered_execution_generation'')) (\<lambda>re.
     bindR (positive_integer ''recovered_state_generation'' (f ''recovered_state_generation'')) (\<lambda>rs.
       Inr (StaleWait \<lparr>sw_pid = pid, sw_by = own, sw_prior_owner = po, sw_prior_lease = pl,
         sw_prior_execution = pe, sw_execution = re, sw_state = rs\<rparr>))))))))"

definition make_exited :: "pyval \<Rightarrow> proc_outcome res" where
  "make_exited v = bindR (optional_string ''result_oid'' v) (\<lambda>s. Inr (ExitedOutcome s))"

definition make_failed :: "pyval \<Rightarrow> pyval \<Rightarrow> proc_outcome res" where
  "make_failed v c =
     bindR (optional_string ''result_oid'' v) (\<lambda>s. bindR (optional_string ''code'' c) (\<lambda>k. Inr (FailedOutcome s k)))"

definition make_killed :: "pyval \<Rightarrow> pyval \<Rightarrow> proc_outcome res" where
  "make_killed v c =
     bindR (optional_string ''reason_oid'' v) (\<lambda>s. bindR (optional_string ''code'' c) (\<lambda>k. Inr (KilledOutcome s k)))"

section \<open>Canonical mappings\<close>

definition stale_fields :: "string list" where
  "stale_fields = [''pid'', ''recovered_by_owner_sha256'', ''prior_owner_sha256'', ''prior_lease_sha256'',
     ''prior_execution_generation'', ''recovered_execution_generation'', ''recovered_state_generation'']"

definition canonical_mapping :: "pydict \<Rightarrow> string \<Rightarrow> string list \<Rightarrow> pydict res" where
  "canonical_mapping d kind fs =
     bindR (check (list_all (\<lambda>p. is_str (fst p)) d)
       (ValidationError (''process state '' @ kind @ '' contains a non-string JSON object key''))) (\<lambda>_.
     bindR (check (set (map fst d) = VStr ` set (''schema_version'' # ''kind'' # fs))
       (ValidationError (''process state '' @ kind @ '' is not canonical''))) (\<lambda>_.
     bindR (check (dget d ''schema_version'' = VInt 1)
       (ValidationError ''unsupported process state schema_version'')) (\<lambda>_.
     bindR (check (dget d ''kind'' = VStr kind) (ValidationError ''process state kind mismatch'')) (\<lambda>_. Inr d))))"

fun wait_fields :: "proc_wait \<Rightarrow> (string \<times> pyval) list" where
  "wait_fields (ChildWait p) = [(''child_pid'', VStr p)]"
| "wait_fields (MessageWait f) = [(''filters'', VDict f)]"
| "wait_fields (HumanWait ids) = [(''request_ids'', VList (map VStr ids))]"
| "wait_fields (ToolWait i) = [(''operation_id'', VStr i)]"
| "wait_fields (PausedWait r) = [(''reason_oid'', opt_str r)]"
| "wait_fields (HostResumeWait r) = [(''reason_oid'', VStr r)]"
| "wait_fields (StaleWait r) =
     [(''pid'', VStr (sw_pid r)), (''recovered_by_owner_sha256'', VStr (sw_by r)),
      (''prior_owner_sha256'', opt_str (sw_prior_owner r)), (''prior_lease_sha256'', opt_str (sw_prior_lease r)),
      (''prior_execution_generation'', VInt (sw_prior_execution r)),
      (''recovered_execution_generation'', VInt (sw_execution r)),
      (''recovered_state_generation'', VInt (sw_state r))]"

definition wait_to_mapping :: "proc_wait option \<Rightarrow> pyval" where
  "wait_to_mapping w =
     (case w of
        None \<Rightarrow> VNone
      | Some x \<Rightarrow> VDict (sdict ((''schema_version'', VInt 1) # (''kind'', VStr (wait_kind x)) # wait_fields x)))"

definition wait_from_mapping :: "pyval \<Rightarrow> proc_wait option res" where
  "wait_from_mapping v =
     (case v of
        VNone \<Rightarrow> Inr None
      | VDict d \<Rightarrow>
          let kind = dget d ''kind'' in
          bindR (if kind = VStr ''child'' then
              bindR (canonical_mapping d ''child'' [''child_pid'']) (\<lambda>e. make_child (dget e ''child_pid''))
            else if kind = VStr ''message'' then
              bindR (canonical_mapping d ''message'' [''filters'']) (\<lambda>e. make_message (dget e ''filters''))
            else if kind = VStr ''human'' then
              bindR (canonical_mapping d ''human'' [''request_ids'']) (\<lambda>e.
                case dget e ''request_ids'' of VList ids \<Rightarrow> make_human ids
                | _ \<Rightarrow> state_error ''human request_ids'' '' must be a list'')
            else if kind = VStr ''tool'' then
              bindR (canonical_mapping d ''tool'' [''operation_id'']) (\<lambda>e. make_tool (dget e ''operation_id''))
            else if kind = VStr ''paused'' then
              bindR (canonical_mapping d ''paused'' [''reason_oid'']) (\<lambda>e. make_paused (dget e ''reason_oid''))
            else if kind = VStr ''host_resume'' then
              bindR (canonical_mapping d ''host_resume'' [''reason_oid'']) (\<lambda>e. make_host_resume (dget e ''reason_oid''))
            else if kind = VStr ''stale_execution'' then
              bindR (canonical_mapping d ''stale_execution'' stale_fields) (\<lambda>e. make_stale (dget e))
            else Inl (ValidationError ''unsupported process wait state kind'')) (\<lambda>w. Inr (Some w))
      | _ \<Rightarrow> Inl (ValidationError ''process wait state must be an object or null''))"

fun outcome_fields :: "proc_outcome \<Rightarrow> (string \<times> pyval) list" where
  "outcome_fields (ExitedOutcome r) = [(''result_oid'', opt_str r)]"
| "outcome_fields (FailedOutcome r c) = [(''result_oid'', opt_str r), (''code'', opt_str c)]"
| "outcome_fields (KilledOutcome r c) = [(''reason_oid'', opt_str r), (''code'', opt_str c)]"

definition outcome_to_mapping :: "proc_outcome option \<Rightarrow> pyval" where
  "outcome_to_mapping o' =
     (case o' of
        None \<Rightarrow> VNone
      | Some x \<Rightarrow> VDict (sdict ((''schema_version'', VInt 1) # (''kind'', VStr (outcome_kind x)) # outcome_fields x)))"

definition outcome_from_mapping :: "pyval \<Rightarrow> proc_outcome option res" where
  "outcome_from_mapping v =
     (case v of
        VNone \<Rightarrow> Inr None
      | VDict d \<Rightarrow>
          let kind = dget d ''kind'' in
          bindR (if kind = VStr ''exited'' then
              bindR (canonical_mapping d ''exited'' [''result_oid'']) (\<lambda>e. make_exited (dget e ''result_oid''))
            else if kind = VStr ''failed'' then
              bindR (canonical_mapping d ''failed'' [''result_oid'', ''code''])
                (\<lambda>e. make_failed (dget e ''result_oid'') (dget e ''code''))
            else if kind = VStr ''killed'' then
              bindR (canonical_mapping d ''killed'' [''reason_oid'', ''code''])
                (\<lambda>e. make_killed (dget e ''reason_oid'') (dget e ''code''))
            else Inl (ValidationError ''unsupported process outcome kind'')) (\<lambda>x. Inr (Some x))
      | _ \<Rightarrow> Inl (ValidationError ''process outcome must be an object or null''))"

section \<open>The product of status, wait state and outcome\<close>

text \<open>\<open>validate_process_state_fields\<close>\<close>

definition wait_matches :: "process_status \<Rightarrow> proc_wait option \<Rightarrow> bool" where
  "wait_matches st w =
     (case st of
        StWaitingEvent \<Rightarrow> (case w of Some (ChildWait _) \<Rightarrow> True | Some (MessageWait _) \<Rightarrow> True | _ \<Rightarrow> False)
      | StWaitingHuman \<Rightarrow> (case w of Some (HumanWait _) \<Rightarrow> True | _ \<Rightarrow> False)
      | StWaitingTool \<Rightarrow> (case w of Some (ToolWait _) \<Rightarrow> True | _ \<Rightarrow> False)
      | StPaused \<Rightarrow> (case w of Some (PausedWait _) \<Rightarrow> True | Some (HostResumeWait _) \<Rightarrow> True
          | Some (StaleWait _) \<Rightarrow> True | _ \<Rightarrow> False)
      | _ \<Rightarrow> w = None)"

definition outcome_matches :: "process_status \<Rightarrow> proc_outcome option \<Rightarrow> bool" where
  "outcome_matches st o' =
     (case st of
        StExited \<Rightarrow> (case o' of Some (ExitedOutcome _) \<Rightarrow> True | _ \<Rightarrow> False)
      | StFailed \<Rightarrow> (case o' of Some (FailedOutcome _ _) \<Rightarrow> True | _ \<Rightarrow> False)
      | StKilled \<Rightarrow> (case o' of Some (KilledOutcome _ _) \<Rightarrow> True | _ \<Rightarrow> False)
      | _ \<Rightarrow> o' = None)"

definition validate_state :: "process_status \<Rightarrow> proc_wait option \<Rightarrow> proc_outcome option \<Rightarrow> unit res" where
  "validate_state st w o' =
     bindR (check (wait_matches st w)
       (ValidationError (status_value st @ '' requires another process wait state''))) (\<lambda>_.
     check (outcome_matches st o')
       (ValidationError (status_value st @ '' requires another process outcome'')))"

text \<open>\<open>process_state_to_mapping\<close>\<close>

definition state_to_mapping ::
  "process_status \<Rightarrow> proc_wait option \<Rightarrow> proc_outcome option \<Rightarrow> pyval \<Rightarrow> pydict res" where
  "state_to_mapping st w o' g =
     bindR (nonnegative_integer ''state_generation'' g) (\<lambda>i.
     bindR (validate_state st w o') (\<lambda>_.
       Inr (sdict [(''status'', VStr (status_value st)), (''wait_state'', wait_to_mapping w),
         (''outcome'', outcome_to_mapping o'), (''state_generation'', VInt i)])))"

text \<open>\<open>legacy_status_message\<close>, with \<open>json.dumps(filters, sort_keys=True)\<close>\<close>

definition status_message ::
  "host \<Rightarrow> proc_wait option \<Rightarrow> proc_outcome option \<Rightarrow> string option \<Rightarrow> string option res" where
  "status_message h w o' fallback =
     (case w of
        Some (ChildWait p) \<Rightarrow> Inr (Some (''waiting for '' @ p))
      | Some (MessageWait f) \<Rightarrow>
          bindR (json_text h \<lparr>jf_ascii = True, jf_default = False, jf_nan = True, jf_item_sep = '', '',
              jf_key_sep = '': ''\<rparr> (VDict f)) (\<lambda>t. Inr (Some (''waiting_message:'' @ t)))
      | Some (HumanWait ids) \<Rightarrow>
          Inr (Some ((if length ids = 1 then ''waiting for human request '' else ''waiting for human requests '')
            @ join '','' ids))
      | Some (HostResumeWait r) \<Rightarrow> Inr (Some (''host_resume_required:'' @ r))
      | Some (StaleWait _) \<Rightarrow> Inr (Some ''stale_execution_recovery'')
      | Some (PausedWait (Some r)) \<Rightarrow> Inr (Some (''result_oid:'' @ r))
      | _ \<Rightarrow>
          Inr (case o' of
             Some (ExitedOutcome (Some r)) \<Rightarrow> Some (''result_oid:'' @ r)
           | Some (FailedOutcome (Some r) _) \<Rightarrow> Some (''result_oid:'' @ r)
           | Some (KilledOutcome (Some r) _) \<Rightarrow> Some (''result_oid:'' @ r)
           | _ \<Rightarrow> fallback))"

section \<open>Remapping of identifiers\<close>

definition remap :: "(string \<times> string) list \<Rightarrow> string \<Rightarrow> string" where
  "remap m s = (case map_of m s of None \<Rightarrow> s | Some t \<Rightarrow> t)"

definition remap_wait ::
  "(string \<times> string) list \<Rightarrow> (string \<times> string) list \<Rightarrow> proc_wait option \<Rightarrow> proc_wait option res" where
  "remap_wait pids objects w =
     (case w of
        Some (ChildWait p) \<Rightarrow> bindR (make_child (VStr (remap pids p))) (\<lambda>x. Inr (Some x))
      | Some (PausedWait r) \<Rightarrow> bindR (make_paused (opt_str (map_option (remap objects) r))) (\<lambda>x. Inr (Some x))
      | Some (HostResumeWait r) \<Rightarrow> bindR (make_host_resume (VStr (remap objects r))) (\<lambda>x. Inr (Some x))
      | Some (StaleWait _) \<Rightarrow> Inr (Some (PausedWait None))
      | _ \<Rightarrow> Inr w)"

definition remap_outcome :: "(string \<times> string) list \<Rightarrow> proc_outcome option \<Rightarrow> proc_outcome option res" where
  "remap_outcome objects o' =
     (case o' of
        Some (ExitedOutcome r) \<Rightarrow> bindR (make_exited (opt_str (map_option (remap objects) r))) (\<lambda>x. Inr (Some x))
      | Some (FailedOutcome r c) \<Rightarrow>
          bindR (make_failed (opt_str (map_option (remap objects) r)) (opt_str c)) (\<lambda>x. Inr (Some x))
      | Some (KilledOutcome r c) \<Rightarrow>
          bindR (make_killed (opt_str (map_option (remap objects) r)) (opt_str c)) (\<lambda>x. Inr (Some x))
      | None \<Rightarrow> Inr None)"

section \<open>Lemmas\<close>

text \<open>What the validators accept they accept again, unchanged.\<close>

definition plain :: "string \<Rightarrow> bool" where
  "plain s \<longleftrightarrow> s \<noteq> [] \<and> strip s = s"

definition plain_opt :: "string option \<Rightarrow> bool" where
  "plain_opt o' \<longleftrightarrow> (case o' of None \<Rightarrow> True | Some s \<Rightarrow> plain s)"

lemma state_error_never [simp]: "state_error n m \<noteq> Inr x"
  by (simp add: state_error_def)

lemma non_empty_string_Inr [simp]: "non_empty_string n v = Inr s \<longleftrightarrow> (\<exists>t. v = VStr t \<and> strip t \<noteq> [] \<and> s = strip t)"
  by (cases v) (auto simp: non_empty_string_def)

lemma non_empty_string_plain: "non_empty_string n v = Inr s \<Longrightarrow> plain s"
  by (auto simp: plain_def)

lemma optional_string_plain: "optional_string n v = Inr o' \<Longrightarrow> plain_opt o'"
  by (cases o') (auto simp: optional_string_def plain_opt_def plain_def bindR_Inr_iff split: if_splits)

lemma plain_accepted:
  "plain s \<Longrightarrow> non_empty_string n (VStr s) = Inr s"
  "plain_opt o' \<Longrightarrow> optional_string n (opt_str o') = Inr o'"
  by (auto simp: plain_def plain_opt_def optional_string_def non_empty_string_def opt_str_def split: option.splits)

definition plain_sha :: "string \<Rightarrow> bool" where
  "plain_sha s \<longleftrightarrow> plain s \<and> is_sha256_hex s"

definition plain_sha_opt :: "string option \<Rightarrow> bool" where
  "plain_sha_opt o' \<longleftrightarrow> (case o' of None \<Rightarrow> True | Some s \<Rightarrow> plain_sha s)"

lemma state_sha256_plain: "state_sha256 n v = Inr s \<Longrightarrow> plain_sha s"
  by (auto simp: state_sha256_def plain_sha_def plain_def bindR_Inr_iff split: if_splits)

lemma optional_state_sha256_plain: "optional_state_sha256 n v = Inr o' \<Longrightarrow> plain_sha_opt o'"
  by (cases o') (auto simp: optional_state_sha256_def plain_sha_opt_def bindR_Inr_iff split: if_splits dest: state_sha256_plain)

lemma plain_sha_accepted:
  "plain_sha s \<Longrightarrow> state_sha256 n (VStr s) = Inr s"
  "plain_sha_opt o' \<Longrightarrow> optional_state_sha256 n (opt_str o') = Inr o'"
  by (auto simp: plain_sha_def plain_sha_opt_def state_sha256_def optional_state_sha256_def plain_accepted opt_str_def
      split: option.splits)

lemma nonnegative_integer_Inr [simp]: "nonnegative_integer n v = Inr i \<longleftrightarrow> v = VInt i \<and> 0 \<le> i"
  by (cases v) (auto simp: nonnegative_integer_def)

lemma positive_integer_Inr [simp]: "positive_integer n v = Inr i \<longleftrightarrow> v = VInt i \<and> 0 < i"
  by (cases v) (auto simp: positive_integer_def nonnegative_integer_def bindR_Inr_iff)

lemmas integers_Inr = nonnegative_integer_Inr positive_integer_Inr

lemma mapR_same: "mapR f xs = Inr ys \<Longrightarrow> (\<And>x y. x \<in> set xs \<Longrightarrow> f x = Inr y \<Longrightarrow> y = x) \<Longrightarrow> ys = xs"
proof (induction xs arbitrary: ys)
  case (Cons x xs)
  then obtain y zs where "f x = Inr y" "mapR f xs = Inr zs" "ys = y # zs" by (auto simp: bindR_Inr_iff)
  moreover have "zs = xs" by (rule Cons.IH [OF \<open>mapR f xs = Inr zs\<close>]) (simp add: Cons.prems(2))
  moreover have "y = x" using Cons.prems(2) \<open>f x = Inr y\<close> by simp
  ultimately show ?case by simp
qed simp

lemma strict_json_same: "strict_json v = Inr w \<Longrightarrow> w = v"
proof (induction v arbitrary: w)
  case (VFloat x)
  then show ?case by (cases x) auto
next
  case (VList xs)
  then obtain ys where "mapR strict_json xs = Inr ys" "w = VList ys" by (auto simp: bindR_Inr_iff)
  then show ?case using mapR_same [of strict_json xs ys] VList.IH by simp
next
  case (VDict d)
  then obtain e where e: "mapR (\<lambda>p. if is_str (fst p) then bindR (strict_json (snd p)) (\<lambda>v. Inr (fst p, v))
         else state_error ''message filters'' '' contain a non-string JSON object key'') d = Inr e" "w = VDict e"
    by (auto simp: bindR_Inr_iff)
  have "e = d"
  proof (rule mapR_same [OF e(1)])
    fix p q
    assume p: "p \<in> set d" and q: "(if is_str (fst p) then bindR (strict_json (snd p)) (\<lambda>v. Inr (fst p, v))
         else state_error ''message filters'' '' contain a non-string JSON object key'') = Inr q"
    then obtain v where "strict_json (snd p) = Inr v" "q = (fst p, v)" by (auto simp: bindR_Inr_iff split: if_splits)
    moreover have "snd p \<in> Basic_BNFs.snds p" by (simp add: snds.simps)
    ultimately show "q = p" using VDict.IH(2) [OF p] by (metis prod.collapse)
  qed
  then show ?case using e(2) by simp
qed auto

fun wait_wf :: "proc_wait \<Rightarrow> bool" where
  "wait_wf (ChildWait p) = plain p"
| "wait_wf (MessageWait f) = (strict_json (VDict f) = Inr (VDict f))"
| "wait_wf (HumanWait ids) = (ids \<noteq> [] \<and> distinct ids \<and> list_all plain ids)"
| "wait_wf (ToolWait i) = plain i"
| "wait_wf (PausedWait r) = plain_opt r"
| "wait_wf (HostResumeWait r) = plain r"
| "wait_wf (StaleWait r) =
     (plain (sw_pid r) \<and> plain_sha (sw_by r) \<and> plain_sha_opt (sw_prior_owner r) \<and> plain_sha_opt (sw_prior_lease r)
      \<and> 0 \<le> sw_prior_execution r \<and> 0 < sw_execution r \<and> 0 < sw_state r)"

fun outcome_wf :: "proc_outcome \<Rightarrow> bool" where
  "outcome_wf (ExitedOutcome r) = plain_opt r"
| "outcome_wf (FailedOutcome r c) = (plain_opt r \<and> plain_opt c)"
| "outcome_wf (KilledOutcome r c) = (plain_opt r \<and> plain_opt c)"

lemma mapR_all: "mapR f xs = Inr ys \<Longrightarrow> (\<And>x y. f x = Inr y \<Longrightarrow> P y) \<Longrightarrow> list_all P ys"
  by (induction xs arbitrary: ys) (auto simp: bindR_Inr_iff)

lemma mapR_plain: "list_all plain ids \<Longrightarrow> mapR (non_empty_string n) (map VStr ids) = Inr ids"
  by (induction ids) (auto simp: plain_accepted simp del: non_empty_string_Inr)

lemma make_wait_wf:
  "make_child v = Inr w \<Longrightarrow> wait_wf w" "make_message v = Inr w \<Longrightarrow> wait_wf w" "make_human vs = Inr w \<Longrightarrow> wait_wf w"
  "make_tool v = Inr w \<Longrightarrow> wait_wf w" "make_paused v = Inr w \<Longrightarrow> wait_wf w" "make_host_resume v = Inr w \<Longrightarrow> wait_wf w"
  "make_stale f = Inr w \<Longrightarrow> wait_wf w"
proof -
  show "make_message v = Inr w \<Longrightarrow> wait_wf w"
  proof -
    assume "make_message v = Inr w"
    then obtain d x where v: "v = VDict d" and x: "strict_json (VDict d) = Inr x"
      and w: "(case x of VDict e \<Rightarrow> Inr (MessageWait e)
          | _ \<Rightarrow> state_error ''message filters'' '' must be an object'') = Inr w"
      unfolding make_message_def by (cases v) (auto simp: bindR_Inr_iff)
    have "x = VDict d" using strict_json_same [OF x] .
    then have "w = MessageWait d" using w by simp
    then show ?thesis using x \<open>x = VDict d\<close> by (simp del: strict_json.simps)
  qed
  show "make_human vs = Inr w \<Longrightarrow> wait_wf w"
    unfolding make_human_def bindR_Inr_iff
    by (auto intro: mapR_all [OF _ non_empty_string_plain] simp del: non_empty_string_Inr)
qed (auto simp: make_child_def make_tool_def make_paused_def make_host_resume_def make_stale_def bindR_Inr_iff plain_def
    dest: optional_string_plain state_sha256_plain optional_state_sha256_plain)

lemma make_outcome_wf:
  "make_exited v = Inr x \<Longrightarrow> outcome_wf x" "make_failed v c = Inr x \<Longrightarrow> outcome_wf x" "make_killed v c = Inr x \<Longrightarrow> outcome_wf x"
  by (auto simp: make_exited_def make_failed_def make_killed_def bindR_Inr_iff dest: optional_string_plain)

lemma human_list_wf:
  assumes "(case v of VList ids \<Rightarrow> make_human ids | _ \<Rightarrow> state_error n m) = Inr w"
  shows "wait_wf w"
  using assms make_wait_wf(3) by (cases v) auto

lemma wait_from_mapping_wf: "wait_from_mapping v = Inr (Some w) \<Longrightarrow> wait_wf w"
  unfolding wait_from_mapping_def Let_def
  by (cases v) (auto simp: bindR_Inr_iff dest: make_wait_wf human_list_wf split: if_split_asm)

lemma outcome_from_mapping_wf: "outcome_from_mapping v = Inr (Some x) \<Longrightarrow> outcome_wf x"
  unfolding outcome_from_mapping_def Let_def
  by (auto simp: bindR_Inr_iff dest: make_outcome_wf split: pyval.split_asm if_split_asm)

lemma canonical_sdict:
  assumes "set (map fst d) = set fs"
  shows "canonical_mapping (sdict ((''schema_version'', VInt 1) # (''kind'', VStr k) # d)) k fs
    = Inr (sdict ((''schema_version'', VInt 1) # (''kind'', VStr k) # d))"
proof -
  have "VStr ` set (map fst d) = VStr ` set fs" using assms by simp
  then have "set (map fst (sdict d)) = VStr ` set fs" by (simp add: sdict_def image_image split_def)
  then show ?thesis
    by (simp add: canonical_mapping_def check_def dget_sdict) (auto simp: sdict_def list_all_iff)
qed

lemma wait_to_from: "wait_wf w \<Longrightarrow> wait_from_mapping (wait_to_mapping (Some w)) = Inr (Some w)"
proof (cases w)
  case (MessageWait f)
  assume "wait_wf w"
  then show ?thesis
    using MessageWait
    by (simp add: wait_from_mapping_def wait_to_mapping_def canonical_sdict dget_sdict make_message_def del: strict_json.simps)
next
  case (HumanWait ids)
  assume "wait_wf w"
  then show ?thesis
    using HumanWait
    by (simp add: wait_from_mapping_def wait_to_mapping_def canonical_sdict dget_sdict make_human_def mapR_plain check_def)
next
  case (StaleWait r)
  assume "wait_wf w"
  then show ?thesis
    using StaleWait
    by (simp add: wait_from_mapping_def wait_to_mapping_def canonical_sdict dget_sdict make_stale_def stale_fields_def
        plain_accepted plain_sha_accepted nonnegative_integer_def positive_integer_def del: integers_Inr non_empty_string_Inr)
qed (simp_all add: wait_from_mapping_def wait_to_mapping_def canonical_sdict dget_sdict make_child_def make_tool_def
    make_paused_def make_host_resume_def plain_accepted del: non_empty_string_Inr)

lemma outcome_to_from: "outcome_wf x \<Longrightarrow> outcome_from_mapping (outcome_to_mapping (Some x)) = Inr (Some x)"
  by (cases x) (auto simp: outcome_from_mapping_def outcome_to_mapping_def canonical_sdict dget_sdict make_exited_def
      make_failed_def make_killed_def plain_accepted simp del: non_empty_string_Inr)

section \<open>Properties\<close>

text \<open>
  C25. Whatever typed state can be read from a stored mapping is written back as a mapping that reads as the
  same state, for waits and for outcomes: a process that survives a restart waits for the same thing.
\<close>

theorem process_state_roundtrip:
  assumes "wait_from_mapping v = Inr w" "outcome_from_mapping u = Inr o'"
  shows "wait_from_mapping (wait_to_mapping w) = Inr w \<and> outcome_from_mapping (outcome_to_mapping o') = Inr o'"
proof (intro conjI)
  show "wait_from_mapping (wait_to_mapping w) = Inr w"
    using assms(1) wait_from_mapping_wf wait_to_from
    by (cases w) (auto simp: wait_to_mapping_def wait_from_mapping_def)
  show "outcome_from_mapping (outcome_to_mapping o') = Inr o'"
    using assms(2) outcome_from_mapping_wf outcome_to_from
    by (cases o') (auto simp: outcome_to_mapping_def outcome_from_mapping_def)
qed

theorem process_state_roundtrip_witness:
  "wait_from_mapping (wait_to_mapping (Some (HumanWait [''h1'', ''h2'']))) = Inr (Some (HumanWait [''h1'', ''h2'']))"
proof -
  let ?v = "VDict (sdict [(''kind'', VStr ''human''), (''request_ids'', VList [VStr '' h1 '', VStr ''h2'']),
     (''schema_version'', VInt 1)])"
  have "wait_from_mapping ?v = Inr (Some (HumanWait [''h1'', ''h2'']))" "outcome_from_mapping VNone = Inr None"
    by code_simp+
  from process_state_roundtrip [OF this] show ?thesis by simp
qed

end
