(* ===== verification/ProcTable.thy ===== *)
theory ProcTable
  imports ProcState
begin

text \<open>
  The process table of \<open>agent_libos/storage/sql.py\<close> with the scopes of
  \<open>agent_libos/process_execution.py\<close> and the service of \<open>agent_libos/process_transition.py\<close>: rows with a
  revision, a state generation and an execution generation; writes that compare and set; execution
  leases, their recovery after a restart, and the restoration of rows. The completion of an exec by its
  tool wrapper is not part of the model.
\<close>

section \<open>Tokens and scopes\<close>

record exec_token =
  tk_pid :: string
  tk_generation :: int
  tk_owner :: string
  tk_lease :: string
  tk_epoch :: "int option"

record control_scope =
  cs_target :: string
  cs_statuses :: "process_status list"
  cs_reason :: string

record terminal_scope =
  ts_target :: string
  ts_revision :: int
  ts_generation :: int
  ts_statuses :: "process_status list"
  ts_token :: "exec_token option"
  ts_reason :: string

text \<open>
  The intent of an emergency takeover of an execution lease. Intents that first record a reason text in the
  memory of the process are not part of the model, so an intent allows one write, the final one.
\<close>

record takeover =
  tv_target :: string
  tv_revision :: int
  tv_state_gen :: int
  tv_token :: exec_token
  tv_status :: process_status
  tv_wait_kind :: "string option"
  tv_code :: "string option"

text \<open>
  The context variables: the worker token of the running code, a control scope, a terminal scope, a takeover.
\<close>

record ambient =
  am_token :: "exec_token option"
  am_control :: "control_scope option"
  am_terminal :: "terminal_scope option"
  am_takeover :: "takeover option"

definition bind_execution :: "exec_token \<Rightarrow> ambient \<Rightarrow> ambient" where
  "bind_execution tok am = am\<lparr>am_token := Some tok\<rparr>"

text \<open>\<open>trusted_process_control_mutation\<close> and \<open>trusted_terminal_process_mutation\<close>\<close>

definition control_mutation :: "string \<Rightarrow> process_status list \<Rightarrow> string \<Rightarrow> ambient \<Rightarrow> ambient res" where
  "control_mutation target sts reason am =
     bindR (check (strip target \<noteq> []) (ValueError ''process control target pid must be non-empty'')) (\<lambda>_.
     bindR (check (sts \<noteq> []) (ValueError ''process control allowed statuses must be non-empty'')) (\<lambda>_.
     bindR (check (strip reason \<noteq> []) (ValueError ''process control reason must be non-empty'')) (\<lambda>_.
       Inr (am\<lparr>am_control := Some \<lparr>cs_target = strip target, cs_statuses = sts, cs_reason = strip reason\<rparr>\<rparr>))))"

definition terminal_mutation ::
  "string \<Rightarrow> int \<Rightarrow> int \<Rightarrow> process_status list \<Rightarrow> exec_token option \<Rightarrow> string \<Rightarrow> ambient \<Rightarrow> ambient res" where
  "terminal_mutation target rv gen sts tok reason am =
     bindR (check (strip target \<noteq> []) (ValueError ''terminal process mutation target pid must be non-empty'')) (\<lambda>_.
     bindR (check (sts \<noteq> [] \<and> list_all terminal sts)
       (ValueError ''terminal process mutation statuses must be terminal'')) (\<lambda>_.
     bindR (check (0 \<le> rv \<and> 0 \<le> gen)
       (ValueError ''terminal process mutation concurrency values must be non-negative'')) (\<lambda>_.
     bindR (check (strip reason \<noteq> []) (ValueError ''terminal process mutation reason must be non-empty'')) (\<lambda>_.
     bindR (check (tok = am_token am)
       (ValueError ''terminal process mutation token must match the ambient worker token'')) (\<lambda>_.
       Inr (am\<lparr>am_terminal := Some \<lparr>ts_target = strip target, ts_revision = rv, ts_generation = gen,
         ts_statuses = sts, ts_token = tok, ts_reason = strip reason\<rparr>\<rparr>))))))"

text \<open>\<open>trusted_process_execution_takeover\<close>\<close>

definition execution_takeover ::
  "string \<Rightarrow> int \<Rightarrow> int \<Rightarrow> exec_token \<Rightarrow> process_status \<Rightarrow> string \<Rightarrow> string \<Rightarrow> string option \<Rightarrow> string option \<Rightarrow>
   ambient \<Rightarrow> ambient res" where
  "execution_takeover target rv sg tok st reason nonce wkind ocode am =
     bindR (check (strip target \<noteq> [] \<and> tk_pid tok = strip target \<and> 0 \<le> rv \<and> 0 \<le> sg \<and> st \<in> {StPaused, StKilled}
         \<and> strip reason \<noteq> [] \<and> strip nonce \<noteq> [])
       (ValueError ''invalid process execution takeover intent'')) (\<lambda>_.
     bindR (check (am_takeover am = None)
       (ValueError ''nested process execution takeover intents are forbidden'')) (\<lambda>_.
       Inr (am\<lparr>am_takeover := Some \<lparr>tv_target = strip target, tv_revision = rv, tv_state_gen = sg, tv_token = tok,
         tv_status = st, tv_wait_kind = wkind, tv_code = ocode\<rparr>\<rparr>)))"

section \<open>The table\<close>

text \<open>\<open>pr_data\<close> holds the columns that carry no state: identities, handles, tools, budgets.\<close>

record proc_row =
  pr_pid :: string
  pr_status :: process_status
  pr_wait :: "proc_wait option"
  pr_outcome :: "proc_outcome option"
  pr_message :: pyval
  pr_state_gen :: int
  pr_revision :: int
  pr_exec_gen :: int
  pr_owner :: "string option"
  pr_lease :: "string option"
  pr_run :: "string option"
  pr_epoch :: "int option"
  pr_role :: "string option"
  pr_updated :: pyval
  pr_data :: "(string \<times> pyval) list"

record task_run_row =
  tr_id :: string
  tr_epoch :: int
  tr_status :: string
  tr_deadline :: "string option"

text \<open>An exec publication of a process in one of its open states; the plan is \<open>None\<close> when it does not decode.\<close>

record exec_publication =
  xp_id :: string
  xp_pid :: string
  xp_plan :: "(pyval \<times> pyval \<times> pyval) option"

datatype cleanup_state = CleanupPending | CleanupRunning | CleanupFailed | CleanupCompleted

record cleanup_row =
  cl_pid :: string
  cl_status :: process_status
  cl_state :: cleanup_state
  cl_phases :: "string list"
  cl_attempts :: int
  cl_owner :: "string option"
  cl_lease :: "string option"
  cl_failed :: "string option"

datatype counter = RevisionCounter string | ExecutionCounter string | StateCounter string

record proc_table =
  pt_rows :: "proc_row list"
  pt_counters :: "(counter \<times> int) list"
  pt_runs :: "task_run_row list"
  pt_pubs :: "exec_publication list"
  pt_cleanups :: "cleanup_row list"

definition get_process :: "proc_table \<Rightarrow> string \<Rightarrow> proc_row option" where
  "get_process pt pid = List.find (\<lambda>r. pr_pid r = pid) (pt_rows pt)"

definition put_row :: "proc_row \<Rightarrow> proc_table \<Rightarrow> proc_table" where
  "put_row r pt = pt\<lparr>pt_rows := map (\<lambda>x. if pr_pid x = pr_pid r then r else x) (pt_rows pt)\<rparr>"

text \<open>\<open>_raise_runtime_counter_floor\<close>, \<open>observe_process_concurrency\<close>, \<open>reserve_process_restore_epochs\<close>\<close>

definition counter_value :: "proc_table \<Rightarrow> counter \<Rightarrow> int" where
  "counter_value pt k = (case map_of (pt_counters pt) k of None \<Rightarrow> 0 | Some v \<Rightarrow> v)"

definition raise_floor :: "counter \<Rightarrow> int \<Rightarrow> proc_table \<Rightarrow> proc_table" where
  "raise_floor k v pt = pt\<lparr>pt_counters := dset (pt_counters pt) k (max (counter_value pt k) (max 0 v))\<rparr>"

definition observe :: "string \<Rightarrow> int \<Rightarrow> int \<Rightarrow> int option \<Rightarrow> proc_table \<Rightarrow> proc_table" where
  "observe pid rv ex st pt =
     (let pt' = raise_floor (ExecutionCounter pid) ex (raise_floor (RevisionCounter pid) rv pt) in
      case st of None \<Rightarrow> pt' | Some g \<Rightarrow> raise_floor (StateCounter pid) g pt')"

definition observe_row :: "proc_row \<Rightarrow> proc_table \<Rightarrow> proc_table" where
  "observe_row r = observe (pr_pid r) (pr_revision r) (pr_exec_gen r) (Some (pr_state_gen r))"

definition next_counter :: "counter \<Rightarrow> int \<Rightarrow> proc_table \<Rightarrow> proc_table \<times> int" where
  "next_counter k low pt =
     (let v = max (counter_value pt k) (max 0 low) + 1 in (pt\<lparr>pt_counters := dset (pt_counters pt) k v\<rparr>, v))"

definition reserve_epoch :: "string \<Rightarrow> int \<Rightarrow> int \<Rightarrow> int \<Rightarrow> proc_table \<Rightarrow> proc_table \<times> int \<times> int \<times> int" where
  "reserve_epoch pid rv ex st pt =
     (case next_counter (RevisionCounter pid) rv pt of (pt1, r) \<Rightarrow>
      case next_counter (ExecutionCounter pid) ex pt1 of (pt2, e) \<Rightarrow>
      case next_counter (StateCounter pid) st pt2 of (pt3, g) \<Rightarrow> (pt3, r, e, g))"

text \<open>A batch reserves in the order of the pids.\<close>

fun reserve_each_epoch ::
  "(string \<times> int \<times> int \<times> int) list \<Rightarrow> proc_table \<Rightarrow> proc_table \<times> (string \<times> int \<times> int \<times> int) list" where
  "reserve_each_epoch [] pt = (pt, [])"
| "reserve_each_epoch ((pid, rv, ex, st) # fs) pt =
     (case reserve_epoch pid rv ex st pt of (pt1, e) \<Rightarrow>
      case reserve_each_epoch fs pt1 of (pt2, es) \<Rightarrow> (pt2, (pid, e) # es))"

definition reserve_epochs ::
  "(string \<times> int \<times> int \<times> int) list \<Rightarrow> proc_table \<Rightarrow> (proc_table \<times> (string \<times> int \<times> int \<times> int) list) res" where
  "reserve_epochs fs pt =
     (if \<not> distinct (map fst fs) then
        Inl (ValidationError ''process restore epoch batch must not contain duplicate PIDs'')
      else Inr (reserve_each_epoch (sort_key fst fs) pt))"

text \<open>\<open>_ensure_process_terminal_cleanup_intent\<close>\<close>

definition ensure_cleanup :: "string \<Rightarrow> process_status \<Rightarrow> proc_table \<Rightarrow> proc_table" where
  "ensure_cleanup pid st pt =
     (if terminal st \<and> \<not> list_ex (\<lambda>c. cl_pid c = pid) (pt_cleanups pt) then
        pt\<lparr>pt_cleanups := pt_cleanups pt @ [\<lparr>cl_pid = pid, cl_status = st, cl_state = CleanupPending, cl_phases = [],
          cl_attempts = 0, cl_owner = None, cl_lease = None, cl_failed = None\<rparr>]\<rparr>
      else pt)"

section \<open>The write fence\<close>

text \<open>\<open>==\<close> of wait states: filters compare as dictionaries.\<close>

fun wait_eq :: "proc_wait \<Rightarrow> proc_wait \<Rightarrow> bool" where
  "wait_eq (MessageWait f) w = (case w of MessageWait g \<Rightarrow> py_eq (VDict f) (VDict g) | _ \<Rightarrow> False)"
| "wait_eq v w = (v = w)"

definition wait_same :: "proc_wait option \<Rightarrow> proc_wait option \<Rightarrow> bool" where
  "wait_same v w = (case (v, w) of (Some a, Some b) \<Rightarrow> wait_eq a b | _ \<Rightarrow> v = w)"

definition is_stale_wait :: "proc_wait option \<Rightarrow> bool" where
  "is_stale_wait w = (case w of Some (StaleWait _) \<Rightarrow> True | _ \<Rightarrow> False)"

text \<open>\<open>_validate_process_state_write\<close>\<close>

definition validate_write :: "proc_row \<Rightarrow> proc_row option \<Rightarrow> bool \<Rightarrow> unit res" where
  "validate_write p cur allow =
     bindR (validate_state (pr_status p) (pr_wait p) (pr_outcome p)) (\<lambda>_.
     bindR (check (\<not> (is_stale_wait (pr_wait p)
         \<and> (case cur of None \<Rightarrow> True | Some c \<Rightarrow> \<not> wait_same (pr_wait p) (pr_wait c))))
       (ValidationError ''stale-execution recovery receipts are reserved for Store recovery'')) (\<lambda>_.
     bindR (check (0 \<le> pr_state_gen p)
       (ValidationError ''process state_generation must be a non-negative integer'')) (\<lambda>_.
     case cur of
       None \<Rightarrow> Inr ()
     | Some c \<Rightarrow>
         let changed = pr_status p \<noteq> pr_status c \<or> \<not> wait_same (pr_wait p) (pr_wait c) \<or> pr_outcome p \<noteq> pr_outcome c
               \<or> pr_state_gen p \<noteq> pr_state_gen c in
         bindR (check (\<not> (changed \<and> \<not> allow))
           (ValidationError ''process semantic state must use ProcessTransitionService'')) (\<lambda>_.
         check (\<not> (allow \<and> pr_state_gen p \<noteq> pr_state_gen c + 1))
           (ProcessRevisionConflict ''process state generation conflict'')))))"

text \<open>\<open>_assert_terminal_mutation_allowed\<close>\<close>

definition assert_terminal :: "ambient \<Rightarrow> proc_row \<Rightarrow> int \<Rightarrow> unit res" where
  "assert_terminal am c expected =
     (case am_terminal am of
        None \<Rightarrow> Inl (ProcessRevisionConflict (''terminal process '' @ pr_pid c @ '' is immutable: '' @ status_value (pr_status c)))
      | Some m \<Rightarrow>
          bindR (check (ts_target m = pr_pid c \<and> ts_revision m = expected \<and> ts_generation m = pr_exec_gen c
              \<and> pr_status c \<in> set (ts_statuses m) \<and> ts_token m = am_token am \<and> pr_owner c = None \<and> pr_lease c = None)
            (ProcessRevisionConflict (''terminal process mutation fence conflict for '' @ pr_pid c))) (\<lambda>_.
          check (case am_token am of None \<Rightarrow> True
              | Some t \<Rightarrow> tk_pid t \<noteq> pr_pid c \<or> pr_exec_gen c = tk_generation t + 1)
            (ProcessRevisionConflict ''stale process execution token cannot mutate terminal process'')))"

text \<open>\<open>_assert_execution_target_allowed\<close>\<close>

definition assert_target :: "ambient \<Rightarrow> string \<Rightarrow> process_status \<Rightarrow> unit res" where
  "assert_target am pid st =
     bindR (check (case am_takeover am of None \<Rightarrow> True | Some v \<Rightarrow> tv_target v = pid)
       (ProcessRevisionConflict ''process execution takeover cannot mutate another process'')) (\<lambda>_.
     check (case am_token am of
         None \<Rightarrow> True
       | Some t \<Rightarrow> tk_pid t = pid
           \<or> (case am_control am of None \<Rightarrow> False | Some c \<Rightarrow> cs_target c = pid \<and> st \<in> set (cs_statuses c)))
       (ProcessRevisionConflict ''process execution token cannot mutate another process''))"

definition row_token :: "proc_row \<Rightarrow> exec_token option" where
  "row_token c = (case (pr_owner c, pr_lease c) of
     (Some ow, Some ls) \<Rightarrow> Some \<lparr>tk_pid = pr_pid c, tk_generation = pr_exec_gen c, tk_owner = ow, tk_lease = ls,
       tk_epoch = pr_epoch c\<rparr>
   | _ \<Rightarrow> None)"

text \<open>
  \<open>_process_exec_takeover_write_allowed\<close> with \<open>_validate_takeover_state_transition\<close>: the write is the final
  state that the intent names and changes nothing else of the row.
\<close>

definition takeover_write :: "ambient \<Rightarrow> proc_row \<Rightarrow> exec_token \<Rightarrow> proc_row \<Rightarrow> bool" where
  "takeover_write am c cur p =
     (case am_takeover am of
        None \<Rightarrow> False
      | Some v \<Rightarrow>
          tv_target v = pr_pid p \<and> tv_token v = cur \<and> tv_state_gen v = pr_state_gen c
          \<and> pr_status p \<noteq> StRunning \<and> pr_revision c = tv_revision v \<and> pr_status p = tv_status v
          \<and> pr_state_gen p = tv_state_gen v + 1
          \<and> c\<lparr>pr_status := pr_status p, pr_wait := pr_wait p, pr_outcome := pr_outcome p, pr_state_gen := pr_state_gen p,
              pr_message := pr_message p, pr_updated := pr_updated p\<rparr> = p
          \<and> (if pr_status p = StPaused then
                pr_outcome p = None
                \<and> (case pr_wait p of
                     Some (PausedWait r) \<Rightarrow> tv_wait_kind v = Some ''paused'' \<and> r = None
                   | _ \<Rightarrow> False)
              else pr_wait p = None
                \<and> (case pr_outcome p of Some (KilledOutcome r k) \<Rightarrow> r = None \<and> k = tv_code v | _ \<Rightarrow> False)))"

text \<open>
  \<open>_assert_process_exec_admission_update_owner\<close>: while an exec publication holds the lease of a running
  process, only the holder of that lease or an exact takeover writes the row.
\<close>

fun scan_publications :: "bool \<Rightarrow> int \<Rightarrow> string \<Rightarrow> string \<Rightarrow> exec_publication list \<Rightarrow> unit res" where
  "scan_publications tw g ow ls [] = Inr ()"
| "scan_publications tw g ow ls (x # xs) =
     (case xp_plan x of
        None \<Rightarrow> Inl (ProcessRevisionConflict (''active process exec publication plan is invalid: '' @ xp_id x))
      | Some (pg, po, pl) \<Rightarrow>
          if py_eq pg (VInt g) \<and> po = VStr ow \<and> pl = VStr ls then
            (if tw then Inr ()
             else Inl (ProcessRevisionConflict (''process exec admission rejects a non-owner process write: '' @ xp_id x)))
          else scan_publications tw g ow ls xs)"

definition assert_admission_owner :: "ambient \<Rightarrow> proc_row \<Rightarrow> proc_row \<Rightarrow> proc_table \<Rightarrow> unit res" where
  "assert_admission_owner am c p pt =
     (if pr_status c \<noteq> StRunning then Inr ()
      else case row_token c of
        None \<Rightarrow> Inr ()
      | Some t \<Rightarrow>
          if am_takeover am = None \<and> am_token am = Some t then Inr ()
          else
            let tw = takeover_write am c t p in
            bindR (check (\<not> (am_takeover am \<noteq> None \<and> \<not> tw))
              (ProcessRevisionConflict (''process execution takeover write is outside its exact intent: '' @ pr_pid c))) (\<lambda>_.
              scan_publications tw (tk_generation t) (tk_owner t) (tk_lease t)
                (filter (\<lambda>x. xp_pid x = pr_pid c) (pt_pubs pt))))"

text \<open>\<open>_process_update_fence\<close>: the execution columns that the write stores.\<close>

definition update_fence ::
  "ambient \<Rightarrow> proc_row \<Rightarrow> proc_row \<Rightarrow> proc_table \<Rightarrow> (int \<times> string option \<times> string option) res" where
  "update_fence am c p pt =
     bindR (check (pr_revision c = pr_revision p)
       (ProcessRevisionConflict (''process revision conflict for '' @ pr_pid p))) (\<lambda>_.
     bindR (if terminal (pr_status c) then assert_terminal am c (pr_revision p) else Inr ()) (\<lambda>_.
     bindR (check (\<not> (terminal (pr_status c) \<and> pr_status p \<noteq> pr_status c))
       (ProcessRevisionConflict (''terminal process '' @ pr_pid p @ '' cannot transition''))) (\<lambda>_.
     let fenced = terminal (pr_status p) \<or> (pr_status c = StRunning \<and> pr_status p \<noteq> StRunning) in
     bindR (assert_target am (pr_pid p) (pr_status c)) (\<lambda>_.
     bindR (assert_admission_owner am c p pt) (\<lambda>_.
     bindR (check (case am_token am of
           None \<Rightarrow> True
         | Some t \<Rightarrow> tk_pid t \<noteq> pr_pid p \<or> terminal (pr_status c)
             \<or> (pr_status c = StRunning \<and> pr_exec_gen c = tk_generation t \<and> pr_owner c = Some (tk_owner t)
                \<and> pr_lease c = Some (tk_lease t)))
       (ProcessRevisionConflict (''stale process execution token cannot mutate '' @ pr_pid p))) (\<lambda>_.
       Inr (if fenced then (pr_exec_gen c + 1, None, None) else (pr_exec_gen c, pr_owner c, pr_lease c))))))))"

text \<open>\<open>_update_process\<close>: the columns of a task run are not written.\<close>

definition update_process_row :: "ambient \<Rightarrow> bool \<Rightarrow> proc_row \<Rightarrow> proc_table \<Rightarrow> (proc_table \<times> proc_row) res" where
  "update_process_row am allow p pt =
     (case get_process pt (pr_pid p) of
        None \<Rightarrow> Inl (ProcessRevisionConflict (''process no longer exists: '' @ pr_pid p))
      | Some c \<Rightarrow>
          bindR (update_fence am c p pt) (\<lambda>(g, ow, ls).
          bindR (validate_write p (Some c) allow) (\<lambda>_.
            let r = p\<lparr>pr_revision := pr_revision c + 1, pr_exec_gen := g, pr_owner := ow, pr_lease := ls,
                  pr_run := pr_run c, pr_epoch := pr_epoch c, pr_role := pr_role c\<rparr> in
            Inr (observe_row r (ensure_cleanup (pr_pid p) (pr_status p) (put_row r pt)), r))))"

definition update_process :: "ambient \<Rightarrow> proc_row \<Rightarrow> proc_table \<Rightarrow> (proc_table \<times> proc_row) res" where
  "update_process am = update_process_row am False"

text \<open>\<open>insert_process\<close> with the checks of \<open>_process_params\<close>\<close>

definition run_binding_ok :: "proc_row \<Rightarrow> bool" where
  "run_binding_ok p \<longleftrightarrow> (pr_run p = None \<and> pr_epoch p = None \<and> pr_role p = None)
     \<or> (\<exists>i \<in> set_option (pr_run p). \<exists>e \<in> set_option (pr_epoch p). \<exists>r \<in> set_option (pr_role p). i \<noteq> [] \<and> 0 < e \<and> r \<noteq> [])"

definition insert_process :: "proc_row \<Rightarrow> proc_table \<Rightarrow> proc_table res" where
  "insert_process p pt =
     bindR (validate_write p None False) (\<lambda>_.
     bindR (check (run_binding_ok p)
       (ValidationError ''process TaskRun binding requires run id, positive epoch, and role'')) (\<lambda>_.
     bindR (check (get_process pt (pr_pid p) = None) (PyRuntimeError ''UNIQUE constraint failed: processes.pid'')) (\<lambda>_.
       Inr (observe_row p (ensure_cleanup (pr_pid p) (pr_status p) (pt\<lparr>pt_rows := pt_rows pt @ [p]\<rparr>))))))"

section \<open>Patches and transitions\<close>

definition set_column :: "string \<times> pyval \<Rightarrow> proc_row \<Rightarrow> proc_row" where
  "set_column kv r =
     (if fst kv = ''status_message'' then r\<lparr>pr_message := snd kv\<rparr>
      else if fst kv = ''updated_at'' then r\<lparr>pr_updated := snd kv\<rparr>
      else r\<lparr>pr_data := dset (pr_data r) (fst kv) (snd kv)\<rparr>)"

definition patch_columns :: "string list" where
  "patch_columns = [''parent_pid'', ''image_id'', ''goal_oid'', ''memory_view'', ''capabilities'', ''loaded_skills'',
     ''tool_table'', ''model_tool_table'', ''event_cursor'', ''checkpoint_head'', ''status_message'', ''resource_budget'',
     ''resource_usage'', ''working_directory'', ''llm_profile_id'', ''updated_at'']"

definition semantic_columns :: "string list" where
  "semantic_columns = [''status'', ''wait_state'', ''outcome'', ''state_generation'']"

text \<open>\<open>_patch_process\<close>: \<open>f\<close> sets the patched columns.\<close>

definition patch_row ::
  "ambient \<Rightarrow> bool \<Rightarrow> string \<Rightarrow> int \<Rightarrow> process_status option \<Rightarrow> (proc_row \<Rightarrow> proc_row) \<Rightarrow> proc_table \<Rightarrow>
   (proc_table \<times> proc_row) res" where
  "patch_row am allow pid expected exp_st f pt =
     (case get_process pt pid of
        None \<Rightarrow> Inl (ProcessRevisionConflict (''process no longer exists: '' @ pid))
      | Some c \<Rightarrow>
          bindR (check (pr_revision c = expected) (ProcessRevisionConflict (''process revision conflict for '' @ pid))) (\<lambda>_.
          bindR (check (exp_st = None \<or> exp_st = Some (pr_status c))
            (ProcessRevisionConflict (''process status conflict for '' @ pid))) (\<lambda>_.
            update_process_row am allow (f c) pt)))"

definition patch_process ::
  "ambient \<Rightarrow> string \<Rightarrow> string \<Rightarrow> (string \<times> pyval) list \<Rightarrow> int \<Rightarrow> process_status option \<Rightarrow> proc_table \<Rightarrow>
   (proc_table \<times> proc_row) res" where
  "patch_process am now pid patch expected exp_st pt =
     (if \<exists>k \<in> set (map fst patch). k \<in> set semantic_columns then
        Inl (ValidationError ''process semantic state must use ProcessTransitionService'')
      else if \<not> set (map fst patch) \<subseteq> set patch_columns then Inl (ValidationError ''unsupported process patch fields'')
      else patch_row am False pid expected exp_st
        (\<lambda>c. let r = fold set_column patch c in
           if ''updated_at'' \<in> set (map fst patch) then r else r\<lparr>pr_updated := VStr now\<rparr>) pt)"

definition patch_process_control ::
  "ambient \<Rightarrow> string \<Rightarrow> string \<Rightarrow> (string \<times> pyval) list \<Rightarrow> int \<Rightarrow> process_status list \<Rightarrow> string \<Rightarrow> proc_table \<Rightarrow>
   (proc_table \<times> proc_row) res" where
  "patch_process_control am now pid patch expected sts reason pt =
     bindR (check (sts \<noteq> []) (ValidationError ''process control allowed statuses must be non-empty'')) (\<lambda>_.
     case get_process pt pid of
       None \<Rightarrow> Inl (ProcessRevisionConflict (''process no longer exists: '' @ pid))
     | Some c \<Rightarrow>
         bindR (check (pr_revision c = expected) (ProcessRevisionConflict (''process revision conflict for '' @ pid))) (\<lambda>_.
         bindR (check (pr_status c \<in> set sts) (ProcessRevisionConflict (''process control status conflict for '' @ pid))) (\<lambda>_.
         bindR (control_mutation pid sts reason am) (\<lambda>am'.
           patch_process am' now pid patch expected (Some (pr_status c)) pt))))"

text \<open>\<open>apply_process_state_transition\<close>\<close>

definition apply_transition ::
  "host \<Rightarrow> ambient \<Rightarrow> string \<Rightarrow> string \<Rightarrow> process_status \<Rightarrow> int \<Rightarrow> process_status option \<Rightarrow> int option \<Rightarrow>
   proc_wait option \<Rightarrow> proc_outcome option \<Rightarrow> string option \<Rightarrow> bool \<Rightarrow> process_status list \<Rightarrow> string option \<Rightarrow> proc_table \<Rightarrow>
   (proc_table \<times> proc_row) res" where
  "apply_transition h am now pid st expected exp_st exp_gen w out msg control sts reason pt =
     bindR (validate_state st w out) (\<lambda>_.
     bindR (check (\<not> is_stale_wait w)
       (ValidationError ''stale-execution recovery receipts are reserved for Store recovery'')) (\<lambda>_.
     case get_process pt pid of
       None \<Rightarrow> Inl (ProcessRevisionConflict (''process no longer exists: '' @ pid))
     | Some c \<Rightarrow>
         bindR (check (exp_gen = None \<or> exp_gen = Some (pr_state_gen c))
           (ProcessRevisionConflict (''process state generation conflict for '' @ pid))) (\<lambda>_.
         bindR (status_message h w out msg) (\<lambda>m.
         let f = (\<lambda>r. r\<lparr>pr_status := st, pr_wait := w, pr_outcome := out, pr_state_gen := pr_state_gen c + 1,
               pr_message := opt_str m, pr_updated := VStr now\<rparr>) in
         if \<not> control then patch_row am True pid expected exp_st f pt
         else
           bindR (check (sts \<noteq> []) (ValidationError ''control process transition requires allowed statuses'')) (\<lambda>_.
           bindR (check (pr_status c \<in> set sts)
             (ProcessRevisionConflict (''process control status conflict for '' @ pid))) (\<lambda>_.
           bindR (control_mutation pid sts
               (case reason of Some r \<Rightarrow> if r = [] then ''semantic process state transition'' else r
                | None \<Rightarrow> ''semantic process state transition'') am) (\<lambda>am'.
             patch_row am' True pid expected (Some (pr_status c)) f pt)))))))"

section \<open>The transition service\<close>

definition condition_wait :: "proc_wait \<Rightarrow> bool" where
  "condition_wait w = (case w of ChildWait _ \<Rightarrow> True | MessageWait _ \<Rightarrow> True | HumanWait _ \<Rightarrow> True | ToolWait _ \<Rightarrow> True
     | _ \<Rightarrow> False)"

definition condition_status :: "process_status \<Rightarrow> bool" where
  "condition_status st \<longleftrightarrow> st \<in> {StWaitingEvent, StWaitingHuman, StWaitingTool}"

datatype process_signal = SignalPause | SignalResume | SignalCancel | SignalInterrupt | SignalTerminate

definition require_signal_preserves_wait :: "proc_row \<Rightarrow> process_signal \<Rightarrow> unit res" where
  "require_signal_preserves_wait c sig =
     check (\<not> (sig \<in> {SignalPause, SignalResume} \<and> condition_status (pr_status c)))
       (ProcessError (''cannot signal waiting process: '' @ pr_pid c @ '' status='' @ status_value (pr_status c)))"

definition require_wait_owner :: "proc_row \<Rightarrow> proc_wait \<Rightarrow> unit res" where
  "require_wait_owner c w =
     (if \<not> condition_wait w then Inr ()
      else case pr_wait c of
        None \<Rightarrow> check (pr_status c \<noteq> StSuspended) (ProcessError ''cannot register condition wait for suspended process'')
      | Some v \<Rightarrow>
          if wait_kind v = wait_kind w then
            (case (v, w) of
               (HumanWait a, HumanWait b) \<Rightarrow> check (set a \<subseteq> set b \<or> set b \<subseteq> set a)
                 (ProcessError ''cannot replace active human process wait with a mixed request set'')
             | _ \<Rightarrow> check (wait_eq v w) (ProcessError ''cannot retarget an active condition wait''))
          else Inl (ProcessError ''cannot replace process wait owned by another condition''))"

definition transition ::
  "host \<Rightarrow> ambient \<Rightarrow> string \<Rightarrow> string \<Rightarrow> process_status \<Rightarrow> int \<Rightarrow> process_status option \<Rightarrow> int option \<Rightarrow>
   proc_wait option \<Rightarrow> proc_outcome option \<Rightarrow> string option \<Rightarrow> bool \<Rightarrow> process_status list \<Rightarrow> string option \<Rightarrow> proc_table \<Rightarrow>
   (proc_table \<times> proc_row) res" where
  "transition h am now pid st expected exp_st exp_gen w out msg control sts reason pt =
     bindR (check (0 \<le> expected)
       (ValidationError ''process transition expected_revision must be a non-negative integer'')) (\<lambda>_.
     bindR (check (case exp_gen of None \<Rightarrow> True | Some g \<Rightarrow> 0 \<le> g)
       (ValidationError ''process transition expected_state_generation must be a non-negative integer'')) (\<lambda>_.
     bindR (validate_state st w out) (\<lambda>_.
     bindR (check (\<not> is_stale_wait w)
       (ValidationError ''stale-execution recovery receipts are reserved for Store recovery'')) (\<lambda>_.
     bindR (case w of
         Some v \<Rightarrow>
           if condition_wait v then
             (case get_process pt pid of
                None \<Rightarrow> Inr ()
              | Some c \<Rightarrow>
                  bindR (check (pr_revision c = expected)
                    (ProcessRevisionConflict (''stale process wait registration for '' @ pid))) (\<lambda>_.
                  bindR (check (exp_gen = None \<or> exp_gen = Some (pr_state_gen c))
                    (ProcessRevisionConflict (''stale process wait registration for '' @ pid))) (\<lambda>_.
                    require_wait_owner c v)))
           else Inr ()
       | None \<Rightarrow> Inr ()) (\<lambda>_.
     bindR (check (\<not> (control \<and> sts = []))
       (ValidationError ''control process transition requires allowed statuses'')) (\<lambda>_.
       apply_transition h am now pid st expected exp_st exp_gen w out msg control (if control then sts else [])
         (if control then (case reason of Some r \<Rightarrow> if r = [] then Some ''semantic process state transition'' else Some r
            | None \<Rightarrow> Some ''semantic process state transition'') else reason) pt))))))"

record state_token =
  st_pid :: string
  st_generation :: int
  st_wait :: proc_wait

definition wait_token :: "proc_row \<Rightarrow> state_token res" where
  "wait_token c =
     (case pr_wait c of
        Some w \<Rightarrow>
          if condition_wait w then Inr \<lparr>st_pid = pr_pid c, st_generation = pr_state_gen c, st_wait = w\<rparr>
          else Inl (ProcessRevisionConflict (''process has no condition-owned wait state: '' @ pr_pid c))
      | None \<Rightarrow> Inl (ProcessRevisionConflict (''process has no condition-owned wait state: '' @ pr_pid c)))"

definition wake :: "host \<Rightarrow> ambient \<Rightarrow> string \<Rightarrow> state_token \<Rightarrow> bool \<Rightarrow> string option \<Rightarrow> proc_table \<Rightarrow>
   (proc_table \<times> proc_row) res" where
  "wake h am now tok control reason pt =
     bindR (check (condition_wait (st_wait tok))
       (ProcessRevisionConflict (''process wait token is not condition-owned: '' @ st_pid tok))) (\<lambda>_.
     case get_process pt (st_pid tok) of
       None \<Rightarrow> Inl (ProcessRevisionConflict (''process no longer exists: '' @ st_pid tok))
     | Some c \<Rightarrow>
         bindR (check (pr_state_gen c = st_generation tok)
           (ProcessRevisionConflict (''stale process wait token for '' @ st_pid tok))) (\<lambda>_.
         bindR (check (wait_same (pr_wait c) (Some (st_wait tok)))
           (ProcessRevisionConflict (''stale process wait token for '' @ st_pid tok @ '': wait state changed''))) (\<lambda>_.
         bindR (check (condition_status (pr_status c) \<and> (case pr_wait c of Some w \<Rightarrow> condition_wait w | None \<Rightarrow> False))
           (ProcessRevisionConflict (''process is no longer waiting: '' @ st_pid tok))) (\<lambda>_.
           transition h am now (st_pid tok) StRunnable (pr_revision c) (Some (pr_status c)) (Some (st_generation tok))
             None None None control (if control then [pr_status c] else []) reason pt))))"

section \<open>Execution leases\<close>

text \<open>The task run that a process is bound to, if any, is at the bound epoch, live and within its deadline.\<close>

definition live_run_statuses :: "string list" where
  "live_run_statuses = [''queued'', ''running'', ''waiting_human'', ''waiting_process'', ''waiting_message'', ''waiting_tool'']"

definition run_live :: "proc_table \<Rightarrow> string \<Rightarrow> proc_row \<Rightarrow> bool" where
  "run_live pt now r \<longleftrightarrow>
     (case pr_run r of
        None \<Rightarrow> True
      | Some i \<Rightarrow> list_ex (\<lambda>t. tr_id t = i \<and> pr_epoch r = Some (tr_epoch t) \<and> tr_status t \<in> set live_run_statuses
          \<and> (case tr_deadline t of None \<Rightarrow> True | Some d \<Rightarrow> now < d)) (pt_runs pt))"

text \<open>What every claim writes.\<close>

definition claimed :: "string \<Rightarrow> string \<Rightarrow> string \<Rightarrow> int \<Rightarrow> proc_row \<Rightarrow> proc_row" where
  "claimed now ow ls g r = r\<lparr>pr_status := StRunning, pr_updated := VStr now, pr_revision := pr_revision r + 1,
     pr_message := VNone, pr_wait := None, pr_outcome := None, pr_state_gen := pr_state_gen r + 1, pr_exec_gen := g,
     pr_owner := Some ow, pr_lease := Some ls\<rparr>"

definition grant_claim :: "string \<Rightarrow> string \<Rightarrow> string \<Rightarrow> int \<Rightarrow> proc_row \<Rightarrow> proc_table \<Rightarrow> proc_table \<times> exec_token option" where
  "grant_claim now ow ls g r pt =
     (let r' = claimed now ow ls g r in
      (observe_row r' (put_row r' pt),
       Some \<lparr>tk_pid = pr_pid r, tk_generation = g, tk_owner = ow, tk_lease = ls, tk_epoch = pr_epoch r\<rparr>))"

definition epoch_fits :: "int option \<Rightarrow> proc_row \<Rightarrow> bool" where
  "epoch_fits e r \<longleftrightarrow> e = None \<or> e = pr_epoch r"

definition claim_execution ::
  "string \<Rightarrow> string \<Rightarrow> string \<Rightarrow> string \<Rightarrow> int option \<Rightarrow> proc_table \<Rightarrow> (proc_table \<times> exec_token option) res" where
  "claim_execution now lease pid ow epoch pt =
     bindR (check (ow \<noteq> []) (ValidationError ''execution owner id must be non-empty'')) (\<lambda>_.
     bindR (check (case epoch of None \<Rightarrow> True | Some e \<Rightarrow> 0 < e)
       (ValidationError ''execution TaskRun epoch must be positive'')) (\<lambda>_.
     case get_process pt pid of
       None \<Rightarrow> Inr (pt, None)
     | Some r \<Rightarrow>
         if pr_status r = StRunnable \<and> epoch_fits epoch r \<and> run_live pt now r then
           Inr (grant_claim now ow lease (pr_exec_gen r + 1) r pt)
         else Inr (pt, None)))"

definition claim_host_exec ::
  "string \<Rightarrow> string \<Rightarrow> string \<Rightarrow> string \<Rightarrow> int \<Rightarrow> int \<Rightarrow> int \<Rightarrow> int option \<Rightarrow> proc_table \<Rightarrow>
   (proc_table \<times> exec_token option) res" where
  "claim_host_exec now lease pid ow rv sg eg epoch pt =
     bindR (check (ow \<noteq> []) (ValidationError ''process exec owner id must be non-empty'')) (\<lambda>_.
     bindR (check (0 \<le> rv \<and> 0 \<le> sg \<and> 0 \<le> eg)
       (ValidationError ''process exec concurrency values must be non-negative integers'')) (\<lambda>_.
     bindR (check (case epoch of None \<Rightarrow> True | Some e \<Rightarrow> 0 < e)
       (ValidationError ''process exec TaskRun epoch must be positive'')) (\<lambda>_.
     case get_process pt pid of
       None \<Rightarrow> Inr (pt, None)
     | Some r \<Rightarrow>
         if pr_status r = StRunnable \<and> pr_revision r = rv \<and> pr_state_gen r = sg \<and> pr_exec_gen r = eg
             \<and> pr_owner r = None \<and> pr_lease r = None \<and> pr_wait r = None \<and> epoch_fits epoch r \<and> run_live pt now r then
           Inr (grant_claim now ow lease (eg + 1) r pt)
         else Inr (pt, None))))"

text \<open>The rotation of a worker's lease into one that an exec owns.\<close>

definition claim_worker_exec ::
  "string \<Rightarrow> string \<Rightarrow> string \<Rightarrow> exec_token \<Rightarrow> string \<Rightarrow> int \<Rightarrow> int \<Rightarrow> int option \<Rightarrow> proc_table \<Rightarrow>
   (proc_table \<times> exec_token option) res" where
  "claim_worker_exec now lease pid tok ow rv sg epoch pt =
     bindR (check (ow \<noteq> []) (ValidationError ''process exec owner id must be non-empty'')) (\<lambda>_.
     bindR (check (tk_pid tok = pid) (ValidationError ''process execution token cannot exec another process'')) (\<lambda>_.
     bindR (check (0 \<le> rv \<and> 0 \<le> sg \<and> 0 \<le> tk_generation tok)
       (ValidationError ''process exec concurrency values must be non-negative integers'')) (\<lambda>_.
     bindR (check (case epoch of None \<Rightarrow> True | Some e \<Rightarrow> 0 < e)
       (ValidationError ''process exec TaskRun epoch must be positive'')) (\<lambda>_.
     case get_process pt pid of
       None \<Rightarrow> Inr (pt, None)
     | Some r \<Rightarrow>
         if pr_status r = StRunning \<and> pr_revision r = rv \<and> pr_state_gen r = sg \<and> pr_exec_gen r = tk_generation tok
             \<and> pr_owner r = Some (tk_owner tok) \<and> pr_lease r = Some (tk_lease tok) \<and> pr_wait r = None
             \<and> epoch_fits epoch r \<and> run_live pt now r then
           Inr (grant_claim now ow lease (tk_generation tok + 1) r pt)
         else Inr (pt, None)))))"

text \<open>The row that a token still holds.\<close>

definition holds_lease :: "exec_token \<Rightarrow> proc_row \<Rightarrow> bool" where
  "holds_lease tok r \<longleftrightarrow> pr_exec_gen r = tk_generation tok \<and> pr_owner r = Some (tk_owner tok)
     \<and> pr_lease r = Some (tk_lease tok) \<and> pr_epoch r = tk_epoch tok"

definition complete_execution ::
  "host \<Rightarrow> string \<Rightarrow> exec_token \<Rightarrow> process_status \<Rightarrow> string option \<Rightarrow> proc_wait option \<Rightarrow> proc_outcome option \<Rightarrow>
   proc_table \<Rightarrow> (proc_table \<times> bool) res" where
  "complete_execution h now tok st msg w out pt =
     bindR (validate_state st w out) (\<lambda>_.
     bindR (check (\<not> is_stale_wait w)
       (ValidationError ''stale-execution recovery receipts are reserved for Store recovery'')) (\<lambda>_.
     bindR (status_message h w out msg) (\<lambda>m.
     case get_process pt (tk_pid tok) of
       None \<Rightarrow> Inr (pt, False)
     | Some r \<Rightarrow>
         if pr_status r = StRunning \<and> holds_lease tok r then
           let r' = r\<lparr>pr_status := st, pr_message := opt_str m, pr_wait := w, pr_outcome := out,
                 pr_state_gen := pr_state_gen r + 1, pr_updated := VStr now, pr_revision := pr_revision r + 1,
                 pr_exec_gen := pr_exec_gen r + (if terminal st then 1 else 0), pr_owner := None, pr_lease := None\<rparr> in
           Inr (observe_row r' (ensure_cleanup (pr_pid r) st (put_row r' pt)), True)
         else Inr (pt, False))))"

definition release_execution :: "string \<Rightarrow> exec_token \<Rightarrow> proc_table \<Rightarrow> proc_table \<times> bool" where
  "release_execution now tok pt =
     (case get_process pt (tk_pid tok) of
        None \<Rightarrow> (pt, False)
      | Some r \<Rightarrow>
          if holds_lease tok r then
            let r' = r\<lparr>pr_updated := VStr now, pr_revision := pr_revision r + 1, pr_exec_gen := pr_exec_gen r + 1,
                  pr_owner := None, pr_lease := None\<rparr> in
            (observe (pr_pid r') (pr_revision r') (pr_exec_gen r') None (put_row r' pt), True)
          else (pt, False))"

text \<open>The rebinding of a task run to a new epoch.\<close>

definition rebind_epoch :: "string \<Rightarrow> int \<Rightarrow> proc_table \<Rightarrow> proc_table" where
  "rebind_epoch run e pt = pt\<lparr>pt_rows := map (\<lambda>r. if pr_run r = Some run then r\<lparr>pr_epoch := Some e\<rparr> else r) (pt_rows pt)\<rparr>"

section \<open>Recovery of stale executions\<close>

definition identity_sha :: "host \<Rightarrow> string option \<Rightarrow> string option" where
  "identity_sha h v = (case v of None \<Rightarrow> None | Some s \<Rightarrow> if s = [] then None else Some (h_sha256 h s))"

definition stale_row :: "string \<Rightarrow> proc_row \<Rightarrow> bool" where
  "stale_row ow r \<longleftrightarrow> pr_status r = StRunning \<and> pr_owner r \<noteq> Some ow"

text \<open>\<open>_recover_one_stale_execution\<close> of a row read in the same transaction.\<close>

definition recover_one :: "host \<Rightarrow> string \<Rightarrow> string \<Rightarrow> proc_row \<Rightarrow> proc_table \<Rightarrow> (proc_table \<times> string option) res" where
  "recover_one h now ow row pt =
     bindR (make_stale (dget (sdict
       [(''pid'', VStr (pr_pid row)), (''recovered_by_owner_sha256'', VStr (h_sha256 h ow)),
        (''prior_owner_sha256'', opt_str (identity_sha h (pr_owner row))),
        (''prior_lease_sha256'', opt_str (identity_sha h (pr_lease row))),
        (''prior_execution_generation'', VInt (pr_exec_gen row)),
        (''recovered_execution_generation'', VInt (pr_exec_gen row + 1)),
        (''recovered_state_generation'', VInt (pr_state_gen row + 1))]))) (\<lambda>receipt.
     case get_process pt (pr_pid row) of
       None \<Rightarrow> Inr (pt, None)
     | Some r \<Rightarrow>
         if stale_row ow r \<and> pr_state_gen r = pr_state_gen row \<and> pr_exec_gen r = pr_exec_gen row
             \<and> pr_owner r = pr_owner row \<and> pr_lease r = pr_lease row then
           let r' = r\<lparr>pr_status := StPaused, pr_message := VStr ''stale_execution_recovery'', pr_updated := VStr now,
                 pr_wait := Some receipt, pr_outcome := None, pr_state_gen := pr_state_gen r + 1,
                 pr_revision := pr_revision r + 1, pr_exec_gen := pr_exec_gen r + 1, pr_owner := None, pr_lease := None\<rparr> in
           Inr (observe_row r' (put_row r' pt), Some (pr_pid row))
         else Inr (pt, None))"

fun recover_each ::
  "host \<Rightarrow> string \<Rightarrow> string \<Rightarrow> proc_row list \<Rightarrow> proc_table \<Rightarrow> (proc_table \<times> string list) res" where
  "recover_each h now ow [] pt = Inr (pt, [])"
| "recover_each h now ow (r # rs) pt =
     bindR (recover_one h now ow r pt) (\<lambda>(pt1, x).
     bindR (recover_each h now ow rs pt1) (\<lambda>(pt2, xs). Inr (pt2, (case x of None \<Rightarrow> xs | Some p \<Rightarrow> p # xs))))"

definition stale_page :: "string \<Rightarrow> string option \<Rightarrow> nat \<Rightarrow> proc_table \<Rightarrow> proc_row list" where
  "stale_page ow after n pt =
     take n (sort_key pr_pid (filter (\<lambda>r. stale_row ow r \<and> (case after of None \<Rightarrow> True | Some p \<Rightarrow> p < pr_pid r)) (pt_rows pt)))"

text \<open>
  \<open>recover_stale_executions\<close>: one transaction per page, in the order of the pids; the fuel is the number
  of rows and one more.
\<close>

fun recover_pages ::
  "nat \<Rightarrow> host \<Rightarrow> string \<Rightarrow> string \<Rightarrow> nat \<Rightarrow> string option \<Rightarrow> nat \<Rightarrow> string list \<Rightarrow> proc_table \<Rightarrow>
   (proc_table \<times> nat \<times> string list) option res" where
  "recover_pages 0 h now ow n after tot sample pt = Inr None"
| "recover_pages (Suc k) h now ow n after tot sample pt =
     (let rows = stale_page ow after n pt in
      if rows = [] then Inr (Some (pt, tot, sample))
      else bindR (recover_each h now ow rows pt) (\<lambda>(pt', ps).
        recover_pages k h now ow n (Some (pr_pid (last rows))) (tot + length ps)
          (if length sample < n then sample @ take (n - length sample) ps else sample) pt'))"

definition recover_stale ::
  "host \<Rightarrow> string \<Rightarrow> string \<Rightarrow> nat \<Rightarrow> proc_table \<Rightarrow> (proc_table \<times> nat \<times> string list) option res" where
  "recover_stale h now ow n pt = recover_pages (length (pt_rows pt) + 1) h now ow n None 0 [] pt"

section \<open>Restoration of rows\<close>

text \<open>The deletion of a row takes its terminal cleanup with it (\<open>ON DELETE CASCADE\<close>).\<close>

definition delete_process_row :: "string \<Rightarrow> proc_table \<Rightarrow> proc_table" where
  "delete_process_row pid pt = pt\<lparr>pt_rows := filter (\<lambda>r. pr_pid r \<noteq> pid) (pt_rows pt),
     pt_cleanups := filter (\<lambda>c. cl_pid c \<noteq> pid) (pt_cleanups pt)\<rparr>"

text \<open>\<open>replace_process_for_restore\<close>\<close>

definition replace_for_restore :: "proc_row \<Rightarrow> proc_table \<Rightarrow> proc_table res" where
  "replace_for_restore p pt =
     (let old = get_process pt (pr_pid p);
          low = (\<lambda>f. max (f p) (case old of None \<Rightarrow> 0 | Some c \<Rightarrow> f c)) in
      case reserve_epoch (pr_pid p) (low pr_revision) (low pr_exec_gen) (low pr_state_gen) pt of (pt1, rv, eg, sg) \<Rightarrow>
        insert_process (p\<lparr>pr_revision := rv, pr_exec_gen := eg, pr_state_gen := sg, pr_owner := None, pr_lease := None\<rparr>)
          (delete_process_row (pr_pid p) pt1))"

section \<open>Terminal cleanups\<close>

definition cleanup_phases :: "string list" where
  "cleanup_phases = [''terminal_notify'', ''process_finalize'']"

definition get_cleanup :: "proc_table \<Rightarrow> string \<Rightarrow> cleanup_row option" where
  "get_cleanup pt pid = List.find (\<lambda>c. cl_pid c = pid) (pt_cleanups pt)"

definition put_cleanup :: "cleanup_row \<Rightarrow> proc_table \<Rightarrow> proc_table" where
  "put_cleanup c pt = pt\<lparr>pt_cleanups := map (\<lambda>x. if cl_pid x = cl_pid c then c else x) (pt_cleanups pt)\<rparr>"

definition claim_cleanup ::
  "string \<Rightarrow> string \<Rightarrow> string \<Rightarrow> string option \<Rightarrow> proc_table \<Rightarrow> (proc_table \<times> cleanup_row option) res" where
  "claim_cleanup pid ow lease expected pt =
     bindR (check (ow \<noteq> [] \<and> lease \<noteq> [])
       (ValidationError ''process terminal cleanup owner and lease must be non-empty'')) (\<lambda>_.
     Inr (case get_cleanup pt pid of
         None \<Rightarrow> (pt, None)
       | Some c \<Rightarrow>
           if cl_state c \<noteq> CleanupCompleted \<and> cl_lease c = expected then
             let c' = c\<lparr>cl_state := CleanupRunning, cl_owner := Some ow, cl_lease := Some lease,
                   cl_attempts := cl_attempts c + 1, cl_failed := None\<rparr> in (put_cleanup c' pt, Some c')
           else (pt, None)))"

definition complete_cleanup_phase ::
  "string \<Rightarrow> string \<Rightarrow> string \<Rightarrow> proc_table \<Rightarrow> (proc_table \<times> cleanup_row option) res" where
  "complete_cleanup_phase pid lease phase pt =
     bindR (check (phase \<in> set cleanup_phases) (ValidationError (''invalid process terminal cleanup phase: '' @ phase))) (\<lambda>_.
     Inr (case get_cleanup pt pid of
         None \<Rightarrow> (pt, None)
       | Some c \<Rightarrow>
           if cl_state c \<noteq> CleanupRunning \<or> cl_lease c \<noteq> Some lease then (pt, None)
           else if phase \<in> set (cl_phases c) then (pt, Some c)
           else
             let c' = c\<lparr>cl_phases := filter (\<lambda>p. p \<in> set (cl_phases c @ [phase])) cleanup_phases\<rparr> in
             (put_cleanup c' pt, Some c')))"

definition fail_cleanup :: "string \<Rightarrow> string \<Rightarrow> string \<Rightarrow> proc_table \<Rightarrow> (proc_table \<times> cleanup_row option) res" where
  "fail_cleanup pid lease phase pt =
     bindR (check (phase \<in> set cleanup_phases) (ValidationError (''invalid process terminal cleanup phase: '' @ phase))) (\<lambda>_.
     Inr (case get_cleanup pt pid of
         None \<Rightarrow> (pt, None)
       | Some c \<Rightarrow>
           if cl_state c = CleanupRunning \<and> cl_lease c = Some lease then
             let c' = c\<lparr>cl_state := CleanupFailed, cl_owner := None, cl_lease := None, cl_failed := Some phase\<rparr> in
             (put_cleanup c' pt, Some c')
           else (pt, None)))"

definition finish_cleanup :: "string \<Rightarrow> string \<Rightarrow> proc_table \<Rightarrow> proc_table \<times> cleanup_row option" where
  "finish_cleanup pid lease pt =
     (case get_cleanup pt pid of
        None \<Rightarrow> (pt, None)
      | Some c \<Rightarrow>
          if cl_state c \<noteq> CleanupRunning \<or> cl_lease c \<noteq> Some lease \<or> cl_phases c \<noteq> cleanup_phases then (pt, None)
          else
            let c' = c\<lparr>cl_state := CleanupCompleted, cl_owner := None, cl_lease := None, cl_failed := None\<rparr> in
            (put_cleanup c' pt, Some c'))"

end
