(* ===== verification/ProcInv.thy ===== *)
theory ProcInv
  imports ProcTable
begin

text \<open>
  What the process table guarantees: an invariant of every reachable table, execution leases that die once,
  wait tokens that wake once, and a recovery that leaves no stale execution behind.
\<close>

section \<open>The invariant\<close>

definition row_ok :: "proc_row \<Rightarrow> bool" where
  "row_ok r \<longleftrightarrow> wait_matches (pr_status r) (pr_wait r) \<and> outcome_matches (pr_status r) (pr_outcome r)
     \<and> (pr_owner r = None \<longleftrightarrow> pr_lease r = None) \<and> (pr_owner r \<noteq> None \<longrightarrow> pr_status r = StRunning)
     \<and> 0 \<le> pr_revision r \<and> 0 \<le> pr_exec_gen r \<and> 0 \<le> pr_state_gen r"

definition counted :: "proc_table \<Rightarrow> proc_row \<Rightarrow> bool" where
  "counted pt r \<longleftrightarrow> pr_revision r = counter_value pt (RevisionCounter (pr_pid r))
     \<and> pr_exec_gen r = counter_value pt (ExecutionCounter (pr_pid r))
     \<and> pr_state_gen r = counter_value pt (StateCounter (pr_pid r))"

definition table_ok :: "proc_table \<Rightarrow> bool" where
  "table_ok pt \<longleftrightarrow> distinct (map pr_pid (pt_rows pt)) \<and> (\<forall>r \<in> set (pt_rows pt). row_ok r \<and> counted pt r)"

text \<open>How a write moves a row.\<close>

definition advances :: "proc_row \<Rightarrow> proc_row \<Rightarrow> bool" where
  "advances c r \<longleftrightarrow> pr_pid r = pr_pid c \<and> (row_ok c \<longrightarrow> row_ok r) \<and> pr_revision c < pr_revision r
     \<and> pr_exec_gen c \<le> pr_exec_gen r \<and> pr_state_gen c \<le> pr_state_gen r
     \<and> (pr_owner r = None \<or> pr_exec_gen c < pr_exec_gen r
        \<or> (pr_owner r = pr_owner c \<and> pr_lease r = pr_lease c \<and> pr_exec_gen r = pr_exec_gen c))
     \<and> (terminal (pr_status c) \<longrightarrow> pr_status r = pr_status c)"

lemma advances_owner:
  assumes "advances c r"
  shows "pr_owner r = None \<or> pr_exec_gen c < pr_exec_gen r
    \<or> (pr_owner r = pr_owner c \<and> pr_lease r = pr_lease c \<and> pr_exec_gen r = pr_exec_gen c)"
  using assms unfolding advances_def by (elim conjE)

definition moved :: "proc_table \<Rightarrow> proc_row \<Rightarrow> proc_row \<Rightarrow> proc_table \<Rightarrow> bool" where
  "moved pt c r pt' \<longleftrightarrow> get_process pt (pr_pid c) = Some c \<and> advances c r \<and> pt_rows pt' = pt_rows (put_row r pt)
     \<and> (\<forall>k. counter_value pt' k = counter_value (observe_row r pt) k)"

lemma get_processD: "get_process pt pid = Some c \<Longrightarrow> c \<in> set (pt_rows pt) \<and> pr_pid c = pid"
  unfolding get_process_def by (auto dest: find_SomeD)

lemma counter_raise:
  "counter_value (raise_floor k v pt) j = (if j = k then max (counter_value pt k) (max 0 v) else counter_value pt j)"
  by (simp add: raise_floor_def counter_value_def map_of_dset)

lemma counter_observe:
  "counter_value (observe pid rv ex st pt) k =
     (case k of
        RevisionCounter p \<Rightarrow> if p = pid then max (counter_value pt k) (max 0 rv) else counter_value pt k
      | ExecutionCounter p \<Rightarrow> if p = pid then max (counter_value pt k) (max 0 ex) else counter_value pt k
      | StateCounter p \<Rightarrow>
          if p = pid \<and> st \<noteq> None then max (counter_value pt k) (max 0 (the st)) else counter_value pt k)"
  by (auto simp: observe_def Let_def counter_raise split: counter.splits option.splits)

lemma table_simps [simp]:
  "pt_rows (raise_floor k v pt) = pt_rows pt" "pt_rows (observe pid rv ex st pt) = pt_rows pt"
  "pt_rows (observe_row r pt) = pt_rows pt" "pt_rows (ensure_cleanup pid s pt) = pt_rows pt"
  "pt_counters (ensure_cleanup pid s pt) = pt_counters pt" "pt_counters (put_row r pt) = pt_counters pt"
  "pt_rows (put_row r pt) = map (\<lambda>x. if pr_pid x = pr_pid r then r else x) (pt_rows pt)"
  by (simp_all add: raise_floor_def observe_def observe_row_def ensure_cleanup_def put_row_def Let_def split: option.splits)

lemma counter_same [simp]:
  "counter_value (ensure_cleanup pid s pt) k = counter_value pt k" "counter_value (put_row r pt) k = counter_value pt k"
  by (simp_all add: counter_value_def)

lemma map_pids_put: "map pr_pid (map (\<lambda>x. if pr_pid x = pr_pid r then r else x) rs) = map pr_pid rs"
  by (induction rs) auto

lemma get_after_put:
  assumes "get_process pt (pr_pid r) = Some c" "pt_rows pt' = pt_rows (put_row r pt)"
  shows "get_process pt' (pr_pid r) = Some r"
proof -
  have "List.find (\<lambda>x. pr_pid x = pr_pid r) (map (\<lambda>x. if pr_pid x = pr_pid r then r else x) rs) = Some r"
    if "List.find (\<lambda>x. pr_pid x = pr_pid r) rs = Some c" for rs
    using that by (induction rs) (auto split: if_splits)
  then show ?thesis using assms by (simp add: get_process_def)
qed

text \<open>A moved row keeps the invariant.\<close>

lemma moved_ok:
  assumes "moved pt c r pt'" "table_ok pt"
  shows "table_ok pt'" "get_process pt' (pr_pid r) = Some r"
proof -
  have g: "get_process pt (pr_pid c) = Some c" and a: "advances c r"
    and rows: "pt_rows pt' = map (\<lambda>x. if pr_pid x = pr_pid r then r else x) (pt_rows pt)"
    and ctr: "counter_value pt' k = counter_value (observe_row r pt) k" for k
    using assms(1) unfolding moved_def by auto
  have c: "c \<in> set (pt_rows pt)" "pr_pid r = pr_pid c" using get_processD [OF g] a by (auto simp: advances_def)
  then have okc: "row_ok c" "counted pt c" using assms(2) by (auto simp: table_ok_def)
  then have okr: "row_ok r" using a by (simp add: advances_def)
  have "counted pt' r"
    using okc okr a c(2) unfolding counted_def ctr observe_row_def counter_observe advances_def row_ok_def by simp
  moreover have "counted pt' x" if "x \<in> set (pt_rows pt)" "pr_pid x \<noteq> pr_pid r" for x
  proof -
    have "counted pt x" using assms(2) that(1) by (simp add: table_ok_def)
    then show ?thesis using that(2) unfolding counted_def ctr observe_row_def counter_observe by simp
  qed
  ultimately have "\<forall>x \<in> set (pt_rows pt'). row_ok x \<and> counted pt' x"
    using assms(2) okr unfolding table_ok_def rows by fastforce
  then show "table_ok pt'" using assms(2) unfolding table_ok_def rows map_pids_put by simp
  show "get_process pt' (pr_pid r) = Some r"
    using get_after_put [of pt r c pt'] g c(2) rows by simp
qed

section \<open>Spent leases\<close>

definition current :: "exec_token \<Rightarrow> proc_row \<Rightarrow> bool" where
  "current tok r \<longleftrightarrow> pr_pid r = tk_pid tok \<and> pr_exec_gen r = tk_generation tok \<and> pr_owner r = Some (tk_owner tok)
     \<and> pr_lease r = Some (tk_lease tok)"

definition spent :: "exec_token \<Rightarrow> proc_table \<Rightarrow> bool" where
  "spent tok pt \<longleftrightarrow> tk_generation tok \<le> counter_value pt (ExecutionCounter (tk_pid tok))
     \<and> (\<forall>r \<in> set (pt_rows pt). \<not> current tok r)"

lemma moved_spent:
  assumes "moved pt c r pt'" "table_ok pt" "spent tok pt"
  shows "spent tok pt'"
proof -
  have g: "get_process pt (pr_pid c) = Some c" and a: "advances c r"
    and rows: "pt_rows pt' = map (\<lambda>x. if pr_pid x = pr_pid r then r else x) (pt_rows pt)"
    and ctr: "counter_value pt' k = counter_value (observe_row r pt) k" for k
    using assms(1) unfolding moved_def by auto
  have c: "c \<in> set (pt_rows pt)" "pr_pid r = pr_pid c" using get_processD [OF g] a by (auto simp: advances_def)
  have "\<not> current tok r"
  proof
    assume cur: "current tok r"
    have "pr_exec_gen c = counter_value pt (ExecutionCounter (pr_pid c))"
      using assms(2) c(1) by (simp add: table_ok_def counted_def)
    moreover have "tk_pid tok = pr_pid c" using cur c(2) by (simp add: current_def)
    ultimately have "tk_generation tok \<le> pr_exec_gen c" using assms(3) by (simp add: spent_def)
    then have "pr_owner r = pr_owner c \<and> pr_lease r = pr_lease c \<and> pr_exec_gen r = pr_exec_gen c"
      using advances_owner [OF a] cur by (simp add: current_def)
    then have "current tok c" using cur c(2) by (simp add: current_def)
    then show False using assms(3) c(1) by (simp add: spent_def)
  qed
  moreover have "tk_generation tok \<le> counter_value pt' (ExecutionCounter (tk_pid tok))"
    using assms(3) unfolding spent_def ctr observe_row_def counter_observe by auto
  ultimately show ?thesis using assms(3) by (auto simp: spent_def rows)
qed

section \<open>Every write moves a row\<close>

lemma advances_status:
  assumes "advances c r"
  shows "terminal (pr_status c) \<Longrightarrow> pr_status r = pr_status c" "pr_pid r = pr_pid c"
  using assms unfolding advances_def by simp_all

lemma movedI:
  assumes "get_process pt (pr_pid c) = Some c" "advances c r" "pt' = observe_row r pt''"
    "pt_rows pt'' = pt_rows (put_row r pt)" "pt_counters pt'' = pt_counters pt"
  shows "moved pt c r pt'"
proof -
  have "counter_value pt'' k = counter_value pt k" for k by (simp add: counter_value_def assms(5))
  then have "counter_value pt' k = counter_value (observe_row r pt) k" for k
    by (cases k) (simp_all add: assms(3) observe_row_def counter_observe)
  then show ?thesis using assms by (simp add: moved_def)
qed

lemma validate_state_Inr [simp]: "validate_state st w out = Inr u \<longleftrightarrow> wait_matches st w \<and> outcome_matches st out"
  by (simp add: validate_state_def bindR_Inr_iff)

lemma validate_write_Inr:
  assumes "validate_write p (Some c) allow = Inr u"
  shows "wait_matches (pr_status p) (pr_wait p)" "outcome_matches (pr_status p) (pr_outcome p)"
    "pr_state_gen p = pr_state_gen c + (if allow then 1 else 0)"
    "\<not> allow \<Longrightarrow> pr_status p = pr_status c"
  using assms by (auto simp: validate_write_def bindR_Inr_iff Let_def)

lemma update_fence_Inr:
  assumes "update_fence am c p pt = Inr (g, ow, ls)"
  shows "terminal (pr_status c) \<Longrightarrow> pr_status p = pr_status c" "pr_revision c = pr_revision p"
    "(g, ow, ls) = (if terminal (pr_status p) \<or> (pr_status c = StRunning \<and> pr_status p \<noteq> StRunning)
      then (pr_exec_gen c + 1, None, None) else (pr_exec_gen c, pr_owner c, pr_lease c))"
  using assms unfolding update_fence_def bindR_Inr_iff Let_def by auto

lemma update_fence_worker:
  assumes "update_fence am c p pt = Inr x" "am_token am = Some t" "tk_pid t = pr_pid p" "\<not> terminal (pr_status c)"
  shows "pr_status c = StRunning \<and> pr_exec_gen c = tk_generation t \<and> pr_owner c = Some (tk_owner t)
    \<and> pr_lease c = Some (tk_lease t)"
  using assms unfolding update_fence_def bindR_Inr_iff Let_def by auto

lemma update_moved:
  assumes "update_process_row am allow p pt = Inr (pt', r)"
  obtains c where "moved pt c r pt'" "pr_pid c = pr_pid p" "pr_state_gen r = pr_state_gen c + (if allow then 1 else 0)"
    "get_process pt (pr_pid p) = Some c" "update_fence am c p pt = Inr (pr_exec_gen r, pr_owner r, pr_lease r)"
    "pr_status r = pr_status p" "pr_wait r = pr_wait p" "pr_outcome r = pr_outcome p"
proof -
  obtain c g ow ls where c: "get_process pt (pr_pid p) = Some c" and f: "update_fence am c p pt = Inr (g, ow, ls)"
    and v: "validate_write p (Some c) allow = Inr ()"
    and r: "r = p\<lparr>pr_revision := pr_revision c + 1, pr_exec_gen := g, pr_owner := ow, pr_lease := ls,
        pr_run := pr_run c, pr_epoch := pr_epoch c, pr_role := pr_role c\<rparr>"
    and pt': "pt' = observe_row r (ensure_cleanup (pr_pid p) (pr_status p) (put_row r pt))"
    using assms unfolding update_process_row_def
    by (auto simp: bindR_Inr_iff Let_def split: option.splits)
  have pid: "pr_pid c = pr_pid p" using get_processD [OF c] by simp
  note F = update_fence_Inr [OF f] and V = validate_write_Inr [OF v]
  have "advances c r"
    unfolding advances_def
  proof (intro conjI impI)
    assume "row_ok c"
    then show "row_ok r" using F(3) V by (auto simp: r row_ok_def split: if_split_asm)
  next
    show "pr_owner r = None \<or> pr_exec_gen c < pr_exec_gen r
      \<or> pr_owner r = pr_owner c \<and> pr_lease r = pr_lease c \<and> pr_exec_gen r = pr_exec_gen c"
      using F(3) by (auto simp: r split: if_split_asm)
  next
    show "pr_exec_gen c \<le> pr_exec_gen r" using F(3) by (auto simp: r split: if_split_asm)
  qed (use F V pid in \<open>simp_all add: r\<close>)
  then have "moved pt c r pt'"
    by (intro movedI [where pt'' = "ensure_cleanup (pr_pid p) (pr_status p) (put_row r pt)"]) (use c pid pt' in simp_all)
  then show thesis using that c f V(3) pid by (simp add: r)
qed

lemma patch_row_update:
  assumes "patch_row am allow pid expected st f pt = Inr (pt', r)"
  obtains c where "update_process_row am allow (f c) pt = Inr (pt', r)" "get_process pt pid = Some c"
    "pr_revision c = expected" "st = None \<or> st = Some (pr_status c)"
  using assms unfolding patch_row_def by (auto simp: bindR_Inr_iff split: option.splits)

lemma set_columns_pid: "pr_pid (fold set_column patch c) = pr_pid c"
  by (induction patch arbitrary: c) (auto simp: set_column_def)

lemma patch_process_update:
  assumes "patch_process am now pid patch expected st pt = Inr (pt', r)"
  obtains c where "update_process_row am False c pt = Inr (pt', r)" "pr_pid c = pid"
proof -
  let ?f = "\<lambda>c. let r = fold set_column patch c in
     if ''updated_at'' \<in> set (map fst patch) then r else r\<lparr>pr_updated := VStr now\<rparr>"
  have "patch_row am False pid expected st ?f pt = Inr (pt', r)"
    using assms unfolding patch_process_def by (simp split: if_split_asm)
  then obtain c where c: "update_process_row am False (?f c) pt = Inr (pt', r)" "get_process pt pid = Some c"
    by (rule patch_row_update)
  show thesis by (rule that [OF c(1)]) (use get_processD [OF c(2)] set_columns_pid in \<open>simp add: Let_def\<close>)
qed

lemma patch_control_update:
  assumes "patch_process_control am now pid patch expected sts reason pt = Inr (pt', r)"
  obtains c am' where "update_process_row am' False c pt = Inr (pt', r)" "pr_pid c = pid"
    "am_token am' = am_token am" "am_terminal am' = am_terminal am"
proof -
  obtain am' st where p: "patch_process am' now pid patch expected st pt = Inr (pt', r)"
    and am: "am_token am' = am_token am" "am_terminal am' = am_terminal am"
    using assms unfolding patch_process_control_def
    by (auto simp: bindR_Inr_iff control_mutation_def split: option.splits)
  show thesis by (rule patch_process_update [OF p]) (rule that [OF _ _ am])
qed

text \<open>What a transition writes.\<close>

lemma apply_transition_update:
  assumes "apply_transition h am now pid st expected est eg w out msg control sts reason pt = Inr (pt', r)"
  obtains am' c m p where "update_process_row am' True p pt = Inr (pt', r)" "get_process pt pid = Some c"
    "p = c\<lparr>pr_status := st, pr_wait := w, pr_outcome := out, pr_state_gen := pr_state_gen c + 1,
       pr_message := opt_str m, pr_updated := VStr now\<rparr>"
    "pr_revision c = expected" "am_token am' = am_token am" "am_terminal am' = am_terminal am"
proof -
  obtain c m where c: "get_process pt pid = Some c" and m: "status_message h w out msg = Inr m"
    using assms unfolding apply_transition_def by (auto simp: bindR_Inr_iff split: option.splits)
  let ?f = "\<lambda>r. r\<lparr>pr_status := st, pr_wait := w, pr_outcome := out, pr_state_gen := pr_state_gen c + 1,
       pr_message := opt_str m, pr_updated := VStr now\<rparr>"
  obtain am' st' where f: "patch_row am' True pid expected st' ?f pt = Inr (pt', r)"
    and t: "am_token am' = am_token am" "am_terminal am' = am_terminal am"
    using assms unfolding apply_transition_def c option.case m Let_def
    by (auto simp: bindR_Inr_iff control_mutation_def split: if_split_asm)
  show thesis
    by (rule patch_row_update [OF f]) (rule that [OF _ c refl _ t], use c in auto)
qed

lemma transition_apply:
  assumes "transition h am now pid st expected est eg w out msg control sts reason pt = Inr (pt', r)"
  obtains sts' reason' where
    "apply_transition h am now pid st expected est eg w out msg control sts' reason' pt = Inr (pt', r)"
  using assms unfolding transition_def bindR_Inr_iff by blast

lemma wake_transition:
  assumes "wake h am now tok control reason pt = Inr (pt', r)"
  obtains c sts where "get_process pt (st_pid tok) = Some c" "pr_state_gen c = st_generation tok"
    "wait_same (pr_wait c) (Some (st_wait tok))" "condition_status (pr_status c)" "condition_wait (st_wait tok)"
    "transition h am now (st_pid tok) StRunnable (pr_revision c) (Some (pr_status c)) (Some (st_generation tok))
       None None None control sts reason pt = Inr (pt', r)"
  using assms unfolding wake_def by (auto simp: bindR_Inr_iff split: option.splits)

section \<open>Execution leases move rows\<close>

lemma grant_claim_moved:
  assumes "get_process pt pid = Some c" "pr_exec_gen c < g" "\<not> terminal (pr_status c)"
  shows "moved pt c (claimed now ow ls g c) (fst (grant_claim now ow ls g c pt))"
proof (rule movedI [where pt'' = "put_row (claimed now ow ls g c) pt"])
  show "get_process pt (pr_pid c) = Some c" using assms(1) get_processD [OF assms(1)] by simp
  show "advances c (claimed now ow ls g c)"
    using assms(2,3) by (simp add: advances_def claimed_def row_ok_def wait_matches_def outcome_matches_def)
qed (simp_all add: grant_claim_def Let_def)

text \<open>What every successful claim does: the next generation, a fresh holder.\<close>

definition issues :: "proc_table \<Rightarrow> string \<Rightarrow> exec_token \<Rightarrow> proc_table \<Rightarrow> bool" where
  "issues pt pid t pt' \<longleftrightarrow> (\<exists>c now. get_process pt pid = Some c \<and> tk_pid t = pid \<and> tk_generation t = pr_exec_gen c + 1
     \<and> tk_epoch t = pr_epoch c \<and> moved pt c (claimed now (tk_owner t) (tk_lease t) (pr_exec_gen c + 1) c) pt')"

lemma grant_issues:
  assumes "grant_claim now ow ls g c pt = (pt', Some t)" "get_process pt pid = Some c" "g = pr_exec_gen c + 1"
    "\<not> terminal (pr_status c)"
  shows "issues pt pid t pt'"
  unfolding issues_def
proof (intro exI conjI)
  have t: "t = \<lparr>tk_pid = pr_pid c, tk_generation = g, tk_owner = ow, tk_lease = ls, tk_epoch = pr_epoch c\<rparr>"
    using assms(1) by (simp add: grant_claim_def Let_def)
  show "moved pt c (claimed now (tk_owner t) (tk_lease t) (pr_exec_gen c + 1) c) pt'"
    using grant_claim_moved [OF assms(2), of g now ow ls] assms(1,3,4) by (simp add: t)
  show "tk_pid t = pid" using get_processD [OF assms(2)] by (simp add: t)
qed (use assms in \<open>auto simp: grant_claim_def Let_def\<close>)

lemma terminal_simps [simp]:
  "terminal StExited" "terminal StFailed" "terminal StKilled" "\<not> terminal StCreated" "\<not> terminal StRunnable"
  "\<not> terminal StRunning" "\<not> terminal StWaitingEvent" "\<not> terminal StWaitingTool" "\<not> terminal StWaitingHuman"
  "\<not> terminal StPaused" "\<not> terminal StSuspended"
  by (simp_all add: terminal_def)

lemma grant_claim_some: "grant_claim now ow ls g c pt \<noteq> (pt', None)"
  by (simp add: grant_claim_def Let_def)

lemma claim_issues:
  assumes "claim_execution now lease pid ow epoch pt = Inr (pt', t)"
  shows "pt' = pt \<and> t = None \<or> (\<exists>k. t = Some k \<and> issues pt pid k pt')"
  using assms grant_claim_some unfolding claim_execution_def bindR_Inr_iff
  by (cases t) (auto split: option.splits if_split_asm intro: grant_issues)

lemma claim_host_issues:
  assumes "claim_host_exec now lease pid ow rv sg eg epoch pt = Inr (pt', t)"
  shows "pt' = pt \<and> t = None \<or> (\<exists>k. t = Some k \<and> issues pt pid k pt')"
  using assms grant_claim_some unfolding claim_host_exec_def bindR_Inr_iff
  by (cases t) (auto split: option.splits if_split_asm intro: grant_issues)

lemma claim_worker_issues:
  assumes "claim_worker_exec now lease pid tok ow rv sg epoch pt = Inr (pt', t)"
  shows "pt' = pt \<and> t = None \<or> (\<exists>k c. t = Some k \<and> issues pt pid k pt' \<and> get_process pt pid = Some c \<and> current tok c)"
proof -
  have "current tok c" if "get_process pt pid = Some c" "tk_pid tok = pid" "pr_exec_gen c = tk_generation tok"
    "pr_owner c = Some (tk_owner tok)" "pr_lease c = Some (tk_lease tok)" for c
    using that get_processD [OF that(1)] by (simp add: current_def)
  then show ?thesis
    using assms grant_claim_some unfolding claim_worker_exec_def bindR_Inr_iff
    by (cases t) (auto split: option.splits if_split_asm intro: grant_issues)
qed

lemma holds_current: "get_process pt (tk_pid tok) = Some c \<Longrightarrow> holds_lease tok c \<Longrightarrow> current tok c"
  using get_processD [of pt "tk_pid tok" c] by (simp add: holds_lease_def current_def)

text \<open>The end of a lease: the holder is cleared.\<close>

definition ends :: "proc_table \<Rightarrow> exec_token \<Rightarrow> proc_table \<Rightarrow> bool" where
  "ends pt tok pt' \<longleftrightarrow> (\<exists>c r. get_process pt (tk_pid tok) = Some c \<and> current tok c \<and> moved pt c r pt' \<and> pr_owner r = None)"

lemma complete_ends:
  assumes "complete_execution h now tok st msg w out pt = Inr (pt', b)"
  shows "if b then ends pt tok pt' else pt' = pt"
proof (cases b)
  case True
  obtain c m where g: "get_process pt (tk_pid tok) = Some c" and s: "pr_status c = StRunning" and h: "holds_lease tok c"
    and v: "wait_matches st w" "outcome_matches st out" and pt': "pt' = (let r' = c\<lparr>pr_status := st, pr_message := opt_str m, pr_wait := w, pr_outcome := out,
                 pr_state_gen := pr_state_gen c + 1, pr_updated := VStr now, pr_revision := pr_revision c + 1,
                 pr_exec_gen := pr_exec_gen c + (if terminal st then 1 else 0), pr_owner := None, pr_lease := None\<rparr> in
           observe_row r' (ensure_cleanup (pr_pid c) st (put_row r' pt)))"
    using assms True unfolding complete_execution_def bindR_Inr_iff
    by (auto simp: Let_def split: option.splits if_split_asm)
  let ?r = "c\<lparr>pr_status := st, pr_message := opt_str m, pr_wait := w, pr_outcome := out,
                 pr_state_gen := pr_state_gen c + 1, pr_updated := VStr now, pr_revision := pr_revision c + 1,
                 pr_exec_gen := pr_exec_gen c + (if terminal st then 1 else 0), pr_owner := None, pr_lease := None\<rparr>"
  have "moved pt c ?r pt'"
  proof (rule movedI [where pt'' = "ensure_cleanup (pr_pid c) st (put_row ?r pt)"])
    show "advances c ?r" using v s by (simp add: advances_def row_ok_def)
    show "get_process pt (pr_pid c) = Some c" using g get_processD [OF g] by simp
  qed (use pt' in \<open>simp_all add: Let_def\<close>)
  then show ?thesis using True g holds_current [OF g h] unfolding ends_def by (auto intro!: exI [of _ c] exI [of _ ?r])
next
  case False
  then show ?thesis
    using assms unfolding complete_execution_def bindR_Inr_iff
    by (auto simp: Let_def split: option.splits if_split_asm)
qed

lemma release_ends:
  assumes "release_execution now tok pt = (pt', b)" "table_ok pt"
  shows "if b then ends pt tok pt' else pt' = pt"
proof (cases b)
  case True
  obtain c where g: "get_process pt (tk_pid tok) = Some c" and h: "holds_lease tok c"
    and pt': "pt' = (let r' = c\<lparr>pr_updated := VStr now, pr_revision := pr_revision c + 1, pr_exec_gen := pr_exec_gen c + 1,
                  pr_owner := None, pr_lease := None\<rparr> in
            observe (pr_pid r') (pr_revision r') (pr_exec_gen r') None (put_row r' pt))"
    using assms True unfolding release_execution_def by (auto simp: Let_def split: option.splits if_split_asm)
  let ?r = "c\<lparr>pr_updated := VStr now, pr_revision := pr_revision c + 1, pr_exec_gen := pr_exec_gen c + 1,
                  pr_owner := None, pr_lease := None\<rparr>"
  have c: "c \<in> set (pt_rows pt)" using get_processD [OF g] by simp
  then have ok: "counted pt c" "row_ok c" using assms(2) by (simp_all add: table_ok_def)
  have "advances c ?r" by (simp add: advances_def row_ok_def)
  moreover have "counter_value pt' k = counter_value (observe_row ?r pt) k" for k
    using ok by (cases k) (simp_all add: pt' Let_def observe_row_def counter_observe counted_def row_ok_def)
  ultimately have "moved pt c ?r pt'"
    using g get_processD [OF g] by (simp add: moved_def pt' Let_def)
  then show ?thesis using True g holds_current [OF g h] unfolding ends_def by (auto intro!: exI [of _ c] exI [of _ ?r])
next
  case False
  then show ?thesis
    using assms unfolding release_execution_def by (auto simp: Let_def split: option.splits if_split_asm)
qed

text \<open>The recovery of one row.\<close>

lemma recover_one_moved:
  assumes "recover_one h now ow row pt = Inr (pt', x)"
  shows "pt' = pt \<and> x = None \<or> (\<exists>c r. moved pt c r pt' \<and> x = Some (pr_pid c) \<and> pr_pid c = pr_pid row \<and> stale_row ow c
    \<and> pr_status r = StPaused \<and> is_stale_wait (pr_wait r) \<and> pr_owner r = None \<and> pr_exec_gen r = pr_exec_gen c + 1)"
proof -
  obtain w where w: "make_stale (dget (sdict
       [(''pid'', VStr (pr_pid row)), (''recovered_by_owner_sha256'', VStr (h_sha256 h ow)),
        (''prior_owner_sha256'', opt_str (identity_sha h (pr_owner row))),
        (''prior_lease_sha256'', opt_str (identity_sha h (pr_lease row))),
        (''prior_execution_generation'', VInt (pr_exec_gen row)),
        (''recovered_execution_generation'', VInt (pr_exec_gen row + 1)),
        (''recovered_state_generation'', VInt (pr_state_gen row + 1))])) = Inr w"
    using assms unfolding recover_one_def bindR_Inr_iff by blast
  have sw: "is_stale_wait (Some w)" using w unfolding make_stale_def bindR_Inr_iff by (auto simp: is_stale_wait_def)
  show ?thesis
  proof (cases "\<exists>c. get_process pt (pr_pid row) = Some c \<and> stale_row ow c \<and> pr_state_gen c = pr_state_gen row
      \<and> pr_exec_gen c = pr_exec_gen row \<and> pr_owner c = pr_owner row \<and> pr_lease c = pr_lease row")
    case True
    then obtain c where c: "get_process pt (pr_pid row) = Some c" "stale_row ow c" "pr_state_gen c = pr_state_gen row"
      "pr_exec_gen c = pr_exec_gen row" "pr_owner c = pr_owner row" "pr_lease c = pr_lease row" by blast
    let ?r = "c\<lparr>pr_status := StPaused, pr_message := VStr ''stale_execution_recovery'', pr_updated := VStr now,
                 pr_wait := Some w, pr_outcome := None, pr_state_gen := pr_state_gen c + 1,
                 pr_revision := pr_revision c + 1, pr_exec_gen := pr_exec_gen c + 1, pr_owner := None, pr_lease := None\<rparr>"
    have e: "pt' = observe_row ?r (put_row ?r pt)" "x = Some (pr_pid row)"
      using assms c unfolding recover_one_def w by (simp_all add: Let_def)
    have "advances c ?r"
      using sw c(2) by (auto simp: advances_def row_ok_def stale_row_def wait_matches_def outcome_matches_def is_stale_wait_def
          split: proc_wait.splits)
    then have "moved pt c ?r pt'"
      by (intro movedI [where pt'' = "put_row ?r pt"]) (use c get_processD [OF c(1)] e in simp_all)
    then show ?thesis
      using c e get_processD [OF c(1)] sw by (intro disjI2 exI [of _ c] exI [of _ ?r]) simp
  next
    case False
    then show ?thesis using assms unfolding recover_one_def w by (auto simp: Let_def split: option.splits if_split_asm)
  qed
qed

section \<open>Insertion and restoration\<close>

definition created :: "proc_table \<Rightarrow> proc_row \<Rightarrow> proc_table \<Rightarrow> bool" where
  "created pt p pt' \<longleftrightarrow> pt_rows pt' = pt_rows pt @ [p] \<and> get_process pt (pr_pid p) = None
     \<and> wait_matches (pr_status p) (pr_wait p) \<and> outcome_matches (pr_status p) (pr_outcome p)
     \<and> (\<forall>k. counter_value pt' k = counter_value (observe_row p pt) k)"

lemma insert_created:
  assumes "insert_process p pt = Inr pt'"
  shows "created pt p pt'"
proof -
  have v: "validate_write p None False = Inr ()" and g: "get_process pt (pr_pid p) = None"
    and pt': "pt' = observe_row p (ensure_cleanup (pr_pid p) (pr_status p) (pt\<lparr>pt_rows := pt_rows pt @ [p]\<rparr>))"
    using assms unfolding insert_process_def bindR_Inr_iff by auto
  have c: "counter_value (pt\<lparr>pt_rows := rs\<rparr>) k = counter_value pt k" for rs k by (simp add: counter_value_def)
  have "counter_value pt' k = counter_value (observe_row p pt) k" for k
    by (cases k) (simp_all add: pt' observe_row_def counter_observe c)
  then show ?thesis using v g by (auto simp: created_def pt' validate_write_def bindR_Inr_iff)
qed

lemma get_process_None: "get_process pt pid = None \<longleftrightarrow> pid \<notin> pr_pid ` set (pt_rows pt)"
  by (auto simp: get_process_def find_None_iff)

text \<open>A new process: no counter of its name has been used, and it starts at zero without a holder.\<close>

definition fresh :: "proc_row \<Rightarrow> proc_table \<Rightarrow> bool" where
  "fresh p pt \<longleftrightarrow> pr_revision p = 0 \<and> pr_exec_gen p = 0 \<and> pr_state_gen p = 0 \<and> pr_owner p = None \<and> pr_lease p = None
     \<and> counter_value pt (RevisionCounter (pr_pid p)) = 0 \<and> counter_value pt (ExecutionCounter (pr_pid p)) = 0
     \<and> counter_value pt (StateCounter (pr_pid p)) = 0"

lemma created_ok:
  assumes "created pt p pt'" "table_ok pt" "counted pt' p" "0 \<le> pr_revision p" "0 \<le> pr_exec_gen p" "0 \<le> pr_state_gen p"
    "pr_owner p = None" "pr_lease p = None"
  shows "table_ok pt'"
proof -
  have "row_ok p" using assms by (simp add: row_ok_def created_def)
  moreover have "counted pt' x" if "x \<in> set (pt_rows pt)" for x
  proof -
    have "pr_pid p \<notin> pr_pid ` set (pt_rows pt)" using assms(1) by (simp add: created_def get_process_None)
    then have "pr_pid x \<noteq> pr_pid p" using that by (metis imageI)
    moreover have "counted pt x" using assms(2) that by (simp add: table_ok_def)
    ultimately show ?thesis using assms(1) by (simp add: counted_def created_def observe_row_def counter_observe)
  qed
  ultimately show ?thesis
    using assms(1-3) by (auto simp: table_ok_def created_def get_process_None)
qed

lemma created_spent:
  assumes "created pt p pt'" "spent tok pt" "pr_owner p = None"
  shows "spent tok pt'"
  using assms by (auto simp: spent_def created_def observe_row_def counter_observe current_def)

lemma next_counter_eq:
  "next_counter k low pt = (pt1, v) \<Longrightarrow> v = max (counter_value pt k) (max 0 low) + 1 \<and> pt_rows pt1 = pt_rows pt
     \<and> counter_value pt1 j = (if j = k then v else counter_value pt j)"
  by (auto simp: next_counter_def Let_def counter_value_def)

lemma reserve_epoch_eq:
  assumes "reserve_epoch pid rv ex st pt = (pt1, r, e, g)"
  shows "pt_rows pt1 = pt_rows pt" "counter_value pt1 (RevisionCounter pid) = r" "counter_value pt1 (ExecutionCounter pid) = e"
    "counter_value pt1 (StateCounter pid) = g" "counter_value pt (ExecutionCounter pid) < e" "0 < r" "0 < e" "0 < g"
    "counter_value pt (RevisionCounter pid) < r" "counter_value pt (StateCounter pid) < g"
    "\<And>k. k \<notin> {RevisionCounter pid, ExecutionCounter pid, StateCounter pid} \<Longrightarrow> counter_value pt1 k = counter_value pt k"
proof -
  obtain a b where s: "next_counter (RevisionCounter pid) rv pt = (a, r)" "next_counter (ExecutionCounter pid) ex a = (b, e)"
    "next_counter (StateCounter pid) st b = (pt1, g)"
    using assms unfolding reserve_epoch_def by (auto split: prod.splits)
  note eqs = next_counter_eq [OF s(1)] next_counter_eq [OF s(2)] next_counter_eq [OF s(3)]
  show "pt_rows pt1 = pt_rows pt" using eqs by simp
  show "counter_value pt1 (RevisionCounter pid) = r" "counter_value pt1 (ExecutionCounter pid) = e"
    "counter_value pt1 (StateCounter pid) = g"
    using eqs by simp_all
  show "counter_value pt (ExecutionCounter pid) < e" "0 < r" "0 < e" "0 < g"
    "counter_value pt (RevisionCounter pid) < r" "counter_value pt (StateCounter pid) < g"
    using eqs by simp_all
  show "counter_value pt1 k = counter_value pt k"
    if "k \<notin> {RevisionCounter pid, ExecutionCounter pid, StateCounter pid}" for k
    using that eqs by simp
qed

text \<open>A restored row stands at generations that no earlier row or token has seen, and nobody holds it.\<close>

lemma restore_row:
  assumes "replace_for_restore p pt = Inr pt'"
  obtains q where "pr_pid q = pr_pid p" "pr_owner q = None" "pr_lease q = None" "row_ok q" "counted pt' q"
    "pt_rows pt' = filter (\<lambda>r. pr_pid r \<noteq> pr_pid p) (pt_rows pt) @ [q]"
    "counter_value pt (ExecutionCounter (pr_pid p)) < pr_exec_gen q"
    "\<And>k. k \<notin> {RevisionCounter (pr_pid p), ExecutionCounter (pr_pid p), StateCounter (pr_pid p)} \<Longrightarrow>
       counter_value pt' k = counter_value pt k"
proof -
  obtain lr le lg pt1 rv eg sg where e: "reserve_epoch (pr_pid p) lr le lg pt = (pt1, rv, eg, sg)"
    and i: "insert_process (p\<lparr>pr_revision := rv, pr_exec_gen := eg, pr_state_gen := sg, pr_owner := None, pr_lease := None\<rparr>)
          (delete_process_row (pr_pid p) pt1) = Inr pt'"
    using assms unfolding replace_for_restore_def Let_def by (auto split: prod.splits)
  let ?q = "p\<lparr>pr_revision := rv, pr_exec_gen := eg, pr_state_gen := sg, pr_owner := None, pr_lease := None\<rparr>"
  note E = reserve_epoch_eq [OF e]
  note C = insert_created [OF i, unfolded created_def]
  have c: "counter_value (delete_process_row pid pt1) k = counter_value pt1 k" for pid k
    by (simp add: counter_value_def delete_process_row_def)
  have k: "counter_value pt' k = counter_value pt1 k" for k
    using C E by (cases k) (simp_all add: observe_row_def counter_observe c)
  show thesis
  proof (rule that [of ?q])
    show "row_ok ?q" using C E by (simp add: row_ok_def)
    show "counted pt' ?q" using E by (simp add: counted_def k)
    show "pt_rows pt' = filter (\<lambda>r. pr_pid r \<noteq> pr_pid p) (pt_rows pt) @ [?q]" using C E by (simp add: delete_process_row_def)
    show "counter_value pt (ExecutionCounter (pr_pid p)) < pr_exec_gen ?q" using E by simp
    show "counter_value pt' j = counter_value pt j"
      if "j \<notin> {RevisionCounter (pr_pid p), ExecutionCounter (pr_pid p), StateCounter (pr_pid p)}" for j
      using E(11) [OF that] by (simp add: k)
  qed simp_all
qed

lemma restore_counters:
  assumes "replace_for_restore p pt = Inr pt'"
  shows "counter_value pt k \<le> counter_value pt' k"
proof -
  obtain lr le lg pt1 rv eg sg where e: "reserve_epoch (pr_pid p) lr le lg pt = (pt1, rv, eg, sg)"
    and i: "insert_process (p\<lparr>pr_revision := rv, pr_exec_gen := eg, pr_state_gen := sg, pr_owner := None, pr_lease := None\<rparr>)
          (delete_process_row (pr_pid p) pt1) = Inr pt'"
    using assms unfolding replace_for_restore_def Let_def by (auto split: prod.splits)
  have c: "counter_value (delete_process_row pid pt1) k = counter_value pt1 k" for pid k
    by (simp add: counter_value_def delete_process_row_def)
  have "counter_value pt1 k \<le> counter_value pt' k"
    using insert_created [OF i, unfolded created_def] by (cases k) (simp_all add: observe_row_def counter_observe c)
  moreover have "counter_value pt k \<le> counter_value pt1 k"
    using reserve_epoch_eq [OF e] by (cases "k \<in> {RevisionCounter (pr_pid p), ExecutionCounter (pr_pid p), StateCounter (pr_pid p)}") auto
  ultimately show ?thesis by simp
qed

lemma restore_ok:
  assumes "replace_for_restore p pt = Inr pt'" "table_ok pt"
  shows "table_ok pt'"
proof -
  obtain q where q: "pr_pid q = pr_pid p" "row_ok q" "counted pt' q"
    and rows: "pt_rows pt' = filter (\<lambda>r. pr_pid r \<noteq> pr_pid p) (pt_rows pt) @ [q]"
    and k: "\<And>k. k \<notin> {RevisionCounter (pr_pid p), ExecutionCounter (pr_pid p), StateCounter (pr_pid p)} \<Longrightarrow>
       counter_value pt' k = counter_value pt k"
    using restore_row [OF assms(1)] by metis
  have "counted pt' x" if "x \<in> set (pt_rows pt)" "pr_pid x \<noteq> pr_pid p" for x
    using assms(2) that k by (simp add: table_ok_def counted_def)
  then show ?thesis
    using assms(2) q by (auto simp: table_ok_def rows distinct_map_filter)
qed

lemma restore_spent:
  assumes "replace_for_restore p pt = Inr pt'" "spent tok pt"
  shows "spent tok pt'"
proof -
  obtain q where q: "pr_owner q = None" "pr_pid q = pr_pid p" "counted pt' q" "counter_value pt (ExecutionCounter (pr_pid p)) < pr_exec_gen q"
    and rows: "pt_rows pt' = filter (\<lambda>r. pr_pid r \<noteq> pr_pid p) (pt_rows pt) @ [q]"
    and k: "\<And>k. k \<notin> {RevisionCounter (pr_pid p), ExecutionCounter (pr_pid p), StateCounter (pr_pid p)} \<Longrightarrow>
       counter_value pt' k = counter_value pt k"
    using restore_row [OF assms(1)] by metis
  have "counter_value pt (ExecutionCounter (tk_pid tok)) \<le> counter_value pt' (ExecutionCounter (tk_pid tok))"
    using q k by (cases "tk_pid tok = pr_pid p") (auto simp: counted_def)
  then show ?thesis using assms(2) q by (auto simp: spent_def rows current_def)
qed

lemma delete_ok:
  assumes "table_ok pt"
  shows "table_ok (delete_process_row pid pt)"
  using assms by (auto simp: table_ok_def delete_process_row_def counted_def counter_value_def distinct_map_filter)

lemma delete_spent: "spent tok pt \<Longrightarrow> spent tok (delete_process_row pid pt)"
  by (auto simp: spent_def delete_process_row_def counter_value_def)

end
