(* ===== verification/ProcReach.thy ===== *)
theory ProcReach
  imports ProcInv
begin

text \<open>
  Every sequence of operations on the process table: the invariant of the reachable tables, terminal
  processes that stay terminal, and execution leases that die once.
\<close>

section \<open>Steps\<close>

text \<open>
  An ordinary step is a call of one operation under any ambient scopes, or a change of the task runs and
  the exec publications by their own components.
\<close>

inductive run_step :: "proc_table \<Rightarrow> proc_table \<Rightarrow> bool" where
  inserted: "insert_process p pt = Inr pt' \<Longrightarrow> fresh p pt \<Longrightarrow> run_step pt pt'"
| updated: "update_process am p pt = Inr (pt', r) \<Longrightarrow> run_step pt pt'"
| patched: "patch_process am now pid patch e st pt = Inr (pt', r) \<Longrightarrow> run_step pt pt'"
| controlled: "patch_process_control am now pid patch e sts why pt = Inr (pt', r) \<Longrightarrow> run_step pt pt'"
| transitioned: "transition h am now pid st e est eg w out msg control sts why pt = Inr (pt', r) \<Longrightarrow> run_step pt pt'"
| woken: "wake h am now tok control why pt = Inr (pt', r) \<Longrightarrow> run_step pt pt'"
| claimed: "claim_execution now lease pid ow epoch pt = Inr (pt', k) \<Longrightarrow> run_step pt pt'"
| host_claimed: "claim_host_exec now lease pid ow rv sg eg epoch pt = Inr (pt', k) \<Longrightarrow> run_step pt pt'"
| worker_claimed: "claim_worker_exec now lease pid t ow rv sg epoch pt = Inr (pt', k) \<Longrightarrow> run_step pt pt'"
| completed: "complete_execution h now t st msg w out pt = Inr (pt', b) \<Longrightarrow> run_step pt pt'"
| released: "release_execution now t pt = (pt', b) \<Longrightarrow> run_step pt pt'"
| recovered: "recover_each h now ow rows pt = Inr (pt', ps) \<Longrightarrow> run_step pt pt'"
| rebound: "run_step pt (rebind_epoch run e pt)"
| cleanup_claimed: "claim_cleanup pid ow lease was pt = Inr (pt', c) \<Longrightarrow> run_step pt pt'"
| cleanup_phase: "complete_cleanup_phase pid lease phase pt = Inr (pt', c) \<Longrightarrow> run_step pt pt'"
| cleanup_failed: "fail_cleanup pid lease phase pt = Inr (pt', c) \<Longrightarrow> run_step pt pt'"
| cleanup_finished: "finish_cleanup pid lease pt = (pt', c) \<Longrightarrow> run_step pt pt'"
| outside: "run_step pt (pt\<lparr>pt_runs := rs, pt_pubs := xs\<rparr>)"

text \<open>The Host also restores rows from snapshots and deletes scaffolds.\<close>

inductive host_step :: "proc_table \<Rightarrow> proc_table \<Rightarrow> bool" where
  restored: "replace_for_restore p pt = Inr pt' \<Longrightarrow> host_step pt pt'"
| deleted: "host_step pt (delete_process_row pid pt)"

text \<open>What a step does to the rows.\<close>

definition quiet :: "proc_table \<Rightarrow> proc_table \<Rightarrow> bool" where
  "quiet pt pt' \<longleftrightarrow> pt_counters pt' = pt_counters pt
     \<and> (\<exists>f. pt_rows pt' = map (\<lambda>r. r\<lparr>pr_epoch := f r\<rparr>) (pt_rows pt))"

inductive move :: "proc_table \<Rightarrow> proc_table \<Rightarrow> bool" where
  quiet: "quiet pt pt' \<Longrightarrow> move pt pt'"
| moved: "moved pt c r pt' \<Longrightarrow> move pt pt'"
| created: "created pt p pt' \<Longrightarrow> fresh p pt \<Longrightarrow> move pt pt'"

lemma quietI: "pt_rows pt' = pt_rows pt \<Longrightarrow> pt_counters pt' = pt_counters pt \<Longrightarrow> quiet pt pt'"
  unfolding quiet_def by (auto intro: exI [of _ pr_epoch])

lemma quiet_refl: "quiet pt pt"
  by (rule quietI) simp_all

lemma quiet_counter: "quiet pt pt' \<Longrightarrow> counter_value pt' k = counter_value pt k"
  by (simp add: quiet_def counter_value_def)

lemma quiet_ok:
  assumes "quiet pt pt'" "table_ok pt"
  shows "table_ok pt'"
proof -
  obtain f where rows: "pt_rows pt' = map (\<lambda>r. r\<lparr>pr_epoch := f r\<rparr>) (pt_rows pt)" using assms(1) by (auto simp: quiet_def)
  have "map pr_pid (pt_rows pt') = map pr_pid (pt_rows pt)" by (simp add: rows)
  moreover have "row_ok (r\<lparr>pr_epoch := e\<rparr>) \<and> counted pt' (r\<lparr>pr_epoch := e\<rparr>)" if "r \<in> set (pt_rows pt)" for r e
  proof -
    have "row_ok r" "counted pt r" using assms(2) that by (simp_all add: table_ok_def)
    then show ?thesis using quiet_counter [OF assms(1)] by (auto simp: row_ok_def counted_def)
  qed
  moreover have "\<forall>x \<in> set (pt_rows pt'). row_ok x \<and> counted pt' x" using calculation(2) by (auto simp: rows)
  ultimately show ?thesis using assms(2) by (simp add: table_ok_def)
qed

lemma quiet_spent: "quiet pt pt' \<Longrightarrow> spent tok pt \<Longrightarrow> spent tok pt'"
  using quiet_counter [of pt pt'] by (auto simp: quiet_def spent_def current_def)

lemma get_map_epoch:
  assumes "pt_rows pt' = map (\<lambda>r. r\<lparr>pr_epoch := f r\<rparr>) (pt_rows pt)"
  shows "get_process pt' pid = map_option (\<lambda>r. r\<lparr>pr_epoch := f r\<rparr>) (get_process pt pid)"
proof -
  have "List.find (\<lambda>r. pr_pid r = pid) (map (\<lambda>r. r\<lparr>pr_epoch := f r\<rparr>) rs)
    = map_option (\<lambda>r. r\<lparr>pr_epoch := f r\<rparr>) (List.find (\<lambda>r. pr_pid r = pid) rs)" for rs
    by (induction rs) auto
  then show ?thesis by (simp add: get_process_def assms)
qed

lemma find_put_other:
  "pr_pid r \<noteq> pid \<Longrightarrow> List.find (\<lambda>x. pr_pid x = pid) (map (\<lambda>x. if pr_pid x = pr_pid r then r else x) rs)
     = List.find (\<lambda>x. pr_pid x = pid) rs"
  by (induction rs) auto

lemma find_append: "List.find P (xs @ ys) = (case List.find P xs of Some x \<Rightarrow> Some x | None \<Rightarrow> List.find P ys)"
  by (induction xs) auto

lemma move_ok: "move pt pt' \<Longrightarrow> table_ok pt \<Longrightarrow> table_ok pt'"
proof (induction rule: move.induct)
  case (created pt p pt')
  then have "counted pt' p" by (simp add: counted_def created_def fresh_def observe_row_def counter_observe)
  then show ?case using created created_ok [of pt p pt'] by (simp add: fresh_def)
qed (auto intro: quiet_ok moved_ok)

lemma move_spent: "move pt pt' \<Longrightarrow> table_ok pt \<Longrightarrow> spent tok pt \<Longrightarrow> spent tok pt'"
  by (induction rule: move.induct) (auto intro: quiet_spent moved_spent created_spent simp: fresh_def)

text \<open>A row keeps its place, its revision grows, and a terminal row keeps its status.\<close>

lemma move_row:
  assumes "move pt pt'" "get_process pt pid = Some c"
  shows "\<exists>c'. get_process pt' pid = Some c' \<and> pr_revision c \<le> pr_revision c' \<and> pr_exec_gen c \<le> pr_exec_gen c'
     \<and> pr_state_gen c \<le> pr_state_gen c' \<and> (terminal (pr_status c) \<longrightarrow> pr_status c' = pr_status c)"
  using assms
proof (induction rule: move.induct)
  case (quiet pt pt')
  then obtain f where "pt_rows pt' = map (\<lambda>r. r\<lparr>pr_epoch := f r\<rparr>) (pt_rows pt)" by (auto simp: quiet_def)
  then show ?case using quiet by (simp add: get_map_epoch)
next
  case (moved pt d r pt')
  then have d: "get_process pt (pr_pid d) = Some d" and a: "advances d r" and rows: "pt_rows pt' = pt_rows (put_row r pt)"
    by (auto simp: moved_def)
  show ?case
  proof (cases "pid = pr_pid r")
    case True
    then have "get_process pt' pid = Some r" using get_after_put [of pt r d pt'] d advances_status(2) [OF a] rows by simp
    moreover have "d = c" using moved d True advances_status(2) [OF a] by simp
    ultimately show ?thesis using a by (auto simp: advances_def)
  next
    case False
    then show ?thesis using moved rows find_put_other [of r pid] by (simp add: get_process_def)
  qed
next
  case (created pt p pt')
  then show ?case by (simp add: get_process_def created_def find_append)
qed

lemma moved_moves: "moved pt c r pt' \<Longrightarrow> move\<^sup>*\<^sup>* pt pt'"
  by (blast intro: move.intros)

lemma update_moves: "update_process_row am allow p pt = Inr (pt', r) \<Longrightarrow> move\<^sup>*\<^sup>* pt pt'"
  by (erule update_moved) (rule moved_moves)

lemma issues_moves: "issues pt pid k pt' \<Longrightarrow> move\<^sup>*\<^sup>* pt pt'"
  unfolding issues_def by (blast intro: move.intros)

lemma ends_moves: "ends pt k pt' \<Longrightarrow> move\<^sup>*\<^sup>* pt pt'"
  unfolding ends_def by (blast intro: move.intros)

lemma transition_moves:
  assumes "transition h am now pid st e est eg w out msg control sts why pt = Inr (pt', r)"
  shows "move\<^sup>*\<^sup>* pt pt'"
  using assms by (elim transition_apply apply_transition_update) (rule update_moves)

lemma recover_each_moves: "recover_each h now ow rows pt = Inr (pt', ps) \<Longrightarrow> move\<^sup>*\<^sup>* pt pt'"
proof (induction rows arbitrary: pt pt' ps)
  case (Cons row rows)
  obtain pt1 x xs where one: "recover_one h now ow row pt = Inr (pt1, x)" and rest: "recover_each h now ow rows pt1 = Inr (pt', xs)"
    using Cons.prems by (auto simp: bindR_Inr_iff)
  have "move\<^sup>*\<^sup>* pt pt1" using recover_one_moved [OF one] moved_moves by blast
  then show ?case using Cons.IH [OF rest] by simp
qed simp

lemma cleanup_quiet:
  "claim_cleanup pid ow lease was pt = Inr (pt', c) \<Longrightarrow> quiet pt pt'"
  "complete_cleanup_phase pid lease phase pt = Inr (pt', c) \<Longrightarrow> quiet pt pt'"
  "fail_cleanup pid lease phase pt = Inr (pt', c) \<Longrightarrow> quiet pt pt'"
  "finish_cleanup pid lease pt = (pt', c) \<Longrightarrow> quiet pt pt'"
  unfolding claim_cleanup_def complete_cleanup_phase_def fail_cleanup_def finish_cleanup_def
  by (auto intro!: quietI simp: bindR_Inr_iff put_cleanup_def Let_def split: option.splits if_split_asm)

lemma rebind_quiet: "quiet pt (rebind_epoch run e pt)"
proof -
  let ?f = "\<lambda>r. if pr_run r = Some run then Some e else pr_epoch r"
  have "pt_rows (rebind_epoch run e pt) = map (\<lambda>r. r\<lparr>pr_epoch := ?f r\<rparr>) (pt_rows pt)"
    by (simp add: rebind_epoch_def)
  then show ?thesis unfolding quiet_def by (intro conjI exI [of _ ?f]) (simp add: rebind_epoch_def)
qed

lemma quiet_moves: "quiet pt pt' \<Longrightarrow> move\<^sup>*\<^sup>* pt pt'"
  by (blast intro: move.intros)

lemma run_step_moves:
  assumes "run_step pt pt'" "table_ok pt"
  shows "move\<^sup>*\<^sup>* pt pt'"
  using assms
proof (induction rule: run_step.induct)
  case (inserted p pt pt')
  then show ?case using insert_created by (blast intro: move.intros)
next
  case (updated am p pt pt' r)
  then show ?case unfolding update_process_def by (blast intro: update_moves)
next
  case (patched am now pid patch e st pt pt' r)
  then show ?case by (elim patch_process_update) (rule update_moves)
next
  case (controlled am now pid patch e sts why pt pt' r)
  then show ?case by (elim patch_control_update) (rule update_moves)
next
  case (woken h am now tok control why pt pt' r)
  then show ?case by (elim wake_transition) (rule transition_moves)
next
  case (claimed now lease pid ow epoch pt pt' k)
  then show ?case using claim_issues issues_moves by blast
next
  case (host_claimed now lease pid ow rv sg eg epoch pt pt' k)
  then show ?case using claim_host_issues issues_moves by blast
next
  case (worker_claimed now lease pid t ow rv sg epoch pt pt' k)
  then show ?case using claim_worker_issues issues_moves by blast
next
  case (completed h now t st msg w out pt pt' b)
  then show ?case using complete_ends [OF completed(1)] ends_moves by (cases b) auto
next
  case (released now t pt pt' b)
  then show ?case using release_ends [OF released(1)] ends_moves by (cases b) auto
next
  case (outside pt rs xs)
  then show ?case by (intro quiet_moves quietI) simp_all
qed (auto intro: transition_moves recover_each_moves quiet_moves cleanup_quiet rebind_quiet)

section \<open>Reachable tables\<close>

definition any_step :: "proc_table \<Rightarrow> proc_table \<Rightarrow> bool" where
  "any_step pt pt' \<longleftrightarrow> run_step pt pt' \<or> host_step pt pt'"

definition empty_table :: proc_table where
  "empty_table = \<lparr>pt_rows = [], pt_counters = [], pt_runs = [], pt_pubs = [], pt_cleanups = []\<rparr>"

lemma moves_ok: "move\<^sup>*\<^sup>* pt pt' \<Longrightarrow> table_ok pt \<Longrightarrow> table_ok pt'"
  by (induction rule: rtranclp_induct) (auto intro: move_ok)

lemma moves_spent: "move\<^sup>*\<^sup>* pt pt' \<Longrightarrow> table_ok pt \<Longrightarrow> spent tok pt \<Longrightarrow> spent tok pt'"
proof (induction rule: rtranclp_induct)
  case (step x y)
  then show ?case using move_spent [of x y tok] moves_ok [of pt x] by blast
qed

lemma host_step_ok: "host_step pt pt' \<Longrightarrow> table_ok pt \<Longrightarrow> table_ok pt'"
  by (induction rule: host_step.induct) (auto intro: restore_ok delete_ok)

lemma host_step_spent: "host_step pt pt' \<Longrightarrow> spent tok pt \<Longrightarrow> spent tok pt'"
  by (induction rule: host_step.induct) (auto intro: restore_spent delete_spent)

lemma any_step_ok: "any_step pt pt' \<Longrightarrow> table_ok pt \<Longrightarrow> table_ok pt'"
  unfolding any_step_def using run_step_moves moves_ok host_step_ok by blast

lemma any_step_spent: "any_step pt pt' \<Longrightarrow> table_ok pt \<Longrightarrow> spent tok pt \<Longrightarrow> spent tok pt'"
  unfolding any_step_def using run_step_moves moves_spent host_step_spent by blast

lemma steps_ok: "any_step\<^sup>*\<^sup>* pt pt' \<Longrightarrow> table_ok pt \<Longrightarrow> table_ok pt'"
  by (induction rule: rtranclp_induct) (auto intro: any_step_ok)

lemma steps_spent: "any_step\<^sup>*\<^sup>* pt pt' \<Longrightarrow> table_ok pt \<Longrightarrow> spent tok pt \<Longrightarrow> spent tok pt'"
proof (induction rule: rtranclp_induct)
  case (step x y)
  then show ?case using any_step_spent [of x y tok] steps_ok [of pt x] by blast
qed

lemma moves_row:
  assumes "move\<^sup>*\<^sup>* pt pt'" "get_process pt pid = Some c"
  shows "\<exists>c'. get_process pt' pid = Some c' \<and> pr_revision c \<le> pr_revision c' \<and> pr_exec_gen c \<le> pr_exec_gen c'
     \<and> pr_state_gen c \<le> pr_state_gen c' \<and> (terminal (pr_status c) \<longrightarrow> pr_status c' = pr_status c)"
  using assms
proof (induction rule: rtranclp_induct)
  case (step x y)
  then obtain d where d: "get_process x pid = Some d" "pr_revision c \<le> pr_revision d" "pr_exec_gen c \<le> pr_exec_gen d"
    "pr_state_gen c \<le> pr_state_gen d" "terminal (pr_status c) \<longrightarrow> pr_status d = pr_status c" by blast
  show ?case using move_row [OF step(2) d(1)] d(2-) by fastforce
qed simp

lemma run_steps_ok: "run_step\<^sup>*\<^sup>* pt pt' \<Longrightarrow> table_ok pt \<Longrightarrow> table_ok pt' \<and> move\<^sup>*\<^sup>* pt pt'"
proof (induction rule: rtranclp_induct)
  case (step x y)
  then show ?case using run_step_moves [of x y] moves_ok [of x y] by (meson rtranclp_trans)
qed simp

lemma empty_ok: "table_ok empty_table"
  by (simp add: table_ok_def empty_table_def)

text \<open>The counters never fall, so a generation is never used again.\<close>

lemma counter_grows: "counter_value pt k \<le> counter_value (observe_row r pt) k"
  by (cases k) (simp_all add: observe_row_def counter_observe)

lemma move_counters: "move pt pt' \<Longrightarrow> counter_value pt k \<le> counter_value pt' k"
  by (induction rule: move.induct) (auto simp: quiet_counter moved_def created_def counter_grows)

lemma moves_counters: "move\<^sup>*\<^sup>* pt pt' \<Longrightarrow> counter_value pt k \<le> counter_value pt' k"
  by (induction rule: rtranclp_induct) (auto intro: order_trans move_counters)

lemma delete_counters: "counter_value (delete_process_row pid pt) k = counter_value pt k"
  by (simp add: delete_process_row_def counter_value_def)

lemma host_step_counters: "host_step pt pt' \<Longrightarrow> counter_value pt k \<le> counter_value pt' k"
  by (induction rule: host_step.induct) (auto intro: restore_counters simp: delete_counters)

lemma any_step_counters: "any_step pt pt' \<Longrightarrow> table_ok pt \<Longrightarrow> counter_value pt k \<le> counter_value pt' k"
  unfolding any_step_def using run_step_moves moves_counters host_step_counters by blast

lemma steps_counters: "any_step\<^sup>*\<^sup>* pt pt' \<Longrightarrow> table_ok pt \<Longrightarrow> counter_value pt k \<le> counter_value pt' k"
proof (induction rule: rtranclp_induct)
  case (step x y)
  then show ?case using any_step_counters [of x y k] steps_ok [of pt x] by fastforce
qed simp

lemma reached_ok: "any_step\<^sup>*\<^sup>* empty_table pt \<Longrightarrow> table_ok pt"
  using steps_ok empty_ok by blast

section \<open>A lease dies once\<close>

lemma moved_ends_spent:
  assumes "moved pt c r pt'" "table_ok pt" "current k c" "pr_owner r = None \<or> pr_exec_gen c < pr_exec_gen r"
  shows "spent k pt'"
proof -
  have ok: "table_ok pt'" and g: "get_process pt' (pr_pid r) = Some r" using moved_ok assms(1,2) by auto
  have a: "advances c r" using assms(1) by (simp add: moved_def)
  then have pid: "pr_pid r = tk_pid k" and le: "tk_generation k \<le> pr_exec_gen r"
    using assms(3) by (auto simp: advances_def current_def)
  have r: "r \<in> set (pt_rows pt')" using get_processD [OF g] by simp
  have "pr_exec_gen r = counter_value pt' (ExecutionCounter (pr_pid r))" using ok r by (simp add: table_ok_def counted_def)
  moreover have "\<not> current k x" if "x \<in> set (pt_rows pt')" for x
  proof
    assume x: "current k x"
    then have "pr_pid x = pr_pid r" by (simp add: current_def pid)
    then have "x = r" using ok r that by (auto simp: table_ok_def distinct_map dest: inj_onD)
    then show False using x assms(3,4) by (auto simp: current_def)
  qed
  ultimately show ?thesis using le by (simp add: spent_def pid)
qed

lemma spent_not_current: "spent k pt \<Longrightarrow> get_process pt pid = Some c \<Longrightarrow> \<not> current k c"
  using get_processD [of pt pid c] by (simp add: spent_def)

lemma ends_spent: "ends pt k pt' \<Longrightarrow> table_ok pt \<Longrightarrow> spent k pt'"
  unfolding ends_def using moved_ends_spent by blast

lemma ends_not_spent: "ends pt k pt' \<Longrightarrow> \<not> spent k pt"
  unfolding ends_def using spent_not_current by blast

lemma issues_spent:
  assumes "issues pt pid t pt'" "table_ok pt" "get_process pt pid = Some c" "current k c"
  shows "spent k pt'"
proof -
  obtain now where m: "moved pt c (claimed now (tk_owner t) (tk_lease t) (pr_exec_gen c + 1) c) pt'"
    using assms(1,3) by (auto simp: issues_def)
  show ?thesis by (rule moved_ends_spent [OF m assms(2,4)]) (simp add: claimed_def)
qed

lemma recovered_spent:
  assumes "recover_each h now ow rows pt = Inr (pt', ps)" "tk_pid k \<in> set ps" "table_ok pt"
    "get_process pt (tk_pid k) = Some c" "current k c"
  shows "spent k pt'"
  using assms
proof (induction rows arbitrary: pt ps c)
  case (Cons row rows)
  obtain pt1 x xs where one: "recover_one h now ow row pt = Inr (pt1, x)" and rest: "recover_each h now ow rows pt1 = Inr (pt', xs)"
    and ps: "ps = (case x of None \<Rightarrow> xs | Some p \<Rightarrow> p # xs)"
    using Cons.prems(1) by (auto simp: bindR_Inr_iff)
  have ms: "move\<^sup>*\<^sup>* pt pt1" using recover_one_moved [OF one] moved_moves by blast
  have ok: "table_ok pt1" using moves_ok [OF ms Cons.prems(3)] .
  show ?case
  proof (cases "x = Some (tk_pid k)")
    case True
    then obtain d r where d: "moved pt d r pt1" "pr_pid d = tk_pid k" "pr_owner r = None"
      using recover_one_moved [OF one] by auto
    then have "d = c" using Cons.prems(4) by (simp add: moved_def)
    then have "spent k pt1" using moved_ends_spent [OF d(1) Cons.prems(3)] Cons.prems(5) d(3) by blast
    then show ?thesis using moves_spent [OF recover_each_moves [OF rest] ok] by blast
  next
    case False
    then have "tk_pid k \<in> set xs" using Cons.prems(2) ps by (auto split: option.splits)
    moreover have "get_process pt1 (tk_pid k) = Some c"
    proof (cases x)
      case None
      then show ?thesis using recover_one_moved [OF one] Cons.prems(4) by auto
    next
      case (Some p)
      then obtain d r where "moved pt d r pt1" "pr_pid d = p" using recover_one_moved [OF one] by auto
      then have "pr_pid r \<noteq> tk_pid k" "pt_rows pt1 = pt_rows (put_row r pt)"
        using False Some advances_status(2) by (auto simp: moved_def)
      then show ?thesis using Cons.prems(4) by (simp add: get_process_def find_put_other)
    qed
    ultimately show ?thesis using Cons.IH [OF rest _ ok] Cons.prems(5) by blast
  qed
qed simp

text \<open>The operations that write the row of a process from the outside, under the scopes of an ambient.\<close>

inductive writes_row :: "ambient \<Rightarrow> string \<Rightarrow> proc_table \<Rightarrow> proc_row \<Rightarrow> bool" for am pid pt r where
  update: "update_process am p pt = Inr (pt', r) \<Longrightarrow> pr_pid p = pid \<Longrightarrow> writes_row am pid pt r"
| patch: "patch_process am now pid cols rv st pt = Inr (pt', r) \<Longrightarrow> writes_row am pid pt r"
| control: "patch_process_control am now pid cols rv sts why pt = Inr (pt', r) \<Longrightarrow> writes_row am pid pt r"
| transition: "transition h am now pid st rv est eg w out msg ctl sts why pt = Inr (pt', r) \<Longrightarrow> writes_row am pid pt r"
| wake: "wake h am now tok ctl why pt = Inr (pt', r) \<Longrightarrow> st_pid tok = pid \<Longrightarrow> writes_row am pid pt r"

lemma transition_update:
  assumes "transition h am now pid st rv est eg w out msg ctl sts why pt = Inr (pt', r)"
  obtains am' p where "update_process_row am' True p pt = Inr (pt', r)" "pr_pid p = pid"
    "am_token am' = am_token am" "am_terminal am' = am_terminal am"
  using assms
proof (rule transition_apply, elim apply_transition_update)
  fix am' c m p
  assume "update_process_row am' True p pt = Inr (pt', r)" "get_process pt pid = Some c"
    "p = c\<lparr>pr_status := st, pr_wait := w, pr_outcome := out, pr_state_gen := pr_state_gen c + 1,
       pr_message := opt_str m, pr_updated := VStr now\<rparr>" "am_token am' = am_token am" "am_terminal am' = am_terminal am"
  then show thesis using that [of am' p] get_processD [of pt pid c] by simp
qed

lemma writes_row_update:
  assumes "writes_row am pid pt r"
  obtains am' allow p pt' where "update_process_row am' allow p pt = Inr (pt', r)" "pr_pid p = pid"
    "am_token am' = am_token am" "am_terminal am' = am_terminal am"
  using assms
proof cases
  case (update p pt')
  then show ?thesis using that [of am False p pt'] by (simp add: update_process_def)
next
  case (patch now cols rv st pt')
  then show ?thesis by (rule patch_process_update) (use that in blast)
next
  case (control now cols rv sts why pt')
  then show ?thesis by (rule patch_control_update) (use that in blast)
next
  case (transition h now st rv est eg w out msg ctl sts why pt')
  then show ?thesis by (rule transition_update) (use that in blast)
next
  case (wake h now tok ctl why pt')
  from wake(1) show ?thesis
  proof (rule wake_transition)
    fix c sts
    assume "transition h am now (st_pid tok) StRunnable (pr_revision c) (Some (pr_status c)) (Some (st_generation tok))
       None None None ctl sts why pt = Inr (pt', r)"
    then show ?thesis by (rule transition_update) (use that wake(2) in blast)
  qed
qed

text \<open>What a terminal scope must name for a write to a row that has ended.\<close>

definition fits_terminal :: "terminal_scope \<Rightarrow> exec_token \<Rightarrow> proc_row \<Rightarrow> bool" where
  "fits_terminal m k c \<longleftrightarrow> terminal (pr_status c) \<and> pr_exec_gen c = tk_generation k + 1 \<and> pr_owner c = None \<and> pr_lease c = None
     \<and> ts_target m = tk_pid k \<and> ts_token m = Some k \<and> ts_revision m = pr_revision c \<and> ts_generation m = pr_exec_gen c
     \<and> pr_status c \<in> set (ts_statuses m)"

lemma update_fence_terminal:
  assumes "update_fence am c p pt = Inr x" "am_token am = Some k" "tk_pid k = pr_pid c" "terminal (pr_status c)"
  shows "pr_status p = pr_status c \<and> (\<exists>m. am_terminal am = Some m \<and> fits_terminal m k c)"
  using assms unfolding update_fence_def bindR_Inr_iff Let_def assert_terminal_def
  by (auto simp: bindR_Inr_iff fits_terminal_def split: option.splits)

lemma spent_write:
  assumes "writes_row am (tk_pid k) pt r" "am_token am = Some k" "spent k pt"
  shows "\<exists>c m. get_process pt (tk_pid k) = Some c \<and> am_terminal am = Some m \<and> fits_terminal m k c \<and> pr_status r = pr_status c"
proof -
  obtain am' allow p pt' where u: "update_process_row am' allow p pt = Inr (pt', r)" "pr_pid p = tk_pid k"
    and am: "am_token am' = Some k" "am_terminal am' = am_terminal am"
    using writes_row_update [OF assms(1)] assms(2) by metis
  obtain c where c: "get_process pt (tk_pid k) = Some c" "pr_status r = pr_status p"
    and f: "update_fence am' c p pt = Inr (pr_exec_gen r, pr_owner r, pr_lease r)"
    using update_moved [OF u(1)] u(2) by metis
  have "terminal (pr_status c)"
  proof (rule ccontr)
    assume "\<not> terminal (pr_status c)"
    then have "current k c" using update_fence_worker [OF f am(1)] u(2) get_processD [OF c(1)] by (simp add: current_def)
    then show False using spent_not_current [OF assms(3)] c(1) by blast
  qed
  from update_fence_terminal [OF f am(1) _ this] show ?thesis using get_processD [OF c(1)] c am(2) by auto
qed

section \<open>A sample run\<close>

definition sample_row :: proc_row where
  "sample_row = \<lparr>pr_pid = ''p'', pr_status = StRunnable, pr_wait = None, pr_outcome = None, pr_message = VNone,
     pr_state_gen = 0, pr_revision = 0, pr_exec_gen = 0, pr_owner = None, pr_lease = None, pr_run = None, pr_epoch = None,
     pr_role = None, pr_updated = VNone, pr_data = []\<rparr>"

definition table_of :: "proc_row \<Rightarrow> proc_table" where
  "table_of r = empty_table\<lparr>pt_rows := [r], pt_counters := [(RevisionCounter (pr_pid r), pr_revision r),
     (ExecutionCounter (pr_pid r), pr_exec_gen r), (StateCounter (pr_pid r), pr_state_gen r)]\<rparr>"

definition running_row :: proc_row where
  "running_row = claimed ''t1'' ''w'' ''l'' 1 sample_row"

definition sample_token :: exec_token where
  "sample_token = \<lparr>tk_pid = ''p'', tk_generation = 1, tk_owner = ''w'', tk_lease = ''l'', tk_epoch = None\<rparr>"

definition stopped_row :: proc_row where
  "stopped_row = running_row\<lparr>pr_updated := VStr ''t2'', pr_revision := 2, pr_exec_gen := 2, pr_owner := None, pr_lease := None\<rparr>"

lemma sample_insert: "insert_process sample_row empty_table = Inr (table_of sample_row)"
  by code_simp

lemma sample_claim:
  "claim_execution ''t1'' ''l'' ''p'' ''w'' None (table_of sample_row) = Inr (table_of running_row, Some sample_token)"
  by code_simp

lemma sample_release: "release_execution ''t2'' sample_token (table_of running_row) = (table_of stopped_row, True)"
  by code_simp

lemma sample_steps:
  "any_step\<^sup>*\<^sup>* empty_table (table_of sample_row)" "any_step\<^sup>*\<^sup>* empty_table (table_of running_row)"
  "any_step (table_of running_row) (table_of stopped_row)"
proof -
  have "fresh sample_row empty_table" by code_simp
  then have 1: "any_step empty_table (table_of sample_row)"
    unfolding any_step_def using sample_insert by (blast intro: run_step.intros)
  have 2: "any_step (table_of sample_row) (table_of running_row)"
    unfolding any_step_def using sample_claim by (blast intro: run_step.intros)
  show "any_step\<^sup>*\<^sup>* empty_table (table_of sample_row)" using 1 by simp
  show "any_step\<^sup>*\<^sup>* empty_table (table_of running_row)" using 1 2 by (meson r_into_rtranclp rtranclp_trans)
  show "any_step (table_of running_row) (table_of stopped_row)"
    unfolding any_step_def using sample_release by (blast intro: run_step.intros)
qed

section \<open>Properties\<close>

text \<open>
  C26. In every table that any sequence of operations reaches, no two rows share a pid; every row's status,
  wait state and outcome fit together; a row is held by an owner exactly when it carries a lease, and then it
  is running; and its revision, execution generation and state generation are exactly the counters of its pid,
  which never fall, so that no generation is ever used twice, even across restores and deletions.
\<close>

theorem reachable_processes_typed:
  assumes "any_step\<^sup>*\<^sup>* empty_table pt" "r \<in> set (pt_rows pt)" "any_step\<^sup>*\<^sup>* pt pt'"
  shows "get_process pt (pr_pid r) = Some r
    \<and> validate_state (pr_status r) (pr_wait r) (pr_outcome r) = Inr ()
    \<and> (pr_owner r = None \<longleftrightarrow> pr_lease r = None) \<and> (pr_owner r \<noteq> None \<longrightarrow> pr_status r = StRunning)
    \<and> pr_revision r = counter_value pt (RevisionCounter (pr_pid r))
    \<and> pr_exec_gen r = counter_value pt (ExecutionCounter (pr_pid r))
    \<and> pr_state_gen r = counter_value pt (StateCounter (pr_pid r))
    \<and> counter_value pt k \<le> counter_value pt' k"
proof -
  note ok = reached_ok [OF assms(1)]
  then have r: "row_ok r" "counted pt r" using assms(2) by (auto simp: table_ok_def)
  have "distinct (map pr_pid rs) \<Longrightarrow> r \<in> set rs \<Longrightarrow> List.find (\<lambda>x. pr_pid x = pr_pid r) rs = Some r" for rs
    by (induction rs) auto
  then have "get_process pt (pr_pid r) = Some r" using ok assms(2) by (simp add: get_process_def table_ok_def)
  moreover have "validate_state (pr_status r) (pr_wait r) (pr_outcome r) = Inr ()" using r by (simp add: row_ok_def)
  moreover have "(pr_owner r = None \<longleftrightarrow> pr_lease r = None) \<and> (pr_owner r \<noteq> None \<longrightarrow> pr_status r = StRunning)"
    using r by (auto simp: row_ok_def)
  moreover have "counter_value pt k \<le> counter_value pt' k" by (rule steps_counters [OF assms(3) ok])
  ultimately show ?thesis using r(2) unfolding counted_def by blast
qed

theorem reachable_processes_typed_witness:
  "pr_exec_gen running_row = 1 \<and> pr_exec_gen running_row = counter_value (table_of running_row) (ExecutionCounter ''p'')"
proof -
  have "running_row \<in> set (pt_rows (table_of running_row))" by (simp add: table_of_def)
  from reachable_processes_typed [OF sample_steps(2) this rtranclp.rtrancl_refl]
  show ?thesis by (simp add: running_row_def claimed_def sample_row_def)
qed

text \<open>
  Once a process is terminal, no sequence of ordinary operations removes its row, changes its status or
  lowers a generation; only the Host's restoration of a snapshot or the deletion of the scaffold can.
\<close>

theorem terminal_is_final:
  assumes "any_step\<^sup>*\<^sup>* empty_table pt" "run_step\<^sup>*\<^sup>* pt pt'" "get_process pt pid = Some c" "terminal (pr_status c)"
  shows "\<exists>c'. get_process pt' pid = Some c' \<and> pr_status c' = pr_status c \<and> pr_revision c \<le> pr_revision c'
    \<and> pr_exec_gen c \<le> pr_exec_gen c' \<and> pr_owner c' = None"
proof -
  note ok = reached_ok [OF assms(1)]
  note m = run_steps_ok [OF assms(2) ok]
  obtain c' where c': "get_process pt' pid = Some c'" "pr_revision c \<le> pr_revision c'" "pr_exec_gen c \<le> pr_exec_gen c'"
    "pr_status c' = pr_status c"
    using moves_row [OF conjunct2 [OF m] assms(3)] assms(4) by blast
  have "row_ok c'" using m get_processD [OF c'(1)] by (simp add: table_ok_def)
  moreover have "pr_status c' \<noteq> StRunning" using c'(4) assms(4) by auto
  ultimately show ?thesis using c' by (auto simp: row_ok_def)
qed

definition exited_row :: proc_row where
  "exited_row = running_row\<lparr>pr_status := StExited, pr_outcome := Some (ExitedOutcome None), pr_state_gen := 2,
     pr_updated := VStr ''t2'', pr_revision := 2, pr_exec_gen := 2, pr_owner := None, pr_lease := None\<rparr>"

definition exited_table :: proc_table where
  "exited_table = ensure_cleanup ''p'' StExited (table_of exited_row)"

definition sample_hosting :: host where
  "sample_hosting =
     \<lparr>h_repr = (\<lambda>_. ''?''), h_parse_float = (\<lambda>_. None), h_iso = (\<lambda>_. None), h_isoformat = (\<lambda>_. []),
      h_sha256 = (\<lambda>_. replicate 64 (CHR ''a'')), h_regex_compiles = (\<lambda>_. True), h_regex_fullmatch = (\<lambda>_ _. None),
      h_deadline_passed = (\<lambda>_. False), h_regex_pattern_max_bytes = 0, h_regex_token_max_bytes = 0\<rparr>"

theorem terminal_is_final_witness:
  "\<exists>c'. get_process (put_cleanup \<lparr>cl_pid = ''p'', cl_status = StExited, cl_state = CleanupRunning, cl_phases = [],
      cl_attempts = 1, cl_owner = Some ''o'', cl_lease = Some ''l'', cl_failed = None\<rparr> exited_table) ''p'' = Some c'
    \<and> pr_status c' = StExited"
proof -
  have "complete_execution sample_hosting ''t2'' sample_token StExited None None (Some (ExitedOutcome None))
      (table_of running_row) = Inr (exited_table, True)"
    by code_simp
  then have "any_step (table_of running_row) exited_table" unfolding any_step_def by (blast intro: run_step.intros)
  then have r: "any_step\<^sup>*\<^sup>* empty_table exited_table" using sample_steps(2) by simp
  let ?c = "\<lparr>cl_pid = ''p'', cl_status = StExited, cl_state = CleanupRunning, cl_phases = [],
      cl_attempts = 1, cl_owner = Some ''o'', cl_lease = Some ''l'', cl_failed = None\<rparr>"
  have "claim_cleanup ''p'' ''o'' ''l'' None exited_table = Inr (put_cleanup ?c exited_table, Some ?c)" by code_simp
  then have s: "run_step\<^sup>*\<^sup>* exited_table (put_cleanup ?c exited_table)" by (blast intro: run_step.intros)
  have g: "get_process exited_table ''p'' = Some exited_row" by code_simp
  have t: "terminal (pr_status exited_row)" "pr_status exited_row = StExited" by code_simp+
  from terminal_is_final [OF r s g t(1)] show ?thesis using t(2) by auto
qed

text \<open>
  C27. An execution lease dies once. After its holder completed or released it, after any claim of the process
  took over, or after the recovery of stale executions paused the process, no sequence of operations,
  restores included, makes the token valid again: completing, releasing and rotating with it fail, and code
  bound to it cannot write its own row, by update, patch, control patch, transition or wake, except a row that
  ended right under this lease, which a terminal scope open for exactly that row, revision and token lets
  it write without changing the status.
\<close>

theorem lease_dies_once:
  assumes "any_step\<^sup>*\<^sup>* empty_table pt" "get_process pt (tk_pid k) = Some c" "current k c"
    and "complete_execution h now k st msg w out pt = Inr (pt1, True) \<or> release_execution now k pt = (pt1, True)
      \<or> claim_execution now lease (tk_pid k) ow ep pt = Inr (pt1, Some k1)
      \<or> claim_host_exec now lease (tk_pid k) ow rv sg eg ep pt = Inr (pt1, Some k1)
      \<or> claim_worker_exec now lease (tk_pid k) k0 ow rv sg ep pt = Inr (pt1, Some k1)
      \<or> (recover_each h now ow rows pt = Inr (pt1, ps) \<and> tk_pid k \<in> set ps)"
    and "any_step\<^sup>*\<^sup>* pt1 pt2"
  shows "complete_execution h' now' k st' msg' w' out' pt2 \<noteq> Inr (pt3, True)
    \<and> release_execution now' k pt2 = (pt2, False)
    \<and> claim_worker_exec now' lease' pid' k ow' rv' sg' ep' pt2 \<noteq> Inr (pt3, Some k3)
    \<and> (writes_row (bind_execution k am) (tk_pid k) pt2 r \<longrightarrow>
      (\<exists>d m. get_process pt2 (tk_pid k) = Some d \<and> am_terminal am = Some m \<and> fits_terminal m k d
         \<and> pr_status r = pr_status d))"
proof -
  note ok = reached_ok [OF assms(1)]
  have step: "any_step pt pt1" using assms(4) unfolding any_step_def by (blast intro: run_step.intros)
  have "spent k pt1"
    using assms(4)
  proof (elim disjE conjE)
    assume "complete_execution h now k st msg w out pt = Inr (pt1, True)"
    then show ?thesis using complete_ends ends_spent [OF _ ok] by fastforce
  next
    assume "release_execution now k pt = (pt1, True)"
    then show ?thesis using release_ends [OF _ ok] ends_spent [OF _ ok] by fastforce
  next
    assume "claim_execution now lease (tk_pid k) ow ep pt = Inr (pt1, Some k1)"
    then show ?thesis using claim_issues issues_spent [OF _ ok assms(2,3)] by blast
  next
    assume "claim_host_exec now lease (tk_pid k) ow rv sg eg ep pt = Inr (pt1, Some k1)"
    then show ?thesis using claim_host_issues issues_spent [OF _ ok assms(2,3)] by blast
  next
    assume "claim_worker_exec now lease (tk_pid k) k0 ow rv sg ep pt = Inr (pt1, Some k1)"
    then show ?thesis using claim_worker_issues issues_spent [OF _ ok assms(2,3)] by blast
  next
    assume "recover_each h now ow rows pt = Inr (pt1, ps)" "tk_pid k \<in> set ps"
    then show ?thesis using recovered_spent ok assms(2,3) by blast
  qed
  then have sp: "spent k pt2" using steps_spent [OF assms(5)] any_step_ok [OF step ok] by blast
  have ok2: "table_ok pt2" using steps_ok [OF assms(5)] any_step_ok [OF step ok] by blast
  show ?thesis
  proof (intro conjI impI)
    show "complete_execution h' now' k st' msg' w' out' pt2 \<noteq> Inr (pt3, True)"
      using complete_ends ends_not_spent sp by fastforce
    show "release_execution now' k pt2 = (pt2, False)"
      using release_ends [of now' k pt2 _ _, OF _ ok2] ends_not_spent sp
      by (cases "release_execution now' k pt2") (auto split: if_splits)
    show "claim_worker_exec now' lease' pid' k ow' rv' sg' ep' pt2 \<noteq> Inr (pt3, Some k3)"
      using claim_worker_issues spent_not_current [OF sp] by blast
    assume "writes_row (bind_execution k am) (tk_pid k) pt2 r"
    from spent_write [OF this _ sp] show "\<exists>d m. get_process pt2 (tk_pid k) = Some d \<and> am_terminal am = Some m
        \<and> fits_terminal m k d \<and> pr_status r = pr_status d"
      by (simp add: bind_execution_def)
  qed
qed

theorem lease_dies_once_witness:
  "release_execution ''t3'' sample_token (table_of stopped_row) = (table_of stopped_row, False)"
proof -
  have g: "get_process (table_of running_row) (tk_pid sample_token) = Some running_row" by code_simp
  have c: "current sample_token running_row" by code_simp
  show ?thesis
    using lease_dies_once [OF sample_steps(2) g c disjI2 [OF disjI1 [OF sample_release]] rtranclp.rtrancl_refl] by blast
qed

end
