(* ===== verification/ProcWake.thy ===== *)
theory ProcWake
  imports ProcReach
begin

text \<open>
  Waiting and recovery: a wait token wakes its process exactly once, and the recovery of stale executions
  ends, pauses every one of them and leaves the other rows alone.
\<close>

section \<open>Waking\<close>

lemma mapR_Inr_each: "mapR f xs = Inr ys \<Longrightarrow> x \<in> set xs \<Longrightarrow> \<exists>y. f x = Inr y"
  by (induction xs arbitrary: ys) (auto simp: bindR_Inr_iff)

lemma strict_json_eq: "strict_json v = Inr w \<Longrightarrow> py_eq v v"
proof (induction v arbitrary: w)
  case (VFloat x)
  then show ?case by (cases x) (auto simp: state_error_def)
next
  case (VList xs)
  then obtain ys where "mapR strict_json xs = Inr ys" by (auto simp: bindR_Inr_iff)
  then have "py_eq x x" if "x \<in> set xs" for x
    using VList.IH [OF that] mapR_Inr_each [of strict_json xs ys x] that by blast
  then show ?case by (simp add: list.rel_refl_strong)
next
  case (VDict d)
  then obtain e where e: "mapR (\<lambda>p. if is_str (fst p) then bindR (strict_json (snd p)) (\<lambda>v. Inr (fst p, v))
         else state_error ''message filters'' '' contain a non-string JSON object key'') d = Inr e"
    by (auto simp: bindR_Inr_iff)
  have "py_eq (fst p) (fst p) \<and> py_eq (snd p) (snd p)" if p: "p \<in> set d" for p
  proof -
    obtain q where q: "(if is_str (fst p) then bindR (strict_json (snd p)) (\<lambda>v. Inr (fst p, v))
         else state_error ''message filters'' '' contain a non-string JSON object key'') = Inr q"
      using mapR_Inr_each [OF e p] by blast
    then have "is_str (fst p)" and s: "\<exists>v. strict_json (snd p) = Inr v" by (auto simp: bindR_Inr_iff split: if_splits)
    then have "py_eq (fst p) (fst p)" by (cases "fst p") auto
    moreover have "snd p \<in> Basic_BNFs.snds p" by (simp add: snds.simps)
    ultimately show ?thesis using VDict.IH(2) [OF p] s by blast
  qed
  then show ?case by (auto simp: list_all_iff list_ex_iff)
qed auto

lemma wait_same_refl: "wait_wf w \<Longrightarrow> wait_same (Some w) (Some w)"
  by (cases w) (auto simp: wait_same_def dest: strict_json_eq simp del: strict_json.simps py_eq.simps)

lemma wait_same_condition: "wait_same (Some v) (Some w) \<Longrightarrow> condition_wait v = condition_wait w"
  by (cases v) (auto simp: wait_same_def condition_wait_def split: proc_wait.splits)

lemma condition_wait_status:
  "wait_matches st (Some w) \<Longrightarrow> condition_wait w \<Longrightarrow> condition_status st"
  by (cases st; cases w) (auto simp: wait_matches_def condition_wait_def condition_status_def)

text \<open>
  Who may write a row that is neither running nor terminal: no takeover of another process is open, and the running
  code, if it is a worker's, is not that process itself and has a control scope for the row and its status.
\<close>

definition fence_open :: "ambient \<Rightarrow> string \<Rightarrow> process_status \<Rightarrow> bool" where
  "fence_open am pid st \<longleftrightarrow>
     (case am_takeover am of None \<Rightarrow> True | Some v \<Rightarrow> tv_target v = pid)
     \<and> (case am_token am of
          None \<Rightarrow> True
        | Some t \<Rightarrow> tk_pid t \<noteq> pid
            \<and> (case am_control am of None \<Rightarrow> False | Some s \<Rightarrow> cs_target s = pid \<and> st \<in> set (cs_statuses s)))"

lemma update_open:
  assumes "get_process pt (pr_pid p) = Some c" "pr_revision p = pr_revision c"
    "\<not> terminal (pr_status c)" "pr_status c \<noteq> StRunning" "validate_write p (Some c) allow = Inr ()"
  shows "(\<exists>x. update_process_row am allow p pt = Inr x) \<longleftrightarrow> fence_open am (pr_pid p) (pr_status c)"
  using assms
  by (auto simp: update_process_row_def update_fence_def assert_target_def assert_admission_owner_def Let_def fence_open_def
      bindR_Inr_iff check_def split: option.splits)

definition wake_ready :: "state_token \<Rightarrow> proc_row \<Rightarrow> bool" where
  "wake_ready tok c \<longleftrightarrow> pr_state_gen c = st_generation tok \<and> wait_same (pr_wait c) (Some (st_wait tok))
     \<and> condition_wait (st_wait tok) \<and> condition_status (pr_status c)"

text \<open>
  Who may wake: with \<open>control\<close> the wake opens a control scope for the target and its status itself, which needs a
  process identifier and a reason that are not blank, and reaches the target only if its identifier has no outer blanks.
\<close>

definition wake_allowed :: "ambient \<Rightarrow> bool \<Rightarrow> string option \<Rightarrow> string \<Rightarrow> process_status \<Rightarrow> bool" where
  "wake_allowed am control why pid st \<longleftrightarrow>
     (if control then strip pid \<noteq> [] \<and> (case why of None \<Rightarrow> True | Some r \<Rightarrow> r = [] \<or> strip r \<noteq> [])
        \<and> (case am_takeover am of None \<Rightarrow> True | Some v \<Rightarrow> tv_target v = pid)
        \<and> (case am_token am of None \<Rightarrow> True | Some t \<Rightarrow> tk_pid t \<noteq> pid \<and> strip pid = pid)
      else fence_open am pid st)"

lemma control_open:
  "(\<exists>am'. control_mutation pid [st] why am = Inr am' \<and> fence_open am' pid st) \<longleftrightarrow>
     strip pid \<noteq> [] \<and> strip why \<noteq> [] \<and> (case am_takeover am of None \<Rightarrow> True | Some v \<Rightarrow> tv_target v = pid)
     \<and> (case am_token am of None \<Rightarrow> True | Some t \<Rightarrow> tk_pid t \<noteq> pid \<and> strip pid = pid)"
  by (auto simp: control_mutation_def fence_open_def bindR_Inr_iff check_def split: option.splits)

lemma default_reason: "strip ''semantic process state transition'' \<noteq> []"
  by code_simp

lemma bind_ok: "(\<exists>x. bindR m f = Inr x) \<longleftrightarrow> (\<exists>a. m = Inr a \<and> (\<exists>x. f a = Inr x))"
  by (cases m) auto

lemma wake_open:
  assumes "row_ok c" "get_process pt (st_pid tok) = Some c" "wake_ready tok c"
  shows "(\<exists>x. wake h am now tok control why pt = Inr x) \<longleftrightarrow> wake_allowed am control why (st_pid tok) (pr_status c)"
proof -
  let ?f = "\<lambda>r. r\<lparr>pr_status := StRunnable, pr_wait := None, pr_outcome := None, pr_state_gen := pr_state_gen c + 1,
     pr_message := VNone, pr_updated := VStr now\<rparr>"
  let ?why = "case why of Some r \<Rightarrow> if r = [] then ''semantic process state transition'' else r
    | None \<Rightarrow> ''semantic process state transition''"
  obtain v where v: "pr_wait c = Some v" "condition_wait v"
    using assms(3) wait_same_condition by (cases "pr_wait c") (auto simp: wake_ready_def wait_same_def)
  have st: "\<not> terminal (pr_status c)" "pr_status c \<noteq> StRunning"
    using assms(3) by (auto simp: wake_ready_def condition_status_def)
  have "validate_write (?f c) (Some c) True = Inr ()"
    using assms(1) by (simp add: validate_write_def wait_matches_def outcome_matches_def is_stale_wait_def row_ok_def check_def
        bindR_Inr_iff)
  then have upd: "(\<exists>x. patch_row a True (st_pid tok) (pr_revision c) (Some (pr_status c)) ?f pt = Inr x)
      \<longleftrightarrow> fence_open a (st_pid tok) (pr_status c)" for a
    using update_open [of pt "?f c" c True a] assms(2) st get_processD [OF assms(2)] by (simp add: patch_row_def)
  have eq: "wake h am now tok control why pt =
      (if control then bindR (control_mutation (st_pid tok) [pr_status c] ?why am)
         (\<lambda>a. patch_row a True (st_pid tok) (pr_revision c) (Some (pr_status c)) ?f pt)
       else patch_row am True (st_pid tok) (pr_revision c) (Some (pr_status c)) ?f pt)"
    using assms v
    by (auto simp: wake_def wake_ready_def transition_def apply_transition_def row_ok_def validate_state_def wait_matches_def
        outcome_matches_def is_stale_wait_def status_message_def opt_str_def check_def split: option.splits)
  show ?thesis
  proof (cases control)
    case True
    have "(\<exists>x. wake h am now tok control why pt = Inr x) \<longleftrightarrow>
        (\<exists>a. control_mutation (st_pid tok) [pr_status c] ?why am = Inr a \<and> fence_open a (st_pid tok) (pr_status c))"
      unfolding eq by (simp only: True if_True bind_ok upd)
    then show ?thesis unfolding control_open using default_reason by (auto simp: True wake_allowed_def split: option.splits)
  next
    case False
    then show ?thesis unfolding eq wake_allowed_def by (simp only: if_False upd)
  qed
qed

lemma wake_result:
  assumes "wake h am now tok control why pt = Inr (pt', r)"
  obtains c where "get_process pt (st_pid tok) = Some c" "wake_ready tok c" "moved pt c r pt'"
    "pr_status r = StRunnable" "pr_wait r = None" "pr_outcome r = None" "pr_state_gen r = pr_state_gen c + 1"
proof -
  obtain c sts where c: "get_process pt (st_pid tok) = Some c" "pr_state_gen c = st_generation tok"
    "wait_same (pr_wait c) (Some (st_wait tok))" "condition_status (pr_status c)" "condition_wait (st_wait tok)"
    and t: "transition h am now (st_pid tok) StRunnable (pr_revision c) (Some (pr_status c)) (Some (st_generation tok))
       None None None control sts why pt = Inr (pt', r)"
    using wake_transition [OF assms] by metis
  obtain sts' why' where a: "apply_transition h am now (st_pid tok) StRunnable (pr_revision c) (Some (pr_status c))
      (Some (st_generation tok)) None None None control sts' why' pt = Inr (pt', r)"
    by (rule transition_apply [OF t])
  obtain am' d m p where u: "update_process_row am' True p pt = Inr (pt', r)" "get_process pt (st_pid tok) = Some d"
    "p = d\<lparr>pr_status := StRunnable, pr_wait := None, pr_outcome := None, pr_state_gen := pr_state_gen d + 1,
       pr_message := opt_str m, pr_updated := VStr now\<rparr>"
    using apply_transition_update [OF a] by metis
  obtain e where e: "moved pt e r pt'" "pr_pid e = pr_pid p" "pr_state_gen r = pr_state_gen e + 1"
    "get_process pt (pr_pid p) = Some e" "pr_status r = pr_status p" "pr_wait r = pr_wait p" "pr_outcome r = pr_outcome p"
    using update_moved [OF u(1)] by (metis (full_types))
  have "d = c" using u(2) c(1) by simp
  moreover have "pr_pid p = st_pid tok" using u(3) get_processD [OF u(2)] by simp
  ultimately have "e = c" using e(4) c(1) by simp
  then show thesis using that c e u(3) by (simp add: wake_ready_def)
qed

lemma woken_row:
  assumes "wake h am now tok control why pt = Inr (pt1, r)" "table_ok pt" "get_process pt (st_pid tok) = Some c"
  shows "get_process pt1 (st_pid tok) = Some r \<and> pr_status r = StRunnable \<and> pr_wait r = None
    \<and> pr_state_gen r = pr_state_gen c + 1 \<and> (\<forall>pid. pid \<noteq> st_pid tok \<longrightarrow> get_process pt1 pid = get_process pt pid)"
proof -
  have R: "moved pt c r pt1" "pr_status r = StRunnable" "pr_wait r = None" "pr_state_gen r = pr_state_gen c + 1"
    using wake_result [OF assms(1)] assms(3) by (metis option.inject)+
  then have rows: "pt_rows pt1 = pt_rows (put_row r pt)" "pr_pid r = st_pid tok"
    using get_processD [OF assms(3)] advances_status(2) by (auto simp: moved_def)
  then have "get_process pt1 pid = get_process pt pid" if "pid \<noteq> st_pid tok" for pid
    using find_put_other [of r pid] that by (simp add: get_process_def)
  then show ?thesis using R moved_ok(2) [OF R(1) assms(2)] rows(2) by metis
qed

lemma never_again:
  assumes "wake h am now tok control why pt = Inr (pt1, r)" "table_ok pt" "any_step\<^sup>*\<^sup>* pt1 pt2"
  shows "wake h' am' now' tok control' why' pt2 \<noteq> Inr x"
proof
  assume again: "wake h' am' now' tok control' why' pt2 = Inr x"
  obtain c where c: "get_process pt (st_pid tok) = Some c" "wake_ready tok c" using wake_result [OF assms(1)] by metis
  have "any_step pt pt1" using assms(1) unfolding any_step_def by (blast intro: run_step.intros)
  then have ok1: "table_ok pt1" using any_step_ok assms(2) by blast
  then have ok2: "table_ok pt2" using steps_ok assms(3) by blast
  note R = woken_row [OF assms(1,2) c(1)]
  obtain d where d: "get_process pt2 (st_pid tok) = Some d" "wake_ready tok d"
    using wake_result again by (metis surj_pair)
  have "pr_state_gen r = counter_value pt1 (StateCounter (st_pid tok))"
    using ok1 R get_processD [of pt1 "st_pid tok" r] by (auto simp: table_ok_def counted_def)
  moreover have "pr_state_gen d = counter_value pt2 (StateCounter (st_pid tok))"
    using ok2 get_processD [OF d(1)] by (auto simp: table_ok_def counted_def)
  moreover have "counter_value pt1 k \<le> counter_value pt2 k" for k by (rule steps_counters [OF assms(3) ok1])
  ultimately have "pr_state_gen r \<le> pr_state_gen d" by simp
  then show False using R c(2) d(2) by (simp add: wake_ready_def)
qed

section \<open>Recovery\<close>

definition digests :: "host \<Rightarrow> bool" where
  "digests h \<longleftrightarrow> (\<forall>s. plain_sha (h_sha256 h s))"

definition receipt :: "host \<Rightarrow> string \<Rightarrow> proc_row \<Rightarrow> proc_wait" where
  "receipt h ow r = StaleWait \<lparr>sw_pid = strip (pr_pid r), sw_by = h_sha256 h ow,
     sw_prior_owner = identity_sha h (pr_owner r), sw_prior_lease = identity_sha h (pr_lease r),
     sw_prior_execution = pr_exec_gen r, sw_execution = pr_exec_gen r + 1, sw_state = pr_state_gen r + 1\<rparr>"

definition paused_row :: "host \<Rightarrow> string \<Rightarrow> string \<Rightarrow> proc_row \<Rightarrow> proc_row" where
  "paused_row h now ow r = r\<lparr>pr_status := StPaused, pr_message := VStr ''stale_execution_recovery'', pr_updated := VStr now,
     pr_wait := Some (receipt h ow r), pr_outcome := None, pr_state_gen := pr_state_gen r + 1,
     pr_revision := pr_revision r + 1, pr_exec_gen := pr_exec_gen r + 1, pr_owner := None, pr_lease := None\<rparr>"

lemma identity_sha_plain: "digests h \<Longrightarrow> plain_sha_opt (identity_sha h v)"
  by (auto simp: digests_def identity_sha_def plain_sha_opt_def split: option.splits)

lemma recover_one_stale:
  assumes "digests h" "row_ok r" "strip (pr_pid r) \<noteq> []" "stale_row ow r" "get_process pt (pr_pid r) = Some r"
  shows "recover_one h now ow r pt = Inr (observe_row (paused_row h now ow r) (put_row (paused_row h now ow r) pt), Some (pr_pid r))"
proof -
  have "make_stale (dget (sdict
       [(''pid'', VStr (pr_pid r)), (''recovered_by_owner_sha256'', VStr (h_sha256 h ow)),
        (''prior_owner_sha256'', opt_str (identity_sha h (pr_owner r))),
        (''prior_lease_sha256'', opt_str (identity_sha h (pr_lease r))),
        (''prior_execution_generation'', VInt (pr_exec_gen r)),
        (''recovered_execution_generation'', VInt (pr_exec_gen r + 1)),
        (''recovered_state_generation'', VInt (pr_state_gen r + 1))])) = Inr (receipt h ow r)"
    using assms(1-3) plain_sha_accepted(1) plain_sha_accepted(2) [OF identity_sha_plain [OF assms(1)]]
    by (simp add: make_stale_def dget_sdict digests_def receipt_def non_empty_string_def nonnegative_integer_def
        positive_integer_def row_ok_def del: non_empty_string_Inr integers_Inr)
  then show ?thesis using assms(4,5) by (simp add: recover_one_def paused_row_def Let_def)
qed

lemma paused_not_stale [simp]: "\<not> stale_row ow (paused_row h now ow' r)" "pr_pid (paused_row h now ow r) = pr_pid r"
  by (simp_all add: stale_row_def paused_row_def)

text \<open>The rows after those of \<open>ds\<close> have been recovered.\<close>

definition recovered_rows :: "host \<Rightarrow> string \<Rightarrow> string \<Rightarrow> string set \<Rightarrow> proc_row list \<Rightarrow> proc_row list" where
  "recovered_rows h now ow A rs = map (\<lambda>x. if pr_pid x \<in> A then paused_row h now ow x else x) rs"

lemma get_recovered:
  assumes "distinct (map pr_pid rs)" "r \<in> set rs" "pr_pid r \<notin> A" "pt_rows pt = recovered_rows h now ow A rs"
  shows "get_process pt (pr_pid r) = Some r"
proof -
  have "List.find (\<lambda>x. pr_pid x = pr_pid r) (recovered_rows h now ow A rs) = Some r"
    using assms(1-3) by (induction rs) (auto simp: recovered_rows_def)
  then show ?thesis by (simp add: get_process_def assms(4))
qed

lemma recovered_put:
  assumes "distinct (map pr_pid rs)" "r \<in> set rs" "pr_pid r \<notin> A"
  shows "map (\<lambda>x. if pr_pid x = pr_pid r then paused_row h now ow r else x) (recovered_rows h now ow A rs)
    = recovered_rows h now ow (insert (pr_pid r) A) rs"
proof -
  have "x = r" if "x \<in> set rs" "pr_pid x = pr_pid r" for x
    using assms(1,2) that by (auto simp: distinct_map dest: inj_onD)
  then show ?thesis using assms(3) by (auto simp: recovered_rows_def)
qed

lemma recover_each_stale:
  assumes "digests h" "\<forall>r \<in> set rs. row_ok r \<and> strip (pr_pid r) \<noteq> []" "distinct (map pr_pid rs)"
    and "set ds \<subseteq> set rs" "distinct (map pr_pid ds)" "\<forall>d \<in> set ds. stale_row ow d \<and> pr_pid d \<notin> A"
    and "pt_rows pt = recovered_rows h now ow A rs"
  shows "\<exists>pt'. recover_each h now ow ds pt = Inr (pt', map pr_pid ds)
    \<and> pt_rows pt' = recovered_rows h now ow (A \<union> pr_pid ` set ds) rs"
  using assms(4-)
proof (induction ds arbitrary: A pt)
  case (Cons d ds)
  let ?q = "paused_row h now ow d"
  have d: "d \<in> set rs" "stale_row ow d" "pr_pid d \<notin> A" using Cons.prems by auto
  have "recover_one h now ow d pt = Inr (observe_row ?q (put_row ?q pt), Some (pr_pid d))"
    by (rule recover_one_stale) (use assms(1,2) d get_recovered [OF assms(3) d(1,3) Cons.prems(4)] in auto)
  moreover have rows: "pt_rows (observe_row ?q (put_row ?q pt)) = recovered_rows h now ow (insert (pr_pid d) A) rs"
    using recovered_put [OF assms(3) d(1,3)] by (simp add: Cons.prems(4))
  have "pr_pid d \<notin> pr_pid ` set ds" using Cons.prems(2) by simp
  then have "\<forall>e \<in> set ds. stale_row ow e \<and> pr_pid e \<notin> insert (pr_pid d) A"
    using Cons.prems(3) by (metis imageI insert_iff list.set_intros(2))
  then obtain pt' where "recover_each h now ow ds (observe_row ?q (put_row ?q pt)) = Inr (pt', map pr_pid ds)"
    "pt_rows pt' = recovered_rows h now ow (insert (pr_pid d) A \<union> pr_pid ` set ds) rs"
    using Cons.IH [OF _ _ _ rows] Cons.prems by auto
  ultimately show ?case by simp
qed simp

lemma filter_recovered:
  assumes "\<And>x. pr_pid x \<in> A \<Longrightarrow> \<not> P (paused_row h now ow x)"
  shows "filter P (recovered_rows h now ow A rs) = filter (\<lambda>x. pr_pid x \<notin> A \<and> P x) rs"
  using assms by (induction rs) (auto simp: recovered_rows_def)

definition stale_list :: "string \<Rightarrow> proc_row list \<Rightarrow> proc_row list" where
  "stale_list ow rs = sort_key pr_pid (filter (stale_row ow) rs)"

definition after_done :: "proc_row list \<Rightarrow> string option" where
  "after_done ds = (if ds = [] then None else Some (pr_pid (last ds)))"

lemma stale_page_rest:
  assumes "distinct (map pr_pid rs)" "stale_list ow rs = ds @ es" "pt_rows pt = recovered_rows h now ow (pr_pid ` set ds) rs"
  shows "stale_page ow (after_done ds) n pt = take n es"
proof -
  let ?P = "\<lambda>r. stale_row ow r \<and> (case after_done ds of None \<Rightarrow> True | Some p \<Rightarrow> p < pr_pid r)"
  have sorted: "sorted (map pr_pid (ds @ es))"
    unfolding assms(2) [symmetric] stale_list_def by simp
  have dist: "distinct (map pr_pid (ds @ es))"
    unfolding assms(2) [symmetric] stale_list_def using assms(1) inj_on_subset [of pr_pid "set rs"]
    by (auto simp: distinct_map)
  have stale: "stale_row ow x" if "x \<in> set (ds @ es)" for x
    using that unfolding assms(2) [symmetric] stale_list_def by simp
  have "pr_pid (last ds) < pr_pid e" if "e \<in> set es" "ds \<noteq> []" for e
  proof -
    have "pr_pid (last ds) \<le> pr_pid e" using sorted that by (auto simp: sorted_append)
    moreover have "pr_pid (last ds) \<noteq> pr_pid e" using dist that by (force simp: distinct_append)
    ultimately show ?thesis by simp
  qed
  then have es: "pr_pid e \<notin> pr_pid ` set ds \<and> ?P e" if "e \<in> set es" for e
    using that stale dist by (auto simp: after_done_def)
  have "sort_key pr_pid (filter ?P (pt_rows pt)) = sort_key pr_pid (filter (\<lambda>x. pr_pid x \<notin> pr_pid ` set ds \<and> ?P x) rs)"
    by (simp add: assms(3) filter_recovered)
  also have "\<dots> = sort_key pr_pid (filter (\<lambda>x. pr_pid x \<notin> pr_pid ` set ds \<and> ?P x) (filter (stale_row ow) rs))"
    by (rule arg_cong [where f = "sort_key pr_pid"]) (simp add: conj_commute conj_left_commute cong: conj_cong)
  also have "\<dots> = filter (\<lambda>x. pr_pid x \<notin> pr_pid ` set ds \<and> ?P x) (ds @ es)"
    by (simp only: filter_sort [symmetric] assms(2) [symmetric] stale_list_def)
  also have "\<dots> = es" using es by (simp add: filter_id_conv)
  finally show ?thesis by (simp add: stale_page_def)
qed

lemma recover_pages_stale:
  assumes "digests h" "\<forall>r \<in> set rs. row_ok r \<and> strip (pr_pid r) \<noteq> []" "distinct (map pr_pid rs)" "0 < n"
  shows "stale_list ow rs = ds @ es \<Longrightarrow> pt_rows pt = recovered_rows h now ow (pr_pid ` set ds) rs \<Longrightarrow> length es < k \<Longrightarrow>
    \<exists>pt'. recover_pages k h now ow n (after_done ds) (length ds) (take n (map pr_pid ds)) pt
        = Inr (Some (pt', length (ds @ es), take n (map pr_pid (ds @ es))))
      \<and> pt_rows pt' = recovered_rows h now ow (pr_pid ` set (ds @ es)) rs"
proof (induction k arbitrary: ds es pt)
  case (Suc k)
  note page = stale_page_rest [OF assms(3) Suc.prems(1,2)]
  show ?case
  proof (cases "es = []")
    case True
    then show ?thesis using Suc.prems by (simp add: page)
  next
    case False
    let ?ps = "take n es" and ?qs = "drop n es"
    have "?ps \<noteq> []" using False assms(4) by simp
    have L: "set (ds @ es) \<subseteq> set rs" "\<forall>x \<in> set (ds @ es). stale_row ow x" "distinct (map pr_pid (ds @ es))"
      unfolding Suc.prems(1) [symmetric] stale_list_def using assms(3) by (auto simp: distinct_map inj_on_def)
    have "set ?ps \<subseteq> set es" by (rule set_take_subset)
    moreover have "pr_pid ` set ds \<inter> pr_pid ` set es = {}" using L(3) by simp
    ultimately have "pr_pid d \<notin> pr_pid ` set ds" if "d \<in> set ?ps" for d
      using that by (metis disjoint_iff image_eqI subsetD)
    then have "set ?ps \<subseteq> set rs" "\<forall>d \<in> set ?ps. stale_row ow d \<and> pr_pid d \<notin> pr_pid ` set ds"
      using L \<open>set ?ps \<subseteq> set es\<close> by auto
    moreover have "distinct (map pr_pid ?ps)" using L(3) by (simp add: take_map [symmetric])
    ultimately obtain pt1 where one: "recover_each h now ow ?ps pt = Inr (pt1, map pr_pid ?ps)"
      and rows: "pt_rows pt1 = recovered_rows h now ow (pr_pid ` set ds \<union> pr_pid ` set ?ps) rs"
      using recover_each_stale [OF assms(1-3) _ _ _ Suc.prems(2)] by blast
    have sample: "(if length (take n (map pr_pid ds)) < n then take n (map pr_pid ds)
          @ take (n - length (take n (map pr_pid ds))) (map pr_pid ?ps) else take n (map pr_pid ds))
        = take n (map pr_pid (ds @ ?ps))"
      by (auto simp: min_def)
    have after: "Some (pr_pid (last ?ps)) = after_done (ds @ ?ps)" using \<open>?ps \<noteq> []\<close> by (simp add: after_done_def)
    have step: "recover_pages (Suc k) h now ow n (after_done ds) (length ds) (take n (map pr_pid ds)) pt
      = recover_pages k h now ow n (after_done (ds @ ?ps)) (length (ds @ ?ps)) (take n (map pr_pid (ds @ ?ps))) pt1"
      using \<open>?ps \<noteq> []\<close> one unfolding recover_pages.simps page Let_def
      by (simp only: if_False bindR.simps split_conv sample after length_map length_append)
    have "stale_list ow rs = (ds @ ?ps) @ ?qs" using Suc.prems(1) by simp
    moreover have "pt_rows pt1 = recovered_rows h now ow (pr_pid ` set (ds @ ?ps)) rs" using rows by (simp add: image_Un)
    moreover have "length ?qs < k" using Suc.prems(3) False assms(4) by (cases es) auto
    ultimately obtain pt' where
      "recover_pages k h now ow n (after_done (ds @ ?ps)) (length (ds @ ?ps)) (take n (map pr_pid (ds @ ?ps))) pt1
        = Inr (Some (pt', length ((ds @ ?ps) @ ?qs), take n (map pr_pid ((ds @ ?ps) @ ?qs))))
      \<and> pt_rows pt' = recovered_rows h now ow (pr_pid ` set ((ds @ ?ps) @ ?qs)) rs"
      using Suc.IH by blast
    then show ?thesis unfolding step by simp
  qed
qed simp

section \<open>Properties\<close>

text \<open>
  C28. A condition can wake the process that waits for it, and only once. A wake succeeds exactly when the process
  still waits, at the state generation and for the condition that the token names, and the caller may write it: no
  takeover of another process is open, and a worker wakes only another process, under a control scope for it, which
  the control mode, the default, opens itself. That mode needs an identifier and a reason that are not blank, and of
  a worker an identifier without outer blanks. The token read from a waiting row whose wait state its constructor accepts therefore always
  works for such a caller. The wake makes exactly that process runnable, and after any wake no sequence of
  operations lets the token wake anything again.
\<close>

theorem wake_exact:
  assumes "any_step\<^sup>*\<^sup>* empty_table pt" "get_process pt (st_pid tok) = Some c"
  shows "((\<exists>pt' r. wake h am now tok control why pt = Inr (pt', r)) \<longleftrightarrow>
      pr_state_gen c = st_generation tok \<and> wait_same (pr_wait c) (Some (st_wait tok))
      \<and> condition_wait (st_wait tok) \<and> condition_status (pr_status c)
      \<and> wake_allowed am control why (st_pid tok) (pr_status c))
    \<and> (wait_token c = Inr tok \<and> wait_wf (st_wait tok) \<and> wake_allowed am control why (st_pid tok) (pr_status c) \<longrightarrow>
        (\<exists>pt' r. wake h am now tok control why pt = Inr (pt', r)))
    \<and> (\<forall>pt1 r. wake h am now tok control why pt = Inr (pt1, r) \<longrightarrow> get_process pt1 (st_pid tok) = Some r
      \<and> pr_status r = StRunnable \<and> pr_wait r = None \<and> pr_state_gen r = pr_state_gen c + 1
      \<and> (\<forall>pid. pid \<noteq> st_pid tok \<longrightarrow> get_process pt1 pid = get_process pt pid)
      \<and> (\<forall>pt2 h' am' now' control' why' x. any_step\<^sup>*\<^sup>* pt1 pt2 \<longrightarrow> wake h' am' now' tok control' why' pt2 \<noteq> Inr x))"
proof -
  note ok = reached_ok [OF assms(1)]
  have c: "row_ok c" "pr_pid c = st_pid tok" using ok get_processD [OF assms(2)] by (auto simp: table_ok_def)
  let ?may = "wake_allowed am control why (st_pid tok) (pr_status c)"
  have iff: "(\<exists>pt' r. wake h am now tok control why pt = Inr (pt', r)) \<longleftrightarrow> wake_ready tok c \<and> ?may"
    using wake_open [OF c(1) assms(2), of h am now control why] wake_result assms(2) by (metis option.inject surj_pair)
  have own: "wake_ready tok c" if t: "wait_token c = Inr tok" "wait_wf (st_wait tok)"
  proof -
    obtain w where "pr_wait c = Some w" "condition_wait w" "st_wait tok = w" "st_generation tok = pr_state_gen c"
      using t(1) by (auto simp: wait_token_def split: option.splits if_splits)
    then show ?thesis using t(2) c(1) wait_same_refl condition_wait_status by (auto simp: wake_ready_def row_ok_def)
  qed
  show ?thesis
  proof (intro conjI allI impI)
    show "(\<exists>pt' r. wake h am now tok control why pt = Inr (pt', r)) \<longleftrightarrow>
      pr_state_gen c = st_generation tok \<and> wait_same (pr_wait c) (Some (st_wait tok))
      \<and> condition_wait (st_wait tok) \<and> condition_status (pr_status c) \<and> ?may"
      using iff by (simp add: wake_ready_def)
    show "\<exists>pt' r. wake h am now tok control why pt = Inr (pt', r)" if "wait_token c = Inr tok \<and> wait_wf (st_wait tok) \<and> ?may"
      using iff own that by blast
    fix pt1 r
    assume w: "wake h am now tok control why pt = Inr (pt1, r)"
    note R = woken_row [OF w ok assms(2)]
    show "get_process pt1 (st_pid tok) = Some r" "pr_status r = StRunnable" "pr_wait r = None"
      "pr_state_gen r = pr_state_gen c + 1"
      using R by blast+
    show "get_process pt1 pid = get_process pt pid" if "pid \<noteq> st_pid tok" for pid using R that by blast
    show "wake h' am' now' tok control' why' pt2 \<noteq> Inr x" if "any_step\<^sup>*\<^sup>* pt1 pt2" for pt2 h' am' now' control' why' x
      using never_again [OF w ok that] .
  qed
qed

definition waiting_row :: proc_row where
  "waiting_row = sample_row\<lparr>pr_status := StWaitingHuman, pr_wait := Some (HumanWait [''h1''])\<rparr>"

definition worker_ambient :: ambient where
  "worker_ambient = \<lparr>am_token = Some \<lparr>tk_pid = ''q'', tk_generation = 1, tk_owner = ''w'', tk_lease = ''l'', tk_epoch = None\<rparr>,
     am_control = None, am_terminal = None, am_takeover = None\<rparr>"

theorem wake_exact_witness:
  "(\<exists>pt' r. wake sample_hosting worker_ambient ''t1'' \<lparr>st_pid = ''p'', st_generation = 0, st_wait = HumanWait [''h1'']\<rparr>
      True None (table_of waiting_row) = Inr (pt', r))
   \<and> \<not> (\<exists>pt' r. wake sample_hosting worker_ambient ''t1'' \<lparr>st_pid = ''p'', st_generation = 0, st_wait = HumanWait [''h1'']\<rparr>
      False None (table_of waiting_row) = Inr (pt', r))"
proof -
  let ?t = "\<lparr>st_pid = ''p'', st_generation = 0, st_wait = HumanWait [''h1'']\<rparr>"
  have i: "insert_process waiting_row empty_table = Inr (table_of waiting_row)" "fresh waiting_row empty_table" by code_simp+
  then have s: "any_step\<^sup>*\<^sup>* empty_table (table_of waiting_row)"
    by (intro r_into_rtranclp) (auto simp: any_step_def intro: run_step.intros)
  have g: "get_process (table_of waiting_row) (st_pid ?t) = Some waiting_row" by code_simp
  have t: "wait_token waiting_row = Inr ?t" "wait_wf (st_wait ?t)" by code_simp+
  have "wake_allowed worker_ambient True None ''p'' (pr_status waiting_row)"
    "\<not> wake_allowed worker_ambient False None ''p'' (pr_status waiting_row)" by code_simp+
  then show ?thesis using wake_exact [OF s g, of sample_hosting worker_ambient "''t1''" _ None] t by auto
qed

text \<open>
  C29. The recovery of stale executions returns: it pages through the running rows that another owner left
  behind, pauses every one of them with a receipt of the prior owner, lease and generation, revokes their
  leases, changes no other row, counts each one once and samples the first pids in order.
\<close>

theorem recovery_complete:
  assumes "any_step\<^sup>*\<^sup>* empty_table pt" "digests h" "\<forall>r \<in> set (pt_rows pt). strip (pr_pid r) \<noteq> []" "0 < n"
  shows "\<exists>pt'. recover_stale h now ow n pt = Inr (Some (pt', length (filter (stale_row ow) (pt_rows pt)),
      take n (map pr_pid (sort_key pr_pid (filter (stale_row ow) (pt_rows pt))))))
    \<and> pt_rows pt' = map (\<lambda>r. if stale_row ow r then paused_row h now ow r else r) (pt_rows pt)
    \<and> filter (stale_row ow) (pt_rows pt') = []"
proof -
  let ?rs = "pt_rows pt" and ?L = "stale_list ow (pt_rows pt)"
  note ok = reached_ok [OF assms(1)]
  have rows: "\<forall>r \<in> set ?rs. row_ok r \<and> strip (pr_pid r) \<noteq> []" and dist: "distinct (map pr_pid ?rs)"
    using ok assms(3) by (auto simp: table_ok_def)
  have "length ?L < length ?rs + 1" by (simp add: stale_list_def le_imp_less_Suc)
  moreover have "?rs = recovered_rows h now ow (pr_pid ` set []) ?rs" by (simp add: recovered_rows_def)
  ultimately obtain pt' where run: "recover_pages (length ?rs + 1) h now ow n (after_done []) (length ([] :: proc_row list))
      (take n (map pr_pid [])) pt = Inr (Some (pt', length ([] @ ?L), take n (map pr_pid ([] @ ?L))))"
    and rows': "pt_rows pt' = recovered_rows h now ow (pr_pid ` set ([] @ ?L)) ?rs"
    using recover_pages_stale [OF assms(2) rows dist assms(4), of ow "[]" ?L] by fastforce
  have "pr_pid r \<in> pr_pid ` set ?L \<longleftrightarrow> stale_row ow r" if "r \<in> set ?rs" for r
    using dist that by (auto simp: stale_list_def distinct_map dest: inj_onD)
  then have "pt_rows pt' = map (\<lambda>r. if stale_row ow r then paused_row h now ow r else r) ?rs"
    unfolding rows' by (simp add: recovered_rows_def)
  then show ?thesis
    using run by (auto simp: recover_stale_def after_done_def stale_list_def filter_empty_conv simp del: recover_pages.simps)
qed

theorem recovery_complete_witness:
  "\<exists>pt'. recover_stale sample_hosting ''t9'' ''other'' 5 (table_of running_row) = Inr (Some (pt', 1, [''p'']))
    \<and> filter (stale_row ''other'') (pt_rows pt') = []"
proof -
  have d: "digests sample_hosting"
    unfolding digests_def sample_hosting_def by simp code_simp
  have p: "\<forall>r \<in> set (pt_rows (table_of running_row)). strip (pr_pid r) \<noteq> []" by code_simp
  have f: "filter (stale_row ''other'') (pt_rows (table_of running_row)) = [running_row]" by code_simp
  have "map pr_pid (sort_key pr_pid [running_row]) = [''p'']" by code_simp
  with recovery_complete [OF sample_steps(2) d p, of 5 "''t9''" "''other''", unfolded f]
  show ?thesis by auto
qed

end
