(* ===== verification/ProcTakeover.thy ===== *)
theory ProcTakeover
  imports ProcWake
begin

text \<open>
  Killing a running process: the takeover scopes of \<open>agent_libos/runtime/resource_manager.py\<close> and of the
  trusted signals, which take the execution lease away from its holder.
\<close>

section \<open>The scope and the kill\<close>

text \<open>\<open>_resource_limit_takeover_scope\<close>\<close>

definition limit_takeover :: "string \<Rightarrow> proc_row \<Rightarrow> ambient \<Rightarrow> ambient res" where
  "limit_takeover nonce c am =
     (if pr_status c \<noteq> StRunning \<or> (pr_owner c = None \<and> pr_lease c = None) then Inr am
      else case (pr_owner c, pr_lease c) of
        (Some ow, Some ls) \<Rightarrow>
          execution_takeover (pr_pid c) (pr_revision c) (pr_state_gen c)
            \<lparr>tk_pid = pr_pid c, tk_generation = pr_exec_gen c, tk_owner = ow, tk_lease = ls, tk_epoch = None\<rparr>
            StKilled ''resource limit takes over an execution lease'' nonce None (Some ''resource_limit_exceeded'') am
      | _ \<Rightarrow> Inl (ValidationError (''running process has an incomplete execution lease: '' @ pr_pid c)))"

text \<open>
  One step of \<open>_persist_resource_limit_kill\<close>. A transition that succeeds under a takeover has written the
  state the intent names, so leaving the scope raises nothing.
\<close>

definition limit_kill ::
  "host \<Rightarrow> ambient \<Rightarrow> string \<Rightarrow> string \<Rightarrow> string \<Rightarrow> proc_row \<Rightarrow> proc_table \<Rightarrow> (proc_table \<times> proc_row) res" where
  "limit_kill h am now nonce reason c pt =
     bindR (limit_takeover nonce c am) (\<lambda>am'.
       transition h am' now (pr_pid c) StKilled (pr_revision c) None (Some (pr_state_gen c)) None
         (Some (KilledOutcome None (Some ''resource_limit_exceeded''))) (Some reason) True [pr_status c]
         (Some ''resource limit terminates an affected process tree'') pt)"

text \<open>What the transition of a kill comes down to.\<close>

definition killed :: "string \<Rightarrow> string \<Rightarrow> proc_row \<Rightarrow> proc_row" where
  "killed now reason c = c\<lparr>pr_status := StKilled, pr_wait := None,
     pr_outcome := Some (KilledOutcome None (Some ''resource_limit_exceeded'')), pr_state_gen := pr_state_gen c + 1,
     pr_message := VStr reason, pr_updated := VStr now\<rparr>"

lemma kill_transition:
  assumes "row_ok c" "get_process pt (pr_pid c) = Some c" "plain (pr_pid c)"
  shows "transition h am now (pr_pid c) StKilled (pr_revision c) None (Some (pr_state_gen c)) None
         (Some (KilledOutcome None (Some ''resource_limit_exceeded''))) (Some reason) True [pr_status c]
         (Some ''resource limit terminates an affected process tree'') pt
    = update_process_row (am\<lparr>am_control := Some \<lparr>cs_target = pr_pid c, cs_statuses = [pr_status c],
        cs_reason = ''resource limit terminates an affected process tree''\<rparr>\<rparr>) True (killed now reason c) pt"
proof -
  have s: "strip ''resource limit terminates an affected process tree'' = ''resource limit terminates an affected process tree''"
    by code_simp
  have p: "strip (pr_pid c) = pr_pid c" "pr_pid c \<noteq> []" using assms(3) by (simp_all add: plain_def)
  have v: "validate_state StKilled None (Some (KilledOutcome None (Some ''resource_limit_exceeded''))) = Inr ()"
    by (simp add: wait_matches_def outcome_matches_def)
  have nn: "0 \<le> pr_revision c" "0 \<le> pr_state_gen c" using assms(1) by (simp_all add: row_ok_def)
  have k: "killed now reason c = c\<lparr>pr_status := StKilled, pr_wait := None,
     pr_outcome := Some (KilledOutcome None (Some ''resource_limit_exceeded'')), pr_state_gen := pr_state_gen c + 1,
     pr_message := opt_str (Some reason), pr_updated := VStr now\<rparr>"
    by (simp add: killed_def opt_str_def)
  show ?thesis
    using nn by (simp add: transition_def apply_transition_def v is_stale_wait_def assms(2) status_message_def control_mutation_def
        p s patch_row_def k)
qed

lemma limit_takeover_running:
  assumes "pr_status c = StRunning" "pr_owner c = Some ow" "pr_lease c = Some ls" "row_ok c" "plain (pr_pid c)"
    "strip nonce \<noteq> []" "am_takeover am = None"
  shows "limit_takeover nonce c am = Inr (am\<lparr>am_takeover := Some \<lparr>tv_target = pr_pid c, tv_revision = pr_revision c,
     tv_state_gen = pr_state_gen c,
     tv_token = \<lparr>tk_pid = pr_pid c, tk_generation = pr_exec_gen c, tk_owner = ow, tk_lease = ls, tk_epoch = None\<rparr>,
     tv_status = StKilled, tv_wait_kind = None, tv_code = Some ''resource_limit_exceeded''\<rparr>\<rparr>)"
proof -
  have s: "strip ''resource limit takes over an execution lease'' \<noteq> []" by code_simp
  show ?thesis
    using assms by (simp add: limit_takeover_def execution_takeover_def plain_def row_ok_def s)
qed

lemma update_fence_admission:
  assumes "update_fence am c p pt = Inr x"
  shows "assert_admission_owner am c p pt = Inr ()"
  using assms unfolding update_fence_def bindR_Inr_iff Let_def by auto

lemma scan_allowed: "\<forall>x \<in> set xs. xp_plan x \<noteq> None \<Longrightarrow> scan_publications True g ow ls xs = Inr ()"
  by (induction xs) (auto split: option.splits)

lemma killed_write:
  "validate_write (killed now reason c) (Some c) True = Inr () \<longleftrightarrow> 0 \<le> pr_state_gen c + 1"
  by (simp add: validate_write_def killed_def wait_matches_def outcome_matches_def is_stale_wait_def Let_def bindR_Inr_iff)

lemma killed_takeover:
  assumes "am_takeover am = Some \<lparr>tv_target = pr_pid c, tv_revision = pr_revision c, tv_state_gen = pr_state_gen c, tv_token = t,
     tv_status = StKilled, tv_wait_kind = None, tv_code = Some ''resource_limit_exceeded''\<rparr>"
  shows "takeover_write am c t (killed now reason c)"
  using assms by (simp add: takeover_write_def killed_def)

lemma kill_update:
  assumes "row_ok c" "get_process pt (pr_pid c) = Some c" "pr_status c = StRunning" "pr_owner c = Some ow" "pr_lease c = Some ls"
    "am_token am \<in> {None, row_token c}" "am_takeover am = Some \<lparr>tv_target = pr_pid c, tv_revision = pr_revision c,
     tv_state_gen = pr_state_gen c, tv_token = the (row_token c), tv_status = StKilled, tv_wait_kind = None,
     tv_code = Some ''resource_limit_exceeded''\<rparr>"
    "\<forall>x \<in> set (pt_pubs pt). xp_pid x = pr_pid c \<longrightarrow> xp_plan x \<noteq> None"
  shows "\<exists>pt' r. update_process_row am True (killed now reason c) pt = Inr (pt', r)"
proof -
  let ?t = "\<lparr>tk_pid = pr_pid c, tk_generation = pr_exec_gen c, tk_owner = ow, tk_lease = ls, tk_epoch = pr_epoch c\<rparr>"
  let ?p = "killed now reason c"
  have t: "row_token c = Some ?t" using assms(4,5) by (simp add: row_token_def)
  have "assert_admission_owner am c ?p pt = Inr ()"
    using killed_takeover [of am c ?t] assms(3,7,8) t by (simp add: assert_admission_owner_def scan_allowed)
  moreover have "assert_target am (pr_pid ?p) (pr_status c) = Inr ()"
    using assms(6,7) t by (auto simp: assert_target_def killed_def)
  moreover have "pr_revision ?p = pr_revision c" "pr_pid ?p = pr_pid c" "pr_status ?p = StKilled" by (simp_all add: killed_def)
  ultimately have "\<exists>x. update_fence am c ?p pt = Inr x"
    using assms(3-6) t by (auto simp: update_fence_def Let_def)
  then show ?thesis
    using assms(1,2) killed_write [of now reason c] by (auto simp: update_process_row_def row_ok_def killed_def Let_def)
qed

section \<open>Properties\<close>

text \<open>
  C30. The takeover of a resource limit kills a running process exactly when the process belongs to no task
  run. The intent carries a token without the epoch of the task run, while the write fence compares it with
  the token of the row, epoch included: for a running process that a task run has bound, the kill always
  raises, whoever holds the lease; for an unbound one it succeeds, ends the lease and kills the process.
\<close>

theorem takeover_misses_task_runs:
  assumes "any_step\<^sup>*\<^sup>* empty_table pt" "get_process pt (pr_pid c) = Some c" "plain (pr_pid c)" "pr_status c = StRunning"
    "pr_owner c = Some ow" "strip nonce \<noteq> []" "am_takeover am = None"
    "\<forall>x \<in> set (pt_pubs pt). xp_pid x = pr_pid c \<longrightarrow> xp_plan x \<noteq> None"
  shows "(pr_epoch c \<noteq> None \<longrightarrow> \<not> is_ok (limit_kill h am now nonce reason c pt))
    \<and> (pr_epoch c = None \<and> am_token am \<in> {None, row_token c} \<longrightarrow>
       (\<exists>pt' r. limit_kill h am now nonce reason c pt = Inr (pt', r) \<and> get_process pt' (pr_pid c) = Some r
          \<and> pr_status r = StKilled \<and> pr_owner r = None))"
proof -
  note ok = reached_ok [OF assms(1)]
  have c: "row_ok c" using ok get_processD [OF assms(2)] by (simp add: table_ok_def)
  then obtain ls where ls: "pr_lease c = Some ls" using assms(5) by (auto simp: row_ok_def)
  let ?am = "am\<lparr>am_takeover := Some \<lparr>tv_target = pr_pid c, tv_revision = pr_revision c, tv_state_gen = pr_state_gen c,
     tv_token = \<lparr>tk_pid = pr_pid c, tk_generation = pr_exec_gen c, tk_owner = ow, tk_lease = ls, tk_epoch = None\<rparr>,
     tv_status = StKilled, tv_wait_kind = None, tv_code = Some ''resource_limit_exceeded''\<rparr>,
     am_control := Some \<lparr>cs_target = pr_pid c, cs_statuses = [pr_status c],
        cs_reason = ''resource limit terminates an affected process tree''\<rparr>\<rparr>"
  have kill: "limit_kill h am now nonce reason c pt = update_process_row ?am True (killed now reason c) pt"
    unfolding limit_kill_def limit_takeover_running [OF assms(4,5) ls c assms(3,6,7)] bindR.simps
      kill_transition [OF c assms(2,3)] by simp
  show ?thesis
  proof (intro conjI impI)
    assume e: "pr_epoch c \<noteq> None"
    show "\<not> is_ok (limit_kill h am now nonce reason c pt)"
    proof
      assume "is_ok (limit_kill h am now nonce reason c pt)"
      then obtain pt' r where "update_process_row ?am True (killed now reason c) pt = Inr (pt', r)"
        unfolding kill is_ok_iff by auto
      then obtain d x where d: "get_process pt (pr_pid (killed now reason c)) = Some d" "update_fence ?am d (killed now reason c) pt = Inr x"
        by (metis update_moved)
      then have "d = c" using assms(2) by (simp add: killed_def)
      then have "assert_admission_owner ?am c (killed now reason c) pt = Inr ()"
        using update_fence_admission [OF d(2)] by simp
      then show False
        using e assms(4,5) ls by (auto simp: assert_admission_owner_def row_token_def takeover_write_def Let_def bindR_Inr_iff)
    qed
  next
    assume e: "pr_epoch c = None \<and> am_token am \<in> {None, row_token c}"
    have "row_token c = Some \<lparr>tk_pid = pr_pid c, tk_generation = pr_exec_gen c, tk_owner = ow, tk_lease = ls, tk_epoch = None\<rparr>"
      using assms(5) ls e by (simp add: row_token_def)
    then have "\<exists>pt' r. update_process_row ?am True (killed now reason c) pt = Inr (pt', r)"
      using e assms(8) by (intro kill_update [OF c assms(2,4,5) ls]) auto
    then obtain pt' r where u: "update_process_row ?am True (killed now reason c) pt = Inr (pt', r)" by blast
    obtain d where d: "moved pt d r pt'" "pr_pid d = pr_pid (killed now reason c)" "pr_status r = pr_status (killed now reason c)"
      using update_moved [OF u] by metis
    have pid: "pr_pid r = pr_pid c" using d advances_status(2) by (auto simp: moved_def killed_def)
    have g: "get_process pt' (pr_pid c) = Some r" "table_ok pt'" using moved_ok [OF d(1) ok] pid by simp_all
    then have "row_ok r" using get_processD by (auto simp: table_ok_def)
    then have "pr_status r = StKilled \<and> pr_owner r = None" using d(3) by (auto simp: killed_def row_ok_def)
    then show "\<exists>pt' r. limit_kill h am now nonce reason c pt = Inr (pt', r) \<and> get_process pt' (pr_pid c) = Some r
          \<and> pr_status r = StKilled \<and> pr_owner r = None"
      unfolding kill using u g by blast
  qed
qed

text \<open>A process that a task run binds, running under the lease of a worker.\<close>

definition bound_row :: proc_row where
  "bound_row = sample_row\<lparr>pr_run := Some ''r'', pr_epoch := Some 3, pr_role := Some ''root''\<rparr>"

definition bound_table :: proc_table where
  "bound_table = (table_of (claimed ''t1'' ''w'' ''l'' 1 bound_row))
     \<lparr>pt_runs := [\<lparr>tr_id = ''r'', tr_epoch = 3, tr_status = ''running'', tr_deadline = None\<rparr>]\<rparr>"

theorem takeover_misses_task_runs_witness:
  "\<not> is_ok (limit_kill sample_hosting \<lparr>am_token = None, am_control = None, am_terminal = None, am_takeover = None\<rparr>
     ''t2'' ''n'' ''over budget'' (claimed ''t1'' ''w'' ''l'' 1 bound_row) bound_table)"
proof -
  let ?c = "claimed ''t1'' ''w'' ''l'' 1 bound_row"
  let ?pt = "(table_of bound_row)\<lparr>pt_runs := [\<lparr>tr_id = ''r'', tr_epoch = 3, tr_status = ''running'', tr_deadline = None\<rparr>],
     pt_pubs := []\<rparr>"
  have i: "insert_process bound_row empty_table = Inr (table_of bound_row)" "fresh bound_row empty_table" by code_simp+
  have "claim_execution ''t1'' ''l'' ''p'' ''w'' None ?pt
      = Inr (bound_table, Some \<lparr>tk_pid = ''p'', tk_generation = 1, tk_owner = ''w'', tk_lease = ''l'', tk_epoch = Some 3\<rparr>)"
    by code_simp
  then have "any_step ?pt bound_table" "any_step (table_of bound_row) ?pt" "any_step empty_table (table_of bound_row)"
    using i unfolding any_step_def by (blast intro: run_step.intros)+
  then have s: "any_step\<^sup>*\<^sup>* empty_table bound_table" by (meson converse_rtranclp_into_rtranclp rtranclp.rtrancl_refl)
  have "get_process bound_table (pr_pid ?c) = Some ?c" "plain (pr_pid ?c)" "pr_status ?c = StRunning" "pr_owner ?c = Some ''w''"
    "strip ''n'' \<noteq> []" "pr_epoch ?c \<noteq> None"
    "\<forall>x \<in> set (pt_pubs bound_table). xp_pid x = pr_pid ?c \<longrightarrow> xp_plan x \<noteq> None"
    by code_simp+
  with takeover_misses_task_runs [OF s, of ?c] show ?thesis by auto
qed

end
