(* ===== verification/Accounting.thy ===== *)
theory Accounting
  imports ProcTakeover
begin

text \<open>
  Hierarchical resource accounting: \<open>agent_libos/runtime/resource_manager.py\<close> with the reservation rows of
  \<open>agent_libos/storage/sql.py\<close> and the quantities of \<open>agent_libos/models/process.py\<close>. The columns of a process
  row that accounting reads are kept beside the process table. Quantities are rationals; the sums of the
  three continuous quantities are doubles, so their addition and subtraction are parameters. A loop over
  the parents that never returns ends as \<open>Diverges\<close>.
\<close>

section \<open>Quantities\<close>

datatype usage_field =
    RuntimeSeconds | ToolCalls | ChildProcesses | ContextTokens | LlmCalls | LlmPromptTokens | LlmCompletionTokens
  | LlmTotalTokens | SubWallSeconds | SubCpuSeconds | SubPeakMemory | ReadBytes | WriteBytes | RpcRequestBytes
  | RpcResponseBytes | McpRequestBytes | McpResponseBytes | DenoSyscalls

fun usage_name :: "usage_field \<Rightarrow> string" where
  "usage_name RuntimeSeconds = ''runtime_seconds''"
| "usage_name ToolCalls = ''tool_calls''"
| "usage_name ChildProcesses = ''child_processes''"
| "usage_name ContextTokens = ''context_materialized_tokens''"
| "usage_name LlmCalls = ''llm_calls''"
| "usage_name LlmPromptTokens = ''llm_prompt_tokens''"
| "usage_name LlmCompletionTokens = ''llm_completion_tokens''"
| "usage_name LlmTotalTokens = ''llm_total_tokens''"
| "usage_name SubWallSeconds = ''subprocess_wall_seconds''"
| "usage_name SubCpuSeconds = ''subprocess_cpu_seconds''"
| "usage_name SubPeakMemory = ''subprocess_peak_memory_bytes''"
| "usage_name ReadBytes = ''external_read_bytes''"
| "usage_name WriteBytes = ''external_write_bytes''"
| "usage_name RpcRequestBytes = ''jsonrpc_request_bytes''"
| "usage_name RpcResponseBytes = ''jsonrpc_response_bytes''"
| "usage_name McpRequestBytes = ''mcp_request_bytes''"
| "usage_name McpResponseBytes = ''mcp_response_bytes''"
| "usage_name DenoSyscalls = ''deno_syscalls''"

definition usage_fields :: "usage_field list" where
  "usage_fields = [RuntimeSeconds, ToolCalls, ChildProcesses, ContextTokens, LlmCalls, LlmPromptTokens,
     LlmCompletionTokens, LlmTotalTokens, SubWallSeconds, SubCpuSeconds, SubPeakMemory, ReadBytes, WriteBytes,
     RpcRequestBytes, RpcResponseBytes, McpRequestBytes, McpResponseBytes, DenoSyscalls]"

datatype budget_field =
    MaxToolCalls | MaxChildProcesses | MaxRuntimeSeconds | MaxContextTotalTokens | MaxLlmCalls | MaxLlmTotalTokens
  | MaxSubWallSeconds | MaxSubCpuSeconds | MaxSubMemoryBytes | MaxReadBytes | MaxWriteBytes | MaxJsonrpcBytes
  | MaxMcpBytes | MaxDenoSyscalls

text \<open>\<open>_BUDGET_USAGE_MAP\<close>, in its order\<close>

definition budget_order :: "(budget_field \<times> usage_field list) list" where
  "budget_order = [(MaxToolCalls, [ToolCalls]), (MaxChildProcesses, [ChildProcesses]), (MaxRuntimeSeconds, [RuntimeSeconds]),
     (MaxContextTotalTokens, [ContextTokens]), (MaxLlmCalls, [LlmCalls]), (MaxLlmTotalTokens, [LlmTotalTokens]),
     (MaxSubWallSeconds, [SubWallSeconds]), (MaxSubCpuSeconds, [SubCpuSeconds]), (MaxSubMemoryBytes, [SubPeakMemory]),
     (MaxReadBytes, [ReadBytes]), (MaxWriteBytes, [WriteBytes]), (MaxJsonrpcBytes, [RpcRequestBytes, RpcResponseBytes]),
     (MaxMcpBytes, [McpRequestBytes, McpResponseBytes]), (MaxDenoSyscalls, [DenoSyscalls])]"

definition reservable :: "budget_field \<Rightarrow> bool" where
  "reservable b \<longleftrightarrow> b \<notin> {MaxSubMemoryBytes, MaxChildProcesses}"

definition continuous_budget :: "budget_field \<Rightarrow> bool" where
  "continuous_budget b \<longleftrightarrow> b \<in> {MaxRuntimeSeconds, MaxSubWallSeconds, MaxSubCpuSeconds}"

definition continuous_usage :: "usage_field \<Rightarrow> bool" where
  "continuous_usage f \<longleftrightarrow> f \<in> {RuntimeSeconds, SubWallSeconds, SubCpuSeconds}"

type_synonym usage = "usage_field \<Rightarrow> rat"

record budget =
  bg_limit :: "budget_field \<Rightarrow> rat option"
  bg_window :: int

text \<open>The addition and subtraction of doubles.\<close>

record doubles =
  db_add :: "rat \<Rightarrow> rat \<Rightarrow> rat"
  db_sub :: "rat \<Rightarrow> rat \<Rightarrow> rat"

definition whole :: "rat \<Rightarrow> bool" where
  "whole q \<longleftrightarrow> of_int \<lfloor>q\<rfloor> = q"

definition valid_usage :: "usage \<Rightarrow> bool" where
  "valid_usage u \<longleftrightarrow> list_all (\<lambda>f. 0 \<le> u f \<and> (continuous_usage f \<or> whole (u f))) usage_fields"

definition coerce_usage :: "usage \<Rightarrow> usage res" where
  "coerce_usage u = (if valid_usage u then Inr u else Inl (ValidationError ''resource usage values are invalid''))"

definition no_usage :: usage where
  "no_usage = (\<lambda>_. 0)"

definition is_zero :: "usage \<Rightarrow> bool" where
  "is_zero u \<longleftrightarrow> list_all (\<lambda>f. u f = 0) usage_fields"

definition nonzero_fields :: "usage \<Rightarrow> usage_field list" where
  "nonzero_fields u = filter (\<lambda>f. u f \<noteq> 0) usage_fields"

text \<open>\<open>_merge_usage\<close>: the result is a new usage value, which is validated.\<close>

definition merged :: "doubles \<Rightarrow> usage \<Rightarrow> usage \<Rightarrow> usage" where
  "merged db u d = (\<lambda>f. if f = SubPeakMemory then max (u f) (d f)
     else if continuous_usage f then db_add db (u f) (d f) else u f + d f)"

definition merge_usage :: "doubles \<Rightarrow> usage \<Rightarrow> usage \<Rightarrow> usage res" where
  "merge_usage db u d =
     (if valid_usage (merged db u d) then Inr (merged db u d) else Inl (ValueError ''resource usage is invalid''))"

definition usage_value :: "usage \<Rightarrow> budget_field \<Rightarrow> usage_field list \<Rightarrow> rat" where
  "usage_value u b fs = (if b = MaxSubMemoryBytes then u SubPeakMemory else sum_list (map u fs))"

definition budget_number :: "budget_field \<Rightarrow> rat \<Rightarrow> rat res" where
  "budget_number b v =
     (if continuous_budget b \<or> whole v then Inr v
      else Inl (ValidationError ''discrete resource value must be an integer''))"

definition amt_add :: "doubles \<Rightarrow> budget_field \<Rightarrow> rat \<Rightarrow> rat \<Rightarrow> rat" where
  "amt_add db b x y = (if continuous_budget b then db_add db x y else x + y)"

definition amt_sub :: "doubles \<Rightarrow> budget_field \<Rightarrow> rat \<Rightarrow> rat \<Rightarrow> rat" where
  "amt_sub db b x y = (if continuous_budget b then db_sub db x y else x - y)"

section \<open>State\<close>

record acct_row =
  ar_pid :: string
  ar_parent :: "string option"
  ar_created :: string
  ar_budget :: budget
  ar_usage :: usage

record child_reservation =
  cr_parent :: string
  cr_child :: string
  cr_reserved :: "(budget_field \<times> rat) list"
  cr_created :: string
  cr_updated :: string

datatype usage_status = UsageActive | UsageSettled | UsageReleased | UsageChargedMaximum

record usage_reservation =
  uv_id :: string
  uv_pid :: string
  uv_usage :: usage
  uv_status :: usage_status
  uv_by :: string
  uv_reason :: string
  uv_settled :: "usage option"
  uv_created :: string
  uv_updated :: string

record acct =
  ac_table :: proc_table
  ac_rows :: "acct_row list"
  ac_children :: "child_reservation list"
  ac_usage :: "usage_reservation list"

definition get_acct :: "acct \<Rightarrow> string \<Rightarrow> acct_row res" where
  "get_acct st pid = (case List.find (\<lambda>r. ar_pid r = pid) (ac_rows st) of
     None \<Rightarrow> Inl (NotFound (''process not found: '' @ pid)) | Some r \<Rightarrow> Inr r)"

definition put_usage :: "string \<Rightarrow> usage \<Rightarrow> acct \<Rightarrow> acct" where
  "put_usage pid u st = st\<lparr>ac_rows := map (\<lambda>r. if ar_pid r = pid then r\<lparr>ar_usage := u\<rparr> else r) (ac_rows st)\<rparr>"

text \<open>\<open>_process_chain\<close>: with as much fuel as there are rows, and one more, only a cycle of parents is cut off.\<close>

fun chain_from :: "nat \<Rightarrow> acct \<Rightarrow> string \<Rightarrow> acct_row list res" where
  "chain_from 0 st pid = Inl Diverges"
| "chain_from (Suc n) st pid =
     bindR (get_acct st pid) (\<lambda>r.
       case ar_parent r of None \<Rightarrow> Inr [r] | Some p \<Rightarrow> bindR (chain_from n st p) (\<lambda>rs. Inr (r # rs)))"

definition process_chain :: "acct \<Rightarrow> string \<Rightarrow> acct_row list res" where
  "process_chain st pid = chain_from (length (ac_rows st) + 1) st pid"

text \<open>\<open>_descendant_tree\<close>: the stack pops its last element; children come by creation time and pid.\<close>

definition child_rows :: "acct \<Rightarrow> string \<Rightarrow> acct_row list" where
  "child_rows st pid = sort_key (\<lambda>r. (ar_created r, ar_pid r)) (filter (\<lambda>r. ar_parent r = Some pid) (ac_rows st))"

fun tree_from :: "nat \<Rightarrow> acct \<Rightarrow> acct_row list \<Rightarrow> acct_row list res" where
  "tree_from 0 st stack = Inl Diverges"
| "tree_from (Suc n) st [] = Inr []"
| "tree_from (Suc n) st (r # stack) =
     bindR (tree_from n st (rev (child_rows st (ar_pid r)) @ stack)) (\<lambda>rs. Inr (r # rs))"

definition descendant_tree :: "acct \<Rightarrow> string \<Rightarrow> acct_row list res" where
  "descendant_tree st pid = bindR (get_acct st pid) (\<lambda>r. tree_from (length (ac_rows st) + 2) st [r])"

section \<open>Reservations\<close>

definition reservations_of :: "acct \<Rightarrow> string \<Rightarrow> child_reservation list" where
  "reservations_of st parent = sort_key cr_child (filter (\<lambda>c. cr_parent c = parent) (ac_children st))"

definition reserved_amount :: "child_reservation \<Rightarrow> budget_field \<Rightarrow> rat res" where
  "reserved_amount c b = budget_number b (case map_of (cr_reserved c) b of None \<Rightarrow> 0 | Some v \<Rightarrow> v)"

text \<open>\<open>_reserved_budget_value_locked\<close>\<close>

fun sum_reserved ::
  "doubles \<Rightarrow> budget_field \<Rightarrow> usage_field list \<Rightarrow> (string \<times> usage) option \<Rightarrow> child_reservation list \<Rightarrow> rat \<Rightarrow> rat res" where
  "sum_reserved db b fs cons [] tot = Inr tot"
| "sum_reserved db b fs cons (c # cs) tot =
     bindR (reserved_amount c b) (\<lambda>v.
       if v \<le> 0 then sum_reserved db b fs cons cs tot
       else
         let w = (case cons of
             Some (child, u) \<Rightarrow> if child = cr_child c then max 0 (amt_sub db b v (usage_value u b fs)) else v
           | None \<Rightarrow> v) in
         sum_reserved db b fs cons cs (amt_add db b tot w))"

definition reserved_budget_value ::
  "doubles \<Rightarrow> acct \<Rightarrow> string \<Rightarrow> budget_field \<Rightarrow> usage_field list \<Rightarrow> (string \<times> usage) option \<Rightarrow> rat res" where
  "reserved_budget_value db st parent b fs cons = sum_reserved db b fs cons (reservations_of st parent) 0"

text \<open>\<open>_iter_active_usage_reservations\<close>: pages in the order of creation time and id.\<close>

definition uv_key :: "usage_reservation \<Rightarrow> string \<times> string" where
  "uv_key u = (uv_created u, uv_id u)"

definition active_usage :: "acct \<Rightarrow> usage_reservation list" where
  "active_usage st = sort_key uv_key (filter (\<lambda>u. uv_status u = UsageActive) (ac_usage st))"

text \<open>The child of the owner through which a process descends from it; \<open>None\<close> when it is the owner itself.\<close>

definition child_below :: "string \<Rightarrow> acct_row list \<Rightarrow> string option option" where
  "child_below owner rs =
     (let below = takeWhile (\<lambda>r. ar_pid r \<noteq> owner) rs in
      if length below = length rs then None
      else if below = [] then Some None else Some (Some (ar_pid (last below))))"

text \<open>\<open>_reserved_usage_value_locked\<close>: active usage that no reservation of a child covers.\<close>

definition owner_child :: "acct \<Rightarrow> string \<Rightarrow> usage_reservation \<Rightarrow> string option option res" where
  "owner_child st owner u =
     (case process_chain st (uv_pid u) of
        Inr rs \<Rightarrow> Inr (child_below owner rs)
      | Inl (NotFound _) \<Rightarrow> Inr (if uv_pid u = owner then Some None else None)
      | Inl e \<Rightarrow> Inl e)"

fun sum_active ::
  "doubles \<Rightarrow> acct \<Rightarrow> string \<Rightarrow> budget_field \<Rightarrow> usage_field list \<Rightarrow> usage_reservation list \<Rightarrow> rat \<Rightarrow> (string \<times> rat) list \<Rightarrow>
   (rat \<times> (string \<times> rat) list) res" where
  "sum_active db st owner b fs [] tot by = Inr (tot, by)"
| "sum_active db st owner b fs (u # us) tot by =
     bindR (owner_child st owner u) (\<lambda>oc.
       let v = usage_value (uv_usage u) b fs in
       case oc of
         None \<Rightarrow> sum_active db st owner b fs us tot by
       | Some c \<Rightarrow>
           if v \<le> 0 then sum_active db st owner b fs us tot by
           else case c of
             None \<Rightarrow> sum_active db st owner b fs us (amt_add db b tot v) by
           | Some p \<Rightarrow> sum_active db st owner b fs us tot
               (dset by p (amt_add db b (case map_of by p of None \<Rightarrow> 0 | Some x \<Rightarrow> x) v)))"

fun sum_uncovered :: "doubles \<Rightarrow> budget_field \<Rightarrow> (string \<times> rat) list \<Rightarrow> (string \<times> rat) list \<Rightarrow> rat \<Rightarrow> rat" where
  "sum_uncovered db b covered [] tot = tot"
| "sum_uncovered db b covered ((p, v) # by) tot =
     sum_uncovered db b covered by
       (amt_add db b tot (max 0 (amt_sub db b v (case map_of covered p of None \<Rightarrow> 0 | Some x \<Rightarrow> x))))"

definition reserved_usage_value :: "doubles \<Rightarrow> acct \<Rightarrow> string \<Rightarrow> budget_field \<Rightarrow> usage_field list \<Rightarrow> rat res" where
  "reserved_usage_value db st owner b fs =
     bindR (sum_active db st owner b fs (active_usage st) 0 []) (\<lambda>(tot, by).
       if by = [] then Inr tot
       else bindR (mapR (\<lambda>c. bindR (reserved_amount c b) (\<lambda>v. Inr (cr_child c, v))) (reservations_of st owner)) (\<lambda>cov.
         Inr (sum_uncovered db b cov by tot)))"

section \<open>Limits\<close>

text \<open>\<open>_first_exceeded_effective\<close>: the budget, the value and the limit that is exceeded first.\<close>

definition committed_value ::
  "doubles \<Rightarrow> acct \<Rightarrow> string \<Rightarrow> usage \<Rightarrow> (string \<times> usage) option \<Rightarrow> bool \<Rightarrow> budget_field \<Rightarrow> usage_field list \<Rightarrow> rat res" where
  "committed_value db st pid u cons active b fs =
     (if \<not> reservable b then Inr (usage_value u b fs)
      else bindR (reserved_budget_value db st pid b fs cons) (\<lambda>r.
        if active then bindR (reserved_usage_value db st pid b fs) (\<lambda>a.
          Inr (amt_add db b (amt_add db b (usage_value u b fs) r) a))
        else Inr (amt_add db b (usage_value u b fs) r)))"

fun scan_budgets ::
  "doubles \<Rightarrow> acct \<Rightarrow> acct_row \<Rightarrow> usage \<Rightarrow> usage_field list \<Rightarrow> (string \<times> usage) option \<Rightarrow> bool \<Rightarrow>
   (budget_field \<times> usage_field list) list \<Rightarrow> (budget_field \<times> rat \<times> rat) option res" where
  "scan_budgets db st r u rel cons active [] = Inr None"
| "scan_budgets db st r u rel cons active ((b, fs) # bs) =
     (if set fs \<inter> set rel = {} then scan_budgets db st r u rel cons active bs
      else case bg_limit (ar_budget r) b of
        None \<Rightarrow> scan_budgets db st r u rel cons active bs
      | Some l \<Rightarrow>
          bindR (committed_value db st (ar_pid r) u cons active b fs) (\<lambda>v.
            if l < v then Inr (Some (b, v, l)) else scan_budgets db st r u rel cons active bs))"

definition first_exceeded ::
  "doubles \<Rightarrow> acct \<Rightarrow> acct_row \<Rightarrow> usage \<Rightarrow> usage_field list \<Rightarrow> (string \<times> usage) option \<Rightarrow> bool \<Rightarrow>
   (budget_field \<times> rat \<times> rat) option res" where
  "first_exceeded db st r u rel cons active = scan_budgets db st r u rel cons active budget_order"

definition limit_message :: "string \<Rightarrow> budget_field \<times> rat \<times> rat \<Rightarrow> string" where
  "limit_message pid ex = ''process '' @ pid @
     (if fst ex = MaxChildProcesses then '' exhausted child process budget'' else '' exceeded a resource budget'')"

text \<open>\<open>_preflight_locked\<close> over the chain of parents\<close>

fun preflight_rows ::
  "doubles \<Rightarrow> acct \<Rightarrow> usage \<Rightarrow> usage_field list \<Rightarrow> string option \<Rightarrow> acct_row list \<Rightarrow> unit res" where
  "preflight_rows db st u rel prev [] = Inr ()"
| "preflight_rows db st u rel prev (r # rs) =
     bindR (merge_usage db (ar_usage r) u) (\<lambda>cand.
     bindR (first_exceeded db st r cand rel (map_option (\<lambda>p. (p, u)) prev) True) (\<lambda>ex.
       case ex of
         None \<Rightarrow> preflight_rows db st u rel (Some (ar_pid r)) rs
       | Some x \<Rightarrow> Inl (ResourceLimitExceeded (limit_message (ar_pid r) x))))"

definition preflight_locked :: "doubles \<Rightarrow> acct \<Rightarrow> string \<Rightarrow> usage \<Rightarrow> unit res" where
  "preflight_locked db st pid u =
     bindR (process_chain st pid) (\<lambda>rs. preflight_rows db st u (nonzero_fields u) None rs)"

definition preflight :: "doubles \<Rightarrow> acct \<Rightarrow> string \<Rightarrow> usage \<Rightarrow> unit res" where
  "preflight db st pid u = bindR (coerce_usage u) (\<lambda>v. if is_zero v then Inr () else preflight_locked db st pid v)"

section \<open>Charging\<close>

text \<open>\<open>_consume_reservation_locked\<close>\<close>

fun consume_budgets ::
  "doubles \<Rightarrow> usage \<Rightarrow> usage_field list \<Rightarrow> (budget_field \<times> usage_field list) list \<Rightarrow> (budget_field \<times> rat) list \<Rightarrow> bool \<Rightarrow>
   ((budget_field \<times> rat) list \<times> bool) res" where
  "consume_budgets db u rel [] m ch = Inr (m, ch)"
| "consume_budgets db u rel ((b, fs) # bs) m ch =
     (if \<not> reservable b \<or> set fs \<inter> set rel = {} then consume_budgets db u rel bs m ch
      else bindR (budget_number b (case map_of m b of None \<Rightarrow> 0 | Some v \<Rightarrow> v)) (\<lambda>cur.
        if cur \<le> 0 then consume_budgets db u rel bs m ch
        else
          let used = min cur (usage_value u b fs) in
          if used \<le> 0 then consume_budgets db u rel bs m ch
          else
            let nxt = amt_sub db b cur used in
            consume_budgets db u rel bs (if nxt \<le> 0 then dpop m b else dset m b nxt) True))"

definition find_reservation :: "acct \<Rightarrow> string \<Rightarrow> string \<Rightarrow> child_reservation option" where
  "find_reservation st parent child = List.find (\<lambda>c. cr_parent c = parent \<and> cr_child c = child) (ac_children st)"

definition upsert_reservation :: "child_reservation \<Rightarrow> acct \<Rightarrow> acct" where
  "upsert_reservation c st =
     (if list_ex (\<lambda>x. cr_parent x = cr_parent c \<and> cr_child x = cr_child c) (ac_children st) then
        st\<lparr>ac_children := map (\<lambda>x. if cr_parent x = cr_parent c \<and> cr_child x = cr_child c
          then x\<lparr>cr_reserved := cr_reserved c, cr_updated := cr_updated c\<rparr> else x) (ac_children st)\<rparr>
      else st\<lparr>ac_children := ac_children st @ [c]\<rparr>)"

definition delete_reservation :: "string \<Rightarrow> string \<Rightarrow> acct \<Rightarrow> acct" where
  "delete_reservation parent child st =
     st\<lparr>ac_children := filter (\<lambda>x. \<not> (cr_parent x = parent \<and> cr_child x = child)) (ac_children st)\<rparr>"

definition consume_reservation ::
  "doubles \<Rightarrow> string \<Rightarrow> string \<Rightarrow> string \<Rightarrow> usage \<Rightarrow> usage_field list \<Rightarrow> acct \<Rightarrow> acct res" where
  "consume_reservation db now parent child u rel st =
     (case find_reservation st parent child of
        None \<Rightarrow> Inr st
      | Some c \<Rightarrow>
          bindR (consume_budgets db u rel budget_order (cr_reserved c) False) (\<lambda>(m, ch).
            Inr (if \<not> ch then st
              else if m \<noteq> [] then upsert_reservation (c\<lparr>cr_reserved := m, cr_updated := now\<rparr>) st
              else delete_reservation parent child st)))"

definition usage_json :: "usage \<Rightarrow> pyval" where
  "usage_json u = VDict (sdict (map (\<lambda>f. (usage_name f,
     if continuous_usage f then VFloat (Fin (u f)) else VInt \<lfloor>u f\<rfloor>)) usage_fields))"

text \<open>The write of one row of the chain: the charged process itself, or an ancestor under a control scope.\<close>

definition write_usage :: "ambient \<Rightarrow> string \<Rightarrow> string option \<Rightarrow> string \<Rightarrow> usage \<Rightarrow> acct \<Rightarrow> acct res" where
  "write_usage am now prev pid u st =
     (case get_process (ac_table st) pid of
        None \<Rightarrow> Inl (NotFound (''process not found: '' @ pid))
      | Some c \<Rightarrow>
          bindR (if terminal (pr_status c)
              then terminal_mutation pid (pr_revision c) (pr_exec_gen c) [pr_status c] (am_token am)
                ''resource accounting appends usage to a terminal process'' am
              else Inr am) (\<lambda>am'.
          let patch = [(''resource_usage'', usage_json u), (''updated_at'', VStr now)] in
          bindR (if prev = None then patch_process am' now pid patch (pr_revision c) None (ac_table st)
              else patch_process_control am' now pid patch (pr_revision c) [pr_status c]
                ''hierarchical resource charge updates an ancestor'' (ac_table st)) (\<lambda>(pt, r).
            Inr (put_usage pid u (st\<lparr>ac_table := pt\<rparr>)))))"

fun charge_rows ::
  "doubles \<Rightarrow> ambient \<Rightarrow> string \<Rightarrow> usage \<Rightarrow> usage_field list \<Rightarrow> bool \<Rightarrow> string option \<Rightarrow> acct_row list \<Rightarrow> acct \<Rightarrow>
   (string \<times> budget_field \<times> rat \<times> rat) option \<Rightarrow> (acct \<times> (string \<times> budget_field \<times> rat \<times> rat) option) res" where
  "charge_rows db am now u rel active prev [] st found = Inr (st, found)"
| "charge_rows db am now u rel active prev (r # rs) st found =
     bindR (get_acct st (ar_pid r)) (\<lambda>latest.
     bindR (merge_usage db (ar_usage latest) u) (\<lambda>total.
     bindR (write_usage am now prev (ar_pid r) total st) (\<lambda>st1.
     bindR (case prev of None \<Rightarrow> Inr st1 | Some p \<Rightarrow> consume_reservation db now (ar_pid r) p u rel st1) (\<lambda>st2.
     bindR (first_exceeded db st2 latest total rel None active) (\<lambda>ex.
       charge_rows db am now u rel active (Some (ar_pid r)) rs st2
         (case found of Some x \<Rightarrow> found | None \<Rightarrow> map_option (\<lambda>x. (ar_pid r, x)) ex))))))"

definition release_reservations :: "string \<Rightarrow> acct \<Rightarrow> acct" where
  "release_reservations pid st =
     st\<lparr>ac_children := filter (\<lambda>c. cr_parent c \<noteq> pid \<and> cr_child c \<noteq> pid) (ac_children st)\<rparr>"

text \<open>\<open>_persist_resource_limit_kill\<close> over the rows of the tree as they were read\<close>

fun kill_rows ::
  "host \<Rightarrow> ambient \<Rightarrow> string \<Rightarrow> string \<Rightarrow> string \<Rightarrow> proc_row list \<Rightarrow> acct \<Rightarrow> (acct \<times> string list) res" where
  "kill_rows h am now nonce reason [] st = Inr (st, [])"
| "kill_rows h am now nonce reason (c # cs) st =
     (if terminal (pr_status c) then kill_rows h am now nonce reason cs st
      else bindR (limit_kill h am now nonce reason c (ac_table st)) (\<lambda>(pt, r).
        bindR (kill_rows h am now nonce reason cs (release_reservations (pr_pid c) (st\<lparr>ac_table := pt\<rparr>))) (\<lambda>(st', ks).
          Inr (st', pr_pid c # ks))))"

definition limit_kill_tree ::
  "host \<Rightarrow> ambient \<Rightarrow> string \<Rightarrow> string \<Rightarrow> string \<Rightarrow> string \<Rightarrow> acct \<Rightarrow> (acct \<times> string list) res" where
  "limit_kill_tree h am now nonce reason pid st =
     bindR (descendant_tree st pid) (\<lambda>rs.
     bindR (mapR (\<lambda>r. case get_process (ac_table st) (ar_pid r) of
         None \<Rightarrow> Inl (NotFound (''process not found: '' @ ar_pid r)) | Some c \<Rightarrow> Inr c) rs) (\<lambda>cs.
       kill_rows h am now nonce reason cs st))"

text \<open>\<open>_wake_parent_waiting_on_child\<close>; the finalization swallows its errors, its other callbacks lie outside.\<close>

definition wake_parent :: "host \<Rightarrow> ambient \<Rightarrow> string \<Rightarrow> string \<Rightarrow> acct \<Rightarrow> acct" where
  "wake_parent h am now child st =
     (case get_acct st child of
        Inl _ \<Rightarrow> st
      | Inr a \<Rightarrow>
          (case ar_parent a of
             None \<Rightarrow> st
           | Some p \<Rightarrow>
               (case get_process (ac_table st) p of
                  None \<Rightarrow> st
                | Some c \<Rightarrow>
                    if pr_status c = StWaitingEvent \<and> pr_wait c = Some (ChildWait child) then
                      (case bindR (wait_token c) (\<lambda>tok.
                          wake h am now tok True (Some ''resource termination wakes a waiting parent'') (ac_table st)) of
                         Inl _ \<Rightarrow> st
                       | Inr (pt, r) \<Rightarrow> st\<lparr>ac_table := pt\<rparr>)
                    else st)))"

definition finalize_limit :: "host \<Rightarrow> ambient \<Rightarrow> string \<Rightarrow> string list \<Rightarrow> acct \<Rightarrow> acct" where
  "finalize_limit h am now ks st = fold (wake_parent h am now) ks st"

text \<open>
  \<open>_charge\<close>. \<open>Inl\<close> is an error raised inside the transaction of the charge, which is rolled back. Once the
  charge is committed the outcome is a state, the error that is raised after it if any, and the killed
  processes whose finalization the caller has to run when it deferred it.
\<close>

record charge_mode =
  ch_overage :: bool
  ch_kill :: bool
  ch_active :: bool
  ch_deferred :: bool

definition charge_in ::
  "doubles \<Rightarrow> host \<Rightarrow> ambient \<Rightarrow> string \<Rightarrow> string \<Rightarrow> charge_mode \<Rightarrow> string \<Rightarrow> usage \<Rightarrow> acct \<Rightarrow>
   (acct \<times> exn option \<times> string list) res" where
  "charge_in db h am now nonce md pid u st =
     bindR (coerce_usage u) (\<lambda>d.
       if is_zero d then Inr (st, None, [])
       else
         bindR (process_chain st pid) (\<lambda>rs.
         bindR (if ch_overage md then Inr () else preflight_locked db st pid d) (\<lambda>_.
         bindR (charge_rows db am now d (nonzero_fields d) (ch_active md) None rs st None) (\<lambda>(st1, found).
           Inr (case found of
               None \<Rightarrow> (st1, None, [])
             | Some (owner, ex) \<Rightarrow>
                 let msg = limit_message owner ex in
                 if \<not> ch_kill md then (st1, Some (ResourceLimitExceeded msg), [])
                 else (case limit_kill_tree h am now nonce msg owner st1 of
                     Inl e \<Rightarrow> (st1, Some e, [])
                   | Inr (st2, ks) \<Rightarrow>
                       (if ch_deferred md then st2 else finalize_limit h am now ks st2,
                        Some (ResourceLimitExceeded msg), if ch_deferred md then ks else [])))))))"

definition charge ::
  "doubles \<Rightarrow> host \<Rightarrow> ambient \<Rightarrow> string \<Rightarrow> string \<Rightarrow> bool \<Rightarrow> bool \<Rightarrow> string \<Rightarrow> usage \<Rightarrow> acct \<Rightarrow>
   (acct \<times> exn option \<times> string list) res" where
  "charge db h am now nonce overage kill pid u st =
     charge_in db h am now nonce \<lparr>ch_overage = overage, ch_kill = kill, ch_active = True, ch_deferred = False\<rparr> pid u st"

definition kill_if_exceeded ::
  "host \<Rightarrow> ambient \<Rightarrow> string \<Rightarrow> string \<Rightarrow> string \<Rightarrow> string \<Rightarrow> acct \<Rightarrow> acct res" where
  "kill_if_exceeded h am now nonce reason pid st =
     bindR (limit_kill_tree h am now nonce reason pid st) (\<lambda>(st', ks). Inr (finalize_limit h am now ks st'))"

section \<open>Envelopes before dispatch\<close>

definition find_usage :: "acct \<Rightarrow> string \<Rightarrow> usage_reservation option" where
  "find_usage st rid = List.find (\<lambda>u. uv_id u = rid) (ac_usage st)"

definition reserve_usage ::
  "doubles \<Rightarrow> string \<Rightarrow> string \<Rightarrow> string option \<Rightarrow> string \<Rightarrow> string \<Rightarrow> usage \<Rightarrow> acct \<Rightarrow> acct res" where
  "reserve_usage db now rid by source pid u st =
     bindR (coerce_usage u) (\<lambda>v.
     bindR (check (\<not> is_zero v) (ValidationError ''resource usage reservation must be non-zero'')) (\<lambda>_.
     bindR (preflight_locked db st pid v) (\<lambda>_.
     bindR (check (find_usage st rid = None)
       (PyRuntimeError ''UNIQUE constraint failed: resource_usage_reservations.reservation_id'')) (\<lambda>_.
       Inr (st\<lparr>ac_usage := ac_usage st @ [\<lparr>uv_id = rid, uv_pid = pid, uv_usage = v, uv_status = UsageActive,
         uv_by = (case by of Some b \<Rightarrow> if b = [] then source else b | None \<Rightarrow> source), uv_reason = source,
         uv_settled = None, uv_created = now, uv_updated = now\<rparr>]\<rparr>)))))"

definition llm_fields :: "usage_field list" where
  "llm_fields = [LlmCalls, LlmPromptTokens, LlmCompletionTokens, LlmTotalTokens]"

definition maximum_charge :: "usage_reservation \<Rightarrow> usage" where
  "maximum_charge r =
     (if uv_reason r = ''llm.request'' \<and> list_all (\<lambda>f. f \<in> set llm_fields \<or> uv_usage r f = 0) usage_fields
      then (\<lambda>f. if f = LlmCalls \<or> f = LlmTotalTokens then uv_usage r f else 0)
      else uv_usage r)"

definition settle_row :: "string \<Rightarrow> string \<Rightarrow> usage_status \<Rightarrow> usage \<Rightarrow> acct \<Rightarrow> acct" where
  "settle_row now rid s u st = st\<lparr>ac_usage := map (\<lambda>r. if uv_id r = rid \<and> uv_status r = UsageActive
     then r\<lparr>uv_status := s, uv_settled := Some u, uv_updated := now\<rparr> else r) (ac_usage st)\<rparr>"

definition assert_within :: "usage \<Rightarrow> usage \<Rightarrow> unit res" where
  "assert_within u mx = check (list_all (\<lambda>f. u f \<le> mx f) usage_fields)
     (ResourceLimitExceeded ''resource settlement exceeded reserved maximum'')"

text \<open>
  \<open>_settle_usage_reservation\<close>: the row and the charge are one transaction, so an error of the charge undoes
  the settlement, except that recovery passes over an exceeded limit.
\<close>

definition settlement ::
  "usage_reservation \<Rightarrow> usage option \<Rightarrow> bool \<Rightarrow> bool \<Rightarrow> (usage \<times> usage_status) res" where
  "settlement r actual mx rel =
     (if rel then Inr (no_usage, UsageReleased)
      else if mx then Inr (maximum_charge r, UsageChargedMaximum)
      else bindR (coerce_usage (case actual of None \<Rightarrow> no_usage | Some u \<Rightarrow> u)) (\<lambda>u.
        bindR (assert_within u (uv_usage r)) (\<lambda>_. Inr (u, UsageSettled))))"

definition settle_in ::
  "doubles \<Rightarrow> host \<Rightarrow> ambient \<Rightarrow> string \<Rightarrow> string \<Rightarrow> bool \<Rightarrow> string \<Rightarrow> usage option \<Rightarrow> bool \<Rightarrow> bool \<Rightarrow> acct \<Rightarrow>
   (acct \<times> usage) res" where
  "settle_in db h am now nonce recovery rid actual mx rel st =
     bindR (check (\<not> (mx \<and> rel))
       (ValidationError ''resource reservation cannot both release and charge maximum'')) (\<lambda>_.
     case find_usage st rid of
       None \<Rightarrow> Inl (ValidationError (''resource usage reservation not found: '' @ rid))
     | Some r \<Rightarrow>
         if uv_status r \<noteq> UsageActive then Inr (st, case uv_settled r of Some u \<Rightarrow> u | None \<Rightarrow> no_usage)
         else
           bindR (settlement r actual mx rel) (\<lambda>(u, s).
             let st1 = settle_row now rid s u st in
             if is_zero u then Inr (st1, u)
             else
               (case charge_in db h am now nonce
                   \<lparr>ch_overage = recovery, ch_kill = True, ch_active = \<not> recovery, ch_deferred = True\<rparr> (uv_pid r) u st1 of
                  Inr (st2, None, ks) \<Rightarrow> Inr (finalize_limit h am now ks st2, u)
                | Inr (st2, Some e, ks) \<Rightarrow>
                    (case e of
                       ResourceLimitExceeded _ \<Rightarrow> if recovery then Inr (finalize_limit h am now ks st2, u) else Inl e
                     | _ \<Rightarrow> Inl e)
                | Inl e \<Rightarrow>
                    (case e of
                       ResourceLimitExceeded _ \<Rightarrow> if recovery then Inr (st1, u) else Inl e
                     | _ \<Rightarrow> Inl e))))"

definition settle_usage ::
  "doubles \<Rightarrow> host \<Rightarrow> ambient \<Rightarrow> string \<Rightarrow> string \<Rightarrow> string \<Rightarrow> usage option \<Rightarrow> bool \<Rightarrow> bool \<Rightarrow> acct \<Rightarrow> (acct \<times> usage) res" where
  "settle_usage db h am now nonce = settle_in db h am now nonce False"

text \<open>
  \<open>recover_usage_reservations\<close>; \<open>eff\<close> reads the transaction state of the effect a row was reserved for.
\<close>

definition usage_page :: "(string \<times> string) option \<Rightarrow> acct \<Rightarrow> usage_reservation list" where
  "usage_page after st = filter (\<lambda>u. case after of None \<Rightarrow> True | Some k \<Rightarrow> k < uv_key u) (active_usage st)"

fun recover_each_usage ::
  "doubles \<Rightarrow> host \<Rightarrow> ambient \<Rightarrow> string \<Rightarrow> string \<Rightarrow> (string \<Rightarrow> string option) \<Rightarrow> usage_reservation list \<Rightarrow> acct \<Rightarrow> acct res" where
  "recover_each_usage db h am now nonce eff [] st = Inr st"
| "recover_each_usage db h am now nonce eff (u # us) st =
     (let rel = (case eff (uv_by u) of None \<Rightarrow> True | Some s \<Rightarrow> s = ''prepared'') in
      bindR (settle_in db h am now nonce True (uv_id u) None (\<not> rel) rel st) (\<lambda>(st1, _).
        recover_each_usage db h am now nonce eff us st1))"

fun recover_usage_pages ::
  "nat \<Rightarrow> doubles \<Rightarrow> host \<Rightarrow> ambient \<Rightarrow> string \<Rightarrow> string \<Rightarrow> (string \<Rightarrow> string option) \<Rightarrow> nat \<Rightarrow> (string \<times> string) option \<Rightarrow>
   nat \<Rightarrow> string list \<Rightarrow> acct \<Rightarrow> (acct \<times> nat \<times> string list) option res" where
  "recover_usage_pages 0 db h am now nonce eff n after tot sample st = Inr None"
| "recover_usage_pages (Suc k) db h am now nonce eff n after tot sample st =
     (let rows = usage_page after st; page = take n rows in
      bindR (recover_each_usage db h am now nonce eff page st) (\<lambda>st1.
        let tot' = tot + length page; sample' = sample @ take (n - length sample) (map uv_id page) in
        if length rows \<le> n then Inr (Some (st1, tot', sample'))
        else recover_usage_pages k db h am now nonce eff n (Some (uv_key (last page))) tot' sample' st1))"

definition recover_usage ::
  "doubles \<Rightarrow> host \<Rightarrow> ambient \<Rightarrow> string \<Rightarrow> string \<Rightarrow> (string \<Rightarrow> string option) \<Rightarrow> nat \<Rightarrow> acct \<Rightarrow>
   (acct \<times> nat \<times> string list) option res" where
  "recover_usage db h am now nonce eff n st =
     recover_usage_pages (length (ac_usage st) + 1) db h am now nonce eff n None 0 [] st"

section \<open>Budgets of children\<close>

definition has_limit :: "acct \<Rightarrow> string \<Rightarrow> budget_field \<Rightarrow> bool res" where
  "has_limit st pid b = bindR (process_chain st pid) (\<lambda>rs. Inr (list_ex (\<lambda>r. bg_limit (ar_budget r) b \<noteq> None) rs))"

fun remaining_rows ::
  "doubles \<Rightarrow> acct \<Rightarrow> budget_field \<Rightarrow> usage_field list \<Rightarrow> usage option \<Rightarrow> acct_row list \<Rightarrow> rat option \<Rightarrow> rat option res" where
  "remaining_rows db st b fs reserve [] acc = Inr acc"
| "remaining_rows db st b fs reserve (r # rs) acc =
     (case bg_limit (ar_budget r) b of
        None \<Rightarrow> remaining_rows db st b fs reserve rs acc
      | Some l \<Rightarrow>
          bindR (case reserve of None \<Rightarrow> Inr (ar_usage r) | Some v \<Rightarrow> merge_usage db (ar_usage r) v) (\<lambda>u.
          bindR (committed_value db st (ar_pid r) u None True b fs) (\<lambda>v.
          bindR (budget_number b l) (\<lambda>lim.
            let left = max 0 (amt_sub db b lim v) in
            remaining_rows db st b fs reserve rs (Some (case acc of None \<Rightarrow> left | Some a \<Rightarrow> min a left))))))"

definition remaining_field ::
  "doubles \<Rightarrow> acct \<Rightarrow> string \<Rightarrow> budget_field \<Rightarrow> usage_field list \<Rightarrow> usage option \<Rightarrow> rat option res" where
  "remaining_field db st pid b fs reserve =
     bindR (process_chain st pid) (\<lambda>rs. remaining_rows db st b fs reserve rs None)"

definition peak_limit :: "acct \<Rightarrow> string \<Rightarrow> budget_field \<Rightarrow> int option res" where
  "peak_limit st pid b =
     bindR (process_chain st pid) (\<lambda>rs.
       let ls = map (\<lambda>l. \<lfloor>l\<rfloor>) (List.map_filter (\<lambda>r. bg_limit (ar_budget r) b) rs) in
       Inr (case ls of [] \<Rightarrow> None | x # xs \<Rightarrow> Some (fold min xs x)))"

definition window_limit :: "acct \<Rightarrow> string \<Rightarrow> int res" where
  "window_limit st pid =
     bindR (process_chain st pid) (\<lambda>rs.
       Inr (case map (\<lambda>r. bg_window (ar_budget r)) rs of [] \<Rightarrow> 0 | x # xs \<Rightarrow> fold min xs x))"

fun child_budget_rows ::
  "doubles \<Rightarrow> acct \<Rightarrow> string \<Rightarrow> budget \<Rightarrow> usage \<Rightarrow> (budget_field \<times> usage_field list) list \<Rightarrow> unit res" where
  "child_budget_rows db st parent bg reserve [] = Inr ()"
| "child_budget_rows db st parent bg reserve ((b, fs) # bs) =
     (case bg_limit bg b of
        None \<Rightarrow> child_budget_rows db st parent bg reserve bs
      | Some want \<Rightarrow>
          if \<not> reservable b then
            bindR (peak_limit st parent b) (\<lambda>l.
            bindR (check (case l of None \<Rightarrow> True | Some x \<Rightarrow> want \<le> of_int x)
              (ResourceLimitExceeded ''child budget exceeds parent limit'')) (\<lambda>_.
              child_budget_rows db st parent bg reserve bs))
          else
            bindR (remaining_field db st parent b fs (Some reserve)) (\<lambda>l.
            bindR (check (case l of None \<Rightarrow> True | Some x \<Rightarrow> want \<le> x)
              (ResourceLimitExceeded ''child budget exceeds parent remaining'')) (\<lambda>_.
              child_budget_rows db st parent bg reserve bs)))"

definition validate_child_budget :: "doubles \<Rightarrow> acct \<Rightarrow> string \<Rightarrow> budget \<Rightarrow> usage \<Rightarrow> unit res" where
  "validate_child_budget db st parent bg reserve =
     bindR (coerce_usage reserve) (\<lambda>_.
     bindR (if is_zero reserve then Inr () else preflight_locked db st parent reserve) (\<lambda>_.
     bindR (window_limit st parent) (\<lambda>w.
     bindR (check (bg_window bg \<le> w)
       (ResourceLimitExceeded ''child budget max_context_materialization_tokens exceeds parent limit'')) (\<lambda>_.
       child_budget_rows db st parent bg reserve budget_order))))"

definition reservation_from_budget :: "budget \<Rightarrow> (budget_field \<times> rat) list res" where
  "reservation_from_budget bg =
     mapR (\<lambda>(b, l). bindR (budget_number b l) (\<lambda>v. Inr (b, v)))
       (List.map_filter (\<lambda>(b, fs). if reservable b then map_option (Pair b) (bg_limit bg b) else None) budget_order)"

definition one_child :: usage where
  "one_child = (\<lambda>f. if f = ChildProcesses then 1 else 0)"

definition reserve_child_budget :: "doubles \<Rightarrow> string \<Rightarrow> string \<Rightarrow> string \<Rightarrow> budget \<Rightarrow> acct \<Rightarrow> acct res" where
  "reserve_child_budget db now parent child bg st =
     bindR (validate_child_budget db st parent bg one_child) (\<lambda>_.
     bindR (reservation_from_budget bg) (\<lambda>m.
       Inr (if m = [] then st
         else upsert_reservation \<lparr>cr_parent = parent, cr_child = child, cr_reserved = m, cr_created = now, cr_updated = now\<rparr> st)))"

end
