(* ===== verification/AcctProps.thy ===== *)
theory AcctProps
  imports Accounting
begin

text \<open>
  What accounting guarantees: charges that reach every ancestor and stay within every limit, envelopes that
  are settled once, and a recovery that settles all of them.
\<close>

section \<open>Chains of parents\<close>

lemma get_acct_Inr: "get_acct st pid = Inr r \<longleftrightarrow> List.find (\<lambda>r. ar_pid r = pid) (ac_rows st) = Some r"
  by (auto simp: get_acct_def split: option.splits)

lemma get_acctD: "get_acct st pid = Inr r \<Longrightarrow> r \<in> set (ac_rows st) \<and> ar_pid r = pid"
  by (auto simp: get_acct_Inr dest: find_SomeD)

text \<open>A change of the rows that keeps pids and parents changes a chain row by row.\<close>

definition keeps :: "(acct_row \<Rightarrow> acct_row) \<Rightarrow> bool" where
  "keeps g \<longleftrightarrow> (\<forall>r. ar_pid (g r) = ar_pid r \<and> ar_parent (g r) = ar_parent r)"

lemma get_acct_map:
  assumes "keeps g" "ac_rows st' = map g (ac_rows st)"
  shows "get_acct st' pid = bindR (get_acct st pid) (\<lambda>r. Inr (g r))"
proof -
  have "List.find (\<lambda>r. ar_pid r = pid) (map g rs) = map_option g (List.find (\<lambda>r. ar_pid r = pid) rs)" for rs
    using assms(1) by (induction rs) (auto simp: keeps_def)
  then show ?thesis by (simp add: get_acct_def assms(2) split: option.split)
qed

lemma chain_map:
  assumes "keeps g" "ac_rows st' = map g (ac_rows st)"
  shows "chain_from n st' pid = bindR (chain_from n st pid) (\<lambda>rs. Inr (map g rs))"
proof (induction n arbitrary: pid)
  case (Suc n)
  have p: "ar_parent (g r) = ar_parent r" for r using assms(1) by (simp add: keeps_def)
  show ?case
  proof (cases "get_acct st pid")
    case (Inr r)
    then show ?thesis
      by (cases "ar_parent r"; cases "chain_from n st (the (ar_parent r))") (simp_all add: get_acct_map [OF assms] p Suc.IH)
  qed (simp add: get_acct_map [OF assms])
qed simp

lemma process_chain_map:
  assumes "keeps g" "ac_rows st' = map g (ac_rows st)"
  shows "process_chain st' pid = bindR (process_chain st pid) (\<lambda>rs. Inr (map g rs))"
  using chain_map [OF assms] by (simp add: process_chain_def assms(2))

lemma chain_shape:
  assumes "chain_from n st pid = Inr rs"
  shows "rs \<noteq> []" "ar_pid (hd rs) = pid" "\<And>r. r \<in> set rs \<Longrightarrow> get_acct st (ar_pid r) = Inr r"
proof -
  have "rs \<noteq> [] \<and> ar_pid (hd rs) = pid \<and> (\<forall>r \<in> set rs. get_acct st (ar_pid r) = Inr r)"
    using assms
  proof (induction n arbitrary: pid rs)
    case (Suc n)
    then obtain r where r: "get_acct st pid = Inr r" by (auto simp: bindR_Inr_iff)
    then show ?case
      using Suc get_acctD [OF r] by (cases "ar_parent r") (auto simp: bindR_Inr_iff)
  qed simp
  then show "rs \<noteq> []" "ar_pid (hd rs) = pid" "\<And>r. r \<in> set rs \<Longrightarrow> get_acct st (ar_pid r) = Inr r" by auto
qed

text \<open>A chain that ends never meets a pid twice.\<close>

lemma chain_unique: "chain_from n st pid = Inr rs \<Longrightarrow> chain_from m st pid = Inr rs' \<Longrightarrow> rs = rs'"
proof (induction n arbitrary: m pid rs rs')
  case (Suc n)
  then obtain k where m: "m = Suc k" by (cases m) auto
  obtain r where r: "get_acct st pid = Inr r" using Suc.prems(1) by (auto simp: bindR_Inr_iff)
  show ?case
  proof (cases "ar_parent r")
    case None
    then show ?thesis using Suc.prems r m by simp
  next
    case (Some p)
    obtain xs ys where "chain_from n st p = Inr xs" "rs = r # xs" "chain_from k st p = Inr ys" "rs' = r # ys"
      using Suc.prems r m Some by (auto simp: bindR_Inr_iff)
    then show ?thesis using Suc.IH by blast
  qed
qed simp

lemma chain_suffix:
  "chain_from n st pid = Inr rs \<Longrightarrow> rs = xs @ r # ys \<Longrightarrow> \<exists>m. chain_from m st (ar_pid r) = Inr (r # ys)"
proof (induction n arbitrary: pid rs xs)
  case (Suc n)
  obtain q where q: "get_acct st pid = Inr q" using Suc.prems(1) by (auto simp: bindR_Inr_iff)
  show ?case
  proof (cases xs)
    case Nil
    then have "ar_pid r = pid" using chain_shape(2) [OF Suc.prems(1)] Suc.prems(2) by simp
    moreover have "rs = r # ys" using Suc.prems(2) Nil by simp
    ultimately show ?thesis using Suc.prems(1) by (intro exI [of _ "Suc n"]) (simp del: chain_from.simps)
  next
    case (Cons x xs')
    then have two: "rs = x # (xs' @ r # ys)" using Suc.prems(2) by simp
    have "ar_parent q \<noteq> None" using Suc.prems(1) q two by (cases "ar_parent q") auto
    then obtain p where p: "ar_parent q = Some p" by blast
    then obtain zs where zs: "chain_from n st p = Inr zs" "rs = q # zs"
      using Suc.prems(1) q by (auto simp: bindR_Inr_iff)
    show ?thesis by (rule Suc.IH [OF zs(1), of xs']) (use zs(2) two in simp)
  qed
qed simp

lemma chain_distinct:
  assumes "chain_from n st pid = Inr rs"
  shows "distinct (map ar_pid rs)"
proof (rule ccontr)
  assume "\<not> distinct (map ar_pid rs)"
  then obtain as p bs cs where d: "map ar_pid rs = as @ [p] @ bs @ [p] @ cs" using not_distinct_decomp by blast
  then obtain xs r ys s zs where rs: "rs = xs @ r # ys @ s # zs" and pid: "ar_pid r = p" "ar_pid s = p"
    by (auto simp: map_eq_append_conv map_eq_Cons_conv append_eq_map_conv Cons_eq_map_conv)
  obtain m where m: "chain_from m st p = Inr (r # ys @ s # zs)" using chain_suffix [OF assms rs] pid by auto
  obtain k where k: "chain_from k st p = Inr (s # zs)" using chain_suffix [OF m, of "r # ys" s zs] pid by auto
  have "r # ys @ s # zs = s # zs" by (rule chain_unique [OF m k])
  then have "length (r # ys @ s # zs) = length (s # zs)" by simp
  then show False by simp
qed

lemma process_chain_distinct: "process_chain st pid = Inr rs \<Longrightarrow> distinct (map ar_pid rs)"
  unfolding process_chain_def by (rule chain_distinct)

section \<open>The frame of a charge\<close>

lemma write_usage_frame:
  assumes "write_usage am now prev pid u st = Inr st1"
  shows "ac_rows st1 = map (\<lambda>r. if ar_pid r = pid then r\<lparr>ar_usage := u\<rparr> else r) (ac_rows st)"
    "ac_children st1 = ac_children st" "ac_usage st1 = ac_usage st"
  using assms unfolding write_usage_def by (auto simp: bindR_Inr_iff put_usage_def Let_def split: option.splits)

lemma filter_map_parent:
  "filter (\<lambda>c. cr_parent c = q) (map (\<lambda>x. if cr_parent x = p \<and> P x then x\<lparr>cr_reserved := m, cr_updated := t\<rparr> else x) cs)
    = (if q = p then map (\<lambda>x. if cr_parent x = p \<and> P x then x\<lparr>cr_reserved := m, cr_updated := t\<rparr> else x)
        (filter (\<lambda>c. cr_parent c = q) cs) else filter (\<lambda>c. cr_parent c = q) cs)"
  by (induction cs) auto

lemma filter_delete_parent:
  "q \<noteq> p \<Longrightarrow> filter (\<lambda>c. cr_parent c = q) (filter (\<lambda>x. \<not> (cr_parent x = p \<and> P x)) cs) = filter (\<lambda>c. cr_parent c = q) cs"
  by (induction cs) auto

lemma consume_frame:
  assumes "consume_reservation db now parent child u rel st = Inr st1"
  shows "ac_rows st1 = ac_rows st" "ac_usage st1 = ac_usage st" "ac_table st1 = ac_table st"
    "q \<noteq> parent \<Longrightarrow> reservations_of st1 q = reservations_of st q"
proof -
  have "st1 = st \<or> (\<exists>c. cr_parent c = parent \<and> st1 = upsert_reservation c st \<and> find_reservation st parent child \<noteq> None
      \<and> cr_child c = child) \<or> st1 = delete_reservation parent child st"
  proof (cases "find_reservation st parent child")
    case None
    then show ?thesis using assms by (simp add: consume_reservation_def)
  next
    case (Some c)
    then have c: "cr_parent c = parent" "cr_child c = child" by (auto simp: find_reservation_def dest!: find_SomeD)
    obtain m ch where "st1 = (if \<not> ch then st else if m \<noteq> [] then upsert_reservation (c\<lparr>cr_reserved := m, cr_updated := now\<rparr>) st
        else delete_reservation parent child st)"
      using assms Some unfolding consume_reservation_def by (auto simp: bindR_Inr_iff)
    then show ?thesis
      using c Some by (cases "ch \<and> m \<noteq> []") (auto intro!: exI [of _ "c\<lparr>cr_reserved := m, cr_updated := now\<rparr>"])
  qed
  moreover have "list_ex (\<lambda>x. cr_parent x = parent \<and> cr_child x = child) (ac_children st)"
    if "find_reservation st parent child \<noteq> None"
    using that by (auto simp: find_reservation_def list_ex_iff dest!: find_SomeD)
  ultimately show "ac_rows st1 = ac_rows st" "ac_usage st1 = ac_usage st" "ac_table st1 = ac_table st"
    "q \<noteq> parent \<Longrightarrow> reservations_of st1 q = reservations_of st q"
    by (auto simp: upsert_reservation_def delete_reservation_def reservations_of_def filter_map_parent filter_delete_parent
        simp del: filter_filter de_Morgan_conj)
qed

text \<open>The rows after a charge of the processes \<open>ps\<close>.\<close>

definition charged :: "doubles \<Rightarrow> usage \<Rightarrow> string set \<Rightarrow> acct_row \<Rightarrow> acct_row" where
  "charged db u ps r = (if ar_pid r \<in> ps then r\<lparr>ar_usage := merged db (ar_usage r) u\<rparr> else r)"

lemma charged_keeps: "keeps (charged db u ps)"
  by (simp add: keeps_def charged_def)

lemma merge_usage_Inr: "merge_usage db a u = Inr v \<longleftrightarrow> v = merged db a u \<and> valid_usage v"
  by (auto simp: merge_usage_def)

lemma charge_step:
  assumes "distinct (map ar_pid (ac_rows st))" "get_acct st p = Inr latest"
  shows "map (\<lambda>r. if ar_pid r = p then r\<lparr>ar_usage := merged db (ar_usage latest) u\<rparr> else r) (ac_rows st)
    = map (charged db u {p}) (ac_rows st)"
proof -
  have "r = latest" if "r \<in> set (ac_rows st)" "ar_pid r = p" for r
    using assms(1) that get_acctD [OF assms(2)] by (auto simp: distinct_map dest: inj_onD)
  then show ?thesis by (auto simp: charged_def)
qed

lemma charged_twice: "p \<notin> ps \<Longrightarrow> charged db u ps (charged db u {p} r) = charged db u (insert p ps) r"
  by (simp add: charged_def)

lemma charge_rows_frame:
  assumes "charge_rows db am now u rel act prev rs st found = Inr (st', found')" "distinct (map ar_pid rs)"
    "distinct (map ar_pid (ac_rows st))"
  shows "ac_rows st' = map (charged db u (ar_pid ` set rs)) (ac_rows st) \<and> ac_usage st' = ac_usage st
    \<and> (\<forall>q. q \<notin> ar_pid ` set rs \<longrightarrow> reservations_of st' q = reservations_of st q) \<and> (found \<noteq> None \<longrightarrow> found' \<noteq> None)"
  using assms
proof (induction rs arbitrary: prev st found)
  case Nil
  then show ?case by (simp add: charged_def)
next
  case (Cons r rs)
  obtain latest st1 st2 ex where latest: "get_acct st (ar_pid r) = Inr latest"
    and w: "write_usage am now prev (ar_pid r) (merged db (ar_usage latest) u) st = Inr st1"
    and c: "(case prev of None \<Rightarrow> Inr st1 | Some p \<Rightarrow> consume_reservation db now (ar_pid r) p u rel st1) = Inr st2"
    and rest: "charge_rows db am now u rel act (Some (ar_pid r)) rs st2
         (case found of Some x \<Rightarrow> found | None \<Rightarrow> map_option (\<lambda>x. (ar_pid r, x)) ex) = Inr (st', found')"
    using Cons.prems(1) by (auto simp: bindR_Inr_iff merge_usage_Inr)
  note W = write_usage_frame [OF w]
  have C: "ac_rows st2 = ac_rows st1" "ac_usage st2 = ac_usage st1"
    "q \<noteq> ar_pid r \<Longrightarrow> reservations_of st2 q = reservations_of st1 q" for q
    using c consume_frame by (cases prev; auto)+
  have rows: "ac_rows st2 = map (charged db u {ar_pid r}) (ac_rows st)"
    using W(1) C(1) charge_step [OF Cons.prems(3) latest] by simp
  have "map ar_pid (ac_rows st2) = map ar_pid (ac_rows st)" by (simp add: rows charged_def)
  then have IH: "ac_rows st' = map (charged db u (ar_pid ` set rs)) (ac_rows st2)" "ac_usage st' = ac_usage st2"
    "\<forall>q. q \<notin> ar_pid ` set rs \<longrightarrow> reservations_of st' q = reservations_of st2 q"
    "(case found of Some x \<Rightarrow> found | None \<Rightarrow> map_option (\<lambda>x. (ar_pid r, x)) ex) \<noteq> None \<longrightarrow> found' \<noteq> None"
    using Cons.IH [OF rest] Cons.prems(2,3) by simp_all
  have "ar_pid r \<notin> ar_pid ` set rs" using Cons.prems(2) by simp
  then have "ac_rows st' = map (charged db u (ar_pid ` set (r # rs))) (ac_rows st)"
    by (simp add: IH(1) rows charged_twice)
  moreover have "ac_usage st' = ac_usage st" using IH(2) C(2) W(3) by simp
  moreover have "reservations_of st1 q = reservations_of st q" for q using W(2) by (simp add: reservations_of_def)
  ultimately show ?case using IH(3,4) C(3) by (auto split: option.splits)
qed

section \<open>Values at the end of a charge\<close>

lemma child_below_map:
  "child_below owner rs = (let below = takeWhile (\<lambda>p. p \<noteq> owner) (map ar_pid rs) in
     if length below = length (map ar_pid rs) then None else if below = [] then Some None else Some (Some (last below)))"
proof -
  have t: "takeWhile (\<lambda>p. p \<noteq> owner) (map ar_pid rs) = map ar_pid (takeWhile (\<lambda>r. ar_pid r \<noteq> owner) rs)"
    by (simp add: takeWhile_map comp_def)
  show ?thesis unfolding t child_below_def Let_def by (simp add: last_map)
qed

lemma child_below_pids: "map ar_pid rs = map ar_pid rs' \<Longrightarrow> child_below owner rs = child_below owner rs'"
  unfolding child_below_map by (simp only:)

lemma owner_child_cong:
  assumes "keeps g" "ac_rows st' = map g (ac_rows st)"
  shows "owner_child st' owner u = owner_child st owner u"
proof (cases "process_chain st (uv_pid u)")
  case (Inr rs)
  have "map ar_pid (map g rs) = map ar_pid rs" using assms(1) by (simp add: keeps_def)
  from child_below_pids [OF this, of owner] Inr show ?thesis
    unfolding owner_child_def process_chain_map [OF assms] by simp
qed (simp add: owner_child_def process_chain_map [OF assms])

lemma sum_active_cong:
  assumes "keeps g" "ac_rows st' = map g (ac_rows st)"
  shows "sum_active db st' owner b fs us tot by = sum_active db st owner b fs us tot by"
proof (induction us arbitrary: tot "by")
  case (Cons u us)
  then show ?case
    by (cases "owner_child st owner u") (auto simp: owner_child_cong [OF assms] Let_def split: option.splits)
qed simp

lemma committed_cong:
  assumes "keeps g" "ac_rows st' = map g (ac_rows st)" "ac_usage st' = ac_usage st" "reservations_of st' p = reservations_of st p"
  shows "committed_value db st' p u cons act b fs = committed_value db st p u cons act b fs"
proof -
  have "reserved_usage_value db st' p b fs = reserved_usage_value db st p b fs"
    unfolding reserved_usage_value_def active_usage_def assms(3,4) sum_active_cong [OF assms(1,2)] ..
  then show ?thesis unfolding committed_value_def reserved_budget_value_def assms(4) by (simp only:)
qed

lemma scan_budgets_cong:
  assumes "\<And>b fs. committed_value db st' (ar_pid r) u cons act b fs = committed_value db st (ar_pid r) u cons act b fs"
  shows "scan_budgets db st' r u rel cons act bs = scan_budgets db st r u rel cons act bs"
proof (induction bs)
  case (Cons p bs)
  then show ?case by (cases p) (simp add: assms split: option.split cong: if_cong)
qed simp

lemma scan_budgets_None:
  assumes "scan_budgets db st r u rel cons act bs = Inr None" "(b, fs) \<in> set bs" "set fs \<inter> set rel \<noteq> {}"
    "bg_limit (ar_budget r) b = Some l"
  shows "\<exists>v. committed_value db st (ar_pid r) u cons act b fs = Inr v \<and> v \<le> l"
  using assms
proof (induction bs)
  case (Cons p bs)
  obtain c gs where p: "p = (c, gs)" by (cases p)
  show ?case
  proof (cases "p = (b, fs)")
    case True
    then have "bindR (committed_value db st (ar_pid r) u cons act b fs) (\<lambda>v.
            if l < v then Inr (Some (b, v, l)) else scan_budgets db st r u rel cons act bs) = Inr None"
      using Cons.prems by simp
    then show ?thesis by (auto simp: bindR_Inr_iff not_less split: if_splits)
  next
    case False
    have "scan_budgets db st r u rel cons act bs = Inr None"
      using Cons.prems(1) by (auto simp: p bindR_Inr_iff split: if_splits option.splits)
    then show ?thesis using Cons False by simp
  qed
qed simp

lemma charge_rows_limits:
  assumes "charge_rows db am now u rel act prev rs st found = Inr (st', None)" "distinct (map ar_pid rs)"
    "distinct (map ar_pid (ac_rows st))" "r \<in> set rs"
  shows "\<exists>l. get_acct st (ar_pid r) = Inr l \<and> first_exceeded db st' l (merged db (ar_usage l) u) rel None act = Inr None"
  using assms
proof (induction rs arbitrary: prev st found)
  case (Cons q rs)
  obtain latest st1 st2 ex where latest: "get_acct st (ar_pid q) = Inr latest"
    and w: "write_usage am now prev (ar_pid q) (merged db (ar_usage latest) u) st = Inr st1"
    and c: "(case prev of None \<Rightarrow> Inr st1 | Some p \<Rightarrow> consume_reservation db now (ar_pid q) p u rel st1) = Inr st2"
    and ex: "first_exceeded db st2 latest (merged db (ar_usage latest) u) rel None act = Inr ex"
    and rest: "charge_rows db am now u rel act (Some (ar_pid q)) rs st2
         (case found of Some x \<Rightarrow> found | None \<Rightarrow> map_option (\<lambda>x. (ar_pid q, x)) ex) = Inr (st', None)"
    using Cons.prems(1) by (auto simp: bindR_Inr_iff merge_usage_Inr)
  have "charge_rows db am now u rel act prev [q] st found
      = Inr (st2, case found of Some x \<Rightarrow> found | None \<Rightarrow> map_option (\<lambda>x. (ar_pid q, x)) ex)"
    using latest w c ex Cons.prems(1) by (auto simp: bindR_Inr_iff merge_usage_Inr)
  then have rows: "ac_rows st2 = map (charged db u {ar_pid q}) (ac_rows st)"
    using charge_rows_frame [of db am now u rel act prev "[q]" st found st2] Cons.prems(3) by simp
  then have d2: "distinct (map ar_pid (ac_rows st2))" using Cons.prems(3) by (simp add: charged_def comp_def if_distrib cong: if_cong)
  have q: "ar_pid q \<notin> ar_pid ` set rs" "distinct (map ar_pid rs)" using Cons.prems(2) by simp_all
  have F: "ac_rows st' = map (charged db u (ar_pid ` set rs)) (ac_rows st2)" "ac_usage st' = ac_usage st2"
    "\<forall>p. p \<notin> ar_pid ` set rs \<longrightarrow> reservations_of st' p = reservations_of st2 p"
    "(case found of Some x \<Rightarrow> found | None \<Rightarrow> map_option (\<lambda>x. (ar_pid q, x)) ex) = None"
    using charge_rows_frame [OF rest q(2) d2] by blast+
  show ?case
  proof (cases "r = q")
    case True
    have "ex = None" using F(4) by (cases found) auto
    moreover have pid: "ar_pid latest = ar_pid q" using get_acctD [OF latest] by simp
    have "committed_value db st' (ar_pid latest) v cons act b fs = committed_value db st2 (ar_pid latest) v cons act b fs" for v cons b fs
      using committed_cong [OF charged_keeps F(1,2)] F(3) q(1) pid by simp
    then have "first_exceeded db st' latest (merged db (ar_usage latest) u) rel None act
        = first_exceeded db st2 latest (merged db (ar_usage latest) u) rel None act"
      unfolding first_exceeded_def by (rule scan_budgets_cong)
    ultimately show ?thesis using True latest ex by simp
  next
    case False
    then have r: "r \<in> set rs" using Cons.prems(4) by simp
    then have rq: "ar_pid r \<noteq> ar_pid q" using q(1) by (metis imageI)
    then obtain l where l: "get_acct st2 (ar_pid r) = Inr l"
      "first_exceeded db st' l (merged db (ar_usage l) u) rel None act = Inr None"
      using Cons.IH [OF rest q(2) d2 r] by blast
    obtain k where k: "get_acct st (ar_pid r) = Inr k" "l = charged db u {ar_pid q} k"
      using l(1) unfolding get_acct_map [OF charged_keeps rows] by (auto simp: bindR_Inr_iff)
    have "ar_pid k = ar_pid r" using get_acctD [OF k(1)] by simp
    then have "get_acct st (ar_pid r) = Inr l" using rq k by (simp add: charged_def)
    then show ?thesis using l(2) by blast
  qed
qed simp

section \<open>Kills and finalization\<close>

lemma kill_rows_frame:
  "kill_rows h am now nonce reason cs st = Inr (st', ks) \<Longrightarrow> ac_rows st' = ac_rows st \<and> ac_usage st' = ac_usage st"
proof (induction cs arbitrary: st ks)
  case (Cons c cs)
  then show ?case by (auto simp: bindR_Inr_iff release_reservations_def split: if_splits) 
qed simp

lemma limit_kill_tree_frame:
  "limit_kill_tree h am now nonce reason pid st = Inr (st', ks) \<Longrightarrow> ac_rows st' = ac_rows st \<and> ac_usage st' = ac_usage st"
  unfolding limit_kill_tree_def bindR_Inr_iff using kill_rows_frame by blast

lemma wake_parent_frame: "ac_rows (wake_parent h am now k st) = ac_rows st" "ac_usage (wake_parent h am now k st) = ac_usage st"
  by (auto simp: wake_parent_def split: sum.splits option.splits)

lemma finalize_frame: "ac_rows (finalize_limit h am now ks st) = ac_rows st \<and> ac_usage (finalize_limit h am now ks st) = ac_usage st"
  unfolding finalize_limit_def by (induction ks arbitrary: st) (simp_all add: wake_parent_frame)

lemma charge_in_Inr:
  assumes "charge_in db h am now nonce md pid u st = Inr (st', e, ks)" "\<not> is_zero u"
  obtains rs st1 found where "valid_usage u" "process_chain st pid = Inr rs"
    "charge_rows db am now u (nonzero_fields u) (ch_active md) None rs st None = Inr (st1, found)"
    "found = None \<longleftrightarrow> e = None" "e = None \<Longrightarrow> st' = st1" "ac_rows st' = ac_rows st1" "ac_usage st' = ac_usage st1"
proof -
  obtain rs st1 found where v: "valid_usage u" and c: "process_chain st pid = Inr rs"
    and r: "charge_rows db am now u (nonzero_fields u) (ch_active md) None rs st None = Inr (st1, found)"
    and res: "(st', e, ks) = (case found of
               None \<Rightarrow> (st1, None, [])
             | Some (owner, ex) \<Rightarrow>
                 let msg = limit_message owner ex in
                 if \<not> ch_kill md then (st1, Some (ResourceLimitExceeded msg), [])
                 else (case limit_kill_tree h am now nonce msg owner st1 of
                     Inl e \<Rightarrow> (st1, Some e, [])
                   | Inr (st2, ks) \<Rightarrow>
                       (if ch_deferred md then st2 else finalize_limit h am now ks st2,
                        Some (ResourceLimitExceeded msg), if ch_deferred md then ks else [])))"
    using assms unfolding charge_in_def coerce_usage_def by (auto simp: bindR_Inr_iff split: if_splits)
  have "(found = None \<longleftrightarrow> e = None) \<and> (e = None \<longrightarrow> st' = st1) \<and> ac_rows st' = ac_rows st1 \<and> ac_usage st' = ac_usage st1"
  proof (cases found)
    case (Some x)
    obtain owner ex where x: "x = (owner, ex)" by (cases x)
    show ?thesis
    proof (cases "limit_kill_tree h am now nonce (limit_message owner ex) owner st1")
      case (Inr y)
      obtain st2 ks2 where y: "y = (st2, ks2)" by (cases y)
      show ?thesis
        using res limit_kill_tree_frame [OF Inr [unfolded y]] finalize_frame
        by (simp add: Some x Inr y Let_def split: if_splits)
    qed (use res in \<open>simp add: Some x Let_def split: if_splits\<close>)
  qed (use res in simp)
  then show thesis using that v c r by blast
qed

lemma charge_rows_usage:
  "charge_rows db am now u rel act prev rs st found = Inr (st', found') \<Longrightarrow> ac_usage st' = ac_usage st"
proof (induction rs arbitrary: prev st found)
  case (Cons r rs)
  obtain latest total st1 st2 f where "write_usage am now prev (ar_pid r) total st = Inr st1"
    and c: "(case prev of None \<Rightarrow> Inr st1 | Some p \<Rightarrow> consume_reservation db now (ar_pid r) p u rel st1) = Inr st2"
    and rest: "charge_rows db am now u rel act (Some (ar_pid r)) rs st2 f = Inr (st', found')"
    using Cons.prems by (auto simp: bindR_Inr_iff)
  moreover have "ac_usage st2 = ac_usage st1" using c consume_frame by (cases prev; auto)
  ultimately show ?case using Cons.IH [OF rest] write_usage_frame by simp
qed simp

lemma charge_in_usage:
  assumes "charge_in db h am now nonce md pid u st = Inr (st', e, ks)"
  shows "ac_usage st' = ac_usage st"
proof (cases "is_zero u")
  case True
  then show ?thesis using assms by (auto simp: charge_in_def coerce_usage_def bindR_Inr_iff split: if_splits)
next
  case False
  show ?thesis by (rule charge_in_Inr [OF assms False]) (use charge_rows_usage in auto)
qed

section \<open>Settlement and recovery\<close>

lemma find_settle:
  "List.find (\<lambda>r. uv_id r = rid) (map (\<lambda>r. if uv_id r = rid \<and> uv_status r = UsageActive
     then r\<lparr>uv_status := s, uv_settled := Some u, uv_updated := now\<rparr> else r) rs)
   = map_option (\<lambda>r. if uv_status r = UsageActive then r\<lparr>uv_status := s, uv_settled := Some u, uv_updated := now\<rparr> else r)
       (List.find (\<lambda>r. uv_id r = rid) rs)"
  by (induction rs) auto

lemma settlement_inactive: "settlement r actual mx rel = Inr (u, s) \<Longrightarrow> s \<noteq> UsageActive"
  unfolding settlement_def by (auto simp: bindR_Inr_iff split: if_splits)

text \<open>A settlement that returns leaves the row settled with the returned usage, or changes nothing.\<close>

lemma settle_in_Inr:
  assumes "settle_in db h am now nonce rec rid actual mx rel st = Inr (st', u)"
  obtains r where "find_usage st rid = Some r" "uv_status r \<noteq> UsageActive" "st' = st"
      "u = (case uv_settled r of Some v \<Rightarrow> v | None \<Rightarrow> no_usage)"
  | r s where "find_usage st rid = Some r" "uv_status r = UsageActive" "settlement r actual mx rel = Inr (u, s)"
      "ac_usage st' = ac_usage (settle_row now rid s u st)"
proof -
  obtain r where r: "find_usage st rid = Some r"
    using assms unfolding settle_in_def by (auto simp: bindR_Inr_iff split: option.splits)
  show thesis
  proof (cases "uv_status r = UsageActive")
    case False
    then show thesis using assms that(1) [OF r] unfolding settle_in_def r by (auto simp: bindR_Inr_iff)
  next
    case True
    then obtain v s where v: "settlement r actual mx rel = Inr (v, s)"
      and res: "(let st1 = settle_row now rid s v st in
             if is_zero v then Inr (st1, v)
             else
               (case charge_in db h am now nonce
                   \<lparr>ch_overage = rec, ch_kill = True, ch_active = \<not> rec, ch_deferred = True\<rparr> (uv_pid r) v st1 of
                  Inr (st2, None, ks) \<Rightarrow> Inr (finalize_limit h am now ks st2, v)
                | Inr (st2, Some e, ks) \<Rightarrow>
                    (case e of
                       ResourceLimitExceeded _ \<Rightarrow> if rec then Inr (finalize_limit h am now ks st2, v) else Inl e
                     | _ \<Rightarrow> Inl e)
                | Inl e \<Rightarrow>
                    (case e of
                       ResourceLimitExceeded _ \<Rightarrow> if rec then Inr (st1, v) else Inl e
                     | _ \<Rightarrow> Inl e))) = Inr (st', u)"
      using assms unfolding settle_in_def r by (auto simp: bindR_Inr_iff)
    let ?st1 = "settle_row now rid s v st"
    have "u = v \<and> ac_usage st' = ac_usage ?st1"
    proof (cases "is_zero v")
      case False
      show ?thesis
      proof (cases "charge_in db h am now nonce \<lparr>ch_overage = rec, ch_kill = True, ch_active = \<not> rec, ch_deferred = True\<rparr>
          (uv_pid r) v ?st1")
        case (Inl e)
        then show ?thesis using res False by (cases e) (auto simp: Let_def split: if_splits)
      next
        case (Inr x)
        obtain st2 e ks where x: "x = (st2, e, ks)" by (metis prod.collapse)
        have "ac_usage st2 = ac_usage ?st1"
          by (rule charge_in_usage [OF Inr [unfolded x]])
        then show ?thesis using res False Inr x finalize_frame
          by (cases e; (cases "the e")?) (auto simp: Let_def split: if_splits exn.splits)
      qed
    qed (use res in \<open>auto simp: Let_def\<close>)
    then show thesis using that(2) [OF r True] v by blast
  qed
qed

text \<open>The rows still active after a settlement.\<close>

definition actives :: "acct \<Rightarrow> usage_reservation set" where
  "actives st = {u \<in> set (ac_usage st). uv_status u = UsageActive}"

lemma settle_actives:
  assumes "settle_in db h am now nonce rec rid actual mx rel st = Inr (st', u)" "distinct (map uv_id (ac_usage st))"
  shows "actives st' = {r \<in> actives st. uv_id r \<noteq> rid}" "map uv_id (ac_usage st') = map uv_id (ac_usage st)"
proof -
  have "actives st' = {r \<in> actives st. uv_id r \<noteq> rid} \<and> map uv_id (ac_usage st') = map uv_id (ac_usage st)"
    using assms(1)
  proof (cases rule: settle_in_Inr)
    case (1 r)
    have "q = r" if "q \<in> set (ac_usage st)" "uv_id q = rid" for q
      using 1(1) assms(2) that by (auto simp: find_usage_def distinct_map dest!: find_SomeD dest: inj_onD)
    then show ?thesis using 1 by (auto simp: actives_def)
  next
    case (2 r s)
    have "s \<noteq> UsageActive" using settlement_inactive [OF 2(3)] .
    then show ?thesis using 2(4) by (auto simp: actives_def settle_row_def)
  qed
  then show "actives st' = {r \<in> actives st. uv_id r \<noteq> rid}" "map uv_id (ac_usage st') = map uv_id (ac_usage st)" by auto
qed

lemma recover_each_actives:
  assumes "recover_each_usage db h am now nonce eff us st = Inr st'" "distinct (map uv_id (ac_usage st))"
  shows "actives st' = {r \<in> actives st. uv_id r \<notin> uv_id ` set us} \<and> map uv_id (ac_usage st') = map uv_id (ac_usage st)"
  using assms
proof (induction us arbitrary: st)
  case (Cons u us)
  obtain st1 v rel where s: "settle_in db h am now nonce True (uv_id u) None (\<not> rel) rel st = Inr (st1, v)"
    and rest: "recover_each_usage db h am now nonce eff us st1 = Inr st'"
    using Cons.prems(1) by (auto simp: bindR_Inr_iff Let_def)
  note S = settle_actives [OF s Cons.prems(2)]
  have "distinct (map uv_id (ac_usage st1))" using S(2) Cons.prems(2) by simp
  then have "actives st' = {r \<in> actives st1. uv_id r \<notin> uv_id ` set us} \<and> map uv_id (ac_usage st') = map uv_id (ac_usage st1)"
    using Cons.IH [OF rest] by blast
  then show ?case using S by auto
qed simp

lemma usage_page_set:
  "set (usage_page after st) = {u \<in> actives st. case after of None \<Rightarrow> True | Some k \<Rightarrow> k < uv_key u}"
  by (auto simp: usage_page_def active_usage_def actives_def)

lemma usage_page_sorted: "sorted (map uv_key (usage_page after st))"
  by (simp add: usage_page_def active_usage_def sorted_filter)

lemma usage_page_distinct:
  assumes "distinct (map uv_id (ac_usage st))"
  shows "distinct (map uv_id (usage_page after st))"
proof -
  have "distinct (ac_usage st)" "inj_on uv_id (set (ac_usage st))" using assms by (simp_all add: distinct_map)
  then show ?thesis
    by (auto simp: usage_page_def active_usage_def distinct_map intro: inj_on_subset)
qed

lemma usage_page_length:
  assumes "distinct (map uv_id (ac_usage st))"
  shows "length (usage_page after st) = card (set (usage_page after st))"
  using usage_page_distinct [OF assms, of after] by (simp add: distinct_map distinct_card)

text \<open>The page after the last key of a full page.\<close>

lemma next_usage_page:
  assumes "distinct (map uv_id (ac_usage st))" "0 < n" "n < length (usage_page after st)"
    "actives st' = {r \<in> actives st. uv_id r \<notin> uv_id ` set (take n (usage_page after st))}"
    "\<forall>r \<in> actives st. case after of None \<Rightarrow> True | Some k \<Rightarrow> k < uv_key r"
  shows "set (usage_page (Some (uv_key (last (take n (usage_page after st))))) st') = set (drop n (usage_page after st))"
    "\<forall>r \<in> actives st'. uv_key (last (take n (usage_page after st))) < uv_key r"
proof -
  let ?rows = "usage_page after st"
  let ?ps = "take n ?rows" and ?qs = "drop n ?rows"
  have all: "set ?rows = actives st" using assms(5) by (auto simp: usage_page_set)
  have split: "set ?rows = set ?ps \<union> set ?qs" by (metis append_take_drop_id set_append)
  have ids: "uv_id ` set ?ps \<inter> uv_id ` set ?qs = {}"
    using usage_page_distinct [OF assms(1), of after] by (metis append_take_drop_id distinct_append map_append set_map)
  then have act: "actives st' = set ?qs"
    using assms(4) all split by auto
  have ne: "?ps \<noteq> []" using assms(2,3) by auto
  have "uv_key (last ?ps) < uv_key q" if q: "q \<in> set ?qs" for q
  proof -
    have "sorted (map uv_key ?ps @ map uv_key ?qs)"
      using usage_page_sorted [of after st] by (metis append_take_drop_id map_append)
    then have "\<forall>x \<in> set ?ps. \<forall>y \<in> set ?qs. uv_key x \<le> uv_key y" by (simp add: sorted_append del: set_take_subset)
    then have "uv_key (last ?ps) \<le> uv_key q" using last_in_set [OF ne] q by blast
    moreover have "uv_id (last ?ps) \<noteq> uv_id q" using ids ne q by (metis IntI emptyE imageI last_in_set)
    then have "uv_key (last ?ps) \<noteq> uv_key q" by (simp add: uv_key_def)
    ultimately show ?thesis by simp
  qed
  then show "\<forall>r \<in> actives st'. uv_key (last ?ps) < uv_key r" using act by blast
  then show "set (usage_page (Some (uv_key (last ?ps))) st') = set ?qs" using act by (auto simp: usage_page_set)
qed

lemma recover_pages_complete:
  assumes "distinct (map uv_id (ac_usage st))" "0 < n" "length (usage_page after st) < k"
    "\<forall>r \<in> actives st. case after of None \<Rightarrow> True | Some x \<Rightarrow> x < uv_key r"
  shows "recover_usage_pages k db h am now nonce eff n after tot sample st \<noteq> Inr None \<and>
    (\<forall>st' t s. recover_usage_pages k db h am now nonce eff n after tot sample st = Inr (Some (st', t, s)) \<longrightarrow>
      actives st' = {} \<and> t = tot + card (actives st))"
  using assms
proof (induction k arbitrary: after tot sample st)
  case (Suc k)
  let ?rows = "usage_page after st"
  let ?ps = "take n ?rows"
  have rows: "set ?rows = actives st" using Suc.prems(4) by (auto simp: usage_page_set)
  have card: "card (actives st) = length ?rows" using usage_page_length [OF Suc.prems(1), of after] rows by simp
  show ?case
  proof (cases "recover_each_usage db h am now nonce eff ?ps st")
    case (Inr st1)
    note E = recover_each_actives [OF Inr Suc.prems(1)]
    show ?thesis
    proof (cases "length ?rows \<le> n")
      case True
      then have "actives st1 = {}" using E rows by auto
      then show ?thesis using Inr True card by (simp add: Let_def)
    next
      case False
      then have n: "n < length ?rows" by simp
      let ?a = "Some (uv_key (last ?ps))"
      have d1: "distinct (map uv_id (ac_usage st1))" using E Suc.prems(1) by simp
      have N: "set (usage_page ?a st1) = set (drop n ?rows)" "\<forall>r \<in> actives st1. uv_key (last ?ps) < uv_key r"
        using next_usage_page [OF Suc.prems(1,2) n conjunct1 [OF E] Suc.prems(4)] by blast+
      have "distinct (drop n ?rows)" using usage_page_distinct [OF Suc.prems(1), of after] by (simp add: distinct_map)
      then have len: "length (usage_page ?a st1) = length ?rows - n"
        using usage_page_length [OF d1, of ?a] N(1) by (simp add: distinct_card)
      have "actives st1 = set (usage_page ?a st1)" using N(2) by (auto simp: usage_page_set)
      then have c1: "card (actives st1) = length ?rows - n" using usage_page_length [OF d1, of ?a] len by simp
      have step: "recover_usage_pages (Suc k) db h am now nonce eff n after tot sample st
        = recover_usage_pages k db h am now nonce eff n ?a (tot + n) (sample @ take (n - length sample) (map uv_id ?ps)) st1"
        using Inr False by (simp add: Let_def)
      have "length (usage_page ?a st1) < k" using len Suc.prems(2,3) n by simp
      then show ?thesis
        unfolding step using Suc.IH [OF d1 Suc.prems(2), of ?a] N(2) c1 card n by fastforce
    qed
  qed (simp add: Let_def)
qed simp

text \<open>The loop over the parents returns when the parents have a rank.\<close>

lemma chain_returns:
  assumes "\<And>r p. r \<in> set (ac_rows st) \<Longrightarrow> ar_parent r = Some p \<Longrightarrow> rank p < (rank (ar_pid r) :: nat)"
  shows "rank pid < n \<Longrightarrow> chain_from n st pid \<noteq> Inl Diverges"
proof (induction n arbitrary: pid)
  case (Suc n)
  show ?case
  proof (cases "get_acct st pid")
    case (Inr r)
    show ?thesis
    proof (cases "ar_parent r")
      case (Some p)
      have "rank p < rank pid" using assms [OF _ Some] get_acctD [OF Inr] by simp
      then have "chain_from n st p \<noteq> Inl Diverges" using Suc by simp
      then show ?thesis using Inr Some by (cases "chain_from n st p") auto
    qed (use Inr in simp)
  qed (auto simp: get_acct_def split: option.splits)
qed simp

section \<open>A sample family\<close>

definition exact_sums :: doubles where
  "exact_sums = \<lparr>db_add = (+), db_sub = (-)\<rparr>"

definition three_tools :: budget where
  "three_tools = \<lparr>bg_limit = (\<lambda>b. if b = MaxToolCalls then Some 3 else None), bg_window = 100\<rparr>"

definition two_tools :: usage where
  "two_tools = (\<lambda>f. if f = ToolCalls then 2 else 0)"

definition envelope :: usage_reservation where
  "envelope = \<lparr>uv_id = ''e'', uv_pid = ''p'', uv_usage = two_tools, uv_status = UsageActive, uv_by = ''x'', uv_reason = ''s'',
     uv_settled = None, uv_created = ''t1'', uv_updated = ''t1''\<rparr>"

definition family :: "usage_reservation list \<Rightarrow> acct" where
  "family us = \<lparr>ac_table = empty_table\<lparr>pt_rows := [sample_row\<lparr>pr_pid := ''q''\<rparr>, sample_row]\<rparr>,
     ac_rows = [\<lparr>ar_pid = ''q'', ar_parent = None, ar_created = ''t0'', ar_budget = three_tools, ar_usage = no_usage\<rparr>,
       \<lparr>ar_pid = ''p'', ar_parent = Some ''q'', ar_created = ''t1'', ar_budget = three_tools, ar_usage = no_usage\<rparr>],
     ac_children = [], ac_usage = us\<rparr>"

definition nobody :: ambient where
  "nobody = \<lparr>am_token = None, am_control = None, am_terminal = None, am_takeover = None\<rparr>"

definition plain_charge :: charge_mode where
  "plain_charge = \<lparr>ch_overage = False, ch_kill = True, ch_active = True, ch_deferred = False\<rparr>"

lemma family_charged:
  obtains st' ks where
    "charge_in exact_sums sample_hosting nobody ''t2'' ''n'' plain_charge ''p'' two_tools (family []) = Inr (st', None, ks)"
proof -
  have "case charge_in exact_sums sample_hosting nobody ''t2'' ''n'' plain_charge ''p'' two_tools (family []) of
      Inr (st', e, ks) \<Rightarrow> e = None | Inl _ \<Rightarrow> False"
    by code_simp
  then show thesis using that by (auto split: sum.splits prod.splits)
qed

lemma family_rows: "\<not> is_zero two_tools" "distinct (map ar_pid (ac_rows (family us)))"
  by (code_simp, simp add: family_def)

section \<open>Properties\<close>

text \<open>
  C31. A charge that returns has charged the whole chain of parents and stays within every limit it touched:
  for each process of the chain and each limited quantity of the charge, the usage of the process, the
  budgets reserved for its children and the active envelopes that they do not cover are together at most
  the limit, in the state the charge leaves.
\<close>

theorem charge_within_limits:
  assumes "charge_in db h am now nonce md pid u st = Inr (st', None, ks)" "\<not> is_zero u" "distinct (map ar_pid (ac_rows st))"
  shows "\<exists>rs. process_chain st' pid = Inr rs \<and> (\<forall>r \<in> set rs. \<forall>(b, fs) \<in> set budget_order. \<forall>l.
      set fs \<inter> set (nonzero_fields u) \<noteq> {} \<and> bg_limit (ar_budget r) b = Some l \<longrightarrow>
      (\<exists>v. committed_value db st' (ar_pid r) (ar_usage r) None (ch_active md) b fs = Inr v \<and> v \<le> l))"
proof -
  obtain rs where c: "process_chain st pid = Inr rs"
    and run: "charge_rows db am now u (nonzero_fields u) (ch_active md) None rs st None = Inr (st', None)"
    using charge_in_Inr [OF assms(1,2)] by metis
  have d: "distinct (map ar_pid rs)" by (rule process_chain_distinct [OF c])
  let ?g = "charged db u (ar_pid ` set rs)"
  have "process_chain st' pid = Inr (map ?g rs)"
    using process_chain_map [OF charged_keeps, of st' db u "ar_pid ` set rs" st pid] charge_rows_frame [OF run d assms(3)] c by simp
  moreover have ok: "\<exists>v. committed_value db st' (ar_pid q) (ar_usage q) None (ch_active md) b fs = Inr v \<and> v \<le> l"
    if q: "q \<in> set (map ?g rs)" and b: "(b, fs) \<in> set budget_order" "set fs \<inter> set (nonzero_fields u) \<noteq> {}"
      "bg_limit (ar_budget q) b = Some l" for q b fs l
  proof -
    obtain r where r: "r \<in> set rs" "q = ?g r" using q by auto
    have "get_acct st (ar_pid r) = Inr r" using chain_shape(3) [OF c [unfolded process_chain_def] r(1)] .
    then have "first_exceeded db st' r (merged db (ar_usage r) u) (nonzero_fields u) None (ch_active md) = Inr None"
      using charge_rows_limits [OF run d assms(3) r(1)] by auto
    moreover have "ar_pid q = ar_pid r" "ar_usage q = merged db (ar_usage r) u" "ar_budget q = ar_budget r"
      using r by (simp_all add: charged_def)
    ultimately show ?thesis using scan_budgets_None b unfolding first_exceeded_def by metis
  qed
  moreover have "case p of (b, fs) \<Rightarrow> \<forall>l. set fs \<inter> set (nonzero_fields u) \<noteq> {} \<and> bg_limit (ar_budget q) b = Some l \<longrightarrow>
      (\<exists>v. committed_value db st' (ar_pid q) (ar_usage q) None (ch_active md) b fs = Inr v \<and> v \<le> l)"
    if q: "q \<in> set (map ?g rs)" and p: "p \<in> set budget_order" for q p
  proof (cases p)
    case (Pair b fs)
    then show ?thesis using ok [OF q, of b fs] p by blast
  qed
  ultimately show ?thesis by blast
qed

theorem charge_within_limits_witness:
  "\<exists>st' ks rs. charge_in exact_sums sample_hosting nobody ''t2'' ''n'' plain_charge ''p'' two_tools (family [])
      = Inr (st', None, ks) \<and> process_chain st' ''p'' = Inr rs \<and> (\<forall>r \<in> set rs. \<forall>l.
        bg_limit (ar_budget r) MaxToolCalls = Some l \<longrightarrow>
        (\<exists>v. committed_value exact_sums st' (ar_pid r) (ar_usage r) None True MaxToolCalls [ToolCalls] = Inr v \<and> v \<le> l))"
proof -
  obtain st' ks where run:
    "charge_in exact_sums sample_hosting nobody ''t2'' ''n'' plain_charge ''p'' two_tools (family []) = Inr (st', None, ks)"
    by (rule family_charged)
  have "(MaxToolCalls, [ToolCalls]) \<in> set budget_order" by (simp add: budget_order_def)
  moreover have "set [ToolCalls] \<inter> set (nonzero_fields two_tools) \<noteq> {}" by code_simp
  moreover have "ch_active plain_charge" by (simp add: plain_charge_def)
  ultimately show ?thesis using charge_within_limits [OF run family_rows] run by fastforce
qed

text \<open>
  A committed charge, whether it returns or raises after the commit, adds its usage to the process and to
  each of its ancestors exactly once, and changes the usage of no other process and no envelope.
\<close>

theorem charge_reaches_chain:
  assumes "charge_in db h am now nonce md pid u st = Inr (st', e, ks)" "\<not> is_zero u" "distinct (map ar_pid (ac_rows st))"
  shows "\<exists>rs. process_chain st pid = Inr rs \<and> distinct (map ar_pid rs) \<and> ac_usage st' = ac_usage st
    \<and> ac_rows st' = map (\<lambda>r. if ar_pid r \<in> ar_pid ` set rs
        then r\<lparr>ar_usage := (\<lambda>f. if f = SubPeakMemory then max (ar_usage r f) (u f)
           else if continuous_usage f then db_add db (ar_usage r f) (u f) else ar_usage r f + u f)\<rparr> else r) (ac_rows st)"
proof -
  obtain rs st1 found where c: "process_chain st pid = Inr rs"
    and run: "charge_rows db am now u (nonzero_fields u) (ch_active md) None rs st None = Inr (st1, found)"
    and e: "ac_rows st' = ac_rows st1" "ac_usage st' = ac_usage st1"
    using charge_in_Inr [OF assms(1,2)] by metis
  have d: "distinct (map ar_pid rs)" by (rule process_chain_distinct [OF c])
  show ?thesis
    using c d e charge_rows_frame [OF run d assms(3)]
    by (intro exI [of _ rs]) (simp add: charged_def merged_def)
qed

theorem charge_reaches_chain_witness:
  "\<exists>st' ks. charge_in exact_sums sample_hosting nobody ''t2'' ''n'' plain_charge ''p'' two_tools (family []) = Inr (st', None, ks)
     \<and> map (\<lambda>r. ar_usage r ToolCalls) (ac_rows st') = [2, 2]"
proof -
  obtain st' ks where run:
    "charge_in exact_sums sample_hosting nobody ''t2'' ''n'' plain_charge ''p'' two_tools (family []) = Inr (st', None, ks)"
    by (rule family_charged)
  obtain rs where rs: "process_chain (family []) ''p'' = Inr rs"
    and rows: "ac_rows st' = map (\<lambda>r. if ar_pid r \<in> ar_pid ` set rs
        then r\<lparr>ar_usage := (\<lambda>f. if f = SubPeakMemory then max (ar_usage r f) (two_tools f)
           else if continuous_usage f then db_add exact_sums (ar_usage r f) (two_tools f)
           else ar_usage r f + two_tools f)\<rparr> else r) (ac_rows (family []))"
    using charge_reaches_chain [OF run family_rows] by blast
  have "bindR (process_chain (family []) ''p'') (\<lambda>rs. Inr (map ar_pid rs)) = Inr [''p'', ''q'']" by code_simp
  then have "map ar_pid rs = [''p'', ''q'']" using rs by simp
  then have "ar_pid ` set rs = {''p'', ''q''}" by (metis list.set(1) list.set(2) set_map)
  then show ?thesis
    using run by (intro exI [of _ st'] exI [of _ ks])
      (simp add: rows family_def continuous_usage_def two_tools_def no_usage_def)
qed

text \<open>
  An envelope is settled once: after a settlement has returned, every further settlement of it, in any
  mode, returns the same usage and changes nothing, so an effect is never charged twice.
\<close>

theorem settle_once:
  assumes "settle_in db h am now nonce rec rid actual mx rel st = Inr (st', u)" "\<not> (mx' \<and> rel')"
  shows "settle_in db h am' now' nonce' rec' rid actual' mx' rel' st' = Inr (st', u)"
  using assms(1)
proof (cases rule: settle_in_Inr)
  case (1 r)
  then show ?thesis using assms(2) by (simp add: settle_in_def)
next
  case (2 r s)
  have "s \<noteq> UsageActive" using settlement_inactive [OF 2(3)] .
  moreover have "find_usage st' rid = Some (r\<lparr>uv_status := s, uv_settled := Some u, uv_updated := now\<rparr>)"
    using 2(1,2,4) find_settle [where rid = rid and s = s and u = u and now = now and rs = "ac_usage st"] by (simp add: find_usage_def settle_row_def)
  ultimately show ?thesis using assms(2) by (simp add: settle_in_def)
qed

theorem settle_once_witness:
  "\<exists>st'. settle_in exact_sums sample_hosting nobody ''t2'' ''n'' False ''e'' (Some two_tools) False False (family [envelope])
      = Inr (st', two_tools)
    \<and> settle_in exact_sums sample_hosting nobody ''t3'' ''n'' True ''e'' None True False st' = Inr (st', two_tools)"
proof -
  have "case settle_in exact_sums sample_hosting nobody ''t2'' ''n'' False ''e'' (Some two_tools) False False (family [envelope]) of
      Inr (st', u) \<Rightarrow> list_all (\<lambda>f. u f = two_tools f) usage_fields | Inl _ \<Rightarrow> False"
    by code_simp
  then obtain st' u where r: "settle_in exact_sums sample_hosting nobody ''t2'' ''n'' False ''e'' (Some two_tools) False False
      (family [envelope]) = Inr (st', u)" and u: "list_all (\<lambda>f. u f = two_tools f) usage_fields"
    by (auto split: sum.splits prod.splits)
  have "u f = two_tools f" for f using u by (cases f) (simp_all add: usage_fields_def)
  then have "u = two_tools" by (rule ext)
  then show ?thesis using r settle_once [OF r, of True False] by blast
qed

text \<open>
  C32. The recovery of envelopes returns or raises, it never pages for ever; when it returns, no envelope is
  active any more and it has counted each of them once.
\<close>

theorem recover_usage_complete:
  assumes "distinct (map uv_id (ac_usage st))" "0 < n"
  shows "recover_usage db h am now nonce eff n st \<noteq> Inr None \<and>
    (\<forall>st' t s. recover_usage db h am now nonce eff n st = Inr (Some (st', t, s)) \<longrightarrow>
      (\<forall>u \<in> set (ac_usage st'). uv_status u \<noteq> UsageActive)
      \<and> t = length (filter (\<lambda>u. uv_status u = UsageActive) (ac_usage st)))"
proof -
  have l: "length (usage_page None st) < length (ac_usage st) + 1"
    by (simp add: usage_page_def active_usage_def le_imp_less_Suc)
  have c: "card (actives st) = length (filter (\<lambda>u. uv_status u = UsageActive) (ac_usage st))"
  proof -
    have "distinct (filter (\<lambda>u. uv_status u = UsageActive) (ac_usage st))" using assms(1) by (simp add: distinct_map)
    then show ?thesis using distinct_card by (fastforce simp: actives_def)
  qed
  have "\<forall>r \<in> actives st. case None of None \<Rightarrow> True | Some x \<Rightarrow> x < uv_key r" by simp
  from recover_pages_complete [OF assms l this, of db h am now nonce eff 0 "[]"]
  show ?thesis unfolding recover_usage_def c by (auto simp: actives_def simp del: recover_usage_pages.simps)
qed

theorem recover_usage_complete_witness:
  "recover_usage exact_sums sample_hosting nobody ''t2'' ''n'' (\<lambda>_. None) 1 (family [envelope]) \<noteq> Inr None"
proof -
  have "distinct (map uv_id (ac_usage (family [envelope])))" by (simp add: family_def)
  from recover_usage_complete [OF this, of 1] show ?thesis by simp
qed

end
