(* ===== verification/Effects.thy ===== *)
theory Effects
  imports Accounting CapStore EffectBinding
begin

text \<open>
  External effects: the records of \<open>agent_libos/models/external_effect.py\<close>, the ledger rows and the atomic
  settlement of \<open>agent_libos/storage/sql.py\<close>, and the intents, transitions and reconciliation of
  \<open>agent_libos/evidence/external_effects.py\<close>. A ledger holds the effect rows, the counter of changes and
  the log of changes. A settlement joins the ledger with the capability rows and the envelopes of accounting.
  JSON columns hold the value that reading them back gives. Links to operations, audit texts and the
  retention of payloads are not part of the state; identifiers and times are arguments.
\<close>

section \<open>Records\<close>

datatype effect_state = EffPending | EffFinalized

datatype tx_state =
    TxPrepared | TxAuthorized | TxApproved | TxDispatched | TxCommitted | TxFailed | TxUnknown | TxCompensated

fun tx_text :: "tx_state \<Rightarrow> string" where
  "tx_text TxPrepared = ''prepared''"
| "tx_text TxAuthorized = ''authorized''"
| "tx_text TxApproved = ''approved''"
| "tx_text TxDispatched = ''dispatched''"
| "tx_text TxCommitted = ''committed''"
| "tx_text TxFailed = ''failed''"
| "tx_text TxUnknown = ''unknown''"
| "tx_text TxCompensated = ''compensated''"

datatype rollback_class = Irreversible | Rollbackable | NoRollbackRequired | RollbackUnknown

datatype rollback_status = NotSupported | NotApplied | NotRequired | StatusUnknown

fun default_rollback_status :: "rollback_class \<Rightarrow> rollback_status" where
  "default_rollback_status Irreversible = NotSupported"
| "default_rollback_status Rollbackable = NotApplied"
| "default_rollback_status NoRollbackRequired = NotRequired"
| "default_rollback_status RollbackUnknown = StatusUnknown"

datatype retention_tier = TierFull | TierSummary | TierHashOnly

record classification =
  cl_class :: rollback_class
  cl_status :: rollback_status
  cl_mutation :: bool
  cl_flow :: bool
  cl_meta :: pydict

record effect_row =
  ef_id :: string
  ef_record :: "string option"
  ef_event :: "string option"
  ef_pid :: string
  ef_provider :: string
  ef_operation :: string
  ef_target :: "string option"
  ef_class :: rollback_class
  ef_status :: rollback_status
  ef_mutation :: bool
  ef_flow :: bool
  ef_meta :: pydict
  ef_created :: string
  ef_state :: effect_state
  ef_tx :: tx_state
  ef_args :: "string option"
  ef_key :: "string option"
  ef_receipt :: pydict
  ef_updated :: "string option"
  ef_tier :: retention_tier
  ef_digest :: "string option"

text \<open>\<open>__post_init__\<close>: a full payload has no digest, a retained one has a SHA-256 digest.\<close>

definition make_effect :: "effect_row \<Rightarrow> effect_row res" where
  "make_effect r =
     (if ef_tier r = TierFull then
        bindR (check (ef_digest r = None) (ValueError ''full external effect payload cannot have a retention digest''))
          (\<lambda>_. Inr r)
      else bindR (check (case ef_digest r of None \<Rightarrow> False | Some s \<Rightarrow> is_sha256_hex s)
          (ValueError ''retained external effect payload requires a SHA-256 digest'')) (\<lambda>_. Inr r))"

record effect_change =
  et_seq :: int
  et_effect :: string
  et_state :: effect_state
  et_tx :: tx_state
  et_at :: string

record ledger =
  lg_rows :: "effect_row list"
  lg_seq :: int
  lg_log :: "effect_change list"

text \<open>\<open>{**d, k: v, ...}\<close>, and the value of a JSON column after \<open>dumps\<close> and \<open>loads\<close>.\<close>

definition dmerge :: "pydict \<Rightarrow> (string \<times> pyval) list \<Rightarrow> pydict" where
  "dmerge d kvs = fold (\<lambda>(k, v) e. dset e (VStr k) v) kvs d"

definition stored :: "host \<Rightarrow> pydict \<Rightarrow> pydict res" where
  "stored h d = bindR (dumps h (VDict d)) (\<lambda>_. bindR (to_jsonable h (VDict d)) (\<lambda>v.
     Inr (case v of VDict e \<Rightarrow> e | _ \<Rightarrow> [])))"

section \<open>Ledger rows\<close>

definition get_effect :: "ledger \<Rightarrow> string \<Rightarrow> effect_row option" where
  "get_effect lg i = List.find (\<lambda>r. ef_id r = i) (lg_rows lg)"

definition effect_by_key :: "ledger \<Rightarrow> string \<Rightarrow> string \<Rightarrow> effect_row option res" where
  "effect_by_key lg pid k =
     (case filter (\<lambda>r. ef_pid r = pid \<and> ef_key r = Some k) (lg_rows lg) of
        [] \<Rightarrow> Inr None
      | [r] \<Rightarrow> Inr (Some r)
      | _ \<Rightarrow> Inl (ValidationError ''external effect idempotency index returned duplicate rows''))"

definition log_change :: "string \<Rightarrow> effect_state \<Rightarrow> tx_state \<Rightarrow> string \<Rightarrow> ledger \<Rightarrow> ledger" where
  "log_change i s t at' lg = lg\<lparr>lg_seq := lg_seq lg + 1,
     lg_log := lg_log lg @ [\<lparr>et_seq = lg_seq lg + 1, et_effect = i, et_state = s, et_tx = t, et_at = at'\<rparr>]\<rparr>"

definition put_effect :: "effect_row \<Rightarrow> ledger \<Rightarrow> ledger" where
  "put_effect r lg = lg\<lparr>lg_rows := map (\<lambda>x. if ef_id x = ef_id r then r else x) (lg_rows lg)\<rparr>"

definition occurred :: "effect_row \<Rightarrow> string" where
  "occurred r = (case ef_updated r of Some t \<Rightarrow> if t = [] then ef_created r else t | None \<Rightarrow> ef_created r)"

text \<open>The unique index on the process and its idempotency key.\<close>

definition key_taken :: "ledger \<Rightarrow> string \<Rightarrow> string \<Rightarrow> string option \<Rightarrow> bool" where
  "key_taken lg i pid k \<longleftrightarrow> k \<noteq> None \<and> list_ex (\<lambda>r. ef_id r \<noteq> i \<and> ef_pid r = pid \<and> ef_key r = k) (lg_rows lg)"

definition unique_error :: exn where
  "unique_error = PyRuntimeError ''UNIQUE constraint failed: external_effects''"

definition insert_effect :: "host \<Rightarrow> effect_row \<Rightarrow> ledger \<Rightarrow> ledger res" where
  "insert_effect h r lg =
     bindR (check (ef_tier r = TierFull)
       (ValidationError ''new external effect records must contain full provider payloads'')) (\<lambda>_.
     bindR (stored h (ef_meta r)) (\<lambda>m.
     bindR (stored h (ef_receipt r)) (\<lambda>rc.
     bindR (check (get_effect lg (ef_id r) = None \<and> \<not> key_taken lg (ef_id r) (ef_pid r) (ef_key r)) unique_error) (\<lambda>_.
       Inr (log_change (ef_id r) (ef_state r) (ef_tx r) (occurred r)
         (lg\<lparr>lg_rows := lg_rows lg @ [r\<lparr>ef_meta := m, ef_receipt := rc, ef_updated := Some (occurred r)\<rparr>]\<rparr>))))))"

definition unobserved :: "effect_row \<Rightarrow> bool" where
  "unobserved c \<longleftrightarrow> ef_record c = None \<and> ef_event c = None \<and> ef_class c = RollbackUnknown
     \<and> ef_status c = StatusUnknown \<and> ef_state c = EffPending"

definition finalize_effect :: "host \<Rightarrow> string \<Rightarrow> effect_row \<Rightarrow> ledger \<Rightarrow> (ledger \<times> bool) res" where
  "finalize_effect h i r lg =
     bindR (check (ef_id r = i) (ValidationError ''external effect finalization record id must match intent id'')) (\<lambda>_.
     bindR (check (ef_state r = EffFinalized)
       (ValidationError ''external effect finalization record must be finalized'')) (\<lambda>_.
     bindR (check (ef_tier r = TierFull)
       (ValidationError ''external effect finalization must contain full provider payloads'')) (\<lambda>_.
     bindR (stored h (ef_meta r)) (\<lambda>m.
     bindR (stored h (ef_receipt r)) (\<lambda>rc.
       case get_effect lg i of
         None \<Rightarrow> Inr (lg, False)
       | Some c \<Rightarrow>
           if ef_pid c = ef_pid r \<and> ef_provider c = ef_provider r \<and> ef_operation c = ef_operation r
             \<and> ef_target c = ef_target r \<and> unobserved c then
             bindR (check (\<not> key_taken lg i (ef_pid c) (ef_key r)) unique_error) (\<lambda>_.
               Inr (log_change i (ef_state r) (ef_tx r) (occurred r)
                 (put_effect (r\<lparr>ef_meta := m, ef_receipt := rc, ef_updated := Some (occurred r)\<rparr>) lg), True))
           else Inr (lg, False))))))"

definition transition_effect ::
  "host \<Rightarrow> string \<Rightarrow> tx_state list \<Rightarrow> tx_state \<Rightarrow> pydict option \<Rightarrow> pydict option \<Rightarrow> string \<Rightarrow> ledger \<Rightarrow> (ledger \<times> bool) res" where
  "transition_effect h i states tx md rcp now lg =
     bindR (check (states \<noteq> []) (ValidationError ''external effect transition requires expected states'')) (\<lambda>_.
       case get_effect lg i of
         None \<Rightarrow> Inr (lg, False)
       | Some c \<Rightarrow>
           if ef_tx c \<notin> set states then Inr (lg, False)
           else
             bindR (check (ef_tier c = TierFull)
               (ValidationError ''retained external effect payloads cannot be transitioned'')) (\<lambda>_.
             bindR (stored h (case md of Some d \<Rightarrow> d | None \<Rightarrow> ef_meta c)) (\<lambda>m.
             bindR (stored h (case rcp of Some d \<Rightarrow> d | None \<Rightarrow> ef_receipt c)) (\<lambda>rc.
               Inr (log_change i (ef_state c) tx now
                 (put_effect (c\<lparr>ef_tx := tx, ef_meta := m, ef_receipt := rc, ef_updated := Some now\<rparr>) lg), True)))))"

definition abandon_effect :: "string \<Rightarrow> ledger \<Rightarrow> ledger \<times> bool" where
  "abandon_effect i lg =
     (case get_effect lg i of
        None \<Rightarrow> (lg, False)
      | Some c \<Rightarrow> if unobserved c then (lg\<lparr>lg_rows := filter (\<lambda>r. ef_id r \<noteq> i) (lg_rows lg)\<rparr>, True) else (lg, False))"

text \<open>\<open>list_external_effects_changed_after\<close> and \<open>external_effect_transition_matches\<close>\<close>

definition changed_after :: "int \<Rightarrow> string list option \<Rightarrow> ledger \<Rightarrow> effect_row list res" where
  "changed_after n pids lg =
     bindR (check (0 \<le> n) (ValidationError ''external effect ledger sequence must be a non-negative integer'')) (\<lambda>_.
     bindR (check (case pids of None \<Rightarrow> True | Some ps \<Rightarrow> [] \<notin> set ps)
       (ValidationError ''external effect PID filters must be non-empty text'')) (\<lambda>_.
       Inr (sort_key (\<lambda>r. (ef_created r, ef_id r)) (filter (\<lambda>r.
         list_ex (\<lambda>t. et_effect t = ef_id r \<and> n < et_seq t) (lg_log lg)
         \<and> (case pids of None \<Rightarrow> True | Some ps \<Rightarrow> ef_pid r \<in> set ps)) (lg_rows lg)))))"

definition change_matches :: "int \<Rightarrow> string \<Rightarrow> effect_state \<Rightarrow> tx_state \<Rightarrow> ledger \<Rightarrow> bool res" where
  "change_matches n i s t lg =
     bindR (check (0 < n \<and> n \<le> 2 ^ 63 - 1 \<and> i \<noteq> []) (ValidationError ''external effect transition identity is invalid''))
       (\<lambda>_. Inr (list_ex (\<lambda>c. et_seq c = n \<and> et_effect c = i \<and> et_state c = s \<and> et_tx c = t) (lg_log lg)))"

end
