(* ===== verification/EffectRecovery.thy ===== *)
theory EffectRecovery
  imports Effects
begin

text \<open>
  Settlement and recovery of external effects: the atomic settlement of \<open>storage/sql.py\<close> that joins an effect with
  the capability uses and the envelopes reserved for it, the transitions and the reconciliation of
  \<open>evidence/external_effects.py\<close>, the recovery of prepared operations of \<open>sdk/protected_operations.py\<close>, and the
  order in which \<open>runtime/builder.py\<close> runs the recoveries at startup.
\<close>

section \<open>State\<close>

record evidence_link =
  el_operation :: string
  el_type :: string
  el_id :: string
  el_role :: string
  el_meta :: pydict

record operation_row =
  op_id :: string
  op_name :: string
  op_actor :: string
  op_pid :: string

record effect_world =
  w_ledger :: ledger
  w_caps :: cap_store
  w_acct :: acct
  w_links :: "evidence_link list"
  w_ops :: "operation_row list"

section \<open>The settlement of one effect\<close>

text \<open>The elements of a list or a tuple.\<close>

definition seq_items :: "pyval \<Rightarrow> pyval list option" where
  "seq_items v = (case v of VList xs \<Rightarrow> Some xs | VTuple xs \<Rightarrow> Some xs | _ \<Rightarrow> None)"

definition text_items :: "pyval \<Rightarrow> string list option" where
  "text_items v = (case seq_items v of
     None \<Rightarrow> None
   | Some xs \<Rightarrow> if list_all (\<lambda>x. is_str x \<and> the_str x \<noteq> []) xs then Some (map the_str xs) else None)"

definition effect_reservations :: "effect_row \<Rightarrow> string list res" where
  "effect_reservations e =
     (case dget (ef_meta e) ''protected_operation'' of
        VNone \<Rightarrow> Inr []
      | VDict p \<Rightarrow>
          (case text_items (dget p ''reservation_ids'') of
             None \<Rightarrow> Inl (ValidationError ''external effect recovery capability reservations are invalid'')
           | Some ids \<Rightarrow>
               if distinct ids then Inr ids
               else Inl (ValidationError ''external effect recovery capability reservations are duplicated''))
      | _ \<Rightarrow> Inl (ValidationError ''external effect recovery protected-operation evidence is invalid''))"

fun dict_of :: "pyval \<Rightarrow> pydict" where
  "dict_of (VDict d) = d"
| "dict_of _ = []"

definition effectful_phase :: "pydict \<Rightarrow> bool" where
  "effectful_phase p \<longleftrightarrow> truthy (dget p ''state_mutation'') \<or> truthy (dget p ''information_flow'')
     \<or> truthy (dget p ''commits_authority'')"

definition require_not_started :: "effect_row \<Rightarrow> unit res" where
  "require_not_started e =
     (let v = py_or (dget (ef_meta e) ''completed_provider_phases'') (VList []) in
      bindR (check (is_list v \<and> list_all is_dict (the_list v))
        (ValidationError ''external effect recovery provider phase evidence is invalid'')) (\<lambda>_.
      check (\<not> list_ex (\<lambda>p. effectful_phase (dict_of p)) (the_list v))
        (ValidationError ''phase-local not-started receipt cannot erase an earlier provider effect'')))"

definition reservation_identity :: "effect_row \<Rightarrow> (string \<times> string) res" where
  "reservation_identity e =
     (case dget (ef_meta e) ''protected_operation'' of
        VDict p \<Rightarrow>
          (case (dget p ''actor'', dget p ''contract_name'') of
             (VStr a, VStr c) \<Rightarrow>
               if a \<noteq> [] \<and> c \<noteq> [] then Inr (a, c)
               else Inl (ValidationError ''external effect recovery reservation identity is invalid'')
           | _ \<Rightarrow> Inl (ValidationError ''external effect recovery reservation identity is invalid''))
      | _ \<Rightarrow> Inl (ValidationError ''external effect recovery reservation identity is missing''))"

definition reserve_reason :: "string \<Rightarrow> string" where
  "reserve_reason contract = ''protected operation reserved authority for '' @ contract"

definition restore_effect_use :: "effect_row \<Rightarrow> string \<Rightarrow> string \<Rightarrow> cap_store \<Rightarrow> cap_store res" where
  "restore_effect_use e now rid cs =
     bindR (reservation_identity e) (\<lambda>(actor, contract).
       case get_reservation cs rid of
         None \<Rightarrow> Inl (ValidationError ''external effect recovery capability reservation is missing'')
       | Some r \<Rightarrow>
           bindR (check (ur_status r = Reserved \<and> ur_by r = actor \<and> ur_reason r = reserve_reason contract)
             (ValidationError ''external effect recovery capability reservation binding changed'')) (\<lambda>_.
           bindR (check (1 \<le> ur_count r) (ValidationError ''persisted capability reservation count must be positive'')) (\<lambda>_.
             case get_cap cs (ur_cap r) of
               Some c \<Rightarrow>
                 if cap_uses_remaining c \<noteq> None \<and> cap_status c \<in> {Active, Revoked} then
                   Inr (CapStore.settle rid Restored now (map_cap (ur_cap r) (give_back (ur_count r)) cs))
                 else Inl (ValidationError ''external effect recovery capability could not be restored'')
             | None \<Rightarrow> Inl (ValidationError ''external effect recovery capability could not be restored''))))"

definition commit_effect_use :: "effect_row \<Rightarrow> string \<Rightarrow> string \<Rightarrow> cap_store \<Rightarrow> cap_store res" where
  "commit_effect_use e now rid cs =
     bindR (reservation_identity e) (\<lambda>(actor, contract).
       case get_reservation cs rid of
         None \<Rightarrow> Inl (ValidationError ''external effect recovery capability reservation is missing'')
       | Some r \<Rightarrow>
           bindR (check (ur_by r = actor \<and> ur_reason r = reserve_reason contract \<and> ur_status r \<in> {Reserved, Committed})
             (ValidationError ''external effect recovery capability reservation binding changed'')) (\<lambda>_.
             Inr (CapStore.settle rid Committed now cs)))"

fun converge_uses :: "bool \<Rightarrow> effect_row \<Rightarrow> string \<Rightarrow> string list \<Rightarrow> cap_store \<Rightarrow> cap_store res" where
  "converge_uses not_started e now [] cs = Inr cs"
| "converge_uses not_started e now (rid # rids) cs =
     bindR (if not_started then restore_effect_use e now rid cs else commit_effect_use e now rid cs)
       (converge_uses not_started e now rids)"

text \<open>\<open>_release_external_effect_resource_reservations\<close>\<close>

definition effect_envelopes :: "effect_row \<Rightarrow> acct \<Rightarrow> usage_reservation list" where
  "effect_envelopes e a = sort_key uv_id (filter (\<lambda>u. uv_by u = ef_id e) (ac_usage a))"

definition release_envelopes :: "effect_row \<Rightarrow> string \<Rightarrow> bool \<Rightarrow> acct \<Rightarrow> (acct \<times> string list) res" where
  "release_envelopes e now rel a =
     (let us = effect_envelopes e a in
      bindR (check (list_all (\<lambda>u. uv_pid u = ef_pid e) us)
        (ValidationError ''external effect recovery resource reservation binding changed'')) (\<lambda>_.
        if \<not> rel then Inr (a, [])
        else bindR (check (list_all (\<lambda>u. uv_status u = UsageActive) us)
          (ValidationError ''external effect recovery resource reservation is no longer active'')) (\<lambda>_.
            Inr (fold (\<lambda>u. settle_row now (uv_id u) UsageReleased no_usage) us a, map uv_id us))))"

definition recoverable :: "tx_state \<Rightarrow> bool" where
  "recoverable t \<longleftrightarrow> t \<in> {TxPrepared, TxAuthorized, TxApproved, TxDispatched, TxUnknown}"

definition provider_states :: "string list" where
  "provider_states = [''committed'', ''failed'', ''compensated'', ''not_started'']"

definition settled_tx :: "string \<Rightarrow> tx_state" where
  "settled_tx ps = (if ps = ''committed'' then TxCommitted else if ps = ''compensated'' then TxCompensated else TxFailed)"

definition check_fence :: "string option \<Rightarrow> int option \<Rightarrow> unit res" where
  "check_fence run epoch =
     bindR (check ((run = None) = (epoch = None))
       (ValidationError ''external effect recovery TaskRun id and epoch must be supplied together'')) (\<lambda>_.
     bindR (check (run \<noteq> Some []) (ValidationError ''external effect recovery TaskRun id must not be empty'')) (\<lambda>_.
       check (case epoch of None \<Rightarrow> True | Some n \<Rightarrow> 0 < n)
         (ValidationError ''external effect recovery TaskRun epoch must be positive'')))"

definition check_request ::
  "string \<Rightarrow> tx_state \<Rightarrow> string \<Rightarrow> pydict \<Rightarrow> string \<Rightarrow> string option \<Rightarrow> int option \<Rightarrow> tx_state res" where
  "check_request i expected ps rcp now run epoch =
     bindR (check (i \<noteq> []) (ValidationError ''external effect recovery requires an effect id'')) (\<lambda>_.
     bindR (check (recoverable expected) (ValidationError ''external effect recovery expected state is not recoverable'')) (\<lambda>_.
     bindR (check (ps \<in> set provider_states) (ValidationError ''external effect recovery provider state is invalid'')) (\<lambda>_.
     bindR (check (expected = TxPrepared \<longrightarrow> ps = ''not_started'')
       (ValidationError ''prepared external effect recovery requires a certified not-started provider conclusion'')) (\<lambda>_.
     bindR (check (rcp \<noteq> [])
       (ValidationError ''external effect recovery requires a non-empty provider receipt'')) (\<lambda>_.
     bindR (check (now \<noteq> []) (ValidationError ''external effect recovery timestamp must not be empty'')) (\<lambda>_.
     bindR (check_fence run epoch) (\<lambda>_. Inr (settled_tx ps))))))))"

text \<open>The rows of the join of the process with its task run at the epoch of the fence.\<close>

definition run_members :: "proc_table \<Rightarrow> string \<Rightarrow> string \<Rightarrow> int option \<Rightarrow> nat" where
  "run_members pt pid run epoch = length (filter (\<lambda>(p, t).
       pr_pid p = pid \<and> pr_run p = Some run \<and> pr_epoch p = epoch \<and> tr_id t = run \<and> Some (tr_epoch t) = epoch)
     (List.product (pt_rows pt) (pt_runs pt)))"

definition load_candidate ::
  "string \<Rightarrow> tx_state \<Rightarrow> string option \<Rightarrow> int option \<Rightarrow> effect_world \<Rightarrow> effect_row option res" where
  "load_candidate i expected run epoch w =
     (case get_effect (w_ledger w) i of
        None \<Rightarrow> Inr None
      | Some c \<Rightarrow>
          if ef_state c \<noteq> EffPending \<or> ef_tx c \<noteq> expected then Inr None
          else
            bindR (check (ef_tier c = TierFull)
              (ValidationError ''retained external effect payloads cannot be recovered'')) (\<lambda>_.
              Inr (case run of
                  None \<Rightarrow> Some c
                | Some n \<Rightarrow> if run_members (ac_table (w_acct w)) (ef_pid c) n epoch = 1 then Some c else None)))"

record settlement_record =
  sm_effect :: effect_row
  sm_previous :: tx_state
  sm_state :: string
  sm_seq :: int
  sm_audit :: string
  sm_restored :: "string list"
  sm_committed :: "string list"
  sm_released :: "string list"

definition make_settlement :: "settlement_record \<Rightarrow> settlement_record res" where
  "make_settlement s =
     (let ids = sm_restored s @ sm_committed s @ sm_released s in
      bindR (check (ef_state (sm_effect s) = EffFinalized)
        (ValueError ''external effect recovery settlement must be finalized'')) (\<lambda>_.
      bindR (check (recoverable (sm_previous s))
        (ValueError ''invalid external effect recovery previous transaction state'')) (\<lambda>_.
      bindR (check (sm_state s \<in> set provider_states)
        (ValueError ''invalid external effect recovery provider state'')) (\<lambda>_.
      bindR (check (0 < sm_seq s) (ValueError ''external effect recovery transition sequence must be positive'')) (\<lambda>_.
      bindR (check (sm_audit s \<noteq> []) (ValueError ''external effect recovery settlement audit record must not be empty'')) (\<lambda>_.
      bindR (check ([] \<notin> set ids) (ValueError ''external effect recovery reservation IDs must not be empty'')) (\<lambda>_.
      bindR (check (distinct ids) (ValueError ''external effect recovery reservation IDs must not overlap'')) (\<lambda>_.
        Inr s))))))))"

text \<open>\<open>settle_external_effect_recovery\<close>: one transaction over the ledger, the capabilities and the envelopes.\<close>

definition settled_effect ::
  "effect_row \<Rightarrow> string \<Rightarrow> tx_state \<Rightarrow> pydict \<Rightarrow> pydict \<Rightarrow> string \<Rightarrow> string \<Rightarrow> effect_row" where
  "settled_effect c ps t md rcp audit now =
     c\<lparr>ef_record := (case ef_record c of None \<Rightarrow> Some audit | Some x \<Rightarrow> Some x), ef_state := EffFinalized, ef_tx := t,
       ef_meta := md, ef_receipt := rcp, ef_key := (if ps = ''not_started'' then None else ef_key c),
       ef_updated := Some now\<rparr>"

definition settle_effect ::
  "host \<Rightarrow> string \<Rightarrow> tx_state \<Rightarrow> string \<Rightarrow> pydict \<Rightarrow> pydict \<Rightarrow> string \<Rightarrow> string \<Rightarrow> string option \<Rightarrow> int option \<Rightarrow>
   effect_world \<Rightarrow> (effect_world \<times> settlement_record) option res" where
  "settle_effect h i expected ps md rcp audit now run epoch w =
     bindR (check_request i expected ps rcp now run epoch) (\<lambda>t.
     bindR (load_candidate i expected run epoch w) (\<lambda>cand.
       case cand of
         None \<Rightarrow> Inr None
       | Some c \<Rightarrow>
           bindR (effect_reservations c) (\<lambda>rids.
           bindR (if ps = ''not_started'' then require_not_started c else Inr ()) (\<lambda>_.
           bindR (stored h md) (\<lambda>m.
           bindR (stored h rcp) (\<lambda>rc.
             let e = settled_effect c ps t m rc audit now in
             bindR (converge_uses (ps = ''not_started'') c now rids (w_caps w)) (\<lambda>cs.
             bindR (release_envelopes c now (ps = ''not_started'') (w_acct w)) (\<lambda>(a, rel).
               let lg = log_change i EffFinalized t now (put_effect e (w_ledger w)) in
               bindR (make_settlement \<lparr>sm_effect = e, sm_previous = expected, sm_state = ps, sm_seq = lg_seq lg,
                   sm_audit = audit, sm_restored = (if ps = ''not_started'' then rids else []),
                   sm_committed = (if ps = ''not_started'' then [] else rids), sm_released = rel\<rparr>) (\<lambda>s.
                 Inr (Some (w\<lparr>w_ledger := lg, w_caps := cs, w_acct := a\<rparr>, s)))))))))))"

section \<open>Intents\<close>

definition default_key ::
  "host \<Rightarrow> string option \<Rightarrow> string \<Rightarrow> string \<Rightarrow> string \<Rightarrow> string option \<Rightarrow> string \<Rightarrow> string res" where
  "default_key h opid i provider opn target args =
     bindR (dumps h (VDict (sdict [
         (''operation_id'', VStr (case opid of Some x \<Rightarrow> if x = [] then i else x | None \<Rightarrow> i)),
         (''provider'', VStr provider), (''operation'', VStr opn),
         (''target'', (case target of None \<Rightarrow> VNone | Some t \<Rightarrow> VStr t)), (''canonical_args_hash'', VStr args)])))
       (\<lambda>t. Inr (h_sha256 h t))"

record effect_request =
  rq_pid :: string
  rq_provider :: string
  rq_operation :: string
  rq_target :: "string option"
  rq_mutation :: bool
  rq_flow :: bool
  rq_meta :: pydict
  rq_key :: "string option"
  rq_args :: "pydict option"

definition effect_identity ::
  "host \<Rightarrow> effect_store \<Rightarrow> string option \<Rightarrow> string \<Rightarrow> effect_request \<Rightarrow> pydict \<Rightarrow> ledger \<Rightarrow> (string \<times> string \<times> string) res" where
  "effect_identity h es opid newid rq context lg =
     bindR (current_approval_effect_binding h es opid) (\<lambda>ap.
     let i = (case ap of Some b \<Rightarrow> the_str (dget b ''effect_id'') | None \<Rightarrow> newid) in
     bindR (canonical_effect_hash h context) (\<lambda>computed.
     bindR (check (case ap of Some b \<Rightarrow> rq_args rq \<noteq> None \<longrightarrow> dget b ''canonical_args_hash'' = VStr computed | None \<Rightarrow> True)
       (ValidationError ''protected operation arguments do not match the approved external effect'')) (\<lambda>_.
     let args = (case ap of Some b \<Rightarrow> the_str (dget b ''canonical_args_hash'') | None \<Rightarrow> computed) in
     bindR (case rq_key rq of
         Some k \<Rightarrow> if k = [] then default_key h opid i (rq_provider rq) (rq_operation rq) (rq_target rq) args else Inr k
       | None \<Rightarrow> default_key h opid i (rq_provider rq) (rq_operation rq) (rq_target rq) args) (\<lambda>k.
     bindR (effect_by_key lg (rq_pid rq) k) (\<lambda>ex.
     bindR (check (ex = None)
       (ValidationError ''duplicate external effect dispatch blocked by idempotency key'')) (\<lambda>_.
       Inr (i, args, k)))))))"

definition label_fields :: "string list" where
  "label_fields = [''sensitivity'', ''trust_level'', ''integrity'', ''origin'', ''tenant'', ''principal'']"

text \<open>\<open>_effect_metadata\<close>; labels that are given are a dictionary.\<close>

definition effect_metadata :: "host \<Rightarrow> pydict \<Rightarrow> bool \<Rightarrow> pydict option \<Rightarrow> pydict res" where
  "effect_metadata h md flow plc =
     (if \<not> flow then Inr md
      else
        bindR (case dget md ''data_labels'' of
            VDict d \<Rightarrow> Inr d
          | v \<Rightarrow> if truthy v then Inl (PyTypeError ''data labels are not a mapping'') else Inr []) (\<lambda>raw.
          let labels = fold (\<lambda>(k, v) d. if k \<in> set label_fields then dset d (VStr k) v else d)
              (map (\<lambda>p. (py_str (h_repr h) (fst p), snd p)) raw) [] in
          Inr (dset md (VStr ''information_flow_evidence'') (VDict (sdict [(''mode'', VStr ''observe_only''),
            (''labels'', VDict labels), (''manifest_policy'', VDict (case plc of None \<Rightarrow> [] | Some p \<Rightarrow> p))])))))"

definition insert_intent :: "host \<Rightarrow> effect_row \<Rightarrow> ledger \<Rightarrow> ledger res" where
  "insert_intent h r lg =
     (case insert_effect h r lg of
        Inr lg' \<Rightarrow> Inr lg'
      | Inl e \<Rightarrow>
          bindR (effect_by_key lg (ef_pid r) (case ef_key r of Some k \<Rightarrow> k | None \<Rightarrow> ''None'')) (\<lambda>raced.
            case raced of
              Some _ \<Rightarrow> Inl (ValidationError ''duplicate external effect dispatch blocked by concurrent idempotency claim'')
            | None \<Rightarrow> Inl e))"

text \<open>
  \<open>prepare_external_effect_intent\<close>; \<open>manifest\<close> is what the authority policy says of the effect: the data-flow
  policy of the manifest of the process if there is one, or its refusal.
\<close>

definition prepare_effect ::
  "host \<Rightarrow> effect_store \<Rightarrow> string option \<Rightarrow> pydict option res \<Rightarrow> string \<Rightarrow> string \<Rightarrow> effect_request \<Rightarrow> ledger \<Rightarrow>
   (ledger \<times> effect_row) res" where
  "prepare_effect h es opid manifest newid now rq lg =
     bindR manifest (\<lambda>plc.
     bindR (case dget (rq_meta rq) ''context'' of
         VDict d \<Rightarrow> Inr (if d = [] then rq_meta rq else d)
       | v \<Rightarrow> if truthy v then Inl (PyTypeError ''context is not a mapping'') else Inr (rq_meta rq)) (\<lambda>context.
     bindR (effect_identity h es opid newid rq (case rq_args rq of Some d \<Rightarrow> d | None \<Rightarrow> context) lg) (\<lambda>(i, args, k).
     bindR (effect_metadata h (rq_meta rq) (rq_flow rq) plc) (\<lambda>md.
     let r = \<lparr>ef_id = i, ef_record = None, ef_event = None, ef_pid = rq_pid rq, ef_provider = rq_provider rq,
         ef_operation = rq_operation rq, ef_target = rq_target rq, ef_class = RollbackUnknown, ef_status = StatusUnknown,
         ef_mutation = rq_mutation rq, ef_flow = rq_flow rq,
         ef_meta = dmerge md [(''effect_state'', VStr ''pending''), (''outcome'', VStr ''unknown_after_provider_boundary'')],
         ef_created = now, ef_state = EffPending, ef_tx = TxPrepared, ef_args = Some args, ef_key = Some k, ef_receipt = [],
         ef_updated = Some now, ef_tier = TierFull, ef_digest = None\<rparr> in
     bindR (insert_intent h r lg) (\<lambda>lg'. Inr (lg', r))))))"

text \<open>\<open>record_external_effect\<close>\<close>

definition outcome_tx :: "host \<Rightarrow> pydict \<Rightarrow> tx_state" where
  "outcome_tx h md =
     (let o' = py_str (h_repr h) (py_or (dget md ''outcome'') (VStr [])) in
      if prefix ''unknown'' o' then TxUnknown else if o' = ''failed'' then TxFailed else TxCommitted)"

definition record_effect ::
  "host \<Rightarrow> effect_request \<Rightarrow> classification \<Rightarrow> string option \<Rightarrow> string option \<Rightarrow> string option \<Rightarrow> string \<Rightarrow> string \<Rightarrow>
   ledger \<Rightarrow> (ledger \<times> effect_row) res" where
  "record_effect h rq cl audit event intent newid now lg =
     (let md = dmerge (fold (\<lambda>(k, v) e. dset e k v) (rq_meta rq) (cl_meta cl)) [(''effect_state'', VStr ''finalized'')];
          old = (case intent of None \<Rightarrow> None | Some i \<Rightarrow> get_effect lg i);
          r = \<lparr>ef_id = (case intent of Some i \<Rightarrow> if i = [] then newid else i | None \<Rightarrow> newid), ef_record = audit,
            ef_event = event, ef_pid = rq_pid rq, ef_provider = rq_provider rq, ef_operation = rq_operation rq,
            ef_target = rq_target rq, ef_class = cl_class cl, ef_status = cl_status cl, ef_mutation = cl_mutation cl,
            ef_flow = cl_flow cl, ef_meta = md, ef_created = now, ef_state = EffFinalized, ef_tx = outcome_tx h md,
            ef_args = (case old of None \<Rightarrow> None | Some c \<Rightarrow> ef_args c),
            ef_key = (case old of None \<Rightarrow> None | Some c \<Rightarrow> ef_key c),
            ef_receipt = (case dget md ''provider_receipt'' of VDict d \<Rightarrow> d | _ \<Rightarrow> []),
            ef_updated = Some now, ef_tier = TierFull, ef_digest = None\<rparr> in
      case intent of
        None \<Rightarrow> bindR (insert_effect h r lg) (\<lambda>lg'. Inr (lg', r))
      | Some i \<Rightarrow>
          bindR (finalize_effect h i r lg) (\<lambda>(lg', done).
            if done then Inr (lg', r)
            else Inl (ValidationError
              ''external effect intent was missing, already finalized, or did not match its provider boundary'')))"

section \<open>Transitions\<close>

definition intent_missing :: "string \<Rightarrow> exn" where
  "intent_missing i = ValidationError (''external effect intent not found: '' @ i)"

definition reread :: "ledger \<Rightarrow> effect_row \<Rightarrow> effect_row" where
  "reread lg c = (case get_effect lg (ef_id c) of Some r \<Rightarrow> r | None \<Rightarrow> c)"

definition mark_dispatched :: "host \<Rightarrow> string \<Rightarrow> string \<Rightarrow> ledger \<Rightarrow> (ledger \<times> effect_row) res" where
  "mark_dispatched h i now lg =
     (case get_effect lg i of
        None \<Rightarrow> Inl (intent_missing i)
      | Some c \<Rightarrow>
          bindR (transition_effect h i [TxPrepared, TxAuthorized, TxApproved] TxDispatched
              (Some (dmerge (ef_meta c) [(''transaction_state'', VStr ''dispatched'')])) None now lg) (\<lambda>(lg', done).
            if done \<or> (case get_effect lg' i of None \<Rightarrow> False | Some r \<Rightarrow> ef_tx r = TxDispatched) then Inr (lg', reread lg' c)
            else Inl (ValidationError (''external effect intent cannot be dispatched: '' @ i))))"

definition open_states :: "tx_state list" where
  "open_states = [TxPrepared, TxAuthorized, TxApproved, TxDispatched, TxUnknown]"

definition mark_unknown :: "host \<Rightarrow> string \<Rightarrow> string \<Rightarrow> pydict option \<Rightarrow> string \<Rightarrow> ledger \<Rightarrow> (ledger \<times> effect_row) res" where
  "mark_unknown h i reason rcp now lg =
     (case get_effect lg i of
        None \<Rightarrow> Inl (intent_missing i)
      | Some c \<Rightarrow>
          let rc = (case rcp of Some d \<Rightarrow> d | None \<Rightarrow> ef_receipt c);
              md = dmerge (ef_meta c) [(''outcome'', VStr ''unknown''), (''reconciliation_reason'', VStr reason),
                (''transaction_state'', VStr ''unknown'')] in
          if ef_tx c = TxUnknown \<and> py_eq (VDict (ef_meta c)) (VDict md) \<and> py_eq (VDict (ef_receipt c)) (VDict rc) then Inr (lg, c)
          else bindR (transition_effect h i open_states TxUnknown (Some md) (Some rc) now lg) (\<lambda>(lg', done).
            if done then Inr (lg', reread lg' c)
            else Inl (ValidationError (''external effect intent cannot become unknown: '' @ i))))"

definition abandon_intent :: "string \<Rightarrow> ledger \<Rightarrow> ledger res" where
  "abandon_intent i lg =
     (case abandon_effect i lg of
        (lg', True) \<Rightarrow> Inr lg'
      | (_, False) \<Rightarrow> Inl (ValidationError ''external effect intent was missing or already finalized''))"

section \<open>Receipts\<close>

definition certifies_not_started :: "pyval \<Rightarrow> bool" where
  "certifies_not_started v \<longleftrightarrow> (case v of
      VDict d \<Rightarrow> (dget d ''dispatch_status'' = VStr ''not_started'' \<and> dget d ''certified'' = VBool True)
        \<or> dget d ''certified_not_started'' = VBool True
    | _ \<Rightarrow> False)"

definition reconciliation_state :: "host \<Rightarrow> pyval \<Rightarrow> pyval \<Rightarrow> string" where
  "reconciliation_state h v rcp =
     (let s = py_str (h_repr h) (py_or v (VStr ''unknown'')) in
      if s = ''failed'' \<and> certifies_not_started rcp then ''not_started'' else s)"

definition verified_receipt :: "host \<Rightarrow> pyval \<Rightarrow> (string \<times> pydict) res" where
  "verified_receipt h v =
     (case v of
        VDict d \<Rightarrow>
          (case dget d ''provider_receipt'' of
             VDict rc \<Rightarrow>
               if rc = [] then Inl (ValidationError ''provider receipt verifier returned no authoritative receipt'')
               else
                 (let s = reconciliation_state h (dget d ''state'') (VDict rc) in
                  if s \<in> set provider_states then Inr (s, rc)
                  else Inl (ValidationError ''provider receipt verifier returned an unsupported effect state''))
           | _ \<Rightarrow> Inl (ValidationError ''provider receipt verifier returned no authoritative receipt''))
      | _ \<Rightarrow> Inl (ValidationError ''provider receipt verifier must return an authoritative result object''))"

text \<open>\<open>_settle_external_effect_recovery\<close>\<close>

definition settled_text :: "string \<Rightarrow> string" where
  "settled_text ps = (if ps = ''not_started'' then ''failed'' else ps)"

definition settle_recovery ::
  "host \<Rightarrow> effect_row \<Rightarrow> string \<Rightarrow> pydict \<Rightarrow> string \<Rightarrow> string \<Rightarrow> string \<Rightarrow> string option \<Rightarrow> int option \<Rightarrow> effect_world \<Rightarrow>
   (effect_world \<times> settlement_record) res" where
  "settle_recovery h e ps rcp source audit now run epoch w =
     bindR (dumps h (VDict rcp)) (\<lambda>t.
     let md = dmerge (ef_meta e) ([(''reconciled'', VBool True), (''reconciliation_source'', VStr source),
           (''provider_reconciliation_state'', VStr ps), (''transaction_state'', VStr (settled_text ps)),
           (''outcome'', VStr ps), (''provider_receipt_sha256'', VStr (h_sha256 h t))]
           @ (if ps = ''not_started'' then [(''certified_not_started'', VBool True), (''dispatch_status'', VStr ''not_started'')]
              else [])) in
     bindR (settle_effect h (ef_id e) (ef_tx e) ps md rcp audit now run epoch w) (\<lambda>res.
       case res of
         None \<Rightarrow> Inl (ValidationError (''external effect recovery raced or failed its fence: '' @ ef_id e))
       | Some ws \<Rightarrow> Inr ws))"

text \<open>
  \<open>settle_external_effect_from_authoritative_receipt\<close>; \<open>verify\<close> is the verifier of the configured provider, if it
  has one.
\<close>

definition settle_from_receipt ::
  "host \<Rightarrow> (effect_row \<Rightarrow> pydict \<Rightarrow> pyval res) option \<Rightarrow> string \<Rightarrow> int \<Rightarrow> string \<Rightarrow> tx_state \<Rightarrow> pydict \<Rightarrow> string \<Rightarrow> string \<Rightarrow>
   effect_world \<Rightarrow> (effect_world \<times> settlement_record) res" where
  "settle_from_receipt h verify run epoch i expected rcp audit now w =
     bindR (check (i \<noteq> []) (ValidationError ''authoritative receipt requires an effect id'')) (\<lambda>_.
     bindR (check (recoverable expected) (ValidationError ''authoritative receipt expected state is not recoverable'')) (\<lambda>_.
     bindR (check (rcp \<noteq> []) (ValidationError ''authoritative provider receipt is required'')) (\<lambda>_.
     case get_effect (w_ledger w) i of
       None \<Rightarrow> Inl (intent_missing i)
     | Some e \<Rightarrow>
         bindR (check (ef_state e = EffPending \<and> ef_tx e = expected)
           (ValidationError ''authoritative receipt no longer matches the expected effect state'')) (\<lambda>_.
         case verify of
           None \<Rightarrow> Inl (ValidationError ''configured provider cannot verify authoritative effect receipts'')
         | Some f \<Rightarrow>
             bindR (f e rcp) (\<lambda>v.
             bindR (verified_receipt h v) (\<lambda>(ps, rc).
               settle_recovery h e ps rc ''host_verified_receipt'' audit now (Some run) (Some epoch) w))))))"

end
