(* ===== verification/EffectStartup.thy ===== *)
theory EffectStartup
  imports EffectRecovery
begin

text \<open>
  The recoveries that run over all pending effects at startup: the keyset paging of
  \<open>iter_external_effect_recovery\<close>, the reconciliation with the providers of
  \<open>evidence/external_effects.py\<close>, the recovery of prepared operations of \<open>sdk/protected_operations.py\<close>, and
  their order in \<open>runtime/builder.py\<close>. Providers and repair handlers are parameters. A loop of pages runs on
  fuel.
\<close>

section \<open>Pages of effects\<close>

definition effect_key :: "effect_row \<Rightarrow> string \<times> string" where
  "effect_key r = (ef_created r, ef_id r)"

definition eligible :: "tx_state list \<Rightarrow> effect_row \<Rightarrow> bool" where
  "eligible txs r \<longleftrightarrow> ef_state r = EffPending \<and> (txs = [] \<or> ef_tx r \<in> set txs)"

definition effect_rows :: "tx_state list \<Rightarrow> (string \<times> string) option \<Rightarrow> ledger \<Rightarrow> effect_row list" where
  "effect_rows txs after lg = sort_key effect_key (filter (\<lambda>r. eligible txs r
     \<and> (case after of None \<Rightarrow> True | Some k \<Rightarrow> k < effect_key r)) (lg_rows lg))"

definition check_cursor :: "effect_row \<Rightarrow> unit res" where
  "check_cursor r =
     bindR (check (ef_created r \<noteq> []) (ValueError ''external effect cursor created_at must not be empty'')) (\<lambda>_.
     check (ef_id r \<noteq> []) (ValueError ''external effect cursor effect_id must not be empty''))"

definition query_effects ::
  "nat \<Rightarrow> nat \<Rightarrow> tx_state list \<Rightarrow> (string \<times> string) option \<Rightarrow> ledger \<Rightarrow> (effect_row list \<times> (string \<times> string) option) res" where
  "query_effects hard n txs after lg =
     bindR (check (n \<le> hard) (ValidationError ''external effect recovery page limit exceeds configured hard limit'')) (\<lambda>_.
     let rows = effect_rows txs after lg; page = take n rows in
     if n < length rows \<and> page \<noteq> [] then
       bindR (check_cursor (last page)) (\<lambda>_. Inr (page, Some (effect_key (last page))))
     else Inr (page, None))"

text \<open>The body of a loop works on one effect and says whether it counts.\<close>

type_synonym effect_body = "effect_row \<Rightarrow> effect_world \<Rightarrow> (effect_world \<times> bool) res"

fun each_effect ::
  "effect_body \<Rightarrow> nat \<Rightarrow> effect_row list \<Rightarrow> nat \<Rightarrow> string list \<Rightarrow> effect_world \<Rightarrow> (effect_world \<times> nat \<times> string list) res" where
  "each_effect f n [] tot sample w = Inr (w, tot, sample)"
| "each_effect f n (e # es) tot sample w =
     bindR (check_cursor e) (\<lambda>_.
     bindR (f e w) (\<lambda>(w', counts).
       if counts then each_effect f n es (tot + 1) (if length sample < n then sample @ [ef_id e] else sample) w'
       else each_effect f n es tot sample w'))"

fun effect_pages ::
  "nat \<Rightarrow> effect_body \<Rightarrow> nat \<Rightarrow> nat \<Rightarrow> tx_state list \<Rightarrow> (string \<times> string) option \<Rightarrow> nat \<Rightarrow> string list \<Rightarrow> effect_world \<Rightarrow>
   (effect_world \<times> nat \<times> string list) option res" where
  "effect_pages 0 f hard n txs after tot sample w = Inr None"
| "effect_pages (Suc k) f hard n txs after tot sample w =
     bindR (query_effects hard n txs after (w_ledger w)) (\<lambda>(page, cursor).
     bindR (each_effect f n page tot sample w) (\<lambda>(w', tot', sample').
       case cursor of
         None \<Rightarrow> Inr (Some (w', tot', sample'))
       | Some c \<Rightarrow> effect_pages k f hard n txs (Some c) tot' sample' w'))"

definition over_effects ::
  "effect_body \<Rightarrow> nat \<Rightarrow> nat \<Rightarrow> tx_state list \<Rightarrow> effect_world \<Rightarrow> (effect_world \<times> nat \<times> string list) option res" where
  "over_effects f hard n txs w =
     bindR (check (0 < n) (ValueError ''external effect recovery page limit must be positive'')) (\<lambda>_.
       effect_pages (length (lg_rows (w_ledger w)) + 1) f hard n txs None 0 [] w)"

section \<open>Reconciliation with the providers\<close>

text \<open>A provider answers a value or raises an exception of some type.\<close>

type_synonym reconciler = "effect_row \<Rightarrow> string + pyval"

definition unknown_in ::
  "host \<Rightarrow> string \<Rightarrow> string \<Rightarrow> pydict option \<Rightarrow> string \<Rightarrow> effect_world \<Rightarrow> effect_world res" where
  "unknown_in h i reason rcp now w =
     bindR (mark_unknown h i reason rcp now (w_ledger w)) (\<lambda>(lg, _). Inr (w\<lparr>w_ledger := lg\<rparr>))"

definition receipt_dict :: "pyval \<Rightarrow> pydict option" where
  "receipt_dict v = (case v of VDict d \<Rightarrow> Some d | _ \<Rightarrow> None)"

definition settle_reconciled ::
  "host \<Rightarrow> effect_row \<Rightarrow> string \<Rightarrow> pyval \<Rightarrow> string \<Rightarrow> string \<Rightarrow> effect_world \<Rightarrow> effect_world res" where
  "settle_reconciled h e ps rcp audit now w =
     (case rcp of
        VDict (p # d) \<Rightarrow>
          bindR (settle_recovery h e ps (p # d) ''provider_reconciliation'' audit now None None w) (\<lambda>(w', _). Inr w')
      | _ \<Rightarrow> unknown_in h (ef_id e) ''provider_terminal_state_without_authoritative_receipt'' None now w)"

definition persist_answer :: "host \<Rightarrow> effect_row \<Rightarrow> pydict \<Rightarrow> string \<Rightarrow> string \<Rightarrow> effect_world \<Rightarrow> effect_world res" where
  "persist_answer h e answer audit now w =
     (let rcp = dget answer ''provider_receipt'';
          s = reconciliation_state h (dget answer ''state'') rcp;
          st = (if s \<in> set provider_states then s else ''unknown'') in
      if ef_tx e = TxPrepared \<and> st \<notin> {''not_started'', ''unknown''} then
        unknown_in h (ef_id e) ''prepared_effect_requires_certified_not_started'' (receipt_dict rcp) now w
      else if st \<noteq> ''unknown'' then settle_reconciled h e st rcp audit now w
      else
        (let md = dmerge (ef_meta e) [(''reconciled'', VBool True), (''transaction_state'', VStr st), (''outcome'', VStr st)];
             rc = (case receipt_dict rcp of Some d \<Rightarrow> d | None \<Rightarrow> []) in
         if ef_tx e = TxUnknown \<and> py_eq (VDict (ef_meta e)) (VDict md) \<and> py_eq (VDict (ef_receipt e)) (VDict rc) then Inr w
         else bindR (transition_effect h (ef_id e) open_states TxUnknown (Some md) (Some rc) now (w_ledger w)) (\<lambda>(lg, done).
           if done then Inr (w\<lparr>w_ledger := lg\<rparr>)
           else Inl (ValidationError (''external effect reconciliation raced: '' @ ef_id e)))))"

definition reconcile_one ::
  "host \<Rightarrow> (string \<Rightarrow> reconciler option) \<Rightarrow> effect_row \<Rightarrow> string \<Rightarrow> string \<Rightarrow> effect_world \<Rightarrow> effect_world res" where
  "reconcile_one h provs e audit now w =
     (case provs (ef_provider e) of
        None \<Rightarrow> unknown_in h (ef_id e) ''provider_does_not_support_reconciliation'' None now w
      | Some f \<Rightarrow>
          (case f e of
             Inl t \<Rightarrow> unknown_in h (ef_id e) (''provider_reconciliation_error:'' @ t) None now w
           | Inr (VDict d) \<Rightarrow> persist_answer h e d audit now w
           | Inr _ \<Rightarrow> unknown_in h (ef_id e) ''invalid_reconciliation_result'' None now w))"

text \<open>\<open>reconcile_pending_external_effects\<close>; \<open>audit\<close> names the audit record of an effect.\<close>

definition locally_prepared :: "effect_row \<Rightarrow> bool" where
  "locally_prepared e \<longleftrightarrow> ef_tx e = TxPrepared \<and> is_dict (dget (ef_meta e) ''protected_operation'')"

definition reconcile_body ::
  "host \<Rightarrow> (string \<Rightarrow> reconciler option) \<Rightarrow> (string \<Rightarrow> string) \<Rightarrow> string \<Rightarrow> effect_body" where
  "reconcile_body h provs audit now e w =
     (if locally_prepared e then Inr (w, False)
      else bindR (reconcile_one h provs e (audit (ef_id e)) now w) (\<lambda>w'. Inr (w', True)))"

definition reconcile_pending ::
  "host \<Rightarrow> (string \<Rightarrow> reconciler option) \<Rightarrow> (string \<Rightarrow> string) \<Rightarrow> string \<Rightarrow> nat \<Rightarrow> nat \<Rightarrow> effect_world \<Rightarrow>
   (effect_world \<times> nat \<times> string list) option res" where
  "reconcile_pending h provs audit now hard n = over_effects (reconcile_body h provs audit now) hard n []"

section \<open>Recovery of prepared operations\<close>

definition evidence_of :: "effect_world \<Rightarrow> string option \<Rightarrow> string \<Rightarrow> string \<Rightarrow> evidence_link list" where
  "evidence_of w opn ty i = filter (\<lambda>l. (case opn of None \<Rightarrow> True | Some x \<Rightarrow> el_operation l = x)
     \<and> el_type l = ty \<and> el_id l = i) (w_links w)"

definition find_operation :: "effect_world \<Rightarrow> string \<Rightarrow> operation_row option" where
  "find_operation w i = List.find (\<lambda>r. op_id r = i) (w_ops w)"

definition prepared_error :: "string \<Rightarrow> effect_row \<Rightarrow> exn" where
  "prepared_error what e = ValidationError (''prepared protected operation '' @ what @ '': '' @ ef_id e)"

text \<open>
  \<open>_prepared_recovery_metadata\<close>: the reservations, the contract, the actor and the repair handler, or nothing for an
  effect outside a protected operation.
\<close>

type_synonym repair = "effect_row \<Rightarrow> effect_world \<Rightarrow> effect_world res"

definition prepared_handler :: "(string \<Rightarrow> repair option) \<Rightarrow> effect_row \<Rightarrow> pydict \<Rightarrow> repair option res" where
  "prepared_handler handlers e p =
     (case dget p ''prepared_recovery'' of
        VNone \<Rightarrow> Inr None
      | VStr s \<Rightarrow>
          if s = [] then Inl (prepared_error ''has invalid recovery policy'' e)
          else (case handlers s of
              None \<Rightarrow> Inl (ValidationError (''prepared recovery handler is not registered: '' @ s))
            | Some f \<Rightarrow> Inr (Some f))
      | _ \<Rightarrow> Inl (prepared_error ''has invalid recovery policy'' e))"

definition prepared_metadata ::
  "(string \<Rightarrow> repair option) \<Rightarrow> effect_row \<Rightarrow> (string list \<times> string \<times> string \<times> repair option) option res" where
  "prepared_metadata handlers e =
     (case dget (ef_meta e) ''protected_operation'' of
        VDict p \<Rightarrow>
          (case text_items (dget p ''reservation_ids'') of
             None \<Rightarrow> Inl (prepared_error ''has invalid reservation links'' e)
           | Some ids \<Rightarrow>
               bindR (check (distinct ids) (prepared_error ''has duplicate reservation links'' e)) (\<lambda>_.
               bindR (check (is_str (dget p ''contract_name'') \<and> the_str (dget p ''contract_name'') \<noteq> [])
                 (prepared_error ''has invalid contract identity'' e)) (\<lambda>_.
               bindR (check (is_str (dget p ''actor'') \<and> the_str (dget p ''actor'') \<noteq> [])
                 (prepared_error ''has invalid actor identity'' e)) (\<lambda>_.
               bindR (prepared_handler handlers e p) (\<lambda>f.
                 Inr (Some (ids, the_str (dget p ''contract_name''), the_str (dget p ''actor''), f)))))))
      | _ \<Rightarrow> Inr None)"

definition prepared_capability :: "effect_row \<Rightarrow> string \<Rightarrow> string \<Rightarrow> string \<Rightarrow> effect_world \<Rightarrow> string res" where
  "prepared_capability e rid actor reason w =
     (case get_reservation (w_caps w) rid of
        None \<Rightarrow> Inl (prepared_error ''reservation is missing'' e)
      | Some r \<Rightarrow>
          bindR (check (ur_status r = Reserved) (prepared_error ''reservation is not live'' e)) (\<lambda>_.
          bindR (check (ur_count r = 1) (prepared_error ''reservation count is not exactly one'' e)) (\<lambda>_.
          bindR (check (ur_cap r \<noteq> []) (prepared_error ''reservation capability is invalid'' e)) (\<lambda>_.
          bindR (check (ur_by r = actor \<and> ur_reason r = reason) (prepared_error ''reservation binding mismatch'' e)) (\<lambda>_.
            Inr (ur_cap r))))))"

definition prepared_operation :: "effect_row \<Rightarrow> string \<Rightarrow> string \<Rightarrow> effect_world \<Rightarrow> string res" where
  "prepared_operation e contract actor w =
     (case evidence_of w None ''external_effect'' (ef_id e) of
        [l] \<Rightarrow>
          bindR (check (el_role l = ''effect'' \<and> dget (el_meta l) ''effect_state'' = VStr ''pending''
              \<and> dget (el_meta l) ''provider'' = VStr (ef_provider e) \<and> dget (el_meta l) ''operation'' = VStr (ef_operation e))
            (prepared_error ''effect binding is invalid'' e)) (\<lambda>_.
          case find_operation w (el_operation l) of
            Some o' \<Rightarrow>
              if op_name o' = contract \<and> op_actor o' = actor \<and> op_pid o' = ef_pid e then Inr (op_id o')
              else Inl (prepared_error ''identity binding mismatch'' e)
          | None \<Rightarrow> Inl (prepared_error ''identity binding mismatch'' e))
      | _ \<Rightarrow> Inl (prepared_error ''effect binding is missing or ambiguous'' e))"

definition prepared_evidence ::
  "effect_row \<Rightarrow> string \<Rightarrow> string \<Rightarrow> string \<Rightarrow> string \<Rightarrow> string \<Rightarrow> effect_world \<Rightarrow> unit res" where
  "prepared_evidence e opn rid cap contract actor w =
     (let ls = evidence_of w (Some opn) ''capability_reservation'' rid in
      bindR (check (length ls = 2) (prepared_error ''reservation evidence is missing or ambiguous'' e)) (\<lambda>_.
      bindR (check (set (map el_role ls) = {''reservation'', ''effect_reservation''})
        (prepared_error ''reservation evidence is invalid'' e)) (\<lambda>_.
        let r = el_meta (hd (filter (\<lambda>l. el_role l = ''reservation'') ls));
            x = el_meta (hd (filter (\<lambda>l. el_role l = ''effect_reservation'') ls)) in
        check (dget r ''capability_id'' = VStr cap \<and> dget r ''status'' = VStr ''reserved'' \<and> dget r ''count'' = VInt 1
            \<and> dget x ''effect_id'' = VStr (ef_id e) \<and> dget x ''capability_id'' = VStr cap \<and> dget x ''count'' = VInt 1
            \<and> dget x ''contract_name'' = VStr contract \<and> dget x ''actor'' = VStr actor)
          (prepared_error ''reservation evidence mismatch'' e))))"

fun check_prepared ::
  "effect_row \<Rightarrow> string \<Rightarrow> string \<Rightarrow> string \<Rightarrow> string list \<Rightarrow> effect_world \<Rightarrow> unit res" where
  "check_prepared e opn contract actor [] w = Inr ()"
| "check_prepared e opn contract actor (rid # rids) w =
     bindR (prepared_capability e rid actor (reserve_reason contract) w) (\<lambda>cap.
     bindR (prepared_evidence e opn rid cap contract actor w) (\<lambda>_. check_prepared e opn contract actor rids w))"

fun restore_prepared :: "effect_row \<Rightarrow> string \<Rightarrow> string list \<Rightarrow> cap_store \<Rightarrow> cap_store res" where
  "restore_prepared e now [] cs = Inr cs"
| "restore_prepared e now (rid # rids) cs =
     bindR (lease_restore (Some rid) now cs) (\<lambda>(cs', c).
     bindR (check (c \<noteq> None) (prepared_error ''reservation could not be restored'' e)) (\<lambda>_.
       restore_prepared e now rids cs'))"

text \<open>\<open>_recover_prepared_effect\<close>, one transaction\<close>

definition recover_prepared_one :: "(string \<Rightarrow> repair option) \<Rightarrow> string \<Rightarrow> effect_body" where
  "recover_prepared_one handlers now e w =
     bindR (prepared_metadata handlers e) (\<lambda>md.
       case md of
         None \<Rightarrow> Inr (w, False)
       | Some (rids, contract, actor, handler) \<Rightarrow>
           bindR (prepared_operation e contract actor w) (\<lambda>opn.
           bindR (check_prepared e opn contract actor rids w) (\<lambda>_.
           bindR (case handler of None \<Rightarrow> Inr w | Some f \<Rightarrow> f e w) (\<lambda>w1.
           bindR (restore_prepared e now (rev rids) (w_caps w1)) (\<lambda>cs.
           bindR (abandon_intent (ef_id e) (w_ledger w1)) (\<lambda>lg.
             Inr (w1\<lparr>w_caps := cs, w_ledger := lg\<rparr>, True)))))))"

definition recover_prepared ::
  "(string \<Rightarrow> repair option) \<Rightarrow> string \<Rightarrow> nat \<Rightarrow> nat \<Rightarrow> effect_world \<Rightarrow> (effect_world \<times> nat \<times> string list) option res" where
  "recover_prepared handlers now hard n = over_effects (recover_prepared_one handlers now) hard n [TxPrepared]"

section \<open>Startup\<close>

text \<open>
  The part of \<open>_recover_runtime_state\<close> that works on effects: prepared operations, reconciliation, the abandonment of
  stale reservations, the recovery of envelopes.
\<close>

record startup =
  su_host :: host
  su_doubles :: doubles
  su_ambient :: ambient
  su_nonce :: string
  su_now :: string
  su_handlers :: "string \<Rightarrow> repair option"
  su_provs :: "string \<Rightarrow> reconciler option"
  su_audit :: "string \<Rightarrow> string"
  su_hard :: nat
  su_page :: nat
  su_cap_page :: nat
  su_usage_page :: nat

definition returned :: "'a option res \<Rightarrow> 'a res" where
  "returned r = bindR r (\<lambda>x. case x of None \<Rightarrow> Inl Diverges | Some y \<Rightarrow> Inr y)"

definition effect_phase :: "ledger \<Rightarrow> string \<Rightarrow> string option" where
  "effect_phase lg i = map_option (\<lambda>e. tx_text (ef_tx e)) (get_effect lg i)"

definition recover_startup :: "startup \<Rightarrow> effect_world \<Rightarrow> effect_world res" where
  "recover_startup s w =
     bindR (returned (recover_prepared (su_handlers s) (su_now s) (su_hard s) (su_page s) w)) (\<lambda>(w1, _, _).
     bindR (returned (reconcile_pending (su_host s) (su_provs s) (su_audit s) (su_now s) (su_hard s) (su_page s) w1)) (\<lambda>(w2, _, _).
     bindR (returned (Inr (abandon_stale (su_cap_page s) (su_now s) (w_caps w2)))) (\<lambda>(cs, _).
     bindR (returned (recover_usage (su_doubles s) (su_host s) (su_ambient s) (su_now s) (su_nonce s)
         (effect_phase (w_ledger w2)) (su_usage_page s) (w_acct w2))) (\<lambda>(a, _, _).
       Inr (w2\<lparr>w_caps := cs, w_acct := a\<rparr>)))))"

end
