(* ===== verification/EffectMoves.thy ===== *)
theory EffectMoves
  imports EffectStartup
begin

text \<open>
  The ledger of external effects over any sequence of operations: each operation is a sequence of moves of
  rows, and every move appends to the log what it did. Also here: the phases of a provider call in
  \<open>sdk/protected_operations.py\<close>, which dispatch an effect and record that a phase has completed.
\<close>

section \<open>Phases of a provider call\<close>

record provider_phase =
  ph_name :: string
  ph_mutation :: bool
  ph_flow :: bool
  ph_commits :: bool

definition phase_json :: "provider_phase \<Rightarrow> pyval" where
  "phase_json p = VDict (sdict [(''name'', VStr (ph_name p)), (''state_mutation'', VBool (ph_mutation p)),
     (''information_flow'', VBool (ph_flow p)), (''commits_authority'', VBool (ph_commits p))])"

text \<open>The ledger part of \<open>_dispatch\<close> and of \<open>_record_completed_phase\<close>; the latter says whether it was persisted.\<close>

definition dispatch_phase :: "host \<Rightarrow> string \<Rightarrow> provider_phase \<Rightarrow> string \<Rightarrow> ledger \<Rightarrow> ledger res" where
  "dispatch_phase h i p now lg =
     bindR (mark_dispatched h i now lg) (\<lambda>(lg1, _).
       case get_effect lg1 i of
         None \<Rightarrow> Inl (ValidationError ''protected operation effect disappeared during dispatch'')
       | Some c \<Rightarrow>
           bindR (transition_effect h i [TxDispatched] TxDispatched
               (Some (dmerge (ef_meta c) [(''active_provider_phase'', phase_json p)])) None now lg1) (\<lambda>(lg2, fin).
             if fin then Inr lg2
             else Inl (ValidationError ''protected operation phase dispatch cannot be persisted'')))"

definition complete_phase :: "host \<Rightarrow> string \<Rightarrow> provider_phase \<Rightarrow> string \<Rightarrow> ledger \<Rightarrow> (ledger \<times> bool) res" where
  "complete_phase h i p now lg =
     (case get_effect lg i of
        None \<Rightarrow> Inl (ValidationError ''protected operation effect disappeared after provider call'')
      | Some c \<Rightarrow>
          (case py_or (dget (ef_meta c) ''completed_provider_phases'') (VList []) of
             VList ps \<Rightarrow>
               let qs = ps @ [phase_json p] in
               transition_effect h i [TxDispatched] TxDispatched
                 (Some (dmerge (ef_meta c) [(''active_provider_phase'', VNone), (''completed_provider_phases'', VList qs),
                   (''observed_state_mutation'', VBool (list_ex (\<lambda>q. truthy (dget (dict_of q) ''state_mutation'')) qs)),
                   (''observed_information_flow'', VBool (list_ex (\<lambda>q. truthy (dget (dict_of q) ''information_flow'')) qs))]))
                 None now lg
           | _ \<Rightarrow> Inl (PyTypeError ''completed phases are not a list'')))"

section \<open>Moves\<close>

definition settled_row :: "effect_row \<Rightarrow> bool" where
  "settled_row r \<longleftrightarrow> ef_state r = EffFinalized \<and> ef_tx r \<in> {TxCommitted, TxFailed, TxCompensated}"

inductive ledger_move :: "ledger \<Rightarrow> ledger \<Rightarrow> bool" where
  add: "get_effect lg (ef_id r) = None \<Longrightarrow> \<not> key_taken lg (ef_id r) (ef_pid r) (ef_key r) \<Longrightarrow>
    ledger_move lg (log_change (ef_id r) (ef_state r) (ef_tx r) t (lg\<lparr>lg_rows := lg_rows lg @ [r]\<rparr>))"
| change: "get_effect lg (ef_id r) = Some c \<Longrightarrow> \<not> settled_row c \<Longrightarrow> ef_pid r = ef_pid c \<Longrightarrow>
    ef_key r = None \<or> ef_key r = ef_key c \<or> \<not> key_taken lg (ef_id r) (ef_pid r) (ef_key r) \<Longrightarrow>
    ledger_move lg (log_change (ef_id r) (ef_state r) (ef_tx r) t (put_effect r lg))"
| drop: "unobserved c \<Longrightarrow> get_effect lg i = Some c \<Longrightarrow>
    ledger_move lg (lg\<lparr>lg_rows := filter (\<lambda>r. ef_id r \<noteq> i) (lg_rows lg)\<rparr>)"

abbreviation ledger_moves :: "ledger \<Rightarrow> ledger \<Rightarrow> bool" where
  "ledger_moves \<equiv> ledger_move\<^sup>*\<^sup>*"

lemma get_effectD: "get_effect lg i = Some c \<Longrightarrow> c \<in> set (lg_rows lg) \<and> ef_id c = i"
  unfolding get_effect_def by (auto dest: find_SomeD)

lemma get_effect_None: "get_effect lg i = None \<longleftrightarrow> i \<notin> ef_id ` set (lg_rows lg)"
  by (auto simp: get_effect_def find_None_iff)

lemma insert_move:
  assumes "insert_effect h r lg = Inr lg'"
  shows "ledger_move lg lg'"
proof -
  obtain m rc where new: "get_effect lg (ef_id r) = None" "\<not> key_taken lg (ef_id r) (ef_pid r) (ef_key r)"
    and lg': "lg' = log_change (ef_id r) (ef_state r) (ef_tx r) (occurred r)
        (lg\<lparr>lg_rows := lg_rows lg @ [r\<lparr>ef_meta := m, ef_receipt := rc, ef_updated := Some (occurred r)\<rparr>]\<rparr>)"
    using assms unfolding insert_effect_def by (auto simp: bindR_Inr_iff)
  show ?thesis
    using ledger_move.add [of lg "r\<lparr>ef_meta := m, ef_receipt := rc, ef_updated := Some (occurred r)\<rparr>" "occurred r"] new
    by (simp add: lg')
qed

lemma finalize_move:
  assumes "finalize_effect h i r lg = Inr (lg', fin)"
  shows "if fin then ledger_move lg lg' else lg' = lg"
proof (cases fin)
  case True
  then obtain m rc c where c: "get_effect lg i = Some c" "ef_id r = i" "ef_pid c = ef_pid r" "unobserved c"
      "\<not> key_taken lg i (ef_pid c) (ef_key r)"
    and lg': "lg' = log_change i (ef_state r) (ef_tx r) (occurred r)
        (put_effect (r\<lparr>ef_meta := m, ef_receipt := rc, ef_updated := Some (occurred r)\<rparr>) lg)"
    using assms unfolding finalize_effect_def by (auto simp: bindR_Inr_iff split: option.splits if_splits)
  have "\<not> settled_row c" using c(4) by (simp add: unobserved_def settled_row_def)
  then show ?thesis
    using ledger_move.change [of lg "r\<lparr>ef_meta := m, ef_receipt := rc, ef_updated := Some (occurred r)\<rparr>" c "occurred r"]
      c True by (simp add: lg')
next
  case False
  then show ?thesis
    using assms unfolding finalize_effect_def by (auto simp: bindR_Inr_iff split: option.splits if_splits)
qed

lemma transition_Inr:
  assumes "transition_effect h i states tx md rcp now lg = Inr (lg', True)"
  obtains c m rc where "get_effect lg i = Some c" "ef_tx c \<in> set states" "lg' = log_change i (ef_state c) tx now
      (put_effect (c\<lparr>ef_tx := tx, ef_meta := m, ef_receipt := rc, ef_updated := Some now\<rparr>) lg)"
  using assms unfolding transition_effect_def by (auto simp: bindR_Inr_iff split: option.splits if_splits)

lemma transition_move:
  assumes "transition_effect h i states tx md rcp now lg = Inr (lg', fin)" "set states \<subseteq> set open_states"
  shows "if fin then ledger_move lg lg' else lg' = lg"
proof (cases fin)
  case True
  with assms(1) obtain m rc c where c: "get_effect lg i = Some c" "ef_tx c \<in> set states"
    and lg': "lg' = log_change i (ef_state c) tx now
        (put_effect (c\<lparr>ef_tx := tx, ef_meta := m, ef_receipt := rc, ef_updated := Some now\<rparr>) lg)"
    using transition_Inr by metis
  have "\<not> settled_row c" using c(2) assms(2) by (auto simp: settled_row_def open_states_def)
  moreover have "ef_id c = i" using get_effectD [OF c(1)] by simp
  ultimately show ?thesis
    using ledger_move.change [of lg "c\<lparr>ef_tx := tx, ef_meta := m, ef_receipt := rc, ef_updated := Some now\<rparr>" c now] c True
    by (simp add: lg')
next
  case False
  then show ?thesis
    using assms(1) unfolding transition_effect_def by (auto simp: bindR_Inr_iff split: option.splits if_splits)
qed

lemma abandon_move: "abandon_intent i lg = Inr lg' \<Longrightarrow> ledger_move lg lg'"
  unfolding abandon_intent_def abandon_effect_def
  by (auto split: option.splits if_splits intro: ledger_move.drop)

lemma effect_transition_moves:
  "transition_effect h i states tx md rcp now lg = Inr (lg', fin) \<Longrightarrow> set states \<subseteq> set open_states \<Longrightarrow> ledger_moves lg lg'"
  using transition_move by (cases fin) fastforce+

lemma dispatched_moves: "mark_dispatched h i now lg = Inr (lg', r) \<Longrightarrow> ledger_moves lg lg'"
  unfolding mark_dispatched_def
  by (auto simp: bindR_Inr_iff open_states_def split: option.splits if_splits dest!: effect_transition_moves)

lemma unknown_moves: "mark_unknown h i reason rcp now lg = Inr (lg', r) \<Longrightarrow> ledger_moves lg lg'"
  unfolding mark_unknown_def Let_def
  by (auto simp: bindR_Inr_iff split: option.splits if_splits dest!: effect_transition_moves)

lemma dispatch_phase_moves: "dispatch_phase h i p now lg = Inr lg' \<Longrightarrow> ledger_moves lg lg'"
  unfolding dispatch_phase_def
  by (auto simp: bindR_Inr_iff open_states_def split: option.splits if_splits dest!: effect_transition_moves dispatched_moves)

lemma complete_phase_moves: "complete_phase h i p now lg = Inr (lg', fin) \<Longrightarrow> ledger_moves lg lg'"
  unfolding complete_phase_def Let_def
  by (auto simp: open_states_def split: option.splits pyval.splits dest!: effect_transition_moves)

lemma insert_intent_Inr: "insert_intent h r lg = Inr lg' \<Longrightarrow> insert_effect h r lg = Inr lg'"
  unfolding insert_intent_def by (cases "insert_effect h r lg") (auto simp: bindR_Inr_iff split: option.splits)

lemma prepare_moves: "prepare_effect h es opid manifest newid now rq lg = Inr (lg', r) \<Longrightarrow> ledger_moves lg lg'"
  unfolding prepare_effect_def Let_def
  by (auto simp: bindR_Inr_iff dest!: insert_intent_Inr insert_move)

lemma record_moves: "record_effect h rq cl audit event intent newid now lg = Inr (lg', r) \<Longrightarrow> ledger_moves lg lg'"
  unfolding record_effect_def Let_def
  by (auto simp: bindR_Inr_iff split: option.splits if_splits dest!: insert_move finalize_move)

section \<open>What every move keeps\<close>

definition last_change :: "ledger \<Rightarrow> string \<Rightarrow> effect_change option" where
  "last_change lg i = List.find (\<lambda>t. et_effect t = i) (rev (lg_log lg))"

definition keys_unique :: "ledger \<Rightarrow> bool" where
  "keys_unique lg \<longleftrightarrow> (\<forall>r \<in> set (lg_rows lg). \<not> key_taken lg (ef_id r) (ef_pid r) (ef_key r))"

definition ledger_ok :: "ledger \<Rightarrow> bool" where
  "ledger_ok lg \<longleftrightarrow> distinct (map ef_id (lg_rows lg)) \<and> keys_unique lg
     \<and> lg_seq lg = int (length (lg_log lg)) \<and> map et_seq (lg_log lg) = map (\<lambda>k. int k + 1) [0..<length (lg_log lg)]
     \<and> (\<forall>r \<in> set (lg_rows lg). \<exists>t. last_change lg (ef_id r) = Some t \<and> et_state t = ef_state r \<and> et_tx t = ef_tx r)"

lemma last_change_log [simp]:
  "last_change (log_change i s t a lg) j = (if i = j
     then Some \<lparr>et_seq = lg_seq lg + 1, et_effect = i, et_state = s, et_tx = t, et_at = a\<rparr> else last_change lg j)"
  by (simp add: last_change_def log_change_def)

lemma last_change_rows [simp]: "last_change (lg\<lparr>lg_rows := rs\<rparr>) j = last_change lg j" "last_change (put_effect r lg) j = last_change lg j"
  by (simp_all add: last_change_def put_effect_def)

lemma log_rows [simp]: "lg_rows (log_change i s t a lg) = lg_rows lg" "lg_seq (log_change i s t a lg) = lg_seq lg + 1"
  "lg_log (log_change i s t a lg) = lg_log lg @ [\<lparr>et_seq = lg_seq lg + 1, et_effect = i, et_state = s, et_tx = t, et_at = a\<rparr>]"
  by (simp_all add: log_change_def)

lemma put_rows [simp]: "lg_rows (put_effect r lg) = map (\<lambda>x. if ef_id x = ef_id r then r else x) (lg_rows lg)"
  "lg_seq (put_effect r lg) = lg_seq lg" "lg_log (put_effect r lg) = lg_log lg"
  by (simp_all add: put_effect_def)

lemma key_taken_iff: "key_taken lg i pid k \<longleftrightarrow> k \<noteq> None \<and> (\<exists>r \<in> set (lg_rows lg). ef_id r \<noteq> i \<and> ef_pid r = pid \<and> ef_key r = k)"
  by (simp add: key_taken_def list_ex_iff)

lemma keys_add: "keys_unique lg \<Longrightarrow> \<not> key_taken lg (ef_id r) (ef_pid r) (ef_key r) \<Longrightarrow>
  keys_unique (lg\<lparr>lg_rows := lg_rows lg @ [r]\<rparr>)"
  by (auto simp: keys_unique_def key_taken_iff)

lemma keys_log [simp]: "keys_unique (log_change i s t a lg) = keys_unique lg"
  by (simp add: keys_unique_def key_taken_iff)

lemma keys_put:
  assumes "keys_unique lg" "get_effect lg (ef_id r) = Some c" "ef_pid r = ef_pid c"
    "ef_key r = None \<or> ef_key r = ef_key c \<or> \<not> key_taken lg (ef_id r) (ef_pid r) (ef_key r)"
  shows "keys_unique (put_effect r lg)"
proof -
  have c: "c \<in> set (lg_rows lg)" "ef_id c = ef_id r" using get_effectD [OF assms(2)] by simp_all
  have free: "\<not> key_taken lg (ef_id r) (ef_pid r) (ef_key r)" if "ef_key r \<noteq> None"
    using assms(1,3,4) c that by (auto simp: keys_unique_def)
  show ?thesis
    using assms(1) free unfolding keys_unique_def key_taken_iff by (auto split: if_splits)
qed

lemma keys_drop: "keys_unique lg \<Longrightarrow> keys_unique (lg\<lparr>lg_rows := filter P (lg_rows lg)\<rparr>)"
  by (auto simp: keys_unique_def key_taken_iff)

lemma put_ids: "map ef_id (map (\<lambda>x. if ef_id x = ef_id r then r else x) rs) = map ef_id rs"
  by (induction rs) auto

lemma distinct_filter_ids: "distinct (map ef_id rs) \<Longrightarrow> distinct (map ef_id (filter P rs))"
  by (simp add: distinct_map inj_on_def)

lemma ledger_move_ok: "ledger_move lg lg' \<Longrightarrow> ledger_ok lg \<Longrightarrow> ledger_ok lg'"
proof (induction rule: ledger_move.induct)
  case (add lg r t)
  then show ?case by (auto simp: ledger_ok_def get_effect_None keys_add)
next
  case (change lg r c t)
  then have "keys_unique (put_effect r lg)" by (intro keys_put) (auto simp: ledger_ok_def)
  moreover have "distinct (map ef_id (map (\<lambda>x. if ef_id x = ef_id r then r else x) (lg_rows lg)))"
    unfolding put_ids using change by (simp add: ledger_ok_def)
  ultimately show ?case using change by (auto simp: ledger_ok_def)
next
  case (drop c lg i)
  then show ?case by (auto simp: ledger_ok_def keys_drop distinct_filter_ids)
qed

lemma ledger_moves_ok: "ledger_moves lg lg' \<Longrightarrow> ledger_ok lg \<Longrightarrow> ledger_ok lg'"
  by (induction rule: rtranclp_induct) (auto intro: ledger_move_ok)

text \<open>A row that is not one of an earlier ledger has a later entry in the log.\<close>

definition accounted :: "ledger \<Rightarrow> ledger \<Rightarrow> bool" where
  "accounted lg0 lg \<longleftrightarrow> lg_seq lg0 \<le> lg_seq lg \<and> (\<forall>r \<in> set (lg_rows lg). r \<in> set (lg_rows lg0)
     \<or> (\<exists>t \<in> set (lg_log lg). et_effect t = ef_id r \<and> lg_seq lg0 < et_seq t))"

lemma move_accounted: "ledger_move lg lg' \<Longrightarrow> accounted lg0 lg \<Longrightarrow> accounted lg0 lg'"
  by (induction rule: ledger_move.induct) (auto simp: accounted_def)

lemma moves_accounted: "ledger_moves lg lg' \<Longrightarrow> accounted lg lg'"
proof (induction rule: rtranclp_induct)
  case base
  show ?case by (simp add: accounted_def)
next
  case (step lg1 lg2)
  then show ?case using move_accounted by blast
qed

lemma move_settled:
  assumes "ledger_move lg lg'" "ledger_ok lg" "r \<in> set (lg_rows lg)" "settled_row r"
  shows "r \<in> set (lg_rows lg')"
  using assms(1)
proof cases
  case (change r' c t)
  have c: "c \<in> set (lg_rows lg)" "ef_id c = ef_id r'" using get_effectD [OF change(2)] by simp_all
  have "ef_id r \<noteq> ef_id r'"
  proof
    assume "ef_id r = ef_id r'"
    then have "r = c" using c assms(2,3) by (auto simp: ledger_ok_def distinct_map inj_on_def)
    then show False using change(3) assms(4) by simp
  qed
  then have "r \<in> (\<lambda>x. if ef_id x = ef_id r' then r' else x) ` set (lg_rows lg)"
    using assms(3) by (intro image_eqI [of _ _ r]) simp_all
  then show ?thesis unfolding change(1) by simp
next
  case (drop c i)
  have c: "c \<in> set (lg_rows lg)" "ef_id c = i" using get_effectD [OF drop(3)] by simp_all
  have "ef_id r \<noteq> i"
  proof
    assume "ef_id r = i"
    then have "r = c" using c assms(2,3) by (auto simp: ledger_ok_def distinct_map inj_on_def)
    then show False using drop(2) assms(4) by (simp add: unobserved_def settled_row_def)
  qed
  then show ?thesis using assms(3) drop(1) by simp
qed (use assms(3) in simp)

lemma moves_settled:
  "ledger_moves lg lg' \<Longrightarrow> ledger_ok lg \<Longrightarrow> r \<in> set (lg_rows lg) \<Longrightarrow> settled_row r \<Longrightarrow> r \<in> set (lg_rows lg')"
proof (induction rule: rtranclp_induct)
  case (step lg1 lg2)
  then show ?case using move_settled ledger_moves_ok by blast
qed

section \<open>Settlements\<close>

lemma load_candidate_Inr:
  "load_candidate i expected run epoch w = Inr (Some c) \<Longrightarrow>
    get_effect (w_ledger w) i = Some c \<and> ef_state c = EffPending \<and> ef_tx c = expected"
  unfolding load_candidate_def by (auto simp: bindR_Inr_iff split: option.splits if_splits)

lemma check_request_Inr:
  "check_request i expected ps rcp now run epoch = Inr t \<Longrightarrow> t = settled_tx ps \<and> ps \<in> set provider_states
    \<and> (expected = TxPrepared \<longrightarrow> ps = ''not_started'') \<and> rcp \<noteq> []"
  unfolding check_request_def by (auto simp: bindR_Inr_iff)

lemma settle_effect_Inr:
  assumes "settle_effect h i expected ps md rcp audit now run epoch w = Inr (Some (w', s))"
  obtains c rids m rc cs a rel where "get_effect (w_ledger w) i = Some c" "ef_state c = EffPending" "ef_tx c = expected"
    "ps \<in> set provider_states" "expected = TxPrepared \<longrightarrow> ps = ''not_started''" "rcp \<noteq> []" "effect_reservations c = Inr rids"
    "ps = ''not_started'' \<longrightarrow> require_not_started c = Inr ()" "stored h rcp = Inr rc"
    "converge_uses (ps = ''not_started'') c now rids (w_caps w) = Inr cs"
    "release_envelopes c now (ps = ''not_started'') (w_acct w) = Inr (a, rel)"
    "w' = w\<lparr>w_ledger := log_change i EffFinalized (settled_tx ps) now
       (put_effect (settled_effect c ps (settled_tx ps) m rc audit now) (w_ledger w)), w_caps := cs, w_acct := a\<rparr>"
proof -
  obtain t cand where t: "check_request i expected ps rcp now run epoch = Inr t"
    and cand: "load_candidate i expected run epoch w = Inr cand"
    using assms unfolding settle_effect_def by (auto simp: bindR_Inr_iff)
  then obtain c where c: "cand = Some c" using assms unfolding settle_effect_def by (cases cand) (simp_all add: t)
  note T = check_request_Inr [OF t] and C = load_candidate_Inr [OF cand [unfolded c]]
  obtain rids m rc cs a rel where "effect_reservations c = Inr rids"
    "(if ps = ''not_started'' then require_not_started c else Inr ()) = Inr ()" "stored h md = Inr m" "stored h rcp = Inr rc"
    "converge_uses (ps = ''not_started'') c now rids (w_caps w) = Inr cs"
    "release_envelopes c now (ps = ''not_started'') (w_acct w) = Inr (a, rel)"
    "w' = w\<lparr>w_ledger := log_change i EffFinalized t now (put_effect (settled_effect c ps t m rc audit now) (w_ledger w)),
       w_caps := cs, w_acct := a\<rparr>"
    using assms unfolding settle_effect_def t cand c Let_def by (auto simp: bindR_Inr_iff)
  then show thesis using that T C by (simp split: if_splits)
qed

lemma settled_effect_fields [simp]:
  "ef_id (settled_effect c ps t m rc audit now) = ef_id c" "ef_pid (settled_effect c ps t m rc audit now) = ef_pid c"
  "ef_state (settled_effect c ps t m rc audit now) = EffFinalized" "ef_tx (settled_effect c ps t m rc audit now) = t"
  "ef_created (settled_effect c ps t m rc audit now) = ef_created c"
  "ef_key (settled_effect c ps t m rc audit now) = (if ps = ''not_started'' then None else ef_key c)"
  by (simp_all add: settled_effect_def)

lemma settle_move:
  assumes "settle_effect h i expected ps md rcp audit now run epoch w = Inr (Some (w', s))"
  shows "ledger_move (w_ledger w) (w_ledger w')"
  using assms
proof (rule settle_effect_Inr)
  fix c rids m rc cs a rel
  assume c: "get_effect (w_ledger w) i = Some c" "ef_state c = EffPending"
    and w': "w' = w\<lparr>w_ledger := log_change i EffFinalized (settled_tx ps) now
       (put_effect (settled_effect c ps (settled_tx ps) m rc audit now) (w_ledger w)), w_caps := cs, w_acct := a\<rparr>"
  have "ef_id c = i" "\<not> settled_row c" using get_effectD [OF c(1)] c(2) by (simp_all add: settled_row_def)
  then show ?thesis
    using ledger_move.change [of "w_ledger w" "settled_effect c ps (settled_tx ps) m rc audit now" c now] c(1) by (simp add: w')
qed

lemma settle_recovery_move:
  "settle_recovery h e ps rcp source audit now run epoch w = Inr (w', s) \<Longrightarrow> ledger_move (w_ledger w) (w_ledger w')"
  unfolding settle_recovery_def Let_def by (auto simp: bindR_Inr_iff split: option.splits dest: settle_move)

lemma unknown_in_moves: "unknown_in h i reason rcp now w = Inr w' \<Longrightarrow> ledger_moves (w_ledger w) (w_ledger w')"
  unfolding unknown_in_def by (auto simp: bindR_Inr_iff dest: unknown_moves)

lemma settle_reconciled_moves:
  "settle_reconciled h e ps rcp audit now w = Inr w' \<Longrightarrow> ledger_moves (w_ledger w) (w_ledger w')"
  unfolding settle_reconciled_def
  by (auto simp: bindR_Inr_iff split: pyval.splits list.splits dest!: settle_recovery_move unknown_in_moves)

lemma persist_answer_moves:
  "persist_answer h e answer audit now w = Inr w' \<Longrightarrow> ledger_moves (w_ledger w) (w_ledger w')"
  unfolding persist_answer_def Let_def
  by (auto simp: bindR_Inr_iff split: if_splits dest!: settle_reconciled_moves unknown_in_moves effect_transition_moves)

lemma reconcile_one_moves:
  "reconcile_one h provs e audit now w = Inr w' \<Longrightarrow> ledger_moves (w_ledger w) (w_ledger w')"
  unfolding reconcile_one_def
  by (auto split: option.splits sum.splits pyval.splits dest!: persist_answer_moves unknown_in_moves)

section \<open>Events\<close>

text \<open>Every operation that changes the ledger, on a world at some time.\<close>

datatype effect_event =
    EvPrepare effect_store "string option" "pydict option res" string effect_request
  | EvDispatch string provider_phase
  | EvComplete string provider_phase
  | EvUnknown string string "pydict option"
  | EvRecord effect_request classification "string option" "string option" "string option" string
  | EvAbandon string
  | EvReconcile "string \<Rightarrow> reconciler option" string string
  | EvReceipt "(effect_row \<Rightarrow> pydict \<Rightarrow> pyval res) option" string int string tx_state pydict string

definition on_ledger :: "(ledger \<times> 'a) res \<Rightarrow> effect_world \<Rightarrow> effect_world res" where
  "on_ledger r w = bindR r (\<lambda>(lg, _). Inr (w\<lparr>w_ledger := lg\<rparr>))"

fun apply_event :: "host \<Rightarrow> string \<Rightarrow> effect_event \<Rightarrow> effect_world \<Rightarrow> effect_world res" where
  "apply_event h now (EvPrepare es opid manifest i rq) w = on_ledger (prepare_effect h es opid manifest i now rq (w_ledger w)) w"
| "apply_event h now (EvDispatch i p) w = bindR (dispatch_phase h i p now (w_ledger w)) (\<lambda>lg. Inr (w\<lparr>w_ledger := lg\<rparr>))"
| "apply_event h now (EvComplete i p) w = on_ledger (complete_phase h i p now (w_ledger w)) w"
| "apply_event h now (EvUnknown i reason rcp) w = on_ledger (mark_unknown h i reason rcp now (w_ledger w)) w"
| "apply_event h now (EvRecord rq cl audit event intent i) w =
     on_ledger (record_effect h rq cl audit event intent i now (w_ledger w)) w"
| "apply_event h now (EvAbandon i) w = bindR (abandon_intent i (w_ledger w)) (\<lambda>lg. Inr (w\<lparr>w_ledger := lg\<rparr>))"
| "apply_event h now (EvReconcile provs i audit) w =
     (case get_effect (w_ledger w) i of
        Some e \<Rightarrow> if ef_state e = EffPending then reconcile_one h provs e audit now w else Inr w
      | None \<Rightarrow> Inr w)"
| "apply_event h now (EvReceipt verify run epoch i expected rcp audit) w =
     bindR (settle_from_receipt h verify run epoch i expected rcp audit now w) (\<lambda>(w', _). Inr w')"

inductive effect_step :: "effect_world \<Rightarrow> effect_world \<Rightarrow> bool" where
  "apply_event h now ev w = Inr w' \<Longrightarrow> effect_step w w'"

inductive_cases effect_stepE: "effect_step w w'"

lemma on_ledger_moves:
  assumes "on_ledger r w = Inr w'" "\<And>lg x. r = Inr (lg, x) \<Longrightarrow> ledger_moves (w_ledger w) lg"
  shows "ledger_moves (w_ledger w) (w_ledger w')"
  using assms unfolding on_ledger_def by (auto simp: bindR_Inr_iff)

lemma receipt_moves:
  "settle_from_receipt h verify run epoch i expected rcp audit now w = Inr (w', s) \<Longrightarrow> ledger_moves (w_ledger w) (w_ledger w')"
  unfolding settle_from_receipt_def
  by (auto simp: bindR_Inr_iff split: option.splits dest!: settle_recovery_move)

lemma event_moves: "apply_event h now ev w = Inr w' \<Longrightarrow> ledger_moves (w_ledger w) (w_ledger w')"
  by (cases ev)
    (auto simp: bindR_Inr_iff split: option.splits if_splits elim!: on_ledger_moves
      intro: prepare_moves complete_phase_moves unknown_moves record_moves reconcile_one_moves
      dest: receipt_moves dispatch_phase_moves abandon_move)

lemma steps_moves: "effect_step\<^sup>*\<^sup>* w w' \<Longrightarrow> ledger_moves (w_ledger w) (w_ledger w')"
proof (induction rule: rtranclp_induct)
  case (step w1 w2)
  then show ?case by (meson effect_stepE event_moves rtranclp_trans)
qed simp

definition empty_ledger :: ledger where
  "empty_ledger = \<lparr>lg_rows = [], lg_seq = 0, lg_log = []\<rparr>"

lemma empty_ledger_ok: "ledger_ok empty_ledger"
  by (simp add: ledger_ok_def keys_unique_def empty_ledger_def)

lemma reached_ledger_ok: "effect_step\<^sup>*\<^sup>* w w' \<Longrightarrow> w_ledger w = empty_ledger \<Longrightarrow> ledger_ok (w_ledger w')"
  using steps_moves ledger_moves_ok empty_ledger_ok by metis

section \<open>A sample run\<close>

definition sample_world :: effect_world where
  "sample_world = \<lparr>w_ledger = empty_ledger, w_caps = \<lparr>st_caps = [], st_res = []\<rparr>,
     w_acct = \<lparr>ac_table = \<lparr>pt_rows = [], pt_counters = [], pt_runs = [], pt_pubs = [], pt_cleanups = []\<rparr>,
       ac_rows = [], ac_children = [], ac_usage = []\<rparr>, w_links = [], w_ops = []\<rparr>"

definition sample_request :: effect_request where
  "sample_request = \<lparr>rq_pid = ''p'', rq_provider = ''git'', rq_operation = ''push'', rq_target = None, rq_mutation = True,
     rq_flow = False, rq_meta = [], rq_key = None, rq_args = None\<rparr>"

definition sample_class :: classification where
  "sample_class = \<lparr>cl_class = Irreversible, cl_status = NotSupported, cl_mutation = True, cl_flow = False, cl_meta = []\<rparr>"

definition sample_event :: "string \<Rightarrow> effect_event" where
  "sample_event i = EvRecord sample_request sample_class (Some ''a'') (Some ''v'') None i"

lemma sample_run:
  obtains w1 w2 where "effect_step sample_world w1" "effect_step w1 w2"
    "map (\<lambda>r. (ef_id r, ef_state r, ef_tx r)) (lg_rows (w_ledger w1)) = [(''x'', EffFinalized, TxCommitted)]"
    "lg_seq (w_ledger w1) = 1" "map ef_id (lg_rows (w_ledger w2)) = [''x'', ''y'']"
proof -
  have "case apply_event sample_hosting ''t1'' (sample_event ''x'') sample_world of
      Inl _ \<Rightarrow> False
    | Inr w1 \<Rightarrow> map (\<lambda>r. (ef_id r, ef_state r, ef_tx r)) (lg_rows (w_ledger w1)) = [(''x'', EffFinalized, TxCommitted)]
        \<and> lg_seq (w_ledger w1) = 1
        \<and> (case apply_event sample_hosting ''t2'' (sample_event ''y'') w1 of
            Inl _ \<Rightarrow> False | Inr w2 \<Rightarrow> map ef_id (lg_rows (w_ledger w2)) = [''x'', ''y''])"
    by code_simp
  then obtain w1 w2 where r: "apply_event sample_hosting ''t1'' (sample_event ''x'') sample_world = Inr w1"
      "apply_event sample_hosting ''t2'' (sample_event ''y'') w1 = Inr w2"
    and f: "map (\<lambda>r. (ef_id r, ef_state r, ef_tx r)) (lg_rows (w_ledger w1)) = [(''x'', EffFinalized, TxCommitted)]"
      "lg_seq (w_ledger w1) = 1" "map ef_id (lg_rows (w_ledger w2)) = [''x'', ''y'']"
    by (auto split: sum.splits)
  show thesis by (rule that [OF effect_step.intros [OF r(1)] effect_step.intros [OF r(2)] f])
qed

lemma sample_empty: "w_ledger sample_world = empty_ledger"
  by (simp add: sample_world_def)

section \<open>Properties\<close>

text \<open>
  C33. In every reachable ledger the changes are numbered from one without a gap, every effect is recorded in the
  log with the state it is in, no two rows share an identifier, and no two effects of a process share an
  idempotency key.
\<close>

theorem ledger_tracks_effects:
  assumes "effect_step\<^sup>*\<^sup>* w w'" "w_ledger w = empty_ledger"
  shows "map et_seq (lg_log (w_ledger w')) = map (\<lambda>k. int k + 1) [0..<nat (lg_seq (w_ledger w'))]
    \<and> distinct (map ef_id (lg_rows (w_ledger w')))
    \<and> (\<forall>r \<in> set (lg_rows (w_ledger w')). \<exists>t. List.find (\<lambda>t. et_effect t = ef_id r) (rev (lg_log (w_ledger w'))) = Some t
        \<and> et_state t = ef_state r \<and> et_tx t = ef_tx r)
    \<and> (\<forall>r \<in> set (lg_rows (w_ledger w')). \<forall>q \<in> set (lg_rows (w_ledger w')).
        ef_pid r = ef_pid q \<and> ef_key r = ef_key q \<and> ef_key r \<noteq> None \<longrightarrow> r = q)"
proof -
  have ok: "ledger_ok (w_ledger w')" by (rule reached_ledger_ok [OF assms])
  have "r = q" if "r \<in> set (lg_rows (w_ledger w'))" "q \<in> set (lg_rows (w_ledger w'))"
    "ef_pid r = ef_pid q" "ef_key r = ef_key q" "ef_key q \<noteq> None" for r q
  proof -
    have "ef_id r = ef_id q" using ok that by (auto simp: ledger_ok_def keys_unique_def key_taken_iff)
    then show ?thesis using ok that by (auto simp: ledger_ok_def distinct_map inj_on_def)
  qed
  then show ?thesis using ok unfolding ledger_ok_def last_change_def by (metis nat_int)
qed

theorem ledger_tracks_effects_witness:
  "\<exists>w1 w2. effect_step\<^sup>*\<^sup>* sample_world w2 \<and> effect_step w1 w2 \<and> map ef_id (lg_rows (w_ledger w2)) = [''x'', ''y'']
     \<and> distinct (map ef_id (lg_rows (w_ledger w2)))"
proof -
  obtain w1 w2 where s0: "effect_step sample_world w1" and s: "effect_step w1 w2"
    and i: "map ef_id (lg_rows (w_ledger w2)) = [''x'', ''y'']"
    by (rule sample_run)
  have r: "effect_step\<^sup>*\<^sup>* sample_world w2" using s0 s by (meson rtranclp.rtrancl_into_rtrancl rtranclp.rtrancl_refl)
  show ?thesis
    by (rule exI [of _ w1], rule exI [of _ w2]) (use ledger_tracks_effects [OF r sample_empty] r s i in \<open>simp only: simp_thms\<close>)
qed





end
