(* ===== verification/EffectProps.thy ===== *)
theory EffectProps
  imports EffectMoves
begin

text \<open>
  What settlement and recovery of external effects guarantee: a settlement acts on the capabilities as the lease
  service does, reconciliation ends and believes only receipts, and what startup leaves behind.
\<close>

section \<open>Settlement as lease operations\<close>

lemma reserved_now_get: "get_reservation cs rid = Some r \<Longrightarrow> ur_status r = Reserved \<Longrightarrow> reserved_now cs rid = Some r"
proof -
  have "List.find (\<lambda>r. ur_id r = rid) xs = Some r \<Longrightarrow> ur_status r = Reserved \<Longrightarrow>
      List.find (\<lambda>r. ur_id r = rid \<and> ur_status r = Reserved) xs = Some r" for xs
    by (induction xs) (auto split: if_splits)
  then show "get_reservation cs rid = Some r \<Longrightarrow> ur_status r = Reserved \<Longrightarrow> reserved_now cs rid = Some r"
    by (simp add: get_reservation_def reserved_now_def)
qed

definition lease_settled :: "bool \<Rightarrow> string \<Rightarrow> lease_op" where
  "lease_settled not_started rid = (if not_started then Restore rid else Commit rid)"

lemma restore_use_Inr:
  assumes "restore_effect_use e now rid cs = Inr cs'"
  obtains r c where "get_reservation cs rid = Some r" "ur_status r = Reserved" "1 \<le> ur_count r" "get_cap cs (ur_cap r) = Some c"
    "cap_uses_remaining c \<noteq> None" "cap_status c \<in> {Active, Revoked}"
    "cs' = CapStore.settle rid Restored now (map_cap (ur_cap r) (give_back (ur_count r)) cs)"
proof -
  obtain r where r: "get_reservation cs rid = Some r"
    using assms unfolding restore_effect_use_def by (cases "get_reservation cs rid") (auto simp: bindR_Inr_iff)
  obtain c where c: "get_cap cs (ur_cap r) = Some c"
    using assms r unfolding restore_effect_use_def by (cases "get_cap cs (ur_cap r)") (auto simp: bindR_Inr_iff)
  show thesis
    using assms that [OF r _ _ c] unfolding restore_effect_use_def by (auto simp: r c bindR_Inr_iff split: if_splits prod.splits)
qed

lemma restore_use_lease:
  assumes "restore_effect_use e now rid cs = Inr cs'"
  shows "cs' = lease_apply h mr now (Restore rid) cs \<and> (\<exists>r. get_reservation cs rid = Some r \<and> ur_status r = Reserved)"
  using assms
proof (rule restore_use_Inr)
  fix r c
  assume r: "get_reservation cs rid = Some r" "ur_status r = Reserved" "1 \<le> ur_count r" "get_cap cs (ur_cap r) = Some c"
    "cap_uses_remaining c \<noteq> None" "cap_status c \<in> {Active, Revoked}"
    and cs': "cs' = CapStore.settle rid Restored now (map_cap (ur_cap r) (give_back (ur_count r)) cs)"
  have "restore_reservation rid now cs = Inr (cs', Some (give_back (ur_count r) c))"
    unfolding restore_reservation_def reserved_now_get [OF r(1,2)] using r by (simp add: cs')
  then show ?thesis using r by (simp add: lease_restore_def keep_def)
qed

lemma commit_use_lease:
  "commit_effect_use e now rid cs = Inr cs' \<Longrightarrow> cs' = lease_apply h mr now (Commit rid) cs
    \<and> (\<exists>r. get_reservation cs rid = Some r \<and> ur_status r \<in> {Reserved, Committed})"
  unfolding commit_effect_use_def
  by (auto simp: bindR_Inr_iff lease_commit_def commit_reservation_def split: option.splits)

lemma converge_lease:
  "converge_uses ns e now rids cs = Inr cs' \<Longrightarrow> cs' = fold (\<lambda>rid. lease_apply h mr now (lease_settled ns rid)) rids cs"
proof (induction rids arbitrary: cs)
  case (Cons rid rids)
  obtain cs1 where one: "(if ns then restore_effect_use e now rid cs else commit_effect_use e now rid cs) = Inr cs1"
    and rest: "converge_uses ns e now rids cs1 = Inr cs'"
    using Cons.prems by (auto simp: bindR_Inr_iff)
  have "cs1 = lease_apply h mr now (lease_settled ns rid) cs"
    using one restore_use_lease [of e now rid cs cs1] commit_use_lease [of e now rid cs cs1]
    by (auto simp: lease_settled_def split: if_splits)
  then show ?case using Cons.IH [OF rest] by simp
qed simp

text \<open>The status that a settlement leaves behind.\<close>

lemma get_settle: "get_reservation (CapStore.settle rid s now cs) k = map_option (\<lambda>r. if ur_id r = rid \<and> ur_status r = Reserved
    then r\<lparr>ur_status := s, ur_updated := now\<rparr> else r) (get_reservation cs k)"
proof -
  have "List.find (\<lambda>r. ur_id r = k) (map (\<lambda>r. if ur_id r = rid \<and> ur_status r = Reserved
        then r\<lparr>ur_status := s, ur_updated := now\<rparr> else r) xs)
     = map_option (\<lambda>r. if ur_id r = rid \<and> ur_status r = Reserved then r\<lparr>ur_status := s, ur_updated := now\<rparr> else r)
        (List.find (\<lambda>r. ur_id r = k) xs)" for xs
    by (induction xs) auto
  then show ?thesis by (simp add: get_reservation_def CapStore.settle_def map_res_def)
qed

lemma get_reservation_map_cap [simp]: "get_reservation (map_cap i f cs) k = get_reservation cs k"
  by (simp add: get_reservation_def map_cap_def)

lemma reservation_id: "get_reservation cs k = Some r \<Longrightarrow> ur_id r = k"
  by (auto simp: get_reservation_def dest: find_SomeD)

lemma restore_use_status:
  assumes "restore_effect_use e now rid cs = Inr cs'"
  shows "map_option ur_status (get_reservation cs' k) = (if k = rid then Some Restored else map_option ur_status (get_reservation cs k))"
proof -
  obtain r c where "get_reservation cs rid = Some r" "ur_status r = Reserved"
    "cs' = CapStore.settle rid Restored now (map_cap (ur_cap r) (give_back (ur_count r)) cs)"
    using restore_use_Inr [OF assms] by metis
  then show ?thesis by (cases "get_reservation cs k") (auto simp: get_settle dest: reservation_id)
qed

lemma commit_use_status:
  assumes "commit_effect_use e now rid cs = Inr cs'"
  shows "map_option ur_status (get_reservation cs' k) = (if k = rid then Some Committed else map_option ur_status (get_reservation cs k))"
proof -
  obtain r where "get_reservation cs rid = Some r" "ur_status r = Reserved \<or> ur_status r = Committed"
    "cs' = CapStore.settle rid Committed now cs"
    using assms unfolding commit_effect_use_def by (auto simp: bindR_Inr_iff split: option.splits if_splits)
  then show ?thesis by (cases "get_reservation cs k") (auto simp: get_settle dest: reservation_id)
qed

lemma converge_status:
  "converge_uses ns e now rids cs = Inr cs' \<Longrightarrow> map_option ur_status (get_reservation cs' k)
    = (if k \<in> set rids then Some (if ns then Restored else Committed) else map_option ur_status (get_reservation cs k))"
proof (induction rids arbitrary: cs)
  case (Cons rid rids)
  obtain cs1 where one: "(if ns then restore_effect_use e now rid cs else commit_effect_use e now rid cs) = Inr cs1"
    and rest: "converge_uses ns e now rids cs1 = Inr cs'"
    using Cons.prems by (auto simp: bindR_Inr_iff)
  have "map_option ur_status (get_reservation cs1 k)
      = (if k = rid then Some (if ns then Restored else Committed) else map_option ur_status (get_reservation cs k))"
    using one restore_use_status [of e now rid cs cs1 k] commit_use_status [of e now rid cs cs1 k] by (cases ns) simp_all
  then show ?case using Cons.IH [OF rest] by (cases "k = rid"; cases "k \<in> set rids") (simp_all only: list.set insert_iff if_True if_False simp_thms)
qed simp

text \<open>A reservation that is neither live nor committed blocks every settlement.\<close>

lemma converge_blocked:
  assumes "rid \<in> set rids" "\<And>r. get_reservation cs rid = Some r \<Longrightarrow> ur_status r \<notin> {Reserved, Committed}" "distinct rids"
  shows "\<exists>x. converge_uses ns e now rids cs = Inl x"
  using assms
proof (induction rids arbitrary: cs)
  case (Cons k rids)
  show ?case
  proof (cases "if ns then restore_effect_use e now k cs else commit_effect_use e now k cs")
    case (Inr cs1)
    have st: "map_option ur_status (get_reservation cs1 j)
        = (if j = k then Some (if ns then Restored else Committed) else map_option ur_status (get_reservation cs j))" for j
      using Inr restore_use_status [of e now k cs cs1 j] commit_use_status [of e now k cs cs1 j] by (cases ns) simp_all
    have "k \<noteq> rid"
      using Inr Cons.prems(2) restore_use_lease [of e now k cs cs1] commit_use_lease [of e now k cs cs1]
      by (cases ns) fastforce+
    then have same: "map_option ur_status (get_reservation cs1 rid) = map_option ur_status (get_reservation cs rid)" and "rid \<in> set rids"
      using Cons.prems(1) st [of rid] by auto
    moreover have "ur_status r \<notin> {Reserved, Committed}" if "get_reservation cs1 rid = Some r" for r
    proof -
      have "map_option ur_status (get_reservation cs rid) = Some (ur_status r)" using same that by simp
      then show ?thesis using Cons.prems(2) by auto
    qed
    ultimately obtain x where "converge_uses ns e now rids cs1 = Inl x" using Cons.IH Cons.prems(3) by (metis distinct.simps(2))
    then show ?thesis using Inr by (cases ns) simp_all
  qed (cases ns; simp)
qed simp

section \<open>Envelopes\<close>

lemma settle_row_usage: "ac_usage (settle_row now rid s u a) = map (\<lambda>r. if uv_id r = rid \<and> uv_status r = UsageActive
    then r\<lparr>uv_status := s, uv_settled := Some u, uv_updated := now\<rparr> else r) (ac_usage a)"
  by (simp add: settle_row_def)

lemma fold_settle_usage:
  "ac_usage (fold (\<lambda>u. settle_row now (uv_id u) UsageReleased no_usage) us a)
    = map (\<lambda>r. if uv_id r \<in> uv_id ` set us \<and> uv_status r = UsageActive
        then r\<lparr>uv_status := UsageReleased, uv_settled := Some no_usage, uv_updated := now\<rparr> else r) (ac_usage a)"
proof (induction us arbitrary: a)
  case (Cons u us)
  then show ?case by (simp add: settle_row_usage Cons.IH) (auto simp: comp_def)
qed (simp add: map_idI)

lemma release_envelopes_Inr:
  assumes "release_envelopes e now rel a = Inr (a', ids)" "distinct (map uv_id (ac_usage a))"
  shows "ac_usage a' = map (\<lambda>r. if rel \<and> uv_by r = ef_id e
      then r\<lparr>uv_status := UsageReleased, uv_settled := Some no_usage, uv_updated := now\<rparr> else r) (ac_usage a)"
proof (cases rel)
  case True
  let ?us = "effect_envelopes e a"
  have us: "set ?us = {u \<in> set (ac_usage a). uv_by u = ef_id e}" by (simp add: effect_envelopes_def)
  have act: "list_all (\<lambda>u. uv_status u = UsageActive) ?us"
    and a': "a' = fold (\<lambda>u. settle_row now (uv_id u) UsageReleased no_usage) ?us a"
    using assms(1) True unfolding release_envelopes_def Let_def by (auto simp: bindR_Inr_iff)
  have "uv_id r \<in> uv_id ` set ?us \<longleftrightarrow> uv_by r = ef_id e" if "r \<in> set (ac_usage a)" for r
    using assms(2) that unfolding us by (auto simp: distinct_map inj_on_def)
  moreover have "uv_status r = UsageActive" if "r \<in> set (ac_usage a)" "uv_by r = ef_id e" for r
    using act that us by (simp add: list_all_iff)
  ultimately show ?thesis unfolding a' fold_settle_usage using True by auto
next
  case False
  then show ?thesis using assms(1) unfolding release_envelopes_def Let_def by (auto simp: bindR_Inr_iff map_idI)
qed

section \<open>What reconciliation makes of a row\<close>

definition becomes :: "effect_row \<Rightarrow> (effect_row \<Rightarrow> bool) \<Rightarrow> ledger \<Rightarrow> ledger \<Rightarrow> bool" where
  "becomes e P lg lg' \<longleftrightarrow> (\<exists>q. lg_rows lg' = map (\<lambda>x. if ef_id x = ef_id e then q else x) (lg_rows lg)
     \<and> ef_id q = ef_id e \<and> ef_created q = ef_created e \<and> P q)"

lemma becomes_mono: "becomes e P lg lg' \<Longrightarrow> (\<And>q. P q \<Longrightarrow> Q q) \<Longrightarrow> becomes e Q lg lg'"
  unfolding becomes_def by blast

lemma get_effect_in:
  assumes "distinct (map ef_id (lg_rows lg))" "e \<in> set (lg_rows lg)"
  shows "get_effect lg (ef_id e) = Some e"
proof (cases "get_effect lg (ef_id e)")
  case None
  then show ?thesis using assms(2) by (simp add: get_effect_None)
next
  case (Some c)
  then show ?thesis using get_effectD [OF Some] assms by (auto simp: distinct_map inj_on_def)
qed

lemma becomes_same:
  assumes "distinct (map ef_id (lg_rows lg))" "e \<in> set (lg_rows lg)" "P e"
  shows "becomes e P lg lg"
proof -
  have "(if ef_id x = ef_id e then e else x) = x" if "x \<in> set (lg_rows lg)" for x
    using assms(1,2) that by (auto simp: distinct_map inj_on_def)
  then have "map (\<lambda>x. if ef_id x = ef_id e then e else x) (lg_rows lg) = lg_rows lg" by (simp add: map_idI)
  then show ?thesis unfolding becomes_def using assms(3) by (intro exI [of _ e]) simp
qed

definition unknown_pending :: "effect_row \<Rightarrow> bool" where
  "unknown_pending q \<longleftrightarrow> ef_state q = EffPending \<and> ef_tx q = TxUnknown"

text \<open>One pending effect of a ledger.\<close>

definition pending_in :: "effect_row \<Rightarrow> ledger \<Rightarrow> bool" where
  "pending_in e lg \<longleftrightarrow> distinct (map ef_id (lg_rows lg)) \<and> e \<in> set (lg_rows lg) \<and> ef_state e = EffPending"

lemma transition_becomes:
  assumes "transition_effect h (ef_id e) states TxUnknown md rcp now lg = Inr (lg', True)" "pending_in e lg"
  shows "becomes e unknown_pending lg lg'"
  using assms(1)
proof (rule transition_Inr)
  fix c m rc
  assume c: "get_effect lg (ef_id e) = Some c" and lg': "lg' = log_change (ef_id e) (ef_state c) TxUnknown now
      (put_effect (c\<lparr>ef_tx := TxUnknown, ef_meta := m, ef_receipt := rc, ef_updated := Some now\<rparr>) lg)"
  have "c = e" using c get_effect_in [of lg e] assms(2) by (simp add: pending_in_def)
  then show ?thesis unfolding becomes_def lg' using assms(2)
    by (intro exI [of _ "c\<lparr>ef_tx := TxUnknown, ef_meta := m, ef_receipt := rc, ef_updated := Some now\<rparr>"])
      (simp add: unknown_pending_def pending_in_def)
qed

lemma mark_unknown_becomes:
  assumes "mark_unknown h (ef_id e) reason rcp now lg = Inr (lg', r)" "pending_in e lg"
  shows "becomes e unknown_pending lg lg'"
proof -
  have e: "get_effect lg (ef_id e) = Some e" "distinct (map ef_id (lg_rows lg))" "e \<in> set (lg_rows lg)" "ef_state e = EffPending"
    using assms(2) get_effect_in by (simp_all add: pending_in_def)
  from assms(1) consider "lg' = lg" "ef_tx e = TxUnknown"
    | md rc where "transition_effect h (ef_id e) open_states TxUnknown md rc now lg = Inr (lg', True)"
    unfolding mark_unknown_def e(1) Let_def by (auto simp: bindR_Inr_iff split: if_splits)
  then show ?thesis
  proof cases
    case 1
    then show ?thesis using becomes_same e by (simp add: unknown_pending_def)
  next
    case 2
    then show ?thesis using transition_becomes assms(2) by blast
  qed
qed

lemma unknown_in_becomes:
  "unknown_in h (ef_id e) reason rcp now w = Inr w' \<Longrightarrow> pending_in e (w_ledger w) \<Longrightarrow>
    becomes e unknown_pending (w_ledger w) (w_ledger w')"
  unfolding unknown_in_def by (auto simp: bindR_Inr_iff dest: mark_unknown_becomes)

definition settled_as :: "string \<Rightarrow> effect_row \<Rightarrow> bool" where
  "settled_as ps q \<longleftrightarrow> ef_state q = EffFinalized \<and> ef_tx q = settled_tx ps"

lemma settle_becomes:
  assumes "settle_effect h (ef_id e) (ef_tx e) ps md rcp audit now run epoch w = Inr (Some (w', s))" "pending_in e (w_ledger w)"
  shows "becomes e (settled_as ps) (w_ledger w) (w_ledger w')"
  using assms(1)
proof (rule settle_effect_Inr)
  fix c rids m rc cs a rel
  assume c: "get_effect (w_ledger w) (ef_id e) = Some c"
    and w': "w' = w\<lparr>w_ledger := log_change (ef_id e) EffFinalized (settled_tx ps) now
       (put_effect (settled_effect c ps (settled_tx ps) m rc audit now) (w_ledger w)), w_caps := cs, w_acct := a\<rparr>"
  have "c = e" using c get_effect_in [of "w_ledger w" e] assms(2) by (simp add: pending_in_def)
  then show ?thesis unfolding becomes_def w'
    by (intro exI [of _ "settled_effect c ps (settled_tx ps) m rc audit now"]) (simp add: settled_as_def)
qed

lemma settle_recovery_becomes:
  assumes "settle_recovery h e ps rcp source audit now run epoch w = Inr (w', s)" "pending_in e (w_ledger w)"
  shows "becomes e (settled_as ps) (w_ledger w) (w_ledger w')"
  using assms(1) unfolding settle_recovery_def Let_def
  by (auto simp: bindR_Inr_iff split: option.splits intro: settle_becomes [OF _ assms(2)])

text \<open>The provider answered with a state and a receipt.\<close>

definition certified :: "host \<Rightarrow> (string \<Rightarrow> reconciler option) \<Rightarrow> effect_row \<Rightarrow> string \<Rightarrow> bool" where
  "certified h provs e ps \<longleftrightarrow> (\<exists>f d rc. provs (ef_provider e) = Some f \<and> f e = Inr (VDict d)
     \<and> dget d ''provider_receipt'' = VDict rc \<and> rc \<noteq> [] \<and> reconciliation_state h (dget d ''state'') (VDict rc) = ps
     \<and> (ef_tx e = TxPrepared \<longrightarrow> ps = ''not_started''))"

lemma settle_reconciled_becomes:
  assumes "settle_reconciled h e ps rcp audit now w = Inr w'" "pending_in e (w_ledger w)"
  shows "becomes e unknown_pending (w_ledger w) (w_ledger w')
    \<or> (\<exists>rc. rcp = VDict rc \<and> rc \<noteq> [] \<and> becomes e (settled_as ps) (w_ledger w) (w_ledger w'))"
proof (cases "\<exists>p d. rcp = VDict (p # d)")
  case True
  then show ?thesis
    using assms unfolding settle_reconciled_def by (auto simp: bindR_Inr_iff dest: settle_recovery_becomes)
next
  case False
  then have "unknown_in h (ef_id e) ''provider_terminal_state_without_authoritative_receipt'' None now w = Inr w'"
    using assms(1) unfolding settle_reconciled_def by (auto split: pyval.splits list.splits)
  then show ?thesis using unknown_in_becomes assms(2) by blast
qed

lemma persist_answer_becomes:
  assumes "persist_answer h e d audit now w = Inr w'" "pending_in e (w_ledger w)"
    "provs (ef_provider e) = Some f" "f e = Inr (VDict d)"
  shows "becomes e unknown_pending (w_ledger w) (w_ledger w')
    \<or> (\<exists>ps \<in> set provider_states. certified h provs e ps \<and> becomes e (settled_as ps) (w_ledger w) (w_ledger w'))"
proof -
  let ?v = "dget d ''provider_receipt''"
  let ?s = "reconciliation_state h (dget d ''state'') ?v"
  define st where "st = (if ?s \<in> set provider_states then ?s else ''unknown'')"
  define md where "md = dmerge (ef_meta e) [(''reconciled'', VBool True), (''transaction_state'', VStr st), (''outcome'', VStr st)]"
  define rc where "rc = (case receipt_dict ?v of Some d \<Rightarrow> d | None \<Rightarrow> [])"
  have run: "persist_answer h e d audit now w =
      (if ef_tx e = TxPrepared \<and> st \<notin> {''not_started'', ''unknown''} then
         unknown_in h (ef_id e) ''prepared_effect_requires_certified_not_started'' (receipt_dict ?v) now w
       else if st \<noteq> ''unknown'' then settle_reconciled h e st ?v audit now w
       else if ef_tx e = TxUnknown \<and> py_eq (VDict (ef_meta e)) (VDict md) \<and> py_eq (VDict (ef_receipt e)) (VDict rc) then Inr w
       else bindR (transition_effect h (ef_id e) open_states TxUnknown (Some md) (Some rc) now (w_ledger w)) (\<lambda>(lg, fin).
         if fin then Inr (w\<lparr>w_ledger := lg\<rparr>)
         else Inl (ValidationError (''external effect reconciliation raced: '' @ ef_id e))))"
    unfolding persist_answer_def Let_def st_def md_def rc_def by (rule refl)
  have "(\<exists>reason rc. unknown_in h (ef_id e) reason rc now w = Inr w')
    \<or> (settle_reconciled h e st ?v audit now w = Inr w' \<and> st \<noteq> ''unknown'' \<and> (ef_tx e = TxPrepared \<longrightarrow> st = ''not_started''))
    \<or> (w' = w \<and> ef_tx e = TxUnknown)
    \<or> (\<exists>lg. transition_effect h (ef_id e) open_states TxUnknown (Some md) (Some rc) now (w_ledger w) = Inr (lg, True)
        \<and> w' = w\<lparr>w_ledger := lg\<rparr>)"
    using assms(1) unfolding run by (auto simp: bindR_Inr_iff split: if_splits)
  then consider (unknown) reason rc where "unknown_in h (ef_id e) reason rc now w = Inr w'"
    | (settle) "settle_reconciled h e st ?v audit now w = Inr w'" "st \<noteq> ''unknown''" "ef_tx e = TxPrepared \<longrightarrow> st = ''not_started''"
    | (same) "w' = w" "ef_tx e = TxUnknown"
    | (move) lg where "transition_effect h (ef_id e) open_states TxUnknown (Some md) (Some rc) now (w_ledger w) = Inr (lg, True)"
        "w' = w\<lparr>w_ledger := lg\<rparr>"
    by blast
  then show ?thesis
  proof cases
    case unknown
    then show ?thesis using unknown_in_becomes assms(2) by blast
  next
    case settle
    have ps: "?s \<in> set provider_states" "st = ?s" using settle(2) by (auto simp: st_def split: if_splits)
    have "certified h provs e ?s" if "?v = VDict rc" "rc \<noteq> []" for rc
      unfolding certified_def using assms(3,4) that settle(3) ps by auto
    then show ?thesis using settle_reconciled_becomes [OF settle(1) assms(2)] ps by auto
  next
    case same
    then show ?thesis using becomes_same assms(2) by (simp add: pending_in_def unknown_pending_def)
  next
    case move
    then show ?thesis using transition_becomes assms(2) by auto
  qed
qed

lemma reconcile_one_becomes:
  assumes "reconcile_one h provs e audit now w = Inr w'" "pending_in e (w_ledger w)"
  shows "becomes e unknown_pending (w_ledger w) (w_ledger w')
    \<or> (\<exists>ps \<in> set provider_states. certified h provs e ps \<and> becomes e (settled_as ps) (w_ledger w) (w_ledger w'))"
proof -
  consider (unknown) reason where "unknown_in h (ef_id e) reason None now w = Inr w'"
    | (answer) f d where "provs (ef_provider e) = Some f" "f e = Inr (VDict d)" "persist_answer h e d audit now w = Inr w'"
    using assms(1) unfolding reconcile_one_def by (auto split: option.splits sum.splits pyval.splits)
  then show ?thesis
  proof cases
    case unknown
    then show ?thesis using unknown_in_becomes assms(2) by blast
  next
    case answer
    then show ?thesis using persist_answer_becomes assms(2) by blast
  qed
qed

end
