(* ===== verification/EffectLoops.thy ===== *)
theory EffectLoops
  imports EffectProps AcctProps
begin

text \<open>
  The recovery loops over pending effects. The locale \<open>effect_loop\<close> is the contract between the paging of
  \<open>iter_external_effect_recovery\<close> and the body of a loop: the body replaces the row it is given by one with the
  same key that it has handled, or removes it. Its lemmas bound the pages and show that every eligible row is
  handled; the reconciliation and the recovery of prepared operations keep the contract.
\<close>

section \<open>The contract of a loop\<close>

definition row_step ::
  "tx_state list \<Rightarrow> (effect_row \<Rightarrow> bool) \<Rightarrow> (effect_row \<Rightarrow> bool) \<Rightarrow> effect_row \<Rightarrow> effect_row list \<Rightarrow> effect_row list \<Rightarrow> bool" where
  "row_step txs good handled e rs rs' \<longleftrightarrow>
     (\<exists>q. rs' = map (\<lambda>x. if ef_id x = ef_id e then q else x) rs \<and> effect_key q = effect_key e \<and> good q \<and> (eligible txs q \<longrightarrow> handled q))
     \<or> rs' = filter (\<lambda>x. ef_id x \<noteq> ef_id e) rs"

lemma key_id: "effect_key r = effect_key q \<Longrightarrow> ef_id r = ef_id q"
  by (simp add: effect_key_def)

lemma row_step_rows:
  assumes "row_step txs good handled e rs rs'" "distinct (map ef_id rs)" "e \<in> set rs"
  shows "distinct (map ef_id rs')"
    "\<forall>r \<in> set rs. good r \<Longrightarrow> \<forall>r \<in> set rs'. good r"
    "\<And>r. r \<in> set rs' \<Longrightarrow> (r \<in> set rs \<and> ef_id r \<noteq> ef_id e) \<or> (effect_key r = effect_key e \<and> (eligible txs r \<longrightarrow> handled r))"
    "\<And>r. r \<in> set rs \<Longrightarrow> ef_id r \<noteq> ef_id e \<Longrightarrow> r \<in> set rs'"
    "\<And>P. length (filter (\<lambda>r. P (effect_key r)) rs') \<le> length (filter (\<lambda>r. P (effect_key r)) rs)"
proof -
  have one: "x = e" if "x \<in> set rs" "ef_id x = ef_id e" for x
    using assms(2,3) that by (auto simp: distinct_map inj_on_def)
  consider q where "rs' = map (\<lambda>x. if ef_id x = ef_id e then q else x) rs" "effect_key q = effect_key e" "eligible txs q \<longrightarrow> handled q" "good q"
    | "rs' = filter (\<lambda>x. ef_id x \<noteq> ef_id e) rs"
    using assms(1) unfolding row_step_def by blast
  then have "distinct (map ef_id rs') \<and>
      ((\<forall>r \<in> set rs. good r) \<longrightarrow> (\<forall>r \<in> set rs'. good r)) \<and>
      (\<forall>r \<in> set rs'. (r \<in> set rs \<and> ef_id r \<noteq> ef_id e) \<or> (effect_key r = effect_key e \<and> (eligible txs r \<longrightarrow> handled r))) \<and>
      (\<forall>r \<in> set rs. ef_id r \<noteq> ef_id e \<longrightarrow> r \<in> set rs') \<and>
      (\<forall>P. length (filter (\<lambda>r. P (effect_key r)) rs') \<le> length (filter (\<lambda>r. P (effect_key r)) rs))"
  proof cases
    case (1 q)
    have keys: "map effect_key rs' = map effect_key rs" unfolding 1(1) using one 1(2) by auto
    have ids: "map ef_id xs = map snd (map effect_key xs)" for xs by (simp add: effect_key_def comp_def)
    have "distinct (map ef_id rs')" using assms(2) unfolding ids keys .
    moreover have "(\<forall>r \<in> set rs. good r) \<longrightarrow> (\<forall>r \<in> set rs'. good r)"
      unfolding 1(1) using 1(4) by auto
    moreover have "\<forall>r \<in> set rs'. (r \<in> set rs \<and> ef_id r \<noteq> ef_id e) \<or> (effect_key r = effect_key e \<and> (eligible txs r \<longrightarrow> handled r))"
      unfolding 1(1) using 1(2,3) by auto
    moreover have "\<forall>r \<in> set rs. ef_id r \<noteq> ef_id e \<longrightarrow> r \<in> set rs'"
    proof (intro ballI impI)
      fix r
      assume "r \<in> set rs" "ef_id r \<noteq> ef_id e"
      then show "r \<in> set rs'" unfolding 1(1) set_map by (intro image_eqI [of _ _ r]) simp_all
    qed
    moreover have "length (filter (\<lambda>r. P (effect_key r)) rs') \<le> length (filter (\<lambda>r. P (effect_key r)) rs)" for P
    proof -
      have k: "length (filter (\<lambda>r. P (effect_key r)) xs) = length (filter P (map effect_key xs))" for xs
        by (simp add: filter_map comp_def)
      show ?thesis unfolding k keys ..
    qed
    ultimately show ?thesis by (intro conjI allI)
  next
    case 2
    have "length (filter (\<lambda>r. P (effect_key r)) (filter Q xs)) \<le> length (filter (\<lambda>r. P (effect_key r)) xs)" for P Q and xs :: "effect_row list"
      by (induction xs) auto
    then show ?thesis using assms(2) 2 by (auto simp: distinct_filter_ids)
  qed
  then show "distinct (map ef_id rs')"
    "\<forall>r \<in> set rs. good r \<Longrightarrow> \<forall>r \<in> set rs'. good r"
    "\<And>r. r \<in> set rs' \<Longrightarrow> (r \<in> set rs \<and> ef_id r \<noteq> ef_id e) \<or> (effect_key r = effect_key e \<and> (eligible txs r \<longrightarrow> handled r))"
    "\<And>r. r \<in> set rs \<Longrightarrow> ef_id r \<noteq> ef_id e \<Longrightarrow> r \<in> set rs'"
    "\<And>P. length (filter (\<lambda>r. P (effect_key r)) rs') \<le> length (filter (\<lambda>r. P (effect_key r)) rs)"
    by auto
qed

lemma length_filter_fewer:
  assumes "x \<in> set xs" "Q x" "\<not> P x" "\<And>y. P y \<Longrightarrow> Q y"
  shows "length (filter P xs) < length (filter Q xs)"
proof -
  have "length (filter P ys) \<le> length (filter Q ys)" for ys by (induction ys) (use assms(4) in auto)
  then show ?thesis using assms(1-3) by (induction xs) (auto simp: less_Suc_eq_le dest: assms(4))
qed

text \<open>The rows from a key on, and the page before the next key.\<close>

definition beyond :: "(string \<times> string) option \<Rightarrow> string \<times> string \<Rightarrow> bool" where
  "beyond after k \<longleftrightarrow> (case after of None \<Rightarrow> True | Some a \<Rightarrow> a < k)"

lemma effect_rows_set: "set (effect_rows txs after lg) = {r \<in> set (lg_rows lg). eligible txs r \<and> beyond after (effect_key r)}"
  by (auto simp: effect_rows_def beyond_def)

lemma effect_rows_distinct: "distinct (map ef_id (lg_rows lg)) \<Longrightarrow> distinct (map ef_id (effect_rows txs after lg))"
  by (auto simp: effect_rows_def distinct_map inj_on_def)

lemma page_covers:
  assumes "distinct (map ef_id (lg_rows lg))" "0 < n" "r \<in> set (effect_rows txs after lg)"
    "\<not> effect_key (last (take n (effect_rows txs after lg))) < effect_key r"
  shows "r \<in> set (take n (effect_rows txs after lg))"
proof (rule ccontr)
  let ?rs = "effect_rows txs after lg"
  let ?l = "last (take n ?rs)"
  assume no: "r \<notin> set (take n ?rs)"
  have ne: "take n ?rs \<noteq> []" using assms(2,3) by auto
  have drop: "r \<in> set (drop n ?rs)" using assms(3) no by (metis Un_iff append_take_drop_id set_append)
  have "sorted (map effect_key (take n ?rs) @ map effect_key (drop n ?rs))"
    unfolding map_append [symmetric] append_take_drop_id by (simp add: effect_rows_def)
  then have "\<forall>x \<in> set (take n ?rs). \<forall>y \<in> set (drop n ?rs). effect_key x \<le> effect_key y"
    unfolding sorted_append by simp
  then have "effect_key ?l \<le> effect_key r" using last_in_set [OF ne] drop by blast
  then have "ef_id r = ef_id ?l" using assms(4) by (intro key_id) simp
  moreover have "?l \<in> set ?rs" using last_in_set [OF ne] by (meson in_set_takeD)
  ultimately have "r = ?l"
    using assms(1,3) by (auto simp: effect_rows_set distinct_map inj_on_def)
  then show False using no last_in_set [OF ne] by simp
qed

locale effect_loop =
  fixes f :: effect_body and txs :: "tx_state list" and good :: "effect_row \<Rightarrow> bool" and handled :: "effect_row \<Rightarrow> bool"
  assumes body: "f e w = Inr (w', b) \<Longrightarrow> distinct (map ef_id (lg_rows (w_ledger w))) \<Longrightarrow> e \<in> set (lg_rows (w_ledger w)) \<Longrightarrow>
    eligible txs e \<Longrightarrow> good e \<Longrightarrow> row_step txs good handled e (lg_rows (w_ledger w)) (lg_rows (w_ledger w'))"
begin

lemma each_rows:
  assumes "each_effect f n es tot sample w = Inr (w', tot', sample')" "distinct (map ef_id (lg_rows (w_ledger w)))"
    "distinct (map ef_id es)" "\<forall>e \<in> set es. e \<in> set (lg_rows (w_ledger w)) \<and> eligible txs e"
    "\<forall>r \<in> set (lg_rows (w_ledger w)). good r"
  shows "distinct (map ef_id (lg_rows (w_ledger w')))
    \<and> (\<forall>r \<in> set (lg_rows (w_ledger w')). good r)
    \<and> (\<forall>r \<in> set (lg_rows (w_ledger w')). (r \<in> set (lg_rows (w_ledger w)) \<and> ef_id r \<notin> ef_id ` set es)
        \<or> (effect_key r \<in> effect_key ` set es \<and> (eligible txs r \<longrightarrow> handled r)))
    \<and> (\<forall>P. length (filter (\<lambda>r. P (effect_key r)) (lg_rows (w_ledger w')))
        \<le> length (filter (\<lambda>r. P (effect_key r)) (lg_rows (w_ledger w))))"
  using assms
proof (induction es arbitrary: tot sample w)
  case (Cons e es)
  obtain w1 b where f: "f e w = Inr (w1, b)"
    using Cons.prems(1) by (auto simp: bindR_Inr_iff)
  have rest: "\<exists>t s. each_effect f n es t s w1 = Inr (w', tot', sample')"
    using Cons.prems(1) f by (cases b) (auto simp: bindR_Inr_iff)
  then obtain t s where rest: "each_effect f n es t s w1 = Inr (w', tot', sample')" by blast
  have "row_step txs good handled e (lg_rows (w_ledger w)) (lg_rows (w_ledger w1))"
    using body [OF f Cons.prems(2)] Cons.prems(4,5) by simp
  note R = row_step_rows [OF this Cons.prems(2)]
  have e: "e \<in> set (lg_rows (w_ledger w))" using Cons.prems(4) by simp
  have "\<forall>x \<in> set es. x \<in> set (lg_rows (w_ledger w1)) \<and> eligible txs x"
    using Cons.prems(3,4) R(4) [OF e] by (metis distinct.simps(2) image_eqI list.set_intros(2) list.set_map list.simps(9))
  note IH = Cons.IH [OF rest R(1) [OF e] _ this R(2) [OF e Cons.prems(5)]]
  have IH: "distinct (map ef_id (lg_rows (w_ledger w')))" "\<forall>r \<in> set (lg_rows (w_ledger w')). good r"
    "\<And>r. r \<in> set (lg_rows (w_ledger w')) \<Longrightarrow> (r \<in> set (lg_rows (w_ledger w1)) \<and> ef_id r \<notin> ef_id ` set es)
        \<or> (effect_key r \<in> effect_key ` set es \<and> (eligible txs r \<longrightarrow> handled r))"
    "\<And>P. length (filter (\<lambda>r. P (effect_key r)) (lg_rows (w_ledger w')))
        \<le> length (filter (\<lambda>r. P (effect_key r)) (lg_rows (w_ledger w1)))"
    using IH Cons.prems(3) by simp_all
  show ?case
  proof (intro conjI ballI allI)
    fix r
    assume "r \<in> set (lg_rows (w_ledger w'))"
    from IH(3) [OF this] show "(r \<in> set (lg_rows (w_ledger w)) \<and> ef_id r \<notin> ef_id ` set (e # es))
        \<or> (effect_key r \<in> effect_key ` set (e # es) \<and> (eligible txs r \<longrightarrow> handled r))"
    proof (elim disjE conjE)
      assume r: "r \<in> set (lg_rows (w_ledger w1))" "ef_id r \<notin> ef_id ` set es"
      from R(3) [OF e r(1)] show ?thesis using r(2) by (elim disjE conjE) simp_all
    qed simp
  next
    fix P
    show "length (filter (\<lambda>r. P (effect_key r)) (lg_rows (w_ledger w')))
        \<le> length (filter (\<lambda>r. P (effect_key r)) (lg_rows (w_ledger w)))"
      using IH(4) R(5) [OF e] order_trans by blast
  next
    fix r
    assume "r \<in> set (lg_rows (w_ledger w'))"
    then show "good r" using IH(2) by blast
  qed (rule IH(1))
qed simp

lemma pages_return:
  assumes "distinct (map ef_id (lg_rows (w_ledger w)))" "0 < n"
    "length (filter (\<lambda>r. beyond after (effect_key r)) (lg_rows (w_ledger w))) < k"
    "\<forall>r \<in> set (lg_rows (w_ledger w)). eligible txs r \<and> \<not> beyond after (effect_key r) \<longrightarrow> handled r"
    "\<forall>r \<in> set (lg_rows (w_ledger w)). good r"
  shows "effect_pages k f hard n txs after tot sample w \<noteq> Inr None \<and>
    (\<forall>w' t s. effect_pages k f hard n txs after tot sample w = Inr (Some (w', t, s)) \<longrightarrow>
      distinct (map ef_id (lg_rows (w_ledger w'))) \<and> (\<forall>r \<in> set (lg_rows (w_ledger w')). good r \<and> (eligible txs r \<longrightarrow> handled r)))"
  using assms
proof (induction k arbitrary: after tot sample w)
  case (Suc k)
  let ?rs = "effect_rows txs after (w_ledger w)"
  let ?page = "take n ?rs"
  show ?case
  proof (cases "query_effects hard n txs after (w_ledger w)")
    case (Inr pc)
    then obtain cursor where pc: "pc = (?page, cursor)"
      and cursor: "cursor = (if n < length ?rs \<and> ?page \<noteq> [] then Some (effect_key (last ?page)) else None)"
      unfolding query_effects_def Let_def by (auto simp: bindR_Inr_iff split: if_splits)
    show ?thesis
    proof (cases "each_effect f n ?page tot sample w")
      case (Inr res)
      obtain w1 t1 s1 where res: "res = (w1, t1, s1)" by (cases res) auto
      have inpage: "\<forall>e \<in> set ?page. e \<in> set (lg_rows (w_ledger w)) \<and> eligible txs e"
        by (auto simp: effect_rows_set dest!: in_set_takeD)
      have dp: "distinct (map ef_id ?page)"
        using effect_rows_distinct [OF Suc.prems(1)] by (simp add: take_map [symmetric])
      note E = each_rows [OF Inr [unfolded res] Suc.prems(1) dp inpage Suc.prems(5)]
      show ?thesis
      proof (cases cursor)
        case None
        have all: "?page = ?rs" using cursor None Suc.prems(2) by (auto split: if_splits)
        have "handled r" if "r \<in> set (lg_rows (w_ledger w1))" "eligible txs r" for r
          using E that Suc.prems(4) unfolding all by (auto simp: effect_rows_set)
        then show ?thesis
          using \<open>query_effects hard n txs after (w_ledger w) = Inr pc\<close> Inr E by (simp add: pc res None)
      next
        case (Some c)
        then have c: "c = effect_key (last ?page)" and ne: "?page \<noteq> []" using cursor by (auto split: if_splits)
        have l: "last ?page \<in> set ?rs" using last_in_set [OF ne] by (meson in_set_takeD)
        have mono: "beyond after q" if "beyond (Some c) q" for q
          using that l by (auto simp: beyond_def c effect_rows_set split: option.splits)
        have less: "length (filter (\<lambda>r. beyond (Some c) (effect_key r)) (lg_rows (w_ledger w)))
            < length (filter (\<lambda>r. beyond after (effect_key r)) (lg_rows (w_ledger w)))"
        proof (rule length_filter_fewer [of "last ?page"])
          show "last ?page \<in> set (lg_rows (w_ledger w))" using l by (simp add: effect_rows_set)
          show "beyond after (effect_key (last ?page))" using l by (simp add: effect_rows_set)
          show "\<not> beyond (Some c) (effect_key (last ?page))" by (simp add: beyond_def c)
        qed (rule mono)
        have fewer: "length (filter (\<lambda>r. beyond (Some c) (effect_key r)) (lg_rows (w_ledger w1))) < k"
        proof -
          have "length (filter (\<lambda>r. beyond (Some c) (effect_key r)) (lg_rows (w_ledger w1)))
              \<le> length (filter (\<lambda>r. beyond (Some c) (effect_key r)) (lg_rows (w_ledger w)))"
            using E by (elim conjE allE [of _ "beyond (Some c)"])
          also note less
          finally show ?thesis using Suc.prems(3) by linarith
        qed
        have "handled r" if r: "r \<in> set (lg_rows (w_ledger w1))" "eligible txs r" "\<not> beyond (Some c) (effect_key r)" for r
        proof -
          from E r(1) consider "r \<in> set (lg_rows (w_ledger w))" "ef_id r \<notin> ef_id ` set ?page"
            | "eligible txs r \<longrightarrow> handled r" by blast
          then show ?thesis
          proof cases
            case 1
            show ?thesis
            proof (cases "beyond after (effect_key r)")
              case True
              then have "r \<in> set ?rs" using 1 r(2) by (simp add: effect_rows_set)
              then have "r \<in> set ?page" using page_covers [OF Suc.prems(1,2)] r(3) by (auto simp: beyond_def c)
              then show ?thesis using 1 by blast
            qed (use 1 r(2) Suc.prems(4) in blast)
          qed (use r(2) in blast)
        qed
        then have "\<forall>r \<in> set (lg_rows (w_ledger w1)). eligible txs r \<and> \<not> beyond (Some c) (effect_key r) \<longrightarrow> handled r" by blast
        from Suc.IH [OF _ Suc.prems(2) fewer this, of t1 s1] E
        show ?thesis using \<open>query_effects hard n txs after (w_ledger w) = Inr pc\<close> Inr by (simp add: pc res Some)
      qed
    qed (use Inr in \<open>simp add: pc\<close>)
  qed simp
qed simp

lemma loop_returns:
  assumes "distinct (map ef_id (lg_rows (w_ledger w)))" "\<forall>r \<in> set (lg_rows (w_ledger w)). good r"
  shows "over_effects f hard n txs w \<noteq> Inr None \<and>
    (\<forall>w' t s. over_effects f hard n txs w = Inr (Some (w', t, s)) \<longrightarrow>
      distinct (map ef_id (lg_rows (w_ledger w'))) \<and> (\<forall>r \<in> set (lg_rows (w_ledger w')). good r \<and> (eligible txs r \<longrightarrow> handled r)))"
proof (cases "0 < n")
  case True
  have "length (filter (\<lambda>r. beyond None (effect_key r)) (lg_rows (w_ledger w))) < length (lg_rows (w_ledger w)) + 1"
    by (simp add: le_imp_less_Suc)
  from pages_return [OF assms(1) True this _ assms(2), of hard 0 "[]"] show ?thesis
    using True unfolding over_effects_def by (simp add: beyond_def del: effect_pages.simps)
qed (simp add: over_effects_def)

end

section \<open>Reconciliation keeps the contract\<close>

lemma becomes_row_step:
  assumes "becomes e P lg lg'" "\<And>q. P q \<Longrightarrow> good q \<and> (eligible txs q \<longrightarrow> handled q)"
  shows "row_step txs good handled e (lg_rows lg) (lg_rows lg')"
proof -
  obtain q where q: "lg_rows lg' = map (\<lambda>x. if ef_id x = ef_id e then q else x) (lg_rows lg)" "ef_id q = ef_id e"
    "ef_created q = ef_created e" "P q"
    using assms(1) unfolding becomes_def by blast
  show ?thesis unfolding row_step_def
  proof (rule disjI1, rule exI [of _ q], intro conjI)
    show "effect_key q = effect_key e" using q(2,3) by (simp add: effect_key_def)
  qed (use q assms(2) in simp_all)
qed

lemma reconcile_body_step:
  assumes "reconcile_body h provs audit now e w = Inr (w', b)" "distinct (map ef_id (lg_rows (w_ledger w)))"
    "e \<in> set (lg_rows (w_ledger w))" "eligible [] e" "good e" "locally_prepared e \<Longrightarrow> handled e"
    "\<And>q. unknown_pending q \<Longrightarrow> good q \<and> handled q" "\<And>q. ef_state q = EffFinalized \<Longrightarrow> good q"
  shows "row_step [] good handled e (lg_rows (w_ledger w)) (lg_rows (w_ledger w'))"
proof (cases "locally_prepared e")
  case True
  then have "w' = w" using assms(1) by (simp add: reconcile_body_def)
  then show ?thesis
    using becomes_row_step [OF becomes_same [OF assms(2,3), of "\<lambda>q. q = e"], of good "[]" handled] True assms(5,6) by simp
next
  case False
  then have run: "reconcile_one h provs e (audit (ef_id e)) now w = Inr w'"
    using assms(1) by (auto simp: reconcile_body_def bindR_Inr_iff)
  have "pending_in e (w_ledger w)" using assms(2-4) by (simp add: pending_in_def eligible_def)
  from reconcile_one_becomes [OF run this] show ?thesis
  proof (elim disjE bexE conjE)
    assume "becomes e unknown_pending (w_ledger w) (w_ledger w')"
    then show ?thesis by (rule becomes_row_step) (use assms(7) in blast)
  next
    fix ps
    assume "becomes e (settled_as ps) (w_ledger w) (w_ledger w')"
    then show ?thesis by (rule becomes_row_step) (use assms(8) in \<open>simp add: settled_as_def eligible_def\<close>)
  qed
qed

interpretation reconciling: effect_loop "reconcile_body h provs audit now" "[]" "\<lambda>_. True"
  "\<lambda>r. ef_tx r = TxUnknown \<or> locally_prepared r"
  for h provs audit now
  by unfold_locales (erule reconcile_body_step, simp_all add: unknown_pending_def)

text \<open>Once the prepared operations are recovered, nothing is skipped.\<close>

definition no_local :: "effect_row \<Rightarrow> bool" where
  "no_local r \<longleftrightarrow> \<not> (ef_state r = EffPending \<and> locally_prepared r)"

interpretation reconciling_rest: effect_loop "reconcile_body h provs audit now" "[]" no_local "\<lambda>r. ef_tx r = TxUnknown"
  for h provs audit now
  by unfold_locales
    (erule reconcile_body_step, simp_all add: unknown_pending_def no_local_def eligible_def locally_prepared_def)

section \<open>The recovery of prepared operations keeps the contract\<close>

definition keeps_ledger :: "(string \<Rightarrow> repair option) \<Rightarrow> bool" where
  "keeps_ledger handlers \<longleftrightarrow> (\<forall>s f e w w'. handlers s = Some f \<longrightarrow> f e w = Inr w' \<longrightarrow> w_ledger w' = w_ledger w)"

lemma prepared_metadata_None:
  "prepared_metadata handlers e = Inr None \<Longrightarrow> \<not> is_dict (dget (ef_meta e) ''protected_operation'')"
  unfolding prepared_metadata_def by (auto simp: bindR_Inr_iff split: pyval.splits option.splits)

lemma prepared_metadata_handler:
  "prepared_metadata handlers e = Inr (Some (rids, contract, actor, Some f)) \<Longrightarrow> \<exists>s. handlers s = Some f"
  unfolding prepared_metadata_def prepared_handler_def
  by (auto simp: bindR_Inr_iff split: pyval.splits option.splits if_splits)

lemma prepared_body_step:
  assumes "recover_prepared_one handlers now e w = Inr (w', b)" "keeps_ledger handlers"
    "distinct (map ef_id (lg_rows (w_ledger w)))" "e \<in> set (lg_rows (w_ledger w))"
  shows "row_step [TxPrepared] (\<lambda>_. True) (\<lambda>r. \<not> is_dict (dget (ef_meta r) ''protected_operation'')) e
    (lg_rows (w_ledger w)) (lg_rows (w_ledger w'))"
proof -
  obtain md where md: "prepared_metadata handlers e = Inr md"
    using assms(1) unfolding recover_prepared_one_def by (auto simp: bindR_Inr_iff)
  show ?thesis
  proof (cases md)
    case None
    then have "w' = w" using assms(1) unfolding recover_prepared_one_def md by simp
    moreover have "\<not> is_dict (dget (ef_meta e) ''protected_operation'')"
      using prepared_metadata_None md None by simp
    ultimately show ?thesis
      using becomes_row_step [OF becomes_same [OF assms(3,4), of "\<lambda>q. q = e"]] by simp
  next
    case (Some q)
    obtain rids contract actor handler where q: "q = (rids, contract, actor, handler)" by (cases q) auto
    obtain w1 cs lg where "(case handler of None \<Rightarrow> Inr w | Some f \<Rightarrow> f e w) = Inr w1"
      and lg: "abandon_intent (ef_id e) (w_ledger w1) = Inr lg" and w': "w' = w1\<lparr>w_caps := cs, w_ledger := lg\<rparr>"
      using assms(1) unfolding recover_prepared_one_def md Some q by (auto simp: bindR_Inr_iff)
    have "\<exists>s. handlers s = Some f" if "handler = Some f" for f
      using prepared_metadata_handler [OF md [unfolded Some q that]] .
    then have "w_ledger w1 = w_ledger w"
      using \<open>(case handler of None \<Rightarrow> Inr w | Some f \<Rightarrow> f e w) = Inr w1\<close> assms(2)
      unfolding keeps_ledger_def by (cases handler) auto
    then have "lg_rows (w_ledger w') = filter (\<lambda>x. ef_id x \<noteq> ef_id e) (lg_rows (w_ledger w))"
      using lg unfolding w' abandon_intent_def abandon_effect_def
      by (auto split: option.splits if_splits prod.splits bool.splits)
    then show ?thesis by (simp add: row_step_def)
  qed
qed

lemma prepared_loop:
  assumes "keeps_ledger handlers"
  shows "effect_loop (recover_prepared_one handlers now) [TxPrepared] (\<lambda>_. True)
    (\<lambda>r. \<not> is_dict (dget (ef_meta r) ''protected_operation''))"
  by unfold_locales (rule prepared_body_step [OF _ assms])

section \<open>After startup\<close>

lemma returned_Inr: "returned r = Inr x \<longleftrightarrow> r = Inr (Some x)"
  by (cases r) (auto simp: returned_def split: option.splits)

lemma recover_startup_Inr:
  assumes "recover_startup s w = Inr w'"
  obtains w1 n1 x1 w2 n2 x2 cs y a
  where "recover_prepared (su_handlers s) (su_now s) (su_hard s) (su_page s) w = Inr (Some (w1, n1, x1))"
    "reconcile_pending (su_host s) (su_provs s) (su_audit s) (su_now s) (su_hard s) (su_page s) w1 = Inr (Some (w2, n2, x2))"
    "abandon_stale (su_cap_page s) (su_now s) (w_caps w2) = Some (cs, y)" "w' = w2\<lparr>w_caps := cs, w_acct := a\<rparr>"
  using assms that unfolding recover_startup_def by (auto simp: bindR_Inr_iff returned_Inr)

lemma loop_result:
  assumes "effect_loop f txs good handled" "over_effects f hard n txs w = Inr (Some (w', t, s))"
    "distinct (map ef_id (lg_rows (w_ledger w)))" "\<forall>r \<in> set (lg_rows (w_ledger w)). good r"
  shows "distinct (map ef_id (lg_rows (w_ledger w')))" "\<forall>r \<in> set (lg_rows (w_ledger w')). good r"
    "\<forall>r \<in> set (lg_rows (w_ledger w')). eligible txs r \<longrightarrow> handled r"
  using effect_loop.loop_returns [OF assms(1,3,4)] assms(2) by blast+

lemma abandon_pages_ids:
  "abandon_pages k n now after m sample st = Some (st', x) \<Longrightarrow> map ur_id (st_res st') = map ur_id (st_res st)"
proof (induction k arbitrary: after m sample st)
  case (Suc k)
  have "map ur_id (st_res (fold (abandon_row now) rs st)) = map ur_id (st_res st)" for rs st
    by (induction rs arbitrary: st) (simp_all add: abandon_row_def CapStore.settle_def map_res_def comp_def if_distrib cong: if_cong)
  then show ?case using Suc by (auto simp: Let_def split: if_splits)
qed simp

lemma abandoned_all:
  assumes "abandon_stale n now cs = Some (cs', y)" "distinct (map ur_id (st_res cs'))" "0 < n"
    "get_reservation cs' rid = Some r"
  shows "ur_status r \<noteq> Reserved"
proof -
  have "map ur_id (st_res cs') = map ur_id (st_res cs)"
    using assms(1) by (auto simp: abandon_stale_def simp del: abandon_pages.simps dest: abandon_pages_ids)
  then have "\<forall>r \<in> set (st_res cs'). ur_status r \<noteq> Reserved"
    using abandon_stale_complete [of cs n now] assms(1-3) by auto
  then show ?thesis using assms(4) unfolding get_reservation_def by (auto dest: find_SomeD)
qed

lemma settle_blocked:
  assumes "get_effect (w_ledger w) i = Some e" "effect_reservations e = Inr rids" "rid \<in> set rids"
    "\<And>r. get_reservation (w_caps w) rid = Some r \<Longrightarrow> ur_status r \<notin> {Reserved, Committed}"
  shows "settle_effect h i expected ps md rcp audit now run epoch w \<noteq> Inr (Some ws)"
proof
  assume run: "settle_effect h i expected ps md rcp audit now run epoch w = Inr (Some ws)"
  obtain w' s where ws: "ws = (w', s)" by (cases ws)
  have "distinct rids"
    using assms(2) unfolding effect_reservations_def by (auto split: pyval.splits option.splits if_splits)
  from run [unfolded ws] show False
  proof (rule settle_effect_Inr)
    fix c rs cs
    assume "get_effect (w_ledger w) i = Some c" "effect_reservations c = Inr rs"
      "converge_uses (ps = ''not_started'') c now rs (w_caps w) = Inr cs"
    moreover have "\<exists>x. converge_uses (ps = ''not_started'') c now rids (w_caps w) = Inl x"
      by (rule converge_blocked [OF assms(3,4) \<open>distinct rids\<close>])
    ultimately show False using assms(1,2) by auto
  qed
qed

lemma receipt_blocked:
  assumes "get_effect (w_ledger w) i = Some e" "effect_reservations e = Inr rids" "rid \<in> set rids"
    "\<And>r. get_reservation (w_caps w) rid = Some r \<Longrightarrow> ur_status r \<notin> {Reserved, Committed}"
  shows "\<exists>x. settle_from_receipt h verify run epoch i expected rcp audit now w = Inl x"
proof (rule ccontr)
  assume "\<nexists>x. settle_from_receipt h verify run epoch i expected rcp audit now w = Inl x"
  then obtain y where "settle_from_receipt h verify run epoch i expected rcp audit now w = Inr y"
    by (cases "settle_from_receipt h verify run epoch i expected rcp audit now w") auto
  then obtain ps rc where "settle_recovery h e ps rc ''host_verified_receipt'' audit now (Some run) (Some epoch) w = Inr y"
    unfolding settle_from_receipt_def assms(1) by (auto simp: bindR_Inr_iff split: option.splits)
  moreover have "ef_id e = i" using assms(1) by (auto dest: get_effectD)
  ultimately obtain md where
    "settle_effect h i (ef_tx e) ps md rc audit now (Some run) (Some epoch) w = Inr (Some y)"
    unfolding settle_recovery_def Let_def by (auto simp: bindR_Inr_iff split: option.splits)
  then show False using settle_blocked [OF assms] by blast
qed

section \<open>A sample\<close>

definition leased_caps :: cap_store where
  "leased_caps = \<lparr>st_caps = [one_shot_cap\<lparr>cap_uses_remaining := Some 0\<rparr>],
     st_res = [\<lparr>ur_id = ''r1'', ur_cap = ''cap_1'', ur_count = 1, ur_status = Reserved, ur_by = ''a'',
       ur_reason = reserve_reason ''c'', ur_created = ''t1'', ur_updated = ''t1''\<rparr>]\<rparr>"

definition leased_effect :: effect_row where
  "leased_effect = \<lparr>ef_id = ''x'', ef_record = None, ef_event = None, ef_pid = ''p'', ef_provider = ''git'',
     ef_operation = ''push'', ef_target = None, ef_class = RollbackUnknown, ef_status = StatusUnknown, ef_mutation = True,
     ef_flow = False, ef_meta = sdict [(''protected_operation'', VDict (sdict [(''reservation_ids'', VList [VStr ''r1'']),
       (''actor'', VStr ''a''), (''contract_name'', VStr ''c'')]))],
     ef_created = ''t1'', ef_state = EffPending, ef_tx = TxDispatched, ef_args = None, ef_key = Some ''k'', ef_receipt = [],
     ef_updated = None, ef_tier = TierFull, ef_digest = None\<rparr>"

definition leased_world :: effect_world where
  "leased_world = sample_world\<lparr>w_ledger := \<lparr>lg_rows = [leased_effect], lg_seq = 1, lg_log = []\<rparr>, w_caps := leased_caps,
     w_acct := family [envelope]\<rparr>"

definition sample_receipt :: pydict where
  "sample_receipt = sdict [(''certified_not_started'', VBool True)]"

definition sample_provs :: "string \<Rightarrow> reconciler option" where
  "sample_provs n = (if n = ''git'' then Some (\<lambda>_. Inr (VDict (sdict [(''state'', VStr ''failed''),
     (''provider_receipt'', VDict sample_receipt)]))) else None)"

definition sample_startup :: startup where
  "sample_startup = \<lparr>su_host = sample_hosting, su_doubles = exact_sums, su_ambient = nobody, su_nonce = ''n'', su_now = ''t2'',
     su_handlers = (\<lambda>_. None), su_provs = (\<lambda>_. None), su_audit = (\<lambda>_. ''aud''), su_hard = 10, su_page = 1,
     su_cap_page = 1, su_usage_page = 1\<rparr>"

lemma leased_settles:
  obtains w' s where "settle_effect sample_hosting ''x'' TxDispatched ''not_started'' [] sample_receipt ''aud'' ''t2'' None None leased_world
    = Inr (Some (w', s))"
proof -
  have "case settle_effect sample_hosting ''x'' TxDispatched ''not_started'' [] sample_receipt ''aud'' ''t2'' None None leased_world of
    Inr (Some x) \<Rightarrow> True | _ \<Rightarrow> False" by code_simp
  then show thesis using that by (auto split: sum.splits option.splits)
qed

lemma leased_reconciles:
  obtains w' where "reconcile_one sample_hosting sample_provs leased_effect ''aud'' ''t2'' leased_world = Inr w'"
    "map (\<lambda>r. (ef_state r, ef_tx r)) (lg_rows (w_ledger w')) = [(EffFinalized, TxFailed)]"
proof -
  have "case reconcile_one sample_hosting sample_provs leased_effect ''aud'' ''t2'' leased_world of
    Inr w' \<Rightarrow> map (\<lambda>r. (ef_state r, ef_tx r)) (lg_rows (w_ledger w')) = [(EffFinalized, TxFailed)] | _ \<Rightarrow> False" by code_simp
  then show thesis using that by (auto split: sum.splits)
qed

lemma leased_starts:
  obtains w' where "recover_startup sample_startup leased_world = Inr w'"
    "map (\<lambda>r. (ef_id r, ef_state r, ef_tx r)) (lg_rows (w_ledger w')) = [(''x'', EffPending, TxUnknown)]"
    "map (\<lambda>r. effect_reservations r) (lg_rows (w_ledger w')) = [Inr [''r1'']]"
    "map (\<lambda>r. (ur_id r, ur_status r)) (st_res (w_caps w')) = [(''r1'', Abandoned)]"
proof -
  have "case recover_startup sample_startup leased_world of
    Inr w' \<Rightarrow> map (\<lambda>r. (ef_id r, ef_state r, ef_tx r)) (lg_rows (w_ledger w')) = [(''x'', EffPending, TxUnknown)]
      \<and> map (\<lambda>r. effect_reservations r) (lg_rows (w_ledger w')) = [Inr [''r1'']]
      \<and> map (\<lambda>r. (ur_id r, ur_status r)) (st_res (w_caps w')) = [(''r1'', Abandoned)]
    | _ \<Rightarrow> False" by code_simp
  then show thesis using that by (auto split: sum.splits)
qed

section \<open>Properties\<close>

text \<open>
  C36. The atomic settlement of an effect agrees with the lease service: the capability rows become those of giving
  back every reservation of the effect, if the provider certified that nothing started, and of committing every
  reservation otherwise, each reservation ends up restored or committed and the others stay as they were, the
  envelopes of the effect are released without usage exactly when nothing started, and the effect is finalized with
  the state that the provider reported.
\<close>

theorem settlement_refines_leases:
  assumes "settle_effect h i expected ps md rcp audit now run epoch w = Inr (Some (w', s))"
    "distinct (map uv_id (ac_usage (w_acct w)))"
  shows "\<exists>c rids m rc. get_effect (w_ledger w) i = Some c \<and> ef_state c = EffPending \<and> effect_reservations c = Inr rids
    \<and> w_caps w' = fold (\<lambda>rid. lease_apply h' mr now (if ps = ''not_started'' then Restore rid else Commit rid)) rids (w_caps w)
    \<and> (\<forall>k. map_option ur_status (get_reservation (w_caps w') k)
        = (if k \<in> set rids then Some (if ps = ''not_started'' then Restored else Committed)
           else map_option ur_status (get_reservation (w_caps w) k)))
    \<and> ac_usage (w_acct w') = map (\<lambda>r. if ps = ''not_started'' \<and> uv_by r = i
        then r\<lparr>uv_status := UsageReleased, uv_settled := Some no_usage, uv_updated := now\<rparr> else r) (ac_usage (w_acct w))
    \<and> get_effect (w_ledger w') i = Some (settled_effect c ps (settled_tx ps) m rc audit now)"
  using assms(1)
proof (rule settle_effect_Inr)
  fix c rids m rc cs a rel
  assume c: "get_effect (w_ledger w) i = Some c" "ef_state c = EffPending" "effect_reservations c = Inr rids"
    and cs: "converge_uses (ps = ''not_started'') c now rids (w_caps w) = Inr cs"
    and a: "release_envelopes c now (ps = ''not_started'') (w_acct w) = Inr (a, rel)"
    and w': "w' = w\<lparr>w_ledger := log_change i EffFinalized (settled_tx ps) now
       (put_effect (settled_effect c ps (settled_tx ps) m rc audit now) (w_ledger w)), w_caps := cs, w_acct := a\<rparr>"
  let ?q = "settled_effect c ps (settled_tx ps) m rc audit now"
  have i: "ef_id c = i" using c(1) by (auto dest: get_effectD)
  have "List.find (\<lambda>r. ef_id r = i) rs = Some c \<Longrightarrow>
      List.find (\<lambda>r. ef_id r = i) (map (\<lambda>x. if ef_id x = i then ?q else x) rs) = Some ?q" for rs
    by (induction rs) (auto simp: i split: if_splits)
  then have "get_effect (w_ledger w') i = Some ?q"
    using c(1) by (simp add: w' get_effect_def i)
  moreover have "w_caps w' = fold (\<lambda>rid. lease_apply h' mr now (if ps = ''not_started'' then Restore rid else Commit rid)) rids (w_caps w)"
    using converge_lease [OF cs] by (simp add: w' lease_settled_def)
  moreover have "\<forall>k. map_option ur_status (get_reservation (w_caps w') k)
      = (if k \<in> set rids then Some (if ps = ''not_started'' then Restored else Committed)
         else map_option ur_status (get_reservation (w_caps w) k))"
    using converge_status [OF cs] by (simp add: w')
  moreover have "ac_usage (w_acct w') = map (\<lambda>r. if ps = ''not_started'' \<and> uv_by r = i
      then r\<lparr>uv_status := UsageReleased, uv_settled := Some no_usage, uv_updated := now\<rparr> else r) (ac_usage (w_acct w))"
    using release_envelopes_Inr [OF a assms(2)] by (simp add: w' i)
  ultimately show ?thesis using c(1-3)
    by (intro exI [of _ c] exI [of _ rids] exI [of _ m] exI [of _ rc] conjI)
qed

theorem settlement_refines_leases_witness:
  "\<exists>w' s rids. settle_effect sample_hosting ''x'' TxDispatched ''not_started'' [] sample_receipt ''aud'' ''t2'' None None leased_world
      = Inr (Some (w', s)) \<and> w_caps w' = fold (\<lambda>rid. lease_apply sample_hosting 8 ''t2'' (Restore rid)) rids leased_caps"
proof -
  obtain w' s where r: "settle_effect sample_hosting ''x'' TxDispatched ''not_started'' [] sample_receipt ''aud'' ''t2'' None None
      leased_world = Inr (Some (w', s))"
    by (rule leased_settles)
  have "distinct (map uv_id (ac_usage (w_acct leased_world)))" by code_simp
  from settlement_refines_leases [OF r this, of sample_hosting 8] obtain rids where
    "w_caps w' = fold (\<lambda>rid. lease_apply sample_hosting 8 ''t2'' (if ''not_started'' = ''not_started'' then Restore rid else Commit rid))
       rids (w_caps leased_world)"
    by (elim exE conjE)
  moreover have "w_caps leased_world = leased_caps" by (simp add: leased_world_def)
  ultimately show ?thesis using r by (intro exI [of _ w'] exI [of _ s] exI [of _ rids]) (simp only: simp_thms if_True)
qed

text \<open>
  C37. Reconciliation believes only a receipt: the one row it changes is that of the effect, which stays pending and
  becomes unknown, unless the provider answered with a settled state and a receipt that is not empty; a prepared
  effect is settled only as certified not to have started.
\<close>

theorem reconcile_certified:
  assumes "reconcile_one h provs e audit now w = Inr w'" "distinct (map ef_id (lg_rows (w_ledger w)))"
    "e \<in> set (lg_rows (w_ledger w))" "ef_state e = EffPending"
  shows "\<exists>q. lg_rows (w_ledger w') = map (\<lambda>x. if ef_id x = ef_id e then q else x) (lg_rows (w_ledger w)) \<and> ef_id q = ef_id e
    \<and> ((ef_state q = EffPending \<and> ef_tx q = TxUnknown)
      \<or> (\<exists>ps f d rc. ps \<in> set provider_states \<and> ef_state q = EffFinalized \<and> ef_tx q = settled_tx ps
          \<and> provs (ef_provider e) = Some f \<and> f e = Inr (VDict d) \<and> dget d ''provider_receipt'' = VDict rc \<and> rc \<noteq> []
          \<and> reconciliation_state h (dget d ''state'') (VDict rc) = ps \<and> (ef_tx e = TxPrepared \<longrightarrow> ps = ''not_started'')))"
proof -
  have "pending_in e (w_ledger w)" using assms(2-4) by (simp add: pending_in_def)
  from reconcile_one_becomes [OF assms(1) this] show ?thesis
  proof (elim disjE bexE conjE)
    assume "becomes e unknown_pending (w_ledger w) (w_ledger w')"
    then show ?thesis unfolding becomes_def unknown_pending_def by (elim exE conjE, intro exI conjI disjI1)
  next
    fix ps
    assume "ps \<in> set provider_states" "certified h provs e ps" "becomes e (settled_as ps) (w_ledger w) (w_ledger w')"
    then show ?thesis unfolding becomes_def settled_as_def certified_def
      by (elim exE conjE, intro exI conjI disjI2)
  qed
qed

theorem reconcile_certified_witness:
  "\<exists>w' q. reconcile_one sample_hosting sample_provs leased_effect ''aud'' ''t2'' leased_world = Inr w'
     \<and> lg_rows (w_ledger w') = [q] \<and> ef_tx q = TxFailed \<and> ef_id q = ''x''"
proof -
  obtain w' where r: "reconcile_one sample_hosting sample_provs leased_effect ''aud'' ''t2'' leased_world = Inr w'"
    and t: "map (\<lambda>r. (ef_state r, ef_tx r)) (lg_rows (w_ledger w')) = [(EffFinalized, TxFailed)]"
    by (rule leased_reconciles)
  have w: "lg_rows (w_ledger leased_world) = [leased_effect]" by (simp add: leased_world_def)
  have e: "ef_id leased_effect = ''x''" "ef_state leased_effect = EffPending" by (simp_all add: leased_effect_def)
  obtain q where "lg_rows (w_ledger w') = map (\<lambda>x. if ef_id x = ef_id leased_effect then q else x) (lg_rows (w_ledger leased_world))"
    "ef_id q = ef_id leased_effect"
    using reconcile_certified [OF r] w e by auto
  then show ?thesis using r t by (intro exI [of _ w'] exI [of _ q]) (simp add: w e)
qed

text \<open>
  C38. Reconciliation ends whatever the providers answer, and when it ends every effect that is still pending is
  unknown or was skipped as a prepared operation: none stays dispatched, approved or authorized.
\<close>

theorem reconciliation_complete:
  assumes "distinct (map ef_id (lg_rows (w_ledger w)))"
  shows "reconcile_pending h provs audit now hard n w \<noteq> Inr None \<and>
    (\<forall>w' t s. reconcile_pending h provs audit now hard n w = Inr (Some (w', t, s)) \<longrightarrow>
      (\<forall>r \<in> set (lg_rows (w_ledger w')). ef_state r = EffPending \<longrightarrow> ef_tx r = TxUnknown \<or> locally_prepared r))"
  using reconciling.loop_returns [OF assms] unfolding reconcile_pending_def by (simp add: eligible_def)

theorem reconciliation_complete_witness:
  "reconcile_pending sample_hosting sample_provs (\<lambda>_. ''aud'') ''t2'' 10 1 leased_world \<noteq> Inr None"
proof -
  have "distinct (map ef_id (lg_rows (w_ledger leased_world)))" by code_simp
  from reconciliation_complete [OF this] show ?thesis by simp
qed

text \<open>
  C39. After startup every effect that is still pending is unknown: the recovery of prepared operations removed the
  intents that never reached a provider, and reconciliation decided or marked all others. The repair handlers are
  assumed to leave the effect rows alone.
\<close>

theorem startup_leaves_unknown:
  assumes "recover_startup s w = Inr w'" "distinct (map ef_id (lg_rows (w_ledger w)))"
    "\<forall>n f e w w'. su_handlers s n = Some f \<longrightarrow> f e w = Inr w' \<longrightarrow> w_ledger w' = w_ledger w"
    "r \<in> set (lg_rows (w_ledger w'))" "ef_state r = EffPending"
  shows "ef_tx r = TxUnknown"
proof -
  have k: "keeps_ledger (su_handlers s)" using assms(3) unfolding keeps_ledger_def by blast
  obtain w1 n1 x1 w2 n2 x2 where
    p: "recover_prepared (su_handlers s) (su_now s) (su_hard s) (su_page s) w = Inr (Some (w1, n1, x1))"
    and q: "reconcile_pending (su_host s) (su_provs s) (su_audit s) (su_now s) (su_hard s) (su_page s) w1 = Inr (Some (w2, n2, x2))"
    and w': "w_ledger w' = w_ledger w2"
    using assms(1) by (rule recover_startup_Inr) simp
  note P = loop_result [OF prepared_loop [OF k] p [unfolded recover_prepared_def] assms(2)]
  have "\<forall>r \<in> set (lg_rows (w_ledger w1)). no_local r"
    using P(3) by (auto simp: no_local_def locally_prepared_def eligible_def)
  from loop_result(3) [OF reconciling_rest.effect_loop_axioms q [unfolded reconcile_pending_def] P(1) this]
  have "\<forall>r \<in> set (lg_rows (w_ledger w2)). eligible [] r \<longrightarrow> ef_tx r = TxUnknown"
    by simp
  then show ?thesis using assms(4,5) by (simp add: w' eligible_def)
qed

theorem startup_leaves_unknown_witness:
  "\<exists>w' r. recover_startup sample_startup leased_world = Inr w' \<and> lg_rows (w_ledger w') = [r] \<and> ef_state r = EffPending
     \<and> ef_tx r = TxUnknown"
proof -
  obtain w' where r: "recover_startup sample_startup leased_world = Inr w'"
    and t: "map (\<lambda>r. (ef_id r, ef_state r, ef_tx r)) (lg_rows (w_ledger w')) = [(''x'', EffPending, TxUnknown)]"
    by (rule leased_starts)
  obtain q where q: "lg_rows (w_ledger w') = [q]" "ef_state q = EffPending" using t by (auto simp: map_eq_Cons_conv)
  have d: "distinct (map ef_id (lg_rows (w_ledger leased_world)))" by code_simp
  have "ef_tx q = TxUnknown"
    by (rule startup_leaves_unknown [OF r d]) (simp_all add: q sample_startup_def)
  then show ?thesis using r q by (intro exI [of _ w'] exI [of _ q]) simp
qed

text \<open>
  C40. Startup strands the unknown effects: it abandons every live reservation after the reconciliation, also those of
  the effects that it leaves unknown, so when such an effect names a reservation that was not committed, no
  authoritative receipt settles it any more, whatever the verifier answers.
\<close>

theorem startup_strands_unknown:
  assumes "recover_startup s w = Inr w'" "distinct (map ur_id (st_res (w_caps w')))" "0 < su_cap_page s"
    "get_effect (w_ledger w') i = Some e" "effect_reservations e = Inr rids" "rid \<in> set rids"
    "map_option ur_status (get_reservation (w_caps w') rid) \<noteq> Some Committed"
  shows "\<exists>x. settle_from_receipt h verify run epoch i expected rcp audit now w' = Inl x"
proof (rule receipt_blocked [OF assms(4-6)])
  fix r
  assume r: "get_reservation (w_caps w') rid = Some r"
  obtain y and w2 :: effect_world where "abandon_stale (su_cap_page s) (su_now s) (w_caps w2) = Some (w_caps w', y)"
    using assms(1)
  proof (rule recover_startup_Inr)
    fix w2 cs y a
    assume "abandon_stale (su_cap_page s) (su_now s) (w_caps w2) = Some (cs, y)" "w' = w2\<lparr>w_caps := cs, w_acct := a\<rparr>"
    then show thesis using that by simp
  qed
  then have "ur_status r \<noteq> Reserved" using abandoned_all assms(2,3) r by blast
  then show "ur_status r \<notin> {Reserved, Committed}" using assms(7) r by simp
qed

theorem startup_strands_unknown_witness:
  "\<exists>w' e x. recover_startup sample_startup leased_world = Inr w' \<and> get_effect (w_ledger w') ''x'' = Some e
     \<and> ef_tx e = TxUnknown
     \<and> settle_from_receipt sample_hosting (Some (\<lambda>_ rc. Inr (VDict (sdict [(''state'', VStr ''committed''), (''provider_receipt'', VDict rc)]))))
         ''run'' 1 ''x'' TxUnknown sample_receipt ''aud'' ''t3'' w' = Inl x"
proof -
  obtain w' where r: "recover_startup sample_startup leased_world = Inr w'"
    and t: "map (\<lambda>r. (ef_id r, ef_state r, ef_tx r)) (lg_rows (w_ledger w')) = [(''x'', EffPending, TxUnknown)]"
      "map (\<lambda>r. effect_reservations r) (lg_rows (w_ledger w')) = [Inr [''r1'']]"
      "map (\<lambda>r. (ur_id r, ur_status r)) (st_res (w_caps w')) = [(''r1'', Abandoned)]"
    by (rule leased_starts)
  obtain e where e: "lg_rows (w_ledger w') = [e]" "ef_id e = ''x''" "ef_tx e = TxUnknown" "effect_reservations e = Inr [''r1'']"
    using t(1,2) by (auto simp: map_eq_Cons_conv)
  obtain u where u: "st_res (w_caps w') = [u]" "ur_id u = ''r1''" "ur_status u = Abandoned"
    using t(3) by (auto simp: map_eq_Cons_conv)
  have g: "get_effect (w_ledger w') ''x'' = Some e" by (simp add: get_effect_def e)
  have "distinct (map ur_id (st_res (w_caps w')))" "0 < su_cap_page sample_startup"
    "map_option ur_status (get_reservation (w_caps w') ''r1'') \<noteq> Some Committed"
    by (simp_all add: u sample_startup_def get_reservation_def)
  from startup_strands_unknown [OF r this(1,2) g e(4) _ this(3)] r g e(3) show ?thesis
    by (intro exI [of _ w'] exI [of _ e]) simp
qed

end
