(* ===== verification/Shell.thy ===== *)
theory Shell
  imports AuthorityRules Evaluator
begin

text \<open>
  The shell rule engine of \<open>agent_libos/capability/rules.py\<close>: how an executable is named, the built-in classes of
  argument vectors, the custom rules and their precedence. Paths are those of \<open>pathlib\<close>, the host is a POSIX
  system; a Windows path in a custom rule is read as \<open>PureWindowsPath\<close> does. The regular expressions of the
  shell syntax are written out.
\<close>

section \<open>Executables\<close>

definition windows_suffixes :: "string list" where
  "windows_suffixes = [''.exe'', ''.cmd'', ''.bat'', ''.com'', ''.ps1'']"

definition network_executables :: "string list" where
  "network_executables = [''curl'', ''wget'', ''ssh'', ''scp'', ''sftp'', ''nc'', ''ncat'', ''netcat'']"

definition script_executables :: "string list" where
  "script_executables = [''bash'', ''sh'', ''zsh'', ''fish'', ''cmd'', ''powershell'', ''pwsh'', ''python'', ''python3'',
     ''py'', ''node'', ''ruby'', ''perl'', ''php'']"

definition package_executables :: "string list" where
  "package_executables = [''npm'', ''npx'', ''yarn'', ''pnpm'', ''pip'', ''pip3'', ''uv'', ''cargo'']"

definition destructive_executables :: "string list" where
  "destructive_executables = [''rm'', ''del'', ''rmdir'', ''remove-item'', ''move-item'', ''chmod'', ''chown'', ''icacls'',
     ''reg'', ''regedit'', ''taskkill'', ''sudo'', ''su'', ''runas'', ''docker'', ''kubectl'']"

section \<open>Paths\<close>

abbreviation backslash :: char where "backslash \<equiv> CHR 0x5C"

definition swap_char :: "char \<Rightarrow> char \<Rightarrow> string \<Rightarrow> string" where
  "swap_char a b s = map (\<lambda>c. if c = a then b else c) s"

definition path_parts :: "char \<Rightarrow> string \<Rightarrow> string list" where
  "path_parts sep s = filter (\<lambda>w. w \<noteq> [] \<and> w \<noteq> ''.'') (splitall sep s)"

text \<open>\<open>PurePosixPath\<close>: the name, the root, the text.\<close>

definition posix_name :: "string \<Rightarrow> string" where
  "posix_name s = (case rev (path_parts (CHR ''/'') s) of [] \<Rightarrow> [] | w # _ \<Rightarrow> w)"

definition posix_root :: "string \<Rightarrow> string" where
  "posix_root s = (if \<not> startswith s ''/'' then [] else if startswith s ''//'' \<and> \<not> startswith s ''///'' then ''//'' else ''/'')"

definition posix_text :: "string \<Rightarrow> string" where
  "posix_text s = (let t = posix_root s @ join ''/'' (path_parts (CHR ''/'') s) in if t = [] then ''.'' else t)"

text \<open>\<open>PureWindowsPath\<close> on a text without slashes: drive, root and the rest.\<close>

definition find_from :: "char \<Rightarrow> nat \<Rightarrow> string \<Rightarrow> nat option" where
  "find_from c k s = (let r = dropWhile (\<lambda>x. x \<noteq> c) (drop k s) in
     if r = [] then None else Some (length s - length r))"

definition unc_prefix :: string where
  "unc_prefix = [backslash, backslash, CHR ''?'', backslash] @ ''unc'' @ [backslash]"

definition win_split :: "string \<Rightarrow> string \<times> string \<times> string" where
  "win_split p =
     (if startswith p [backslash, backslash] then
        (case find_from backslash (if py_lower (take 8 p) = unc_prefix then 8 else 2) p of
           None \<Rightarrow> (p, [], [])
         | Some i \<Rightarrow> (case find_from backslash (i + 1) p of
             None \<Rightarrow> (p, [], [])
           | Some j \<Rightarrow> (take j p, take 1 (drop j p), drop (j + 1) p)))
      else if startswith p [backslash] then ([], take 1 p, drop 1 p)
      else if take 1 (drop 1 p) = '':'' then
        (if take 1 (drop 2 p) = [backslash] then (take 2 p, take 1 (drop 2 p), drop 3 p) else (take 2 p, [], drop 2 p))
      else ([], [], p))"

definition win_root :: "string \<Rightarrow> string \<Rightarrow> string" where
  "win_root drv anchor =
     (if anchor = [] \<and> startswith drv [backslash] \<and> \<not> endswith drv [backslash] then
        (let ps = splitall backslash drv in
         if (length ps = 4 \<and> \<not> contains (ps ! 2) ''?.'') \<or> length ps = 6 then [backslash] else anchor)
      else anchor)"

definition win_parse :: "string \<Rightarrow> string \<times> string \<times> string list" where
  "win_parse s =
     (let (drv, anchor, rel) = win_split (swap_char (CHR ''/'') backslash s) in
      (drv, win_root drv anchor, path_parts backslash rel))"

definition win_text :: "string \<Rightarrow> string" where
  "win_text s =
     (let (drv, anchor, tl') = win_parse s;
          t = (if drv \<noteq> [] \<or> anchor \<noteq> [] then drv @ anchor @ join [backslash] tl'
               else if tl' \<noteq> [] \<and> fst (win_split (hd tl')) \<noteq> [] then join [backslash] (''.'' # tl')
               else join [backslash] tl') in
      swap_char backslash (CHR ''/'') (if t = [] then ''.'' else t))"

definition win_absolute :: "string \<Rightarrow> bool" where
  "win_absolute s = (let (drv, anchor, tl') = win_parse s in drv \<noteq> [] \<and> anchor \<noteq> [])"

section \<open>Names of executables\<close>

definition strip_suffix :: "string \<Rightarrow> string" where
  "strip_suffix s = (case List.find (endswith s) windows_suffixes of None \<Rightarrow> s | Some x \<Rightarrow> take (length s - length x) s)"

definition normalize_executable :: "string \<Rightarrow> string" where
  "normalize_executable v =
     (let raw = swap_char backslash (CHR ''/'') (strip v); n = posix_name raw in
      strip_suffix (casefold (if n = [] then raw else n)))"

definition argv0_has_path :: "string \<Rightarrow> bool" where
  "argv0_has_path v \<longleftrightarrow> CHR ''/'' \<in> set v \<or> backslash \<in> set v \<or> startswith v ''/''"

definition is_windows_path :: "string \<Rightarrow> bool" where
  "is_windows_path v \<longleftrightarrow> backslash \<in> set v
     \<or> (case v of a # b # c # _ \<Rightarrow> let n = code a in
          ((65 \<le> n \<and> n \<le> 90) \<or> (97 \<le> n \<and> n \<le> 122)) \<and> b = CHR '':'' \<and> (c = backslash \<or> c = CHR ''/'') | _ \<Rightarrow> False)"

definition normalize_argv0_identity :: "string \<Rightarrow> string" where
  "normalize_argv0_identity v =
     (let raw = strip v in
      if \<not> argv0_has_path raw then ''bare:'' @ normalize_executable raw
      else if is_windows_path raw then
        (if win_absolute raw then ''windows-absolute:'' else ''windows-relative:'') @ strip_suffix (casefold (win_text raw))
      else (if startswith raw ''/'' then ''posix-absolute:'' else ''posix-relative:'') @ posix_text raw)"

definition normalize_argv :: "string list \<Rightarrow> string list" where
  "normalize_argv argv = (case argv of [] \<Rightarrow> [] | a # r \<Rightarrow> normalize_executable a # r)"

definition normalize_custom_argv :: "string list \<Rightarrow> string list" where
  "normalize_custom_argv argv = (case argv of [] \<Rightarrow> [] | a # r \<Rightarrow> normalize_argv0_identity a # r)"

definition nested_executables :: "string list \<Rightarrow> string list" where
  "nested_executables argv =
     (let known = script_executables @ network_executables @ package_executables @ destructive_executables in
      filter (\<lambda>n. n \<in> set known) (map normalize_executable (tl argv)))"

definition first_in :: "string list \<Rightarrow> string list \<Rightarrow> string option" where
  "first_in vs candidates = List.find (\<lambda>c. c \<in> set vs) (sorted_set candidates)"

section \<open>Shell syntax\<close>

definition syntax_chars :: string where
  "syntax_chars = [CHR 0x0D, CHR 0x0A] @ '';|&<>#`'' @ [CHR 0x27, CHR 0x22]"

fun brace_list :: "string \<Rightarrow> bool" where
  "brace_list [] = False"
| "brace_list (c # s) =
     ((c = CHR ''{'' \<and> CHR ''}'' \<in> set s \<and> CHR '','' \<in> set (takeWhile (\<lambda>x. x \<noteq> CHR ''}'') s)) \<or> brace_list s)"

definition shell_syntax :: "string \<Rightarrow> bool" where
  "shell_syntax t \<longleftrightarrow> list_ex (\<lambda>c. c \<in> set syntax_chars) t
     \<or> contains ''$('' t \<or> contains ''${'' t
     \<or> contains ''<('' t \<or> contains ''>('' t
     \<or> contains ''||'' t \<or> contains ''&&'' t
     \<or> brace_list t"

definition first_shell_syntax_token :: "string list \<Rightarrow> string option" where
  "first_shell_syntax_token argv = List.find shell_syntax argv"

section \<open>Matches\<close>

record rule_match =
  rm_rule :: authority_rule
  rm_argv :: "string list option"

abbreviation rm_effect :: "rule_match \<Rightarrow> capability_effect" where
  "rm_effect m \<equiv> ar_effect (rm_rule m)"

definition shell_match ::
  "string \<Rightarrow> capability_effect \<Rightarrow> authority_risk \<Rightarrow> string list \<Rightarrow> string \<Rightarrow> rule_match" where
  "shell_match rid e rk argv descr =
     \<lparr>rm_rule = \<lparr>ar_rule_id = rid, ar_operation = ''shell.run'', ar_effect = e, ar_risk = rk,
        ar_conditions = sdict [(''argv'', VList (map VStr argv)), (''match'', VStr ''exact'')], ar_description = descr\<rparr>,
      rm_argv = Some argv\<rparr>"

definition guard_auto_allow :: "string list \<Rightarrow> rule_match \<Rightarrow> rule_match" where
  "guard_auto_allow argv m =
     (if rm_effect m = Deny then m
      else case first_shell_syntax_token argv of
        None \<Rightarrow> m
      | Some t \<Rightarrow> shell_match ''shell.syntax.default'' Ask High [t] ''shell metasyntax in argv requires approval'')"

definition harmless_argvs :: "string list list" where
  "harmless_argvs =
     [[''git'', ''status''], [''git'', ''status'', ''--short''], [''git'', ''branch'', ''--show-current''],
      [''git'', ''rev-parse'', ''--show-toplevel''], [''git'', ''diff'', ''--stat''], [''python'', ''--version''],
      [''python3'', ''--version''], [''py'', ''--version''], [''node'', ''--version''], [''npm'', ''--version''],
      [''uv'', ''--version'']]"

definition is_medium_risk :: "string list \<Rightarrow> bool" where
  "is_medium_risk argv \<longleftrightarrow> take 1 argv = [''pytest''] \<or> take 2 argv = [''npm'', ''test''] \<or> take 2 argv = [''uv'', ''run'']"

definition is_high_risk_workspace_write :: "string list \<Rightarrow> bool" where
  "is_high_risk_workspace_write argv \<longleftrightarrow> take 3 argv \<in> {[''python'', ''-m'', ''compileall''],
     [''python3'', ''-m'', ''compileall''], [''py'', ''-m'', ''compileall'']}"

definition classify_builtin :: "string list \<Rightarrow> rule_match res" where
  "classify_builtin argv =
     (if argv = [] then Inl (ValidationError ''shell argv must contain at least one token'')
      else
        let path = argv0_has_path (hd argv);
            norm = normalize_argv argv;
            direct = hd norm;
            names = direct # nested_executables norm;
            g = guard_auto_allow argv in
        Inr (case first_in names destructive_executables of
          Some d \<Rightarrow> shell_match ''shell.destructive.default'' Deny Destructive [d]
            ''destructive shell command is denied by default''
        | None \<Rightarrow> (case first_in names network_executables of
          Some n \<Rightarrow> shell_match ''shell.network.default'' Ask High [n] ''network-capable shell command requires approval''
        | None \<Rightarrow>
          if is_medium_risk norm then
            g (shell_match (''shell.medium.'' @ direct) Ask Medium (take 3 norm) ''project code execution requires approval'')
          else if is_high_risk_workspace_write norm then
            g (shell_match ''shell.high.compileall'' Ask High (take 3 norm)
              ''shell command writes project build artifacts and requires approval'')
          else (case first_in names package_executables of
            Some p \<Rightarrow> g (shell_match ''shell.package-manager.default'' Ask High [p] ''package manager command requires approval'')
          | None \<Rightarrow> (case first_in names script_executables of
            Some s \<Rightarrow> g (shell_match ''shell.interpreter.default'' Ask High [s] ''script interpreter command requires approval'')
          | None \<Rightarrow>
            if \<not> path \<and> norm \<in> set harmless_argvs then
              g (shell_match (''shell.harmless.'' @ direct) Allow Harmless norm ''harmless read-only inspection command'')
            else if \<not> path \<and> norm = [''git'', ''diff''] then
              g (shell_match (''shell.low.'' @ direct) Allow Low (take 3 norm) ''low-risk read-only project inspection command'')
            else g (shell_match ''shell.unknown.default'' Ask Medium [direct]
              ''unclassified shell command requires approval''))))))"

section \<open>Custom rules\<close>

text \<open>The constructor takes rules or mappings and refuses conditions that it does not know or that are malformed.\<close>

definition engine_rule :: "host \<Rightarrow> authority_rule + pyval \<Rightarrow> authority_rule res" where
  "engine_rule h x =
     bindR (case x of Inl r \<Rightarrow> Inr r | Inr v \<Rightarrow> coerce_rule h v) (\<lambda>r.
     bindR (unknown_conditions (ar_conditions r)) (\<lambda>u.
     bindR (malformed_conditions h (ar_conditions r)) (\<lambda>m.
       if u = [] \<and> m = [] then Inr r
       else if list_all is_str u then Inl (ValidationError (''shell rule '' @ ar_rule_id r
         @ (if u \<noteq> [] then '' has unknown conditions: '' @ join '', '' (map the_str u)
            else '' has malformed conditions: '' @ join '', '' m)))
       else Inl (PyTypeError ''sequence item: expected str instance''))))"

definition missing_context_keys :: "authority_rule \<Rightarrow> pydict \<Rightarrow> string list" where
  "missing_context_keys r ctx =
     sorted_set (filter (\<lambda>k. \<not> dhas ctx k) (map (\<lambda>k. if k \<in> {''timeout_s'', ''timeout_max_s''} then ''timeout_s'' else k)
       (filter (\<lambda>k. k \<notin> {''argv'', ''match'', ''regex_token''}) (map (the_str \<circ> fst) (ar_conditions r)))))"

definition matches_rule :: "host \<Rightarrow> pydict \<Rightarrow> authority_rule \<Rightarrow> bool res" where
  "matches_rule h ctx r =
     (let d = ar_conditions r; expected = dget d ''argv''; actual = dget ctx ''argv'' in
      if expected = VNone then rule_matches h r ctx
      else if \<not> is_str_list expected \<or> \<not> is_str_list actual then Inr False
      else if \<not> argv_condition_matches h
          (sdict [(''argv'', VList (map VStr (normalize_custom_argv (str_list expected)))),
            (''match'', dget_or d ''match'' (VStr ''exact''))])
          (sdict [(''argv'', VList (map VStr (normalize_custom_argv (str_list actual))))]) then Inr False
      else rule_matches h (r\<lparr>ar_conditions := dpop (dpop d (VStr ''argv'')) (VStr ''match'')\<rparr>) ctx)"

definition rule_argv :: "authority_rule \<Rightarrow> string list option" where
  "rule_argv r = (let v = dget (ar_conditions r) ''argv'' in if is_str_list v then Some (str_list v) else None)"

fun scan_custom ::
  "host \<Rightarrow> pydict \<Rightarrow> authority_rule list \<Rightarrow> rule_match list \<Rightarrow> bool \<Rightarrow> (rule_match list \<times> bool) res" where
  "scan_custom h ctx [] ms missing = Inr (ms, missing)"
| "scan_custom h ctx (r # rs) ms missing =
     (if ar_operation r \<noteq> ''shell.run'' then scan_custom h ctx rs ms missing
      else if missing_context_keys r ctx \<noteq> [] then scan_custom h ctx rs ms True
      else bindR (matches_rule h ctx r) (\<lambda>b.
        scan_custom h ctx rs (if b then ms @ [\<lparr>rm_rule = r, rm_argv = rule_argv r\<rparr>] else ms) missing))"

definition missing_context_match :: "string list \<Rightarrow> rule_match" where
  "missing_context_match argv =
     shell_match ''shell.custom.context-required'' Deny High [case argv of [] \<Rightarrow> [] | a # _ \<Rightarrow> normalize_executable a]
       ''custom shell rule denied because complete operation context is unavailable''"

definition selected_context :: "string list \<Rightarrow> pydict \<Rightarrow> pydict" where
  "selected_context argv ctx =
     dset (dsetdefault (dsetdefault ctx (VStr ''operation'') (VStr ''shell.run''))
       (VStr ''authority_operation'') (VStr ''shell.run'')) (VStr ''argv'') (VList (map VStr argv))"

definition first_of :: "capability_effect \<Rightarrow> rule_match list \<Rightarrow> rule_match option" where
  "first_of e ms = List.find (\<lambda>m. rm_effect m = e) ms"

text \<open>The loop over the effects: a denial decides, an ask comes before an allow.\<close>

definition select_custom :: "string list \<Rightarrow> rule_match \<Rightarrow> rule_match list \<Rightarrow> bool \<Rightarrow> rule_match" where
  "select_custom argv b ms missing =
     (case first_of Deny ms of
        Some m \<Rightarrow> m
      | None \<Rightarrow>
          (case (case first_of Ask ms of Some m \<Rightarrow> Some m | None \<Rightarrow> first_of Allow ms) of
             None \<Rightarrow> if missing then missing_context_match argv else b
           | Some m \<Rightarrow>
               if rm_effect b = Ask \<and> ar_rule_id (rm_rule b) \<noteq> ''shell.unknown.default'' then b
               else if missing then missing_context_match argv
               else guard_auto_allow argv m))"

definition classify :: "host \<Rightarrow> authority_rule list \<Rightarrow> string list \<Rightarrow> pydict \<Rightarrow> rule_match res" where
  "classify h rules argv ctx =
     bindR (classify_builtin argv) (\<lambda>b.
       if rm_effect b = Deny then Inr b
       else bindR (scan_custom h (selected_context argv ctx) rules [] False) (\<lambda>(ms, missing).
         Inr (select_custom argv b ms missing)))"

end
