(* ===== verification/ShellPolicy.thy ===== *)
theory ShellPolicy
  imports Shell CapDecide
begin

text \<open>
  The authorization of a shell command, \<open>agent_libos/primitives/shell.py\<close>: the classification of the command, the
  shell policy grants of the process, the direct command grants, and the decision that joins them. The validation of
  raw git commands and the dispatch to the provider are not modelled.
\<close>

section \<open>Requests and profiles\<close>

record sandbox_profile =
  sp_operation :: string
  sp_resource :: string
  sp_effect :: capability_effect
  sp_risk :: authority_risk
  sp_rule :: "string option"
  sp_restrictions :: pydict

record shell_request =
  sq_pid :: string
  sq_argv :: "string list"
  sq_resource :: string
  sq_timeout :: pyval
  sq_cwd :: string
  sq_adapter :: string
  sq_primitive :: string
  sq_operation :: string
  sq_authority :: string
  sq_timed :: bool
  sq_continuous :: bool
  sq_extra :: pydict

definition is_high_risk :: "authority_risk \<Rightarrow> bool" where
  "is_high_risk r \<longleftrightarrow> r = High \<or> r = Destructive"

fun filesystem_intent :: "authority_risk \<Rightarrow> string" where
  "filesystem_intent Destructive = ''delete_or_mutate''"
| "filesystem_intent High = ''write_or_external''"
| "filesystem_intent Harmless = ''read''"
| "filesystem_intent Low = ''read''"
| "filesystem_intent Medium = ''execute''"

definition strings :: "string list \<Rightarrow> pyval" where
  "strings xs = VList (map VStr xs)"

text \<open>\<open>SandboxProfileBuilder.shell\<close>\<close>

definition shell_profile ::
  "string \<Rightarrow> authority_rule \<Rightarrow> string list \<Rightarrow> pyval \<Rightarrow> string \<Rightarrow> sandbox_profile" where
  "shell_profile res r argv timeout cwd =
     \<lparr>sp_operation = ''shell.run'', sp_resource = res, sp_effect = ar_effect r, sp_risk = ar_risk r,
      sp_rule = Some (ar_rule_id r),
      sp_restrictions = sdict [(''argv'', strings argv), (''timeout_s'', timeout), (''cwd'', VStr cwd),
        (''shell'', VBool False), (''network'', VBool (is_high_risk (ar_risk r))),
        (''filesystem_intent'', VStr (filesystem_intent (ar_risk r)))]\<rparr>"

definition profile_for_rule :: "shell_request \<Rightarrow> authority_rule \<Rightarrow> sandbox_profile" where
  "profile_for_rule q r =
     (let p = shell_profile (sq_resource q) r (sq_argv q) (sq_timeout q) (sq_cwd q) in
      if sq_operation q \<noteq> ''shell.run'' \<or> sq_continuous q \<or> \<not> sq_timed q then
        let rs = (if sq_timed q then sp_restrictions p
              else dset (dpop (sp_restrictions p) (VStr ''timeout_s'')) (VStr ''startup_timeout_s'') (sq_timeout q));
            rs' = (if sq_continuous q then dset rs (VStr ''continuous_session'') (VBool True) else rs) in
        \<lparr>sp_operation = sq_operation q, sp_resource = sq_resource q, sp_effect = ar_effect r, sp_risk = ar_risk r,
         sp_rule = Some (ar_rule_id r), sp_restrictions = rs'\<rparr>
      else p)"

definition rule_text :: "string option \<Rightarrow> pyval" where
  "rule_text r = (case r of None \<Rightarrow> VNone | Some s \<Rightarrow> VStr s)"

definition profile_json :: "sandbox_profile \<Rightarrow> pyval" where
  "profile_json p = VDict (sdict [(''operation'', VStr (sp_operation p)), (''resource'', VStr (sp_resource p)),
     (''effect'', VStr (effect_value (sp_effect p))), (''risk'', VStr (risk_value (sp_risk p))),
     (''rule_id'', rule_text (sp_rule p)), (''restrictions'', VDict (sp_restrictions p))])"

text \<open>\<open>operation_context\<close>; \<open>extra\<close> is \<open>context.update\<close>.\<close>

definition argv_digest :: "host \<Rightarrow> string list \<Rightarrow> string" where
  "argv_digest h argv = h_sha256 h (join [CHR 0x00] argv)"

definition shell_context :: "host \<Rightarrow> shell_request \<Rightarrow> sandbox_profile \<Rightarrow> pydict" where
  "shell_context h q p =
     fold (\<lambda>(k, v) d. dset d k v) (sq_extra q) (sdict (
       [(''adapter'', VStr (sq_adapter q)), (''primitive'', VStr (sq_primitive q)), (''operation'', VStr (sq_operation q)),
        (''authority_operation'', VStr (sq_authority q)), (''pid'', VStr (sq_pid q)), (''argv'', strings (sq_argv q)),
        (''argv_sha256'', VStr (argv_digest h (sq_argv q))), (''command'', VStr (hd (sq_argv q))),
        (''resource'', VStr (sq_resource q)), (''right'', VStr ''execute''), (''cwd'', VStr (sq_cwd q)),
        (''risk'', VStr (risk_value (sp_risk p))), (''rule_id'', rule_text (sp_rule p)),
        (''rule_effect'', VStr (effect_value (sp_effect p))), (''sandbox_profile'', profile_json p),
        (''network'', VBool (truthy (dget (sp_restrictions p) ''network''))),
        (''filesystem_intent'', dget (sp_restrictions p) ''filesystem_intent'')]
       @ (if sq_timed q then [(''timeout_s'', sq_timeout q)] else [])
       @ (if sq_continuous q then [(''continuous_session'', VBool True)] else [])))"

text \<open>\<open>_command_identity\<close> and \<open>resource_for\<close>\<close>

definition command_identity :: "string \<Rightarrow> string" where
  "command_identity a =
     (if argv0_has_path a then casefold (swap_char backslash (CHR ''/'') (strip a)) else normalize_executable a)"

definition resource_for :: "string list \<Rightarrow> string" where
  "resource_for argv = ''shell:'' @ command_identity (hd argv)"

section \<open>Classification\<close>

definition classify_operation ::
  "host \<Rightarrow> authority_rule list \<Rightarrow> shell_request \<Rightarrow> (rule_match \<times> sandbox_profile \<times> pydict) res" where
  "classify_operation h rules q =
     bindR (classify_builtin (sq_argv q)) (\<lambda>b.
     let ctx = dset (dset (shell_context h q (profile_for_rule q (rm_rule b))) (VStr ''timeout_s'') (sq_timeout q))
         (VStr ''continuous_session'') (VBool (sq_continuous q)) in
     bindR (classify h rules (sq_argv q) ctx) (\<lambda>m.
       let p = profile_for_rule q (rm_rule m) in Inr (m, p, shell_context h q p)))"

section \<open>Decisions\<close>

record shell_decision =
  sd_allowed :: bool
  sd_ask :: bool
  sd_reason :: string
  sd_level :: "string option"
  sd_matched :: "string list option"
  sd_high_risk :: bool
  sd_consume_once :: bool
  sd_consume :: "string option"
  sd_risk :: authority_risk
  sd_rule :: string
  sd_effect :: capability_effect
  sd_profile :: sandbox_profile
  sd_authority :: "capability_decision option"

definition for_rule ::
  "rule_match \<Rightarrow> sandbox_profile \<Rightarrow> bool \<Rightarrow> bool \<Rightarrow> string \<Rightarrow> string option \<Rightarrow> capability_decision option \<Rightarrow> shell_decision" where
  "for_rule m p allowed ask reason level auth =
     (let consume = (if allowed then case auth of None \<Rightarrow> None | Some d \<Rightarrow> cd_consume d else None) in
      \<lparr>sd_allowed = allowed, sd_ask = ask, sd_reason = reason, sd_level = level, sd_matched = rm_argv m,
       sd_high_risk = is_high_risk (ar_risk (rm_rule m)), sd_consume_once = (consume \<noteq> None), sd_consume = consume,
       sd_risk = ar_risk (rm_rule m), sd_rule = ar_rule_id (rm_rule m), sd_effect = rm_effect m, sd_profile = p,
       sd_authority = auth\<rparr>)"

definition rule_reason :: "rule_match \<Rightarrow> string \<Rightarrow> string" where
  "rule_reason m s = (if ar_description (rm_rule m) = [] then s else ar_description (rm_rule m))"

section \<open>Shell policy grants\<close>

definition policy_value :: "cap_env \<Rightarrow> capability_row \<Rightarrow> pyval option" where
  "policy_value env c = map_of (cap_constraints c) (ce_shell_key env)"

definition wider_first :: "capability_row list \<Rightarrow> capability_row list" where
  "wider_first = sort_desc (\<lambda>c. (length (cap_resource c), cap_issued_at c))"

definition shell_policy_caps ::
  "cap_env \<Rightarrow> cap_store \<Rightarrow> shell_request \<Rightarrow> pydict \<Rightarrow> capability_row list res" where
  "shell_policy_caps env st q ctx =
     bindR (matching_capabilities env st (sq_pid q) (sq_resource q) ''execute'' True) (\<lambda>caps.
     bindR (filterR (\<lambda>c. if cap_effect c = Deny then Inr True else constraints_satisfied env st c ctx)
         (filter (\<lambda>c. policy_value env c \<noteq> None) caps)) (\<lambda>cs.
       Inr (wider_first cs)))"

definition preflight_denial ::
  "cap_env \<Rightarrow> capability_row list \<Rightarrow> rule_match \<Rightarrow> sandbox_profile \<Rightarrow> shell_decision option" where
  "preflight_denial env caps m p =
     (if list_ex (\<lambda>c. cap_effect c = Deny \<or> policy_value env c = Some (VStr ''always_deny'')) caps then
        Some ((for_rule m p False False ''shell policy is always_deny'' (Some ''always_deny'') None)\<lparr>sd_high_risk := False\<rparr>)
      else if rm_effect m = Deny then
        Some ((for_rule m p False False (rule_reason m ''shell rule denied command'') None None)\<lparr>sd_high_risk := True\<rparr>)
      else None)"

text \<open>The levels are constants: the configuration gives each of them as a property with a fixed value.\<close>

definition policy_levels :: "string list" where
  "policy_levels = [''always_deny'', ''allowlist_auto_else_ask'', ''blocklist_ask_else_auto'', ''always_allow'']"

definition normalize_policy_level :: "host \<Rightarrow> pyval \<Rightarrow> string res" where
  "normalize_policy_level h v =
     (let s = py_lower (strip (py_str (h_repr h) v)) in
      if s \<in> set policy_levels then Inr s else Inl (ValidationError (''unknown shell policy level: '' @ h_repr h v)))"

definition selected_policy_level :: "cap_env \<Rightarrow> capability_row list \<Rightarrow> string option \<Rightarrow> string res" where
  "selected_policy_level env caps sel =
     (let c = (case List.find (\<lambda>c. Some (cap_id c) = sel) caps of Some c \<Rightarrow> c | None \<Rightarrow> hd caps) in
      normalize_policy_level (ce_host env) (case policy_value env c of Some v \<Rightarrow> v | None \<Rightarrow> VNone))"

section \<open>Direct command grants\<close>

definition has_authority_rules :: "capability_row \<Rightarrow> bool" where
  "has_authority_rules c \<longleftrightarrow> map_of (cap_constraints c) ''authority_rules'' \<noteq> None"

definition direct_applies :: "capability_row \<Rightarrow> pydict \<Rightarrow> bool" where
  "direct_applies c ctx \<longleftrightarrow> cap_effect c \<noteq> Allow \<or> has_authority_rules c
     \<or> (dget_or ctx ''authority_operation'' (VStr ''shell.run'') = VStr ''shell.run''
        \<and> dget ctx ''rule_effect'' = VStr ''allow'')"

definition direct_caps ::
  "cap_env \<Rightarrow> string \<Rightarrow> cap_store \<Rightarrow> shell_request \<Rightarrow> pydict \<Rightarrow> capability_row list res" where
  "direct_caps env wild st q ctx =
     bindR (matching_capabilities env st (sq_pid q) (sq_resource q) ''execute'' True) (\<lambda>caps.
       Inr (wider_first (filter (\<lambda>c. policy_value env c = None \<and> (cap_resource c \<noteq> wild \<or> cap_effect c \<noteq> Allow)
         \<and> direct_applies c ctx) caps)))"

definition explicit_decision ::
  "cap_env \<Rightarrow> string \<Rightarrow> cap_store \<Rightarrow> shell_request \<Rightarrow> pydict \<Rightarrow> capability_decision latched" where
  "explicit_decision env wild st q ctx =
     bindL (liftL (direct_caps env wild st q ctx)) (\<lambda>caps.
       authorize_matching env st (sq_pid q) (sq_resource q) ''execute'' caps ctx)"

section \<open>The authorization\<close>

definition level_decision ::
  "rule_match \<Rightarrow> sandbox_profile \<Rightarrow> string \<Rightarrow> capability_decision \<Rightarrow> shell_decision" where
  "level_decision m p level d =
     (if cd_effect d = Some Ask then
        for_rule m p False True ''shell policy capability requires approval'' (Some level) (Some d)
      else if \<not> cd_allowed d then for_rule m p False False (cd_reason d) (Some level) None
      else if level \<in> {''allowlist_auto_else_ask'', ''blocklist_ask_else_auto''} then
        (if rm_effect m = Allow then
           for_rule m p True False (rule_reason m ''shell rule allowed command'') (Some level) (Some d)
         else for_rule m p False True (rule_reason m ''shell rule requires approval'') (Some level) (Some d))
      else if level = ''always_allow'' then for_rule m p True False ''shell policy is always_allow'' (Some level) (Some d)
      else for_rule m p False False (''unsupported shell policy level: '' @ level) (Some level) None)"

definition policy_decision ::
  "cap_env \<Rightarrow> cap_store \<Rightarrow> shell_request \<Rightarrow> capability_row list \<Rightarrow> rule_match \<Rightarrow> sandbox_profile \<Rightarrow> pydict \<Rightarrow>
   shell_decision latched" where
  "policy_decision env st q caps m p ctx =
     (if caps = [] then liftL (Inl (CapabilityDenied (sq_pid q @ '' lacks shell execute policy for '' @ sq_resource q)))
      else
        bindL (authorize_matching env st (sq_pid q) (sq_resource q) ''execute'' caps ctx) (\<lambda>d.
        bindL (liftL (selected_policy_level env caps (cd_selected d))) (\<lambda>level.
          liftL (Inr (level_decision m p level d)))))"

text \<open>\<open>authorize_operation\<close>; \<open>rules\<close> are those of the engine, \<open>wild\<close> is the policy resource.\<close>

definition authorize_shell ::
  "cap_env \<Rightarrow> authority_rule list \<Rightarrow> string \<Rightarrow> cap_store \<Rightarrow> shell_request \<Rightarrow> shell_decision latched" where
  "authorize_shell env rules wild st q =
     bindL (liftL (classify_operation (ce_host env) rules q)) (\<lambda>(m, p, ctx).
     bindL (liftL (shell_policy_caps env st q ctx)) (\<lambda>caps.
       case preflight_denial env caps m p of
         Some d \<Rightarrow> liftL (Inr d)
       | None \<Rightarrow>
           bindL (explicit_decision env wild st q ctx) (\<lambda>d.
             let pol = policy d in
             if pol = ''always_deny'' then
               liftL (Inr (for_rule m p False False ''explicit command capability denied command'' (Some pol) None))
             else if pol = ''ask_each_time'' then
               liftL (Inr (for_rule m p False True ''explicit command capability requires approval'' (Some pol) (Some d)))
             else if pol \<in> {''always_allow'', ''allow_once''} then
               liftL (Inr (for_rule m p True False ''explicit command capability allowed command'' (Some pol) (Some d)))
             else policy_decision env st q caps m p ctx)))"

section \<open>Configured rules and approvals\<close>

definition configured_rule :: "capability_effect \<Rightarrow> string list \<Rightarrow> string \<Rightarrow> string \<Rightarrow> authority_rule" where
  "configured_rule e argv m descr =
     \<lparr>ar_rule_id = (if e = Allow then ''shell.config.allow.'' else ''shell.config.ask.'') @ join ''.'' argv,
      ar_operation = ''shell.run'', ar_effect = e, ar_risk = (if e = Allow then Harmless else High),
      ar_conditions = sdict [(''argv'', strings argv), (''match'', VStr m)],
      ar_description = (if descr \<noteq> [] then descr
        else if e = Allow then ''configured harmless shell allow rule'' else ''configured high-risk shell ask rule'')\<rparr>"

definition configured_rules ::
  "authority_rule list \<Rightarrow> (string list \<times> string \<times> string) list \<Rightarrow> (string list \<times> string \<times> string) list \<Rightarrow> authority_rule list" where
  "configured_rules rules whitelist blacklist =
     rules @ map (\<lambda>(argv, m, d). configured_rule Allow argv m d) whitelist
     @ map (\<lambda>(argv, m, d). configured_rule Ask argv m d) blacklist"

text \<open>\<open>approval_constraints\<close>\<close>

definition approval_conditions :: "host \<Rightarrow> string list \<Rightarrow> pyval \<Rightarrow> string \<Rightarrow> bool \<Rightarrow> pydict \<Rightarrow> pydict" where
  "approval_conditions h argv timeout cwd timed extra =
     fold (\<lambda>(k, v) d. dset d k v) extra (sdict (
       [(''argv'', strings argv), (''match'', VStr ''exact''), (''argv_sha256'', VStr (argv_digest h argv)), (''cwd'', VStr cwd)]
       @ (if timed then [(''timeout_s'', timeout)] else [])))"

definition approval_constraints ::
  "host \<Rightarrow> string list \<Rightarrow> shell_decision \<Rightarrow> pyval \<Rightarrow> string \<Rightarrow> string \<Rightarrow> bool \<Rightarrow> pydict \<Rightarrow> string \<Rightarrow> (string \<times> pyval) list" where
  "approval_constraints h argv d timeout cwd opn timed extra descr =
     [(''authority_rules'', VList [VDict (sdict
        [(''rule_id'', VStr (''shell.approval.'' @ (if sd_rule d = [] then ''exact'' else sd_rule d))),
         (''operation'', VStr opn), (''effect'', VStr ''allow''), (''risk'', VStr (risk_value (sd_risk d))),
         (''conditions'', VDict (approval_conditions h argv timeout cwd timed extra)), (''description'', VStr descr)])])]"

section \<open>The argument vector\<close>

text \<open>The checks of \<open>validate_argv\<close> on the tokens.\<close>

definition check_token :: "nat \<times> pyval \<Rightarrow> string res" where
  "check_token = (\<lambda>(i, v).
     let name = ''shell argv['' @ show_nat i @ '']'' in
     case v of
       VStr s \<Rightarrow>
         bindR (check (CHR 0x00 \<notin> set s) (ValidationError (name @ '' cannot contain NUL bytes''))) (\<lambda>_.
         bindR (check (i \<noteq> 0 \<or> strip s \<noteq> []) (ValidationError (name @ '' must be non-empty''))) (\<lambda>_. Inr s))
     | _ \<Rightarrow> Inl (ValidationError (name @ '' must be a string'')))"

definition validate_argv :: "pyval \<Rightarrow> string list res" where
  "validate_argv v =
     (case v of
        VList (x # xs) \<Rightarrow> mapR check_token (enumerate 0 (x # xs))
      | _ \<Rightarrow> Inl (ValidationError ''shell argv must be a non-empty list''))"

text \<open>\<open>_validate_timeout\<close>; \<open>limit\<close> is the configured hard limit.\<close>

definition validate_timeout :: "host \<Rightarrow> rat \<Rightarrow> pyval \<Rightarrow> rat res" where
  "validate_timeout h limit v =
     (case py_float h v of
        FloatBad \<Rightarrow> Inl (ValidationError ''shell timeout must be a number'')
      | FloatOverflow \<Rightarrow> Inl (PyOverflowError ''int too large to convert to float'')
      | FloatOk (Fin q) \<Rightarrow>
          if q \<le> 0 then Inl (ValidationError ''shell timeout must be > 0'')
          else if limit < q then
            Inl (ValidationError (''shell timeout exceeds hard limit '' @ h_repr h (VFloat (Fin limit)) @ ''s''))
          else Inr q
      | FloatOk _ \<Rightarrow> Inl (ValidationError ''shell timeout must be finite''))"

end
