(* ===== verification/ShellProps.thy ===== *)
theory ShellProps
  imports ShellPolicy
begin

text \<open>
  What the shell authorization guarantees: the exact set of commands that run without a rule, what an allowed
  classification excludes, that destructive commands never run, and what an automatic run rests on.
\<close>

section \<open>The built-in classes\<close>

lemma first_in_None: "first_in vs cs = None \<longleftrightarrow> set cs \<inter> set vs = {}"
  unfolding first_in_def find_None_iff by auto

lemma guard_effect: "rm_effect (guard_auto_allow argv m) = Allow \<longleftrightarrow> rm_effect m = Allow \<and> (\<forall>t \<in> set argv. \<not> shell_syntax t)"
  by (cases "rm_effect m") (auto simp: guard_auto_allow_def first_shell_syntax_token_def shell_match_def find_None_iff find_Some_iff
      split: option.splits)

lemma guard_deny [simp]: "rm_effect m \<noteq> Deny \<Longrightarrow> rm_effect (guard_auto_allow argv m) \<noteq> Deny"
  by (auto simp: guard_auto_allow_def shell_match_def split: option.splits)

lemma shell_match_fields [simp]:
  "rm_effect (shell_match rid e rk argv d) = e" "ar_rule_id (rm_rule (shell_match rid e rk argv d)) = rid"
  by (simp_all add: shell_match_def)

definition command_names :: "string list \<Rightarrow> string list" where
  "command_names argv = hd (normalize_argv argv) # nested_executables (normalize_argv argv)"

text \<open>The commands of git that the engine runs by itself.\<close>

definition plain_git :: "string list list" where
  "plain_git = [[''git'', ''status''], [''git'', ''status'', ''--short''], [''git'', ''branch'', ''--show-current''],
     [''git'', ''rev-parse'', ''--show-toplevel''], [''git'', ''diff'', ''--stat''], [''git'', ''diff'']]"

lemma plain_git_unnamed:
  "list_all (\<lambda>norm. list_all (\<lambda>cs. first_in (hd norm # nested_executables norm) cs = None)
     [destructive_executables, network_executables, package_executables, script_executables]
     \<and> \<not> is_medium_risk norm \<and> \<not> is_high_risk_workspace_write norm \<and> (norm \<in> set harmless_argvs \<or> norm = [''git'', ''diff''])) plain_git"
  by code_simp

lemma harmless_named:
  "list_all (\<lambda>norm. norm \<in> set plain_git \<or> first_in (hd norm # nested_executables norm) package_executables \<noteq> None
     \<or> first_in (hd norm # nested_executables norm) script_executables \<noteq> None) ([''git'', ''diff''] # harmless_argvs)"
  by code_simp

text \<open>The classes one after the other.\<close>

lemma classify_builtin_cases:
  assumes "classify_builtin argv = Inr m"
  obtains d where "first_in (command_names argv) destructive_executables = Some d"
      "m = shell_match ''shell.destructive.default'' Deny Destructive [d] ''destructive shell command is denied by default''"
    | n where "first_in (command_names argv) network_executables = Some n"
      "m = shell_match ''shell.network.default'' Ask High [n] ''network-capable shell command requires approval''"
    | m0 where "m = guard_auto_allow argv m0" "rm_effect m0 = Ask" "ar_rule_id (rm_rule m0) \<noteq> ''shell.unknown.default''"
      "is_medium_risk (normalize_argv argv) \<or> is_high_risk_workspace_write (normalize_argv argv)
        \<or> first_in (command_names argv) package_executables \<noteq> None \<or> first_in (command_names argv) script_executables \<noteq> None"
    | m0 where "m = guard_auto_allow argv m0"
      "list_all (\<lambda>cs. first_in (command_names argv) cs = None)
        [destructive_executables, network_executables, package_executables, script_executables]"
      "rm_effect m0 = (if \<not> argv0_has_path (hd argv) \<and> normalize_argv argv \<in> set ([''git'', ''diff''] # harmless_argvs) then Allow else Ask)"
      "rm_effect m0 = Ask \<longrightarrow> ar_rule_id (rm_rule m0) = ''shell.unknown.default''"
proof -
  have ne: "argv \<noteq> []" using assms by (auto simp: classify_builtin_def)
  define norm where "norm = normalize_argv argv"
  define names where "names = command_names argv"
  define path where "path = argv0_has_path (hd argv)"
  define g where "g = guard_auto_allow argv"
  have m: "m = (case first_in names destructive_executables of
          Some d \<Rightarrow> shell_match ''shell.destructive.default'' Deny Destructive [d]
            ''destructive shell command is denied by default''
        | None \<Rightarrow> (case first_in names network_executables of
          Some n \<Rightarrow> shell_match ''shell.network.default'' Ask High [n] ''network-capable shell command requires approval''
        | None \<Rightarrow>
          if is_medium_risk norm then
            g (shell_match (''shell.medium.'' @ hd norm) Ask Medium (take 3 norm) ''project code execution requires approval'')
          else if is_high_risk_workspace_write norm then
            g (shell_match ''shell.high.compileall'' Ask High (take 3 norm)
              ''shell command writes project build artifacts and requires approval'')
          else (case first_in names package_executables of
            Some p \<Rightarrow> g (shell_match ''shell.package-manager.default'' Ask High [p] ''package manager command requires approval'')
          | None \<Rightarrow> (case first_in names script_executables of
            Some s \<Rightarrow> g (shell_match ''shell.interpreter.default'' Ask High [s] ''script interpreter command requires approval'')
          | None \<Rightarrow>
            if \<not> path \<and> norm \<in> set harmless_argvs then
              g (shell_match (''shell.harmless.'' @ hd norm) Allow Harmless norm ''harmless read-only inspection command'')
            else if \<not> path \<and> norm = [''git'', ''diff''] then
              g (shell_match (''shell.low.'' @ hd norm) Allow Low (take 3 norm) ''low-risk read-only project inspection command'')
            else g (shell_match ''shell.unknown.default'' Ask Medium [hd norm]
              ''unclassified shell command requires approval'')))))"
    using assms unfolding classify_builtin_def Let_def if_not_P [OF ne] sum.inject names_def command_names_def norm_def path_def g_def
    by (rule sym)
  show thesis
  proof (cases "first_in names destructive_executables")
    case (Some d)
    then show ?thesis using m that(1) [of d] by (simp add: names_def)
  next
    case d: None
    show ?thesis
    proof (cases "first_in names network_executables")
      case (Some n)
      then show ?thesis using m d that(2) [of n] by (simp add: names_def)
    next
      case n: None
      note m = m [unfolded d n option.case]
      show ?thesis
      proof (cases "is_medium_risk norm \<or> is_high_risk_workspace_write norm
          \<or> first_in names package_executables \<noteq> None \<or> first_in names script_executables \<noteq> None")
        case True
        have asked: "\<exists>rid rk xs t. m = g (shell_match rid Ask rk xs t) \<and> rid \<noteq> ''shell.unknown.default''"
          if "m = g (shell_match rid Ask rk xs t)" "rid \<noteq> ''shell.unknown.default''" for rid rk xs t
          using that by blast
        have medium: "''shell.medium.'' @ x \<noteq> ''shell.unknown.default''" for x by simp
        consider "is_medium_risk norm" | "\<not> is_medium_risk norm" "is_high_risk_workspace_write norm"
          | p where "\<not> is_medium_risk norm" "\<not> is_high_risk_workspace_write norm" "first_in names package_executables = Some p"
          | q where "\<not> is_medium_risk norm" "\<not> is_high_risk_workspace_write norm" "first_in names package_executables = None"
              "first_in names script_executables = Some q"
          using True by fastforce
        then have "\<exists>rid rk xs t. m = g (shell_match rid Ask rk xs t) \<and> rid \<noteq> ''shell.unknown.default''"
        proof cases
          case 1
          show ?thesis by (rule asked [OF m [unfolded if_P [OF 1]] medium])
        next
          case 2
          show ?thesis by (rule asked [OF m [unfolded if_not_P [OF 2(1)] if_P [OF 2(2)]]]) simp
        next
          case (3 p)
          show ?thesis by (rule asked [OF m [unfolded if_not_P [OF 3(1)] if_not_P [OF 3(2)] 3(3) option.case]]) simp
        next
          case (4 q)
          show ?thesis by (rule asked [OF m [unfolded if_not_P [OF 4(1)] if_not_P [OF 4(2)] 4(3,4) option.case]]) simp
        qed
        then obtain rid rk xs t where "m = g (shell_match rid Ask rk xs t)" "rid \<noteq> ''shell.unknown.default''" by blast
        then show ?thesis using that(3) [of "shell_match rid Ask rk xs t"] True by (simp add: g_def norm_def names_def)
      next
        case False
        then have m: "m = (if \<not> path \<and> norm \<in> set harmless_argvs then
              g (shell_match (''shell.harmless.'' @ hd norm) Allow Harmless norm ''harmless read-only inspection command'')
            else if \<not> path \<and> norm = [''git'', ''diff''] then
              g (shell_match (''shell.low.'' @ hd norm) Allow Low (take 3 norm) ''low-risk read-only project inspection command'')
            else g (shell_match ''shell.unknown.default'' Ask Medium [hd norm]
              ''unclassified shell command requires approval''))"
          unfolding m by simp
        have "\<exists>m0. m = g m0 \<and> rm_effect m0 = (if \<not> path \<and> norm \<in> set ([''git'', ''diff''] # harmless_argvs) then Allow else Ask)
            \<and> (rm_effect m0 = Ask \<longrightarrow> ar_rule_id (rm_rule m0) = ''shell.unknown.default'')"
        proof (cases "\<not> path \<and> norm \<in> set harmless_argvs")
          case True
          show ?thesis unfolding m if_P [OF True] by (intro exI conjI, rule refl) (use True in auto)
        next
          case no: False
          show ?thesis
          proof (cases "\<not> path \<and> norm = [''git'', ''diff'']")
            case True
            show ?thesis unfolding m if_not_P [OF no] if_P [OF True] by (intro exI conjI, rule refl) (use True in auto)
          next
            case False
            show ?thesis unfolding m if_not_P [OF no] if_not_P [OF False] by (intro exI conjI, rule refl) (use no False in auto)
          qed
        qed
        then obtain m0 where "m = g m0" "rm_effect m0 = (if \<not> path \<and> norm \<in> set ([''git'', ''diff''] # harmless_argvs) then Allow else Ask)"
          "rm_effect m0 = Ask \<longrightarrow> ar_rule_id (rm_rule m0) = ''shell.unknown.default''" by blast
        then show ?thesis using that(4) [of m0] False d n by (simp add: g_def norm_def names_def path_def)
      qed
    qed
  qed
qed

lemma plain_git_open:
  assumes "normalize_argv argv \<in> set plain_git"
  shows "first_in (command_names argv) destructive_executables = None" "first_in (command_names argv) network_executables = None"
    "first_in (command_names argv) package_executables = None" "first_in (command_names argv) script_executables = None"
    "\<not> is_medium_risk (normalize_argv argv)" "\<not> is_high_risk_workspace_write (normalize_argv argv)"
    "normalize_argv argv \<in> set ([''git'', ''diff''] # harmless_argvs)"
  using assms plain_git_unnamed unfolding command_names_def list_all_iff by auto

lemma open_plain_git:
  assumes "normalize_argv argv \<in> set ([''git'', ''diff''] # harmless_argvs)"
    "first_in (command_names argv) package_executables = None" "first_in (command_names argv) script_executables = None"
  shows "normalize_argv argv \<in> set plain_git"
  using assms harmless_named unfolding command_names_def list_all_iff by blast

lemma classify_builtin_allow:
  assumes "classify_builtin argv = Inr m"
  shows "rm_effect m = Allow \<longleftrightarrow> \<not> argv0_has_path (hd argv) \<and> normalize_argv argv \<in> set plain_git \<and> (\<forall>t \<in> set argv. \<not> shell_syntax t)"
  using assms
proof (rule classify_builtin_cases)
  fix d
  assume "first_in (command_names argv) destructive_executables = Some d" "m = shell_match ''shell.destructive.default'' Deny Destructive [d]
      ''destructive shell command is denied by default''"
  then show ?thesis using plain_git_open(1) [of argv] by auto
next
  fix n
  assume "first_in (command_names argv) network_executables = Some n"
    "m = shell_match ''shell.network.default'' Ask High [n] ''network-capable shell command requires approval''"
  then show ?thesis using plain_git_open(2) [of argv] by auto
next
  fix m0
  assume "m = guard_auto_allow argv m0" "rm_effect m0 = Ask" "is_medium_risk (normalize_argv argv) \<or> is_high_risk_workspace_write (normalize_argv argv)
        \<or> first_in (command_names argv) package_executables \<noteq> None \<or> first_in (command_names argv) script_executables \<noteq> None"
  then show ?thesis using plain_git_open(3-6) [of argv] by (auto simp: guard_effect)
next
  fix m0
  assume m: "m = guard_auto_allow argv m0" and open_names: "list_all (\<lambda>cs. first_in (command_names argv) cs = None)
        [destructive_executables, network_executables, package_executables, script_executables]"
    and e: "rm_effect m0 = (if \<not> argv0_has_path (hd argv) \<and> normalize_argv argv \<in> set ([''git'', ''diff''] # harmless_argvs) then Allow else Ask)"
  have "normalize_argv argv \<in> set ([''git'', ''diff''] # harmless_argvs) \<longleftrightarrow> normalize_argv argv \<in> set plain_git"
    using open_plain_git plain_git_open(7) open_names by (auto simp del: set_simps)
  then show ?thesis using m e by (auto simp: guard_effect simp del: list.set)
qed

lemma destructive_named:
  assumes "t \<in> set argv" "normalize_executable t \<in> set destructive_executables"
  shows "\<exists>d. classify_builtin argv = Inr (shell_match ''shell.destructive.default'' Deny Destructive [d]
    ''destructive shell command is denied by default'')"
proof -
  have "normalize_executable t \<in> set (command_names argv)"
    using assms by (cases argv) (auto simp: command_names_def normalize_argv_def nested_executables_def)
  then have "first_in (command_names argv) destructive_executables \<noteq> None"
    using assms(2) unfolding first_in_None by blast
  then obtain d where "first_in (command_names argv) destructive_executables = Some d" by blast
  moreover have ne: "argv \<noteq> []" using assms(1) by auto
  ultimately show ?thesis unfolding classify_builtin_def Let_def command_names_def if_not_P [OF ne]
    by (intro exI [of _ d]) (simp only: option.case)
qed

text \<open>Anything but a named executable: the classes that leave the decision to custom rules.\<close>

lemma classify_builtin_open:
  assumes "classify_builtin argv = Inr b" "rm_effect b = Allow \<or> (rm_effect b = Ask \<and> ar_rule_id (rm_rule b) = ''shell.unknown.default'')"
    "t \<in> set argv"
  shows "normalize_executable t \<notin> set (destructive_executables @ network_executables @ package_executables @ script_executables)
    \<and> \<not> shell_syntax t"
  using assms(1)
proof (rule classify_builtin_cases)
  fix m0
  assume b: "b = guard_auto_allow argv m0" and "rm_effect m0 = Ask" "ar_rule_id (rm_rule m0) \<noteq> ''shell.unknown.default''"
  then show ?thesis using assms(2) by (auto simp: guard_auto_allow_def split: option.splits)
next
  fix m0
  assume b: "b = guard_auto_allow argv m0" and open_names: "list_all (\<lambda>cs. first_in (command_names argv) cs = None)
        [destructive_executables, network_executables, package_executables, script_executables]"
  have "\<not> shell_syntax t"
    using assms(2,3) unfolding b guard_auto_allow_def first_shell_syntax_token_def
    by (auto simp: find_None_iff split: if_splits option.splits)
  moreover have "normalize_executable t \<in> set (command_names argv) \<or>
      normalize_executable t \<notin> set (script_executables @ network_executables @ package_executables @ destructive_executables)"
    using assms(3) by (cases argv) (auto simp: command_names_def normalize_argv_def nested_executables_def)
  ultimately show ?thesis using open_names unfolding list_all_iff first_in_None by auto
qed (use assms(2) in auto)

section \<open>Custom rules\<close>

lemma scan_custom_keeps:
  assumes "scan_custom h ctx rs ms missing = Inr (ms', missing')"
  shows "set ms \<subseteq> set ms' \<and> (missing \<longrightarrow> missing')"
  using assms
proof (induction rs arbitrary: ms missing)
  case (Cons q rs)
  consider missing1 where "scan_custom h ctx rs ms missing1 = Inr (ms', missing')" "missing \<longrightarrow> missing1"
    | m where "scan_custom h ctx rs (ms @ [m]) missing = Inr (ms', missing')"
    using Cons.prems by (auto simp: res_simps split: if_splits)
  then show ?case using Cons.IH by cases (fastforce, fastforce)
qed simp

lemma scan_custom_all:
  assumes "scan_custom h ctx rs ms missing = Inr (ms', missing')" "r \<in> set rs" "ar_operation r = ''shell.run''"
  shows "missing' \<or> (missing_context_keys r ctx = [] \<and> (matches_rule h ctx r = Inr False
    \<or> (matches_rule h ctx r = Inr True \<and> \<lparr>rm_rule = r, rm_argv = rule_argv r\<rparr> \<in> set ms')))"
  using assms
proof (induction rs arbitrary: ms missing)
  case (Cons q rs)
  show ?case
  proof (cases "q = r")
    case False
    then show ?thesis using Cons by (auto simp: res_simps split: if_splits)
  next
    case True
    show ?thesis
    proof (cases "missing_context_keys r ctx = []")
      case False
      then have "scan_custom h ctx rs ms True = Inr (ms', missing')" using Cons.prems True by simp
      then show ?thesis using scan_custom_keeps by blast
    next
      case complete: True
      then obtain b where b: "matches_rule h ctx r = Inr b"
        and rest: "scan_custom h ctx rs (if b then ms @ [\<lparr>rm_rule = r, rm_argv = rule_argv r\<rparr>] else ms) missing = Inr (ms', missing')"
        using Cons.prems True by (auto simp: res_simps)
      show ?thesis using complete b scan_custom_keeps [OF rest] by (cases b) simp_all
    qed
  qed
qed simp

lemma scan_custom_from:
  assumes "scan_custom h ctx rs ms missing = Inr (ms', missing')" "m \<in> set ms'"
  shows "m \<in> set ms \<or> (rm_rule m \<in> set rs \<and> ar_operation (rm_rule m) = ''shell.run'' \<and> matches_rule h ctx (rm_rule m) = Inr True)"
  using assms
proof (induction rs arbitrary: ms missing)
  case (Cons q rs)
  then show ?case by (fastforce simp: res_simps split: if_splits)
qed simp

lemma first_of_None: "first_of e ms = None \<longleftrightarrow> (\<forall>m \<in> set ms. rm_effect m \<noteq> e)"
  unfolding first_of_def find_None_iff by blast

lemma first_of_Some: "first_of e ms = Some m \<Longrightarrow> m \<in> set ms \<and> rm_effect m = e"
  by (auto simp: first_of_def dest: find_SomeD)

lemma select_allow:
  assumes "rm_effect (select_custom argv b ms missing) = Allow" "rm_effect b \<noteq> Deny"
  shows "\<not> missing \<and> (\<forall>m \<in> set ms. rm_effect m = Allow)
    \<and> (rm_effect b = Allow \<or> (ar_rule_id (rm_rule b) = ''shell.unknown.default'' \<and> ms \<noteq> []))"
proof -
  have missing_deny: "rm_effect (missing_context_match argv) = Deny" by (simp add: missing_context_match_def)
  have d: "first_of Deny ms = None" using assms(1) by (auto simp: select_custom_def dest: first_of_Some split: option.splits)
  have a: "first_of Ask ms = None"
  proof (cases "first_of Ask ms")
    case (Some m)
    then have "rm_effect m = Ask" by (auto dest: first_of_Some)
    then show ?thesis using assms(1) Some d
      by (auto simp: select_custom_def missing_deny guard_effect split: if_splits)
  qed simp
  have "\<forall>m \<in> set ms. rm_effect m = Allow"
    using a d unfolding first_of_None by (metis capability_effect.exhaust)
  moreover have "\<not> missing"
    using assms(1) a d by (auto simp: select_custom_def missing_deny split: option.splits if_splits)
  moreover have "rm_effect b = Allow \<or> (ar_rule_id (rm_rule b) = ''shell.unknown.default'' \<and> ms \<noteq> [])"
    using assms a d by (cases "rm_effect b") (auto simp: select_custom_def missing_deny split: option.splits if_splits dest: first_of_Some)
  ultimately show ?thesis by blast
qed

section \<open>Decisions over the capabilities\<close>

lemma decide_effect:
  assumes "decide h subj res rt evs ctx ch = Inr d"
  shows "cd_allowed d \<longleftrightarrow> cd_effect d = Some Allow"
proof -
  obtain es where es: "evaluate_matches h subj res rt evs ctx ch = Inr es"
    using assms by (auto simp: decide_def res_simps)
  show ?thesis
  proof (cases "choose_decision (decided es)")
    case None
    then show ?thesis
      using assms es by (auto simp: decide_def make_decision_def no_match_decision_def split: list.splits)
  next
    case (Some x)
    then have "x \<in> set (decided es)"
      unfolding choose_decision_def by (auto split: option.splits if_splits dest: find_effect_Some find_SomeD)
    then have "cd_allowed (snd x) \<longleftrightarrow> cd_effect (snd x) = Some Allow" by (rule decided_effect [OF es])
    moreover have "d = snd x" using assms es Some by (simp add: decide_def)
    ultimately show ?thesis by simp
  qed
qed

lemma matching_effect:
  assumes "authorize_matching env st subj res rt caps ctx l = (l', Inr d)"
  shows "cd_allowed d \<longleftrightarrow> cd_effect d = Some Allow"
proof -
  obtain evs d0 where "decide (ce_host env) subj res rt evs ctx (\<lambda>_. []) = Inr d0" "cd_allowed d = cd_allowed d0"
    "cd_effect d = cd_effect d0"
    by (rule decision_from_matches_Inr [OF assms [unfolded authorize_matching_def]])
  then show ?thesis using decide_effect by simp
qed

lemma matching_allowed:
  assumes "authorize_matching env st subj res rt caps ctx l = (l', Inr d)" "cd_allowed d"
  obtains c rs where "c \<in> set caps" "cd_selected d = Some (cap_id c)" "cap_subject c = subj" "live_match env st res rt c"
    "cap_effect c = Allow" "evaluate_constraints (ce_host env) c ctx = Inr rs" "list_all (\<lambda>p. cr_ok (snd p)) rs"
  by (rule decision_from_matches_allowed [OF assms(1) [unfolded authorize_matching_def] assms(2)]) (use that in auto)

lemma set_wider_first [simp]: "set (wider_first caps) = set caps"
  by (simp add: wider_first_def sort_desc_def)

lemma matching_capabilities_set:
  assumes "matching_capabilities env st subj res rt True = Inr caps"
  shows "set caps = {c \<in> set (list_caps st (Some subj)). live_match env st res rt c}"
  using assms by (auto simp: matching_capabilities_def res_simps)

lemma list_caps_set: "set (list_caps st (Some subj)) = {c \<in> set (st_caps st). cap_subject c = subj}"
  by (auto simp: list_caps_def)

lemma policy_caps_set:
  assumes "shell_policy_caps env st q ctx = Inr caps"
  shows "c \<in> set caps \<longleftrightarrow> c \<in> set (st_caps st) \<and> cap_subject c = sq_pid q \<and> live_match env st (sq_resource q) ''execute'' c
    \<and> policy_value env c \<noteq> None \<and> (cap_effect c = Deny \<or> constraints_satisfied env st c ctx = Inr True)"
proof -
  obtain all cs where "matching_capabilities env st (sq_pid q) (sq_resource q) ''execute'' True = Inr all"
    "filterR (\<lambda>c. if cap_effect c = Deny then Inr True else constraints_satisfied env st c ctx)
       (filter (\<lambda>c. policy_value env c \<noteq> None) all) = Inr cs" "caps = wider_first cs"
    using assms by (auto simp: shell_policy_caps_def res_simps)
  then show ?thesis
    using filterR_Inr_set [of _ "filter (\<lambda>c. policy_value env c \<noteq> None) all" cs c] matching_capabilities_set list_caps_set by auto
qed

lemma direct_caps_set:
  assumes "direct_caps env wild st q ctx = Inr caps" "c \<in> set caps"
  shows "policy_value env c = None \<and> (cap_resource c \<noteq> wild \<or> cap_effect c \<noteq> Allow) \<and> direct_applies c ctx
    \<and> c \<in> set (st_caps st)"
  using assms matching_capabilities_set list_caps_set by (auto simp: direct_caps_def res_simps)

text \<open>The context of an operation.\<close>

lemma context_updates:
  assumes "VStr k \<notin> fst ` set kvs"
  shows "dget (fold (\<lambda>(k, v) d. dset d k v) kvs d) k = dget d k"
  using assms
proof (induction kvs arbitrary: d)
  case (Cons p kvs)
  have "dget (dset d (fst p) (snd p)) k = dget d k" using Cons.prems by (auto simp: dget_def map_of_dset)
  then show ?case using Cons by (cases p) auto
qed simp

lemma context_fields:
  assumes "fst ` set (sq_extra q) \<inter> {VStr ''rule_effect'', VStr ''argv'', VStr ''cwd'', VStr ''timeout_s''} = {}"
  shows "dget (shell_context h q p) ''rule_effect'' = VStr (effect_value (sp_effect p))"
    "dget (shell_context h q p) ''argv'' = strings (sq_argv q)" "dget (shell_context h q p) ''cwd'' = VStr (sq_cwd q)"
    "sq_timed q \<Longrightarrow> dget (shell_context h q p) ''timeout_s'' = sq_timeout q"
  using assms unfolding shell_context_def by (auto simp: context_updates dget_sdict map_add_def)

lemma profile_effect [simp]: "sp_effect (profile_for_rule q r) = ar_effect r"
  by (simp add: profile_for_rule_def shell_profile_def Let_def)

lemma classify_operation_Inr:
  assumes "classify_operation h rules q = Inr (m, p, ctx)"
  obtains b ctx0 where "classify_builtin (sq_argv q) = Inr b" "classify h rules (sq_argv q) ctx0 = Inr m"
    "p = profile_for_rule q (rm_rule m)" "ctx = shell_context h q p"
  using assms that unfolding classify_operation_def Let_def by (auto simp: res_simps)

lemma for_rule_fields [simp]:
  "sd_allowed (for_rule m p a k r lv au) = a" "sd_ask (for_rule m p a k r lv au) = k" "sd_authority (for_rule m p a k r lv au) = au"
  by (simp_all add: for_rule_def Let_def)

lemma policy_allow: "policy d \<in> {''always_allow'', ''allow_once''} \<longleftrightarrow> cd_effect d = Some Allow"
  by (auto simp: policy_def split: option.splits capability_effect.splits)

text \<open>What an authorization that does not raise went through.\<close>

lemma authorize_shell_Inr:
  assumes "authorize_shell env rules wild st q l = (l', Inr d)"
  obtains m p ctx caps where "classify_operation (ce_host env) rules q = Inr (m, p, ctx)"
      "shell_policy_caps env st q ctx = Inr caps" "preflight_denial env caps m p = Some d"
    | m p ctx caps l1 ex where "classify_operation (ce_host env) rules q = Inr (m, p, ctx)"
      "shell_policy_caps env st q ctx = Inr caps" "preflight_denial env caps m p = None"
      "explicit_decision env wild st q ctx l = (l1, Inr ex)" "sd_allowed d \<longleftrightarrow> cd_effect ex = Some Allow"
      "sd_authority d = Some ex \<or> \<not> sd_allowed d"
    | m p ctx caps l1 l2 ad level where "classify_operation (ce_host env) rules q = Inr (m, p, ctx)"
      "shell_policy_caps env st q ctx = Inr caps" "preflight_denial env caps m p = None"
      "authorize_matching env st (sq_pid q) (sq_resource q) ''execute'' caps ctx l1 = (l2, Inr ad)"
      "selected_policy_level env caps (cd_selected ad) = Inr level" "d = level_decision m p level ad"
proof -
  obtain m p ctx where c: "classify_operation (ce_host env) rules q = Inr (m, p, ctx)"
    using assms by (cases "classify_operation (ce_host env) rules q") (auto simp: authorize_shell_def bindL_def liftL_def)
  obtain caps where caps: "shell_policy_caps env st q ctx = Inr caps"
    using assms c by (cases "shell_policy_caps env st q ctx") (auto simp: authorize_shell_def bindL_def liftL_def)
  show thesis
  proof (cases "preflight_denial env caps m p")
    case (Some d')
    then show ?thesis using assms c caps that(1) by (auto simp: authorize_shell_def bindL_Inr_iff)
  next
    case None
    obtain l1 ex where ex: "explicit_decision env wild st q ctx l = (l1, Inr ex)"
      and rest: "(let pol = policy ex in
             if pol = ''always_deny'' then
               liftL (Inr (for_rule m p False False ''explicit command capability denied command'' (Some pol) None))
             else if pol = ''ask_each_time'' then
               liftL (Inr (for_rule m p False True ''explicit command capability requires approval'' (Some pol) (Some ex)))
             else if pol \<in> {''always_allow'', ''allow_once''} then
               liftL (Inr (for_rule m p True False ''explicit command capability allowed command'' (Some pol) (Some ex)))
             else policy_decision env st q caps m p ctx) l1 = (l', Inr d)"
      using assms unfolding authorize_shell_def bindL_Inr_iff by (auto simp: c caps None bindL_Inr_iff)
    show ?thesis
    proof (cases "policy ex \<in> {''always_deny'', ''ask_each_time'', ''always_allow'', ''allow_once''}")
      case True
      have "sd_allowed d \<longleftrightarrow> policy ex \<in> {''always_allow'', ''allow_once''}" "sd_authority d = Some ex \<or> \<not> sd_allowed d"
        using rest True unfolding Let_def by (auto split: if_splits)
      then show ?thesis using that(2) [OF c caps None ex] policy_allow [of ex] by blast
    next
      case False
      then have run: "policy_decision env st q caps m p ctx l1 = (l', Inr d)" using rest unfolding Let_def by simp
      then obtain l2 ad where ad: "authorize_matching env st (sq_pid q) (sq_resource q) ''execute'' caps ctx l1 = (l2, Inr ad)"
        and rest: "bindL (liftL (selected_policy_level env caps (cd_selected ad))) (\<lambda>level. liftL (Inr (level_decision m p level ad))) l2 = (l', Inr d)"
        unfolding policy_decision_def by (auto simp: bindL_Inr_iff simp del: bindL_liftL split: if_splits)
      obtain level where "selected_policy_level env caps (cd_selected ad) = Inr level" "d = level_decision m p level ad"
        using rest by (cases "selected_policy_level env caps (cd_selected ad)") (auto simp: liftL_def bindL_def)
      note ad this
      then show ?thesis using that(3) [OF c caps None] by blast
    qed
  qed
qed

lemma denied_rule:
  assumes "classify_operation h rules q = Inr (m, p, ctx)" "t \<in> set (sq_argv q)" "normalize_executable t \<in> set destructive_executables"
  shows "rm_effect m = Deny"
proof -
  obtain b where b: "classify_builtin (sq_argv q) = Inr b" "rm_effect b = Deny"
    using destructive_named [OF assms(2,3)] by auto
  then have "classify h rules (sq_argv q) x = Inr b" for x by (simp add: classify_def)
  then show ?thesis using assms(1) b by (auto simp: classify_operation_def Let_def)
qed

lemma preflight_refuses: "preflight_denial env caps m p = Some d \<Longrightarrow> \<not> sd_allowed d \<and> \<not> sd_ask d"
  by (auto simp: preflight_denial_def split: if_splits)

lemma preflight_None:
  "preflight_denial env caps m p = None \<Longrightarrow> rm_effect m \<noteq> Deny
    \<and> (\<forall>c \<in> set caps. cap_effect c \<noteq> Deny \<and> policy_value env c \<noteq> Some (VStr ''always_deny''))"
  by (auto simp: preflight_denial_def list_ex_iff split: if_splits)

lemma no_policy_denial:
  assumes "shell_policy_caps env st q ctx = Inr caps" "preflight_denial env caps m p = None"
  shows "\<forall>c \<in> set (st_caps st). cap_subject c = sq_pid q \<and> live_match env st (sq_resource q) ''execute'' c \<longrightarrow>
          (policy_value env c \<noteq> None \<longrightarrow> cap_effect c \<noteq> Deny)
          \<and> (policy_value env c = Some (VStr ''always_deny'') \<longrightarrow> constraints_satisfied env st c ctx \<noteq> Inr True)"
  using policy_caps_set [OF assms(1)] preflight_None [OF assms(2)] by auto

lemma level_allowed:
  assumes "sd_allowed (level_decision m p level ad)" "cd_allowed ad \<longleftrightarrow> cd_effect ad = Some Allow"
  shows "cd_allowed ad \<and> sd_authority (level_decision m p level ad) = Some ad
    \<and> (level = ''always_allow'' \<or> (level \<in> {''allowlist_auto_else_ask'', ''blocklist_ask_else_auto''} \<and> rm_effect m = Allow))"
  using assms by (auto simp: level_decision_def split: if_splits)

lemma selected_level_own:
  assumes "selected_policy_level env caps (Some (cap_id c)) = Inr level" "c \<in> set caps" "inj_on cap_id (set caps)"
  shows "normalize_policy_level (ce_host env) (case policy_value env c of Some v \<Rightarrow> v | None \<Rightarrow> VNone) = Inr level"
proof -
  have "List.find (\<lambda>x. Some (cap_id x) = Some (cap_id c)) caps \<noteq> None" using assms(2) by (auto simp: find_None_iff)
  then obtain c' where c': "List.find (\<lambda>x. Some (cap_id x) = Some (cap_id c)) caps = Some c'" by blast
  then have "c' \<in> set caps" "cap_id c' = cap_id c" by (auto dest: find_SomeD)
  then have "c' = c" using assms(2,3) by (auto dest: inj_onD)
  then show ?thesis using assms(1) c' unfolding selected_policy_level_def by simp
qed

section \<open>Approvals\<close>

lemma rule_constraint_ok:
  assumes "evaluate_rule_constraint h (VList [v]) ctx = Inr r" "cr_ok r"
  shows "\<exists>rule. coerce_rule h v = Inr rule \<and> rule_matches h rule ctx = Inr True"
proof -
  obtain rule where rule: "coerce_rule h v = Inr rule"
  proof (cases "coerce_rule h v")
    case (Inl e)
    then show ?thesis
      using assms that by (cases e) (auto simp: evaluate_rule_constraint_def coerce_rules_def or_failed_def failed_result_def)
  qed (use that in auto)
  have "evaluate_authority_rules h [rule] ctx = Inr r"
    using assms(1) rule by (simp add: evaluate_rule_constraint_def coerce_rules_def or_failed_def)
  then show ?thesis
    using assms(2) rule unfolding evaluate_authority_rules_def Let_def
    by (auto simp: res_simps rule_condition_error_def select_rule_def failed_result_def split: if_splits sum.splits option.splits list.splits)
qed

lemma approval_dict:
  "dget (approval_conditions h argv timeout cwd timed []) ''argv'' = strings argv"
  "dget_or (approval_conditions h argv timeout cwd timed []) ''match'' v = VStr ''exact''"
  "dget (approval_conditions h argv timeout cwd timed []) ''cwd'' = VStr cwd"
  "timed \<Longrightarrow> dget (approval_conditions h argv timeout cwd timed []) ''timeout_s'' = timeout"
  "dhas (approval_conditions h argv timeout cwd timed []) ''argv''" "dhas (approval_conditions h argv timeout cwd timed []) ''cwd''"
  "timed \<Longrightarrow> dhas (approval_conditions h argv timeout cwd timed []) ''timeout_s''"
  by (simp_all add: approval_conditions_def dget_sdict dhas_sdict) (simp add: dget_or_def sdict_def)

lemma strings_simps [simp]: "is_str_list (strings xs)" "str_list (strings xs) = xs"
  by (simp_all add: strings_def is_str_list_def str_list_def list_all_iff comp_def)

lemma coerce_rule_conditions:
  assumes "coerce_rule h (VDict d) = Inr r" "dget d ''conditions'' = VDict conds"
  shows "ar_conditions r = conds"
  using assms by (auto simp: coerce_rule_def Let_def res_simps make_rule_def split: if_splits)

section \<open>Samples\<close>

definition shell_env :: cap_env where
  "shell_env = plain_env\<lparr>ce_shell_levels := policy_levels\<rparr>"

definition shell_grant :: capability_row where
  "shell_grant = one_shot_cap\<lparr>cap_id := ''cap_s'', cap_resource := ''shell:*'', cap_rights := [''execute''],
     cap_constraints := [(''shell_policy_level'', VStr ''allowlist_auto_else_ask'')], cap_uses_remaining := None\<rparr>"

definition shell_store :: cap_store where
  "shell_store = \<lparr>st_caps = [shell_grant], st_res = []\<rparr>"

definition shell_run :: "string list \<Rightarrow> shell_request" where
  "shell_run argv = \<lparr>sq_pid = ''pid_1'', sq_argv = argv, sq_resource = resource_for argv, sq_timeout = VFloat (Fin 5), sq_cwd = ''.'',
     sq_adapter = ''shell'', sq_primitive = ''runtime.shell.run'', sq_operation = ''shell.run'', sq_authority = ''shell.run'',
     sq_timed = True, sq_continuous = False, sq_extra = []\<rparr>"

definition pytest_rule :: authority_rule where
  "pytest_rule = configured_rule Allow [''./check.sh''] ''exact'' []"

lemma shell_sample:
  "\<exists>d. authorize_shell shell_env [] ''shell:*'' shell_store (shell_run [''git'', ''status'']) False = (False, Inr d) \<and> sd_allowed d"
proof -
  have "case authorize_shell shell_env [] ''shell:*'' shell_store (shell_run [''git'', ''status'']) False of
    (l, Inl e) \<Rightarrow> False | (l, Inr d) \<Rightarrow> \<not> l \<and> sd_allowed d" by code_simp
  from latched_cases [OF this] show ?thesis by auto
qed

lemma shell_denied_sample:
  "\<exists>d. authorize_shell shell_env [] ''shell:*'' shell_store (shell_run [''env'', ''/bin/RM.exe'', ''x'']) False = (False, Inr d)"
proof -
  have "case authorize_shell shell_env [] ''shell:*'' shell_store (shell_run [''env'', ''/bin/RM.exe'', ''x'']) False of
    (l, Inl e) \<Rightarrow> False | (l, Inr d) \<Rightarrow> \<not> l" by code_simp
  from latched_cases [OF this] show ?thesis by auto
qed

section \<open>Properties\<close>

text \<open>
  C16. Without a custom rule the engine runs exactly six commands by itself: an argument vector is allowed if and only
  if its executable is named without a path and the vector is, up to the name of the executable, one of the plain
  git commands, with no shell syntax in any token. The version commands that the list of harmless vectors names are
  never allowed, because an earlier class claims them.
\<close>

theorem builtin_allow_exact:
  assumes "classify_builtin argv = Inr m"
  shows "rm_effect m = Allow \<longleftrightarrow> \<not> argv0_has_path (hd argv)
    \<and> normalize_argv argv \<in> {[''git'', ''status''], [''git'', ''status'', ''--short''], [''git'', ''branch'', ''--show-current''],
        [''git'', ''rev-parse'', ''--show-toplevel''], [''git'', ''diff'', ''--stat''], [''git'', ''diff'']}
    \<and> (\<forall>t \<in> set argv. \<not> shell_syntax t)"
  using classify_builtin_allow [OF assms] unfolding plain_git_def list.set .

theorem builtin_allow_exact_witness:
  "(\<exists>m. classify_builtin [''git.exe'', ''diff''] = Inr m \<and> rm_effect m = Allow)
     \<and> (\<exists>m. classify_builtin [''node'', ''--version''] = Inr m \<and> rm_effect m \<noteq> Allow)"
proof -
  have "case classify_builtin [''git.exe'', ''diff''] of Inr m \<Rightarrow> True | _ \<Rightarrow> False"
    "case classify_builtin [''node'', ''--version''] of Inr m \<Rightarrow> True | _ \<Rightarrow> False" by code_simp+
  then obtain m n where m: "classify_builtin [''git.exe'', ''diff''] = Inr m" and n: "classify_builtin [''node'', ''--version''] = Inr n"
    by (auto split: sum.splits)
  have "\<not> argv0_has_path (hd [''git.exe'', ''diff''])" "normalize_argv [''git.exe'', ''diff''] = [''git'', ''diff'']"
    "\<not> shell_syntax ''git.exe''" "\<not> shell_syntax ''diff''" "normalize_argv [''node'', ''--version''] = [''node'', ''--version'']"
    by code_simp+
  then show ?thesis using builtin_allow_exact [OF m] builtin_allow_exact [OF n] m n by simp
qed

text \<open>
  A classification that allows a command excludes much: no token has shell syntax or names a destructive, network,
  package or script executable, every custom rule for shell commands had its whole context, none that denies or asks
  matches, and either the command is one of the plain commands or a custom rule that allows it matches.
\<close>

theorem classify_allow_sound:
  assumes "classify h rules argv ctx = Inr m" "rm_effect m = Allow"
  shows "(\<forall>t \<in> set argv. \<not> shell_syntax t
      \<and> normalize_executable t \<notin> set (destructive_executables @ network_executables @ package_executables @ script_executables))
    \<and> (\<forall>r \<in> set rules. ar_operation r = ''shell.run'' \<longrightarrow> missing_context_keys r (selected_context argv ctx) = []
        \<and> (matches_rule h (selected_context argv ctx) r = Inr False
          \<or> (matches_rule h (selected_context argv ctx) r = Inr True \<and> ar_effect r = Allow)))
    \<and> ((\<exists>b. classify_builtin argv = Inr b \<and> rm_effect b = Allow)
       \<or> (\<exists>r \<in> set rules. ar_operation r = ''shell.run'' \<and> ar_effect r = Allow
            \<and> matches_rule h (selected_context argv ctx) r = Inr True))"
proof -
  let ?c = "selected_context argv ctx"
  obtain b where b: "classify_builtin argv = Inr b" using assms(1) by (auto simp: classify_def res_simps)
  have nd: "rm_effect b \<noteq> Deny" using assms b by (auto simp: classify_def)
  then obtain ms missing where scan: "scan_custom h ?c rules [] False = Inr (ms, missing)" and m: "m = select_custom argv b ms missing"
    using assms(1) b by (auto simp: classify_def res_simps)
  have sel: "\<not> missing" "\<forall>m \<in> set ms. rm_effect m = Allow"
    "rm_effect b = Allow \<or> (ar_rule_id (rm_rule b) = ''shell.unknown.default'' \<and> ms \<noteq> [])"
    using select_allow [of argv b ms missing] assms(2) nd unfolding m by auto
  have opened: "rm_effect b = Allow \<or> (rm_effect b = Ask \<and> ar_rule_id (rm_rule b) = ''shell.unknown.default'')"
    using sel(3) nd by (cases "rm_effect b") auto
  have tokens: "\<forall>t \<in> set argv. \<not> shell_syntax t
      \<and> normalize_executable t \<notin> set (destructive_executables @ network_executables @ package_executables @ script_executables)"
    using classify_builtin_open [OF b opened] by blast
  have rules: "missing_context_keys r ?c = [] \<and> (matches_rule h ?c r = Inr False \<or> (matches_rule h ?c r = Inr True \<and> ar_effect r = Allow))"
    if "r \<in> set rules" "ar_operation r = ''shell.run''" for r
    using scan_custom_all [OF scan that] sel(1,2) by fastforce
  have "(\<exists>b. classify_builtin argv = Inr b \<and> rm_effect b = Allow)
       \<or> (\<exists>r \<in> set rules. ar_operation r = ''shell.run'' \<and> ar_effect r = Allow \<and> matches_rule h ?c r = Inr True)"
  proof (cases "rm_effect b = Allow")
    case False
    then obtain x where x: "x \<in> set ms" using sel(3) by (cases ms) auto
    from scan_custom_from [OF scan x] sel(2) x show ?thesis by auto
  qed (use b in blast)
  then show ?thesis using tokens rules by blast
qed

theorem classify_allow_sound_witness:
  "\<exists>m. classify sample_host [pytest_rule] [''./check.sh''] [] = Inr m \<and> rm_effect m = Allow
     \<and> matches_rule sample_host (selected_context [''./check.sh''] []) pytest_rule = Inr True"
proof -
  have "case classify sample_host [pytest_rule] [''./check.sh''] [] of Inr m \<Rightarrow> rm_effect m = Allow | _ \<Rightarrow> False" by code_simp
  then obtain m where m: "classify sample_host [pytest_rule] [''./check.sh''] [] = Inr m" "rm_effect m = Allow"
    by (auto split: sum.splits)
  have "case classify_builtin [''./check.sh''] of Inr b \<Rightarrow> rm_effect b \<noteq> Allow | _ \<Rightarrow> False" by code_simp
  then show ?thesis using classify_allow_sound [OF m] m by (auto split: sum.splits)
qed

text \<open>
  C17. A command that names a destructive executable in any of its tokens, by whatever path, case or Windows suffix, is
  neither run nor offered for approval, whatever custom rules and whatever grants there are.
\<close>

theorem destructive_never_runs:
  assumes "authorize_shell env rules wild st q l = (l', Inr d)" "t \<in> set (sq_argv q)"
    "normalize_executable t \<in> set destructive_executables"
  shows "\<not> sd_allowed d \<and> \<not> sd_ask d"
  using assms(1)
proof (rule authorize_shell_Inr)
  fix m p ctx caps
  assume "preflight_denial env caps m p = Some d"
  then show ?thesis by (rule preflight_refuses)
qed (use denied_rule [OF _ assms(2,3)] preflight_None in blast)+

theorem destructive_never_runs_witness:
  "\<exists>d. authorize_shell shell_env [] ''shell:*'' shell_store (shell_run [''env'', ''/bin/RM.exe'', ''x'']) False = (False, Inr d)
     \<and> \<not> sd_allowed d \<and> \<not> sd_ask d"
proof -
  obtain d where d: "authorize_shell shell_env [] ''shell:*'' shell_store (shell_run [''env'', ''/bin/RM.exe'', ''x'']) False = (False, Inr d)"
    using shell_denied_sample by blast
  have "''/bin/RM.exe'' \<in> set (sq_argv (shell_run [''env'', ''/bin/RM.exe'', ''x'']))" by (simp add: shell_run_def)
  moreover have "normalize_executable ''/bin/RM.exe'' \<in> set destructive_executables" by code_simp
  ultimately show ?thesis using destructive_never_runs [OF d] d by blast
qed

text \<open>
  C18. A command that runs without asking rests on one live allow grant of the process for exactly this command: no live
  shell policy grant denies it, by its deny effect or, when its constraints are satisfied, by the level always_deny;
  the rule engine did not deny it; and the selected grant is either a direct grant that is not the bare wildcard and
  carries authority rules or meets an allowed classification, or a policy grant whose level is always_allow or lets
  allowed classifications run.
\<close>

theorem shell_auto_run_sound:
  assumes "authorize_shell env rules wild st q l = (l', Inr d)" "sd_allowed d" "distinct (map cap_id (st_caps st))"
    "fst ` set (sq_extra q) \<inter> {VStr ''rule_effect'', VStr ''argv'', VStr ''cwd'', VStr ''timeout_s''} = {}"
  shows "\<exists>m p ctx ad c rs. classify_operation (ce_host env) rules q = Inr (m, p, ctx) \<and> rm_effect m \<noteq> Deny
    \<and> (\<forall>c' \<in> set (st_caps st). cap_subject c' = sq_pid q \<and> live_match env st (sq_resource q) ''execute'' c' \<longrightarrow>
          (policy_value env c' \<noteq> None \<longrightarrow> cap_effect c' \<noteq> Deny)
          \<and> (policy_value env c' = Some (VStr ''always_deny'') \<longrightarrow> constraints_satisfied env st c' ctx \<noteq> Inr True))
    \<and> sd_authority d = Some ad \<and> cd_allowed ad \<and> cd_selected ad = Some (cap_id c) \<and> c \<in> set (st_caps st)
    \<and> cap_subject c = sq_pid q \<and> live_match env st (sq_resource q) ''execute'' c \<and> cap_effect c = Allow
    \<and> evaluate_constraints (ce_host env) c ctx = Inr rs \<and> list_all (\<lambda>p. cr_ok (snd p)) rs
    \<and> (case policy_value env c of
         None \<Rightarrow> cap_resource c \<noteq> wild \<and> (has_authority_rules c \<or> rm_effect m = Allow)
       | Some v \<Rightarrow> \<exists>level. normalize_policy_level (ce_host env) v = Inr level \<and> (level = ''always_allow''
           \<or> (level \<in> {''allowlist_auto_else_ask'', ''blocklist_ask_else_auto''} \<and> rm_effect m = Allow)))"
proof -
  from assms(1) show ?thesis
  proof (rule authorize_shell_Inr)
    fix m p ctx caps
    assume "preflight_denial env caps m p = Some d"
    then show ?thesis using assms(2) preflight_refuses by blast
  next
    fix m p ctx caps l1 ex
    assume cl: "classify_operation (ce_host env) rules q = Inr (m, p, ctx)"
      and pre: "shell_policy_caps env st q ctx = Inr caps" "preflight_denial env caps m p = None"
      and run: "explicit_decision env wild st q ctx l = (l1, Inr ex)"
      and ex: "sd_allowed d \<longleftrightarrow> cd_effect ex = Some Allow" "sd_authority d = Some ex \<or> \<not> sd_allowed d"
    obtain dc l0 where dc: "direct_caps env wild st q ctx = Inr dc"
      and am: "authorize_matching env st (sq_pid q) (sq_resource q) ''execute'' dc ctx l0 = (l1, Inr ex)"
      using run unfolding explicit_decision_def by (cases "direct_caps env wild st q ctx") (auto simp: liftL_def bindL_def)
    have ok: "cd_allowed ex" using ex(1) assms(2) matching_effect [OF am] by simp
    obtain c rs where c: "c \<in> set dc" "cd_selected ex = Some (cap_id c)" "cap_subject c = sq_pid q"
      "live_match env st (sq_resource q) ''execute'' c" "cap_effect c = Allow" "evaluate_constraints (ce_host env) c ctx = Inr rs"
      "list_all (\<lambda>p. cr_ok (snd p)) rs"
      by (rule matching_allowed [OF am ok])
    have p: "p = profile_for_rule q (rm_rule m)" "ctx = shell_context (ce_host env) q p"
      by (rule classify_operation_Inr [OF cl], simp)+
    have eff: "dget ctx ''rule_effect'' = VStr (effect_value (rm_effect m))" using context_fields(1) [OF assms(4)] p by simp
    have "has_authority_rules c \<or> rm_effect m = Allow"
      using direct_caps_set [OF dc c(1)] c(5) eff by (cases "rm_effect m") (auto simp: direct_applies_def)
    then show ?thesis using cl no_policy_denial [OF pre] preflight_None [OF pre(2)] ex(2) assms(2) ok c direct_caps_set [OF dc c(1)]
      by (intro exI [of _ m] exI [of _ p] exI [of _ ctx] exI [of _ ex] exI [of _ c] exI [of _ rs]) simp
  next
    fix m p ctx caps l1 l2 ad level
    assume cl: "classify_operation (ce_host env) rules q = Inr (m, p, ctx)"
      and pre: "shell_policy_caps env st q ctx = Inr caps" "preflight_denial env caps m p = None"
      and am: "authorize_matching env st (sq_pid q) (sq_resource q) ''execute'' caps ctx l1 = (l2, Inr ad)"
      and lv: "selected_policy_level env caps (cd_selected ad) = Inr level" and d: "d = level_decision m p level ad"
    note D = level_allowed [OF assms(2) [unfolded d] matching_effect [OF am]]
    obtain c rs where c: "c \<in> set caps" "cd_selected ad = Some (cap_id c)" "cap_subject c = sq_pid q"
      "live_match env st (sq_resource q) ''execute'' c" "cap_effect c = Allow" "evaluate_constraints (ce_host env) c ctx = Inr rs"
      "list_all (\<lambda>p. cr_ok (snd p)) rs"
      by (rule matching_allowed [OF am]) (use D in blast)
    have cs: "c \<in> set (st_caps st)" "policy_value env c \<noteq> None" using policy_caps_set [OF pre(1)] c(1) by blast+
    have "set caps \<subseteq> set (st_caps st)" using policy_caps_set [OF pre(1)] by blast
    then have "inj_on cap_id (set caps)" using assms(3) by (auto simp: distinct_map intro: inj_on_subset)
    then have "normalize_policy_level (ce_host env) (the (policy_value env c)) = Inr level"
      using selected_level_own [of env caps c level] lv c(1,2) cs(2) by auto
    then show ?thesis using cl no_policy_denial [OF pre] preflight_None [OF pre(2)] D d c cs
      by (intro exI [of _ m] exI [of _ p] exI [of _ ctx] exI [of _ ad] exI [of _ c] exI [of _ rs]) auto
  qed
qed

theorem shell_auto_run_sound_witness:
  "\<exists>d ad. authorize_shell shell_env [] ''shell:*'' shell_store (shell_run [''git'', ''status'']) False = (False, Inr d)
     \<and> sd_authority d = Some ad \<and> cd_selected ad = Some ''cap_s''"
proof -
  obtain d where d: "authorize_shell shell_env [] ''shell:*'' shell_store (shell_run [''git'', ''status'']) False = (False, Inr d)"
    "sd_allowed d"
    using shell_sample by blast
  have ids: "distinct (map cap_id (st_caps shell_store))" by code_simp
  have extra: "fst ` set (sq_extra (shell_run [''git'', ''status''])) \<inter> {VStr ''rule_effect'', VStr ''argv'', VStr ''cwd'', VStr ''timeout_s''} = {}"
    by (simp add: shell_run_def)
  from shell_auto_run_sound [OF d ids extra]
  obtain ad c where "sd_authority d = Some ad" "cd_selected ad = Some (cap_id c)" "c \<in> set (st_caps shell_store)"
    by (elim exE conjE) (rule that)
  then show ?thesis using d(1) by (simp add: shell_store_def shell_grant_def)
qed

lemma single_rule_constraint:
  "cap_constraints c = [(''authority_rules'', v)] \<Longrightarrow>
   evaluate_constraints h c ctx = bindR (evaluate_rule_constraint h v ctx) (\<lambda>r. Inr [(''authority_rules'', r)])"
  by (cases "evaluate_rule_constraint h v ctx")
    (simp_all add: evaluate_constraints_def evaluate_constraint_def known_constraint_keys_def)

text \<open>
  C19. An approval covers one command: when the constraints of a grant are those that an approval writes, they hold only
  for an operation with exactly the approved argument vector and working directory and with the approved timeout.
\<close>

theorem approval_exact:
  assumes "cap_constraints c = approval_constraints h argv d timeout cwd opn True [] descr"
    "evaluate_constraints h c (shell_context h q p) = Inr rs" "list_all (\<lambda>p. cr_ok (snd p)) rs" "sq_timed q"
    "fst ` set (sq_extra q) \<inter> {VStr ''rule_effect'', VStr ''argv'', VStr ''cwd'', VStr ''timeout_s''} = {}"
  shows "sq_argv q = argv \<and> sq_cwd q = cwd
    \<and> (\<exists>x. finite_timeout h (sq_timeout q) = Inr (Some x) \<and> finite_timeout h timeout = Inr (Some x))"
proof -
  let ?conds = "approval_conditions h argv timeout cwd True []"
  define v where "v = sdict [(''rule_id'', VStr (''shell.approval.'' @ (if sd_rule d = [] then ''exact'' else sd_rule d))),
     (''operation'', VStr opn), (''effect'', VStr ''allow''), (''risk'', VStr (risk_value (sd_risk d))),
     (''conditions'', VDict ?conds), (''description'', VStr descr)]"
  have cons: "cap_constraints c = [(''authority_rules'', VList [VDict v])]"
    using assms(1) unfolding approval_constraints_def v_def .
  obtain r where r: "evaluate_rule_constraint h (VList [VDict v]) (shell_context h q p) = Inr r" "cr_ok r"
    using assms(2,3) by (auto simp: single_rule_constraint [OF cons] res_simps)
  obtain rule where rule: "coerce_rule h (VDict v) = Inr rule" "rule_matches h rule (shell_context h q p) = Inr True"
    using rule_constraint_ok [OF r] by blast
  have "dget v ''conditions'' = VDict ?conds" by (simp add: v_def dget_sdict)
  then have conds: "ar_conditions rule = ?conds" by (rule coerce_rule_conditions [OF rule(1)])
  note ctx = context_fields [OF assms(5), of h p]
  have cwd: "''cwd'' \<in> set direct_conditions" by code_simp
  have m: "argv_condition_matches h ?conds (shell_context h q p)" "py_eq (dget (shell_context h q p) ''cwd'') (dget ?conds ''cwd'')"
    "timeout_conditions_match h ?conds (shell_context h q p) = Inr True"
    using rule(2) cwd unfolding rule_matches_def conds Let_def
    by (auto simp: approval_dict list_ex_iff res_simps split: if_splits)
  have "sq_argv q = argv" using m(1) by (simp add: argv_condition_matches_def approval_dict ctx)
  moreover have "sq_cwd q = cwd" using m(2) by (simp add: approval_dict ctx)
  moreover have "\<exists>x. finite_timeout h (sq_timeout q) = Inr (Some x) \<and> finite_timeout h timeout = Inr (Some x)"
    using m(3) unfolding timeout_conditions_match_def by (auto simp: approval_dict ctx(4) [OF assms(4)] res_simps split: if_splits)
  ultimately show ?thesis by blast
qed

definition pytest_decision :: shell_decision where
  "pytest_decision = for_rule (shell_match ''shell.medium.pytest'' Ask Medium [''pytest''] [])
     (profile_for_rule (shell_run [''pytest'']) pytest_rule) False True [] None None"

definition approved_grant :: capability_row where
  "approved_grant = shell_grant\<lparr>cap_constraints :=
     approval_constraints sample_host [''pytest''] pytest_decision (VFloat (Fin 5)) ''.'' ''shell.run'' True [] []\<rparr>"

lemma approved_constraints:
  "cap_constraints approved_grant = approval_constraints sample_host [''pytest''] pytest_decision (VFloat (Fin 5)) ''.'' ''shell.run'' True [] []"
  unfolding approved_grant_def by simp

theorem approval_exact_witness:
  "\<exists>rs x. evaluate_constraints sample_host approved_grant (shell_context sample_host (shell_run [''pytest''])
       (profile_for_rule (shell_run [''pytest'']) pytest_rule)) = Inr rs \<and> list_all (\<lambda>p. cr_ok (snd p)) rs
     \<and> finite_timeout sample_host (VFloat (Fin 5)) = Inr (Some x)"
proof -
  let ?q = "shell_run [''pytest'']"
  let ?v = "snd (hd (cap_constraints approved_grant))" and ?ctx = "shell_context sample_host ?q (profile_for_rule ?q pytest_rule)"
  have "case evaluate_rule_constraint sample_host ?v ?ctx of Inr r \<Rightarrow> cr_ok r | Inl _ \<Rightarrow> False" by code_simp
  then obtain r where "evaluate_rule_constraint sample_host ?v ?ctx = Inr r" "cr_ok r" by (auto split: sum.splits)
  moreover have one: "cap_constraints approved_grant = [(''authority_rules'', ?v)]"
    by (simp add: approved_constraints approval_constraints_def)
  ultimately obtain rs where rs: "evaluate_constraints sample_host approved_grant ?ctx = Inr rs" "list_all (\<lambda>p. cr_ok (snd p)) rs"
    using single_rule_constraint [OF one, of sample_host ?ctx] by auto
  have q: "sq_timed ?q" "fst ` set (sq_extra ?q) \<inter> {VStr ''rule_effect'', VStr ''argv'', VStr ''cwd'', VStr ''timeout_s''} = {}"
    by (simp_all add: shell_run_def)
  from approval_exact [OF approved_constraints rs q] obtain x where "finite_timeout sample_host (VFloat (Fin 5)) = Inr (Some x)"
    by (elim conjE exE) (rule that)
  then show ?thesis using rs by (intro exI conjI)
qed

end
