(* ===== verification/Spec2Isabelle.thy ===== *)
theory Spec2Isabelle
  imports Resources CapModel EffectBinding DataFlow AuthorityRules Evaluator CapStore CapDecide
    CapSpec CapDelegate CapAuthority FlowRegistry Egress ProcState ProcTable ProcInv ProcReach ProcWake ProcTakeover
    AcctProps EffectLoops ShellProps
begin

text \<open>
  Agent libOS: the authority core of the runtime in \<open>src/agent_libos\<close>.

  An agent process holds capabilities: rows that grant, deny or ask for rights on resource patterns,
  with constraints, an expiry, a delegation chain and possibly a finite number of uses. Every
  protected operation asks the capability manager for a decision over the rows that match; one-shot
  approvals bind a row to the canonical arguments of one planned effect, and the data that flows into
  or out of an operation carries labels whose aggregation decides what may be released where.

  Theories and what they model (paths under \<open>src/agent_libos\<close>):

    \<^item> Prelude, PyStr, PyVal: exceptions and results, insertion-ordered dictionaries, the string
      operations and the dynamically typed values of Python.
    \<^item> Host: what comes from outside the repository as a record of functions (regex engine and its
      deadline, SHA-256, timestamp reader, float reader, \<open>repr\<close>) and the JSON text of
      \<open>utils/serde.py\<close>.
    \<^item> Resources: \<open>capability/resources.py\<close>; canonical form, parsing, matching, covering.
    \<^item> CapModel: the data of \<open>models/capability.py\<close>.
    \<^item> EffectBinding: \<open>capability/effect_binding.py\<close> and the BindingV2 record of
      \<open>models/semantic.py\<close>.
    \<^item> DataFlow: \<open>models/data_flow.py\<close>; labels, source references, sinks, release bindings.
    \<^item> AuthorityRules: the rule codec of \<open>capability/rules.py\<close>.
    \<^item> Evaluator: \<open>capability/evaluator.py\<close>; conditions, constraints, precedence, expiry, order.
    \<^item> CapStore: the capability and reservation rows of \<open>storage/sql.py\<close> with
      \<open>capability/lease.py\<close> and \<open>capability/mutation.py\<close>; the interface is the locale
      \<open>finite_use\<close>, interpreted on these operations.
    \<^item> CapDecide: the authorization half of \<open>capability/manager.py\<close> with
      \<open>capability/transaction.py\<close>.
    \<^item> CapSpec, CapDelegate: the issuing half of \<open>capability/manager.py\<close> with the publication of
      \<open>capability/mutation.py\<close>; specifications, attenuation, delegation, transitions, issue.
    \<^item> CapAuthority: what issuing guarantees, with the store reached by any sequence of operations.
    \<^item> FlowRegistry: the sink registry, the file label bindings and the provenance of
      \<open>runtime/data_flow_manager.py\<close> with their statements in \<open>storage/sql.py\<close>.
    \<^item> Egress: the egress gate of \<open>runtime/data_flow_manager.py\<close>; source references and their current
      state, clearance, exact releases, the ledger of decisions.
    \<^item> ProcState: \<open>models/process_state.py\<close>; statuses, wait states, outcomes and their mappings.
    \<^item> ProcTable: the process table of \<open>storage/sql.py\<close> with \<open>process_execution.py\<close> and
      \<open>process_transition.py\<close>; fenced writes, transitions, execution leases, recovery, cleanups.
    \<^item> ProcInv, ProcReach, ProcWake: how every operation moves a row, the tables that any sequence of
      operations reaches, the life of an execution lease, waking, and the recovery of stale executions.
    \<^item> ProcTakeover: the kill of a running process at a resource limit, \<open>runtime/resource_manager.py\<close>.
    \<^item> Accounting: the hierarchical accounting of \<open>runtime/resource_manager.py\<close> with the reservation
      rows of \<open>storage/sql.py\<close>; budgets, preflight, charges, reservations of children, envelopes,
      the kill of a tree. AcctProps: what it guarantees.
    \<^item> Effects: the records of \<open>models/external_effect.py\<close> and the effect rows, idempotency keys and log of
      changes of \<open>storage/sql.py\<close>.
    \<^item> EffectRecovery: the intents, records, transitions and receipts of
      \<open>evidence/external_effects.py\<close>, and the atomic settlement of \<open>storage/sql.py\<close> that joins an effect
      with the capability uses and the envelopes reserved for it.
    \<^item> EffectStartup: the loops over pending effects, reconciliation with the providers, the recovery of
      prepared operations of \<open>sdk/protected_operations.py\<close>, and their order in
      \<open>runtime/builder.py\<close>.
    \<^item> EffectMoves, EffectProps, EffectLoops: the phases of a provider call; how every operation moves the
      ledger, what any sequence of operations keeps, the settlement as operations of the lease service, and the
      loops, whose contract is the locale \<open>effect_loop\<close>, interpreted on the reconciliation.
    \<^item> Shell: the shell rule engine of \<open>capability/rules.py\<close>; names of executables, built-in classes,
      custom rules. ShellPolicy: the authorization of a command in \<open>primitives/shell.py\<close> with the profile of
      \<open>capability/profiles.py\<close>; policy grants, direct grants, decisions, approvals. ShellProps: what both
      guarantee.

  Correspondence. A raise of the code is an \<open>Inl\<close> with the exception's class; a message is cut to its
  fixed text where the code interpolates a \<open>repr\<close>. A transaction that raises leaves the store as it
  was. The clock is read once per operation. Strings are those with code points below 256, integers
  are unbounded as in Python. Generated identifiers are arguments. Loops over a seen set are total
  functions whose measure is the number of rows not yet seen; the paging loops of the two recoveries run on
  fuel, one more than the rows of the table, and their theorems show that this is enough. A chain of
  parents and a tree of children also run on fuel, and what would never return ends as the exception value
  \<open>Diverges\<close>. Resource quantities are rationals; the sums of doubles are parameters. The parents,
  budgets and usages of processes stand beside the process table, which keeps the other columns.

  The providers, their receipt verifiers, the repair handlers of prepared operations and the authority policy of
  a process are parameters of the effect operations; a provider answers a value or the name of an exception. A
  JSON column of an effect holds the value that reading it back gives. The loops over effects run on fuel, one
  more than the rows of the ledger, and a theorem shows that they return.

  The shell is modelled on a POSIX host: \<open>PurePath\<close> is \<open>PurePosixPath\<close>; the Windows paths that a
  custom rule may name are split as \<open>PureWindowsPath\<close> of Python 3.12 splits them. The configuration of the
  shell (the policy resource, the key of the policy level, the rules) is an argument.

  Groups of properties: what a pattern reaches, what covering guarantees and where it escapes (C1 to C3); labels (C4, C5);
  conditions and decisions (C6); accounting of finite uses and revocation (C7, C8); authorization, cascading
  revocation, machine grants and transactions (C9 to C12); attenuation of delegated and derived grants and the
  forest of parents over every reachable store (C13 to C15); the commands that the shell runs by itself, refuses
  or runs on an approval (C16 to C19); the resolution of sinks, labels that follow files and the completeness
  of provenance (C20 to C22); the egress gate (C23, C24); the typed state of processes, the reachable process
  tables, execution leases, waking, recovery and takeovers (C25 to C30); charges, limits and the recovery of
  envelopes (C31, C32); the effect ledger, settlement, reconciliation and startup (C33 to C40).

  Not modelled: audit and event records, which no decision reads; SQL as such (a statement is modelled
  by its effect on the rows); file, git, network and model-service primitives and the dispatch of shell
  commands, which are I/O around third-party code; the validation of raw git commands, the request to the human
  and the workspace scope of shell arguments; takeovers that first record a reason in the memory of the process, and the
  publications that an exec goes through with the restoration of a process after one; the rows that a fork from a
  checkpoint updates; the callback of the recovery of stale executions; the second admission check of the lease
  service; the listing of remaining budgets and the callbacks of a
  limit's finalization; the links of effects to operations, the retention of their payloads, what providers say
  of the rollback of an effect, the preparation and completion of protected operations outside the ledger, and
  the recovery of semantic authority at startup; the HTTP, terminal and graphical interfaces; schema creation and migration.
\<close>

end
